(* ===== verification/VPrelude.thy ===== *)
theory VPrelude
  imports Main "HOL-Library.Word"
begin

text \<open>
  Shared vocabulary of the development: the Go machine types, the outcome of a Go computation that
  may panic, bounds-checked indexing and slicing, and the generic facts on lists, maps and words
  that the component theories use. Nothing here is about one component.
\<close>

unbundle bit_operations_syntax

section \<open>Go values\<close>

type_synonym u8 = "8 word"
type_synonym u16 = "16 word"
type_synonym u32 = "32 word"
type_synonym u64 = "64 word"
type_synonym bytes = "u8 list"

text \<open>Collections of facts: \<open>go_simps\<close> unfolds the primitives of this theory,
  \<open>go_splits\<close>-like facts are given to \<open>split:\<close> by name.\<close>

named_theorems go_simps \<open>unfolding of the Go primitives\<close>
named_theorems word_bits \<open>bitwise characterisations of word terms\<close>

section \<open>Panics\<close>

text \<open>A Go call either returns or panics; the reasons are those the modelled code can raise.\<close>

datatype panic = IndexOutOfRange | SliceOutOfRange | NilDeref | AssertFailed | StdlibPanic

datatype 'a go = Done 'a | Panicked panic

primrec go_bind :: "'a go \<Rightarrow> ('a \<Rightarrow> 'b go) \<Rightarrow> 'b go" where
  "go_bind (Done a) f = f a"
| "go_bind (Panicked p) f = Panicked p"

primrec go_map :: "('a \<Rightarrow> 'b) \<Rightarrow> 'a go \<Rightarrow> 'b go" where
  "go_map f (Done a) = Done (f a)"
| "go_map f (Panicked p) = Panicked p"

primrec is_done :: "'a go \<Rightarrow> bool" where
  "is_done (Done a) = True"
| "is_done (Panicked p) = False"

text \<open>\<open>recover()\<close> in a deferred function: the value the caller sees when the body panics.\<close>

primrec go_recover :: "'a go \<Rightarrow> 'a \<Rightarrow> 'a" where
  "go_recover (Done a) d = a"
| "go_recover (Panicked p) d = d"

text \<open>A \<open>for\<close> loop over a list whose body may panic.\<close>

fun go_fold :: "('a \<Rightarrow> 's \<Rightarrow> 's go) \<Rightarrow> 'a list \<Rightarrow> 's \<Rightarrow> 's go" where
  "go_fold f [] s = Done s"
| "go_fold f (x # xs) s = go_bind (f x s) (go_fold f xs)"

lemma go_fold_append: "go_fold f (xs @ ys) s = go_bind (go_fold f xs s) (go_fold f ys)"
proof (induction xs arbitrary: s)
  case (Cons x xs)
  then show ?case by (cases "f x s") simp_all
qed simp

text \<open>An invariant kept by every iteration makes the loop run to its end.\<close>

lemma go_fold_inv:
  assumes "I s" "\<And>x s. x \<in> set xs \<Longrightarrow> I s \<Longrightarrow> \<exists>s'. f x s = Done s' \<and> I s'"
  shows "\<exists>s'. go_fold f xs s = Done s' \<and> I s'"
  using assms
proof (induction xs arbitrary: s)
  case (Cons x xs)
  then obtain s' where "f x s = Done s'" "I s'" by (metis list.set_intros(1))
  with Cons show ?case by fastforce
qed simp

lemma go_bind_Done_iff: "go_bind m f = Done b \<longleftrightarrow> (\<exists>a. m = Done a \<and> f a = Done b)"
  by (cases m) auto

text \<open>A finished loop visited every element, and a preorder kept by each iteration relates its ends.\<close>

lemma go_fold_visit:
  assumes "go_fold f es s = Done s'" "e \<in> set es"
  shows "\<exists>xs ys s1 s2. es = xs @ e # ys \<and> go_fold f xs s = Done s1 \<and> f e s1 = Done s2 \<and>
    go_fold f ys s2 = Done s'"
proof -
  from assms(2) obtain xs ys where "es = xs @ e # ys" by (meson split_list)
  with assms(1) show ?thesis by (auto simp: go_fold_append go_bind_Done_iff)
qed

lemma go_fold_rel:
  assumes "\<And>s. R s s" "\<And>s t u. R s t \<Longrightarrow> R t u \<Longrightarrow> R s u"
    and "\<And>e s s'. e \<in> set es \<Longrightarrow> f e s = Done s' \<Longrightarrow> R s s'"
  shows "go_fold f es s = Done s' \<Longrightarrow> R s s'"
  using assms(3)
proof (induction es arbitrary: s)
  case (Cons e es)
  then obtain s1 where "f e s = Done s1" "go_fold f es s1 = Done s'" by (auto simp: go_bind_Done_iff)
  with Cons show ?case by (metis assms(2) list.set_intros(1,2))
qed (simp add: assms(1))

lemma go_bind_assoc [simp]: "go_bind (go_bind m f) g = go_bind m (\<lambda>x. go_bind (f x) g)"
  by (cases m) auto

lemma go_map_comp [simp]: "go_map f (go_map g m) = go_map (\<lambda>x. f (g x)) m"
  by (cases m) simp_all

lemma go_map_bind [simp]: "go_map f (go_bind m g) = go_bind m (\<lambda>x. go_map f (g x))"
  by (cases m) simp_all

lemma go_map_id [simp]: "go_map (\<lambda>x. x) m = m"
  by (cases m) simp_all

lemma go_map_Done_iff: "go_map f m = Done b \<longleftrightarrow> (\<exists>a. m = Done a \<and> b = f a)"
  by (cases m) auto

lemma is_done_map [simp]: "is_done (go_map f m) = is_done m"
  by (cases m) auto

lemma is_done_iff: "is_done m \<longleftrightarrow> (\<exists>a. m = Done a)"
  by (cases m) auto

section \<open>Indexing and slicing\<close>

text \<open>\<open>xs[i]\<close> and \<open>xs[i:j]\<close> with the run-time checks of Go. Indices are \<open>int\<close> because the source
  computes them with signed arithmetic.\<close>

definition go_nth :: "'a list \<Rightarrow> int \<Rightarrow> 'a go" where
  "go_nth xs i = (if 0 \<le> i \<and> i < int (length xs) then Done (xs ! nat i)
                  else Panicked IndexOutOfRange)"

definition go_slice :: "'a list \<Rightarrow> int \<Rightarrow> int \<Rightarrow> 'a list go" where
  "go_slice xs i j = (if 0 \<le> i \<and> i \<le> j \<and> j \<le> int (length xs)
                      then Done (take (nat j - nat i) (drop (nat i) xs))
                      else Panicked SliceOutOfRange)"

definition go_from :: "'a list \<Rightarrow> int \<Rightarrow> 'a list go" where
  "go_from xs i = go_slice xs i (int (length xs))"

text \<open>\<open>copy(dst[k:], src)\<close>: overwrites in place, never extends.\<close>

definition go_copy :: "'a list \<Rightarrow> nat \<Rightarrow> 'a list \<Rightarrow> 'a list" where
  "go_copy dst k src =
     take k dst @ take (length dst - k) src @ drop (k + length src) dst"

lemma go_nth_Done [simp]: "0 \<le> i \<Longrightarrow> i < int (length xs) \<Longrightarrow> go_nth xs i = Done (xs ! nat i)"
  by (simp add: go_nth_def)

lemma go_nth_negative [simp]: "i < 0 \<Longrightarrow> go_nth xs i = Panicked IndexOutOfRange"
  by (simp add: go_nth_def)

lemma go_from_Done [simp]: "0 \<le> i \<Longrightarrow> i \<le> int (length xs) \<Longrightarrow> go_from xs i = Done (drop (nat i) xs)"
  by (simp add: go_from_def go_slice_def)

lemma length_go_copy [simp]: "k \<le> length dst \<Longrightarrow> length (go_copy dst k src) = length dst"
  by (simp add: go_copy_def)

lemma go_copy_0: "length src \<le> length dst \<Longrightarrow> go_copy dst 0 src = src @ drop (length src) dst"
  by (simp add: go_copy_def)

section \<open>Lists\<close>

lemma take_list_update_append:
  "i < length xs \<Longrightarrow> xs[i := a] = take i xs @ a # drop (Suc i) xs"
  by (simp add: upd_conv_take_nth_drop)

lemma concat_take_drop_Cons: "ys = drop n xs \<Longrightarrow> take n xs @ ys = xs"
  by simp

section \<open>Words\<close>

lemma unat_drop_bit_div: "unat (drop_bit n (x :: 'a::len word)) = unat x div 2 ^ n"
  using unat_drop_bit_eq [of n x] by (simp add: drop_bit_eq_div [of n "unat x"])

lemma drop_bit_less: "n \<noteq> 0 \<Longrightarrow> x \<noteq> 0 \<Longrightarrow> unat (drop_bit n x) < unat (x :: 'a::len word)"
proof -
  assume n: "n \<noteq> 0" and x: "x \<noteq> 0"
  have "unat (drop_bit n x) = unat x div 2 ^ n"
    by (rule unat_drop_bit_div)
  moreover have "unat x > 0" using x by (simp add: unat_gt_0)
  moreover have "(2::nat) ^ n > 1" using n by (simp add: one_less_numeral_iff one_less_power del: One_nat_def)
  ultimately show ?thesis by (simp add: div_less_dividend)
qed

lemma or_push_bit_disjoint:
  assumes "take_bit s x = x"
  shows "x OR push_bit s c = x + push_bit s (c :: 'a::len word)"
proof -
  have "x AND push_bit s c = 0"
  proof (rule bit_eqI)
    fix n
    show "bit (x AND push_bit s c) n \<longleftrightarrow> bit 0 n"
      using bit_take_bit_iff [of s x n] assms by (auto simp: bit_simps)
  qed
  then show ?thesis by (simp add: disjunctive_add_eq_or)
qed

lemma take_bit_or_push_bit:
  assumes "take_bit s x = x" "take_bit m c = c"
  shows "take_bit (s + m) (x OR push_bit s c) = x OR push_bit s (c :: 'a::len word)"
proof (rule bit_eqI)
  fix n
  show "bit (take_bit (s + m) (x OR push_bit s c)) n \<longleftrightarrow> bit (x OR push_bit s c) n"
    using bit_take_bit_iff [of s x n] bit_take_bit_iff [of m c "n - s"] assms
    by (auto simp: bit_simps)
qed

end
