(* ===== verification/Varint.thy ===== *)
theory Varint
  imports VPrelude
begin

text \<open>
  The variable-length integers of \<open>netty/utils/binary.go\<close>: \<open>PutUvarint32\<close> and \<open>Uvarint32\<close>, the
  length headers of every frame the peer sends or receives. \<open>uvarint_bytes\<close> is the reference
  encoding the two loops are compared with, \<open>uvarint_value\<close> the number a byte string denotes.
\<close>

section \<open>The code\<close>

text \<open>\<open>PutUvarint32\<close>: the loop over \<open>x\<close>, the buffer and the write position.\<close>

function put_uvarint_loop :: "bytes \<Rightarrow> u32 \<Rightarrow> nat \<Rightarrow> (bytes \<times> nat) go" where
  "put_uvarint_loop buf x i =
     (if x \<ge> 0x80 then
        (if i < length buf
         then put_uvarint_loop (buf[i := ucast x OR 0x80]) (drop_bit 7 x) (Suc i)
         else Panicked IndexOutOfRange)
      else if i < length buf then Done (buf[i := ucast x], i + 1)
      else Panicked IndexOutOfRange)"
  by pat_completeness auto
termination
proof (relation "measure (\<lambda>(buf, x, i). unat x)")
  fix buf :: bytes and x :: u32 and i
  assume "0x80 \<le> x"
  then have "x \<noteq> 0" by auto
  then show "((buf[i := ucast x OR 0x80], drop_bit 7 x, Suc i), buf, x, i)
      \<in> measure (\<lambda>(buf, x, i). unat x)"
    by (simp add: drop_bit_less)
qed simp

declare put_uvarint_loop.simps [simp del]

definition PutUvarint32 :: "bytes \<Rightarrow> u32 \<Rightarrow> (bytes \<times> nat) go" where
  "PutUvarint32 buf x = put_uvarint_loop buf x 0"

text \<open>\<open>Uvarint32\<close>: the range loop with its index \<open>i\<close>, accumulator \<open>x\<close> and shift \<open>s\<close>.\<close>

fun uvarint_loop :: "bytes \<Rightarrow> nat \<Rightarrow> u32 \<Rightarrow> nat \<Rightarrow> u32 \<times> int" where
  "uvarint_loop [] i x s = (0, 0)"
| "uvarint_loop (b # bs) i x s =
     (if b < 0x80 then
        (if i > 5 \<or> i = 5 \<and> b > 1 then (0, - (int i + 1))
         else (x OR push_bit s (ucast b), int i + 1))
      else uvarint_loop bs (i + 1) (x OR push_bit s (ucast (b AND 0x7f))) (s + 7))"

definition Uvarint32 :: "bytes \<Rightarrow> u32 \<times> int" where
  "Uvarint32 buf = uvarint_loop buf 0 0 0"

section \<open>Reference encoding\<close>

function uvarint_bytes :: "u32 \<Rightarrow> bytes" where
  "uvarint_bytes x =
     (if x \<ge> 0x80 then (ucast x OR 0x80) # uvarint_bytes (drop_bit 7 x) else [ucast x])"
  by pat_completeness auto
termination
proof (relation "measure unat")
  fix x :: u32
  assume "0x80 \<le> x"
  then have "x \<noteq> 0" by auto
  then show "(drop_bit 7 x, x) \<in> measure unat" by (simp add: drop_bit_less)
qed simp

declare uvarint_bytes.simps [simp del]

text \<open>The number a terminated byte string denotes, unbounded.\<close>

fun uvarint_value :: "bytes \<Rightarrow> nat" where
  "uvarint_value [] = 0"
| "uvarint_value (b # bs) =
     (if b < 0x80 then unat b else (unat b - 128) + 128 * uvarint_value bs)"

section \<open>Encoding\<close>

lemma uvarint_bytes_small: "x < 0x80 \<Longrightarrow> uvarint_bytes x = [ucast x]"
  by (subst uvarint_bytes.simps) (auto simp: not_le [symmetric])

lemma uvarint_bytes_big:
  "0x80 \<le> x \<Longrightarrow> uvarint_bytes x = (ucast x OR 0x80) # uvarint_bytes (drop_bit 7 x)"
  by (subst uvarint_bytes.simps) simp

lemma uvarint_bytes_nonempty [simp]: "uvarint_bytes x \<noteq> []" "0 < length (uvarint_bytes x)"
  by (subst uvarint_bytes.simps, simp)+

text \<open>The loop writes exactly the reference encoding at the write position.\<close>

lemma put_uvarint_loop_eq:
  "i + length (uvarint_bytes x) \<le> length buf \<Longrightarrow>
   put_uvarint_loop buf x i =
     Done (take i buf @ uvarint_bytes x @ drop (i + length (uvarint_bytes x)) buf,
           i + length (uvarint_bytes x))"
proof (induction buf x i rule: put_uvarint_loop.induct)
  case (1 buf x i)
  have i: "i < length buf"
    using 1(2) uvarint_bytes_nonempty(2) [of x] by linarith
  show ?case
  proof (cases "0x80 \<le> x")
    case True
    note e = uvarint_bytes_big [OF True]
    have "put_uvarint_loop buf x i =
        put_uvarint_loop (buf[i := ucast x OR 0x80]) (drop_bit 7 x) (Suc i)"
      using True i by (simp add: put_uvarint_loop.simps [of buf x i])
    with 1(1) [OF True i] 1(2) i show ?thesis
      by (simp add: e take_list_update_append take_Suc_conv_app_nth nth_append add.commute)
  next
    case False
    then show ?thesis
      using i 1(2) by (simp add: put_uvarint_loop.simps [of buf x i] uvarint_bytes_small
          take_list_update_append not_le [symmetric])
  qed
qed

lemma put_uvarint_loop_panic:
  "length buf < i + length (uvarint_bytes x) \<Longrightarrow>
   put_uvarint_loop buf x i = Panicked IndexOutOfRange"
proof (induction buf x i rule: put_uvarint_loop.induct)
  case (1 buf x i)
  show ?case
  proof (cases "0x80 \<le> x \<and> i < length buf")
    case True
    then show ?thesis
      using 1(1) 1(2) by (simp add: put_uvarint_loop.simps [of buf x i] uvarint_bytes_big)
  next
    case False
    then show ?thesis
      using 1(2) by (auto simp: put_uvarint_loop.simps [of buf x i] uvarint_bytes_small not_le)
  qed
qed

text \<open>Widths: a value below \<open>2 ^ (7 * n)\<close> takes at most \<open>n\<close> bytes.\<close>

lemma length_uvarint_bytes_le:
  "unat x < 2 ^ (7 * Suc n) \<Longrightarrow> length (uvarint_bytes x) \<le> Suc n"
proof (induction n arbitrary: x)
  case 0
  then have "x < 0x80" by (simp add: word_less_nat_alt)
  then show ?case by (simp add: uvarint_bytes_small)
next
  case (Suc n)
  show ?case
  proof (cases "0x80 \<le> x")
    case True
    have "unat (drop_bit 7 x) = unat x div 2 ^ 7"
      by (rule unat_drop_bit_div)
    also have "\<dots> < 2 ^ (7 * Suc n)"
      using Suc.prems by (simp add: less_mult_imp_div_less power_add)
    finally have "length (uvarint_bytes (drop_bit 7 x)) \<le> Suc n" by (rule Suc.IH)
    with True show ?thesis by (simp add: uvarint_bytes_big)
  next
    case False
    then show ?thesis by (simp add: uvarint_bytes_small not_le)
  qed
qed

lemma length_uvarint_bytes_max: "length (uvarint_bytes x) \<le> 5"
proof -
  have "unat x < 2 ^ 32" using unsigned_less [of x, where 'a = nat] by simp
  then have "unat x < 2 ^ (7 * Suc 4)" by simp
  from length_uvarint_bytes_le [OF this] show ?thesis by simp
qed

section \<open>Decoding\<close>

text \<open>The low seven bits and the shifted rest make up the value again.\<close>

lemma low7_eq_take_bit: "(ucast ((ucast x OR 0x80 :: u8) AND 0x7f) :: u32) = take_bit 7 (x :: u32)"
proof -
  have "(ucast x OR 0x80 :: u8) AND 0x7f = take_bit 7 (ucast x OR 0x80 :: u8)"
    by (simp add: take_bit_eq_mask mask_eq_decr_exp)
  also have "\<dots> = take_bit 7 (ucast x :: u8)"
    by simp
  finally show ?thesis
    by (simp add: unsigned_take_bit_eq unsigned_ucast_eq)
qed

lemma push_bit_split7:
  "push_bit s (ucast ((ucast x OR 0x80 :: u8) AND 0x7f)) OR push_bit (s + 7) (drop_bit 7 x)
     = push_bit s (x :: u32)"
proof -
  have "push_bit (s + 7) (drop_bit 7 x) = push_bit s (push_bit 7 (drop_bit 7 x))"
    by (simp add: push_bit_push_bit)
  moreover have "take_bit 7 x OR push_bit 7 (drop_bit 7 x) = x"
    by (rule bit_eqI) (auto simp: bit_simps not_less, metis le_add_diff_inverse not_less)
  ultimately show ?thesis
    unfolding low7_eq_take_bit by (metis push_bit_or)
qed

lemma ucast_small: "x < (0x80 :: u32) \<Longrightarrow> (ucast x :: u8) < 0x80"
  by (simp add: word_less_nat_alt unsigned_ucast_eq take_bit_eq_mod)

lemma ucast_ucast_small: "x < (0x80 :: u32) \<Longrightarrow> ucast (ucast x :: u8) = x"
  by (simp add: word_less_nat_alt word_unat_eq_iff unsigned_ucast_eq take_bit_eq_mod unat_mod_distrib)

lemma ucast_marked: "\<not> (ucast (x :: u32) OR 0x80 :: u8) < 0x80"
  by (simp add: not_less le_word_or1)

text \<open>Reading back the encoding, at any position the header can start from.\<close>

lemma uvarint_loop_encoded:
  "i + length (uvarint_bytes y) \<le> 5 \<Longrightarrow>
   uvarint_loop (uvarint_bytes y @ rest) i x s =
     (x OR push_bit s y, int i + int (length (uvarint_bytes y)))"
proof (induction y arbitrary: i x s rule: uvarint_bytes.induct)
  case (1 y)
  show ?case
  proof (cases "0x80 \<le> y")
    case True
    note e = uvarint_bytes_big [OF True]
    have "uvarint_loop (uvarint_bytes (drop_bit 7 y) @ rest) (i + 1)
        (x OR push_bit s (ucast ((ucast y OR 0x80 :: u8) AND 0x7f))) (s + 7) =
      ((x OR push_bit s (ucast ((ucast y OR 0x80 :: u8) AND 0x7f)))
         OR push_bit (s + 7) (drop_bit 7 y),
       int (i + 1) + int (length (uvarint_bytes (drop_bit 7 y))))"
      using 1(2) by (intro 1(1) [OF True]) (simp add: e)
    then show ?thesis
      by (simp add: e ucast_marked or.assoc push_bit_split7)
  next
    case False
    then have "y < 0x80" by simp
    then show ?thesis
      using 1(2) by (simp add: uvarint_bytes_small ucast_small ucast_ucast_small)
  qed
qed

lemma Uvarint32_encoded:
  "Uvarint32 (uvarint_bytes y @ rest) = (y, int (length (uvarint_bytes y)))"
  using uvarint_loop_encoded [of 0 y rest 0 0] length_uvarint_bytes_max [of y]
  by (simp add: Uvarint32_def)

text \<open>What \<open>Uvarint32\<close> reports on an arbitrary buffer: how far it reads.\<close>

lemma uvarint_loop_count:
  "uvarint_loop bs i x s = (v, n) \<Longrightarrow>
     n \<noteq> 0 \<longrightarrow> int i < \<bar>n\<bar> \<and> \<bar>n\<bar> \<le> int (i + length bs)"
  by (induction bs i x s rule: uvarint_loop.induct) (auto split: if_splits)

lemma uvarint_loop_zero_iff:
  "snd (uvarint_loop bs i x s) = 0 \<longleftrightarrow> (\<forall>b \<in> set bs. 0x80 \<le> b)"
  by (induction bs i x s rule: uvarint_loop.induct) (auto simp: not_less)

lemma uvarint_loop_fail_value:
  "uvarint_loop bs i x s = (v, n) \<Longrightarrow> n \<le> 0 \<Longrightarrow> v = 0"
  by (induction bs i x s rule: uvarint_loop.induct) (auto split: if_splits)

lemma Uvarint32_bounds:
  assumes "Uvarint32 buf = (v, n)"
  shows "\<bar>n\<bar> \<le> int (length buf)" and "n \<le> 0 \<Longrightarrow> v = 0"
  using assms uvarint_loop_count [of buf 0 0 0 v n] uvarint_loop_fail_value [of buf 0 0 0 v n]
  by (cases "n = 0"; simp add: Uvarint32_def)+

lemma Uvarint32_short: "(\<forall>b \<in> set buf. 0x80 \<le> b) \<Longrightarrow> Uvarint32 buf = (0, 0)"
  using uvarint_loop_zero_iff [of buf 0 0 0] uvarint_loop_fail_value [of buf 0 0 0]
  by (cases "uvarint_loop buf 0 0 0") (auto simp: Uvarint32_def)

text \<open>A proper prefix of an encoding has continuation bytes only, so it reads as \<open>(0, 0)\<close>: an
  incomplete header is always recognised as such.\<close>

lemma uvarint_bytes_butlast_marked: "b \<in> set (butlast (uvarint_bytes x)) \<Longrightarrow> 0x80 \<le> b"
proof (induction x rule: uvarint_bytes.induct)
  case (1 x)
  show ?case
  proof (cases "0x80 \<le> x")
    case True
    then show ?thesis
      using 1 by (auto simp: uvarint_bytes_big le_word_or1 split: if_splits)
  next
    case False
    then show ?thesis using 1(2) by (simp add: uvarint_bytes_small)
  qed
qed

lemma Uvarint32_prefix:
  assumes "n < length (uvarint_bytes x)"
  shows "Uvarint32 (take n (uvarint_bytes x)) = (0, 0)"
proof -
  have "take n (uvarint_bytes x) = take n (butlast (uvarint_bytes x))"
    using assms by (simp add: butlast_conv_take min_def)
  then have "set (take n (uvarint_bytes x)) \<subseteq> set (butlast (uvarint_bytes x))"
    by (simp add: set_take_subset)
  then show ?thesis
    using uvarint_bytes_butlast_marked by (intro Uvarint32_short) blast
qed

text \<open>An accepted buffer decodes to the number it denotes, truncated to 32 bits.\<close>

lemma low7_value: "0x80 \<le> (b :: u8) \<Longrightarrow> (ucast (b AND 0x7f) :: u32) = of_nat (unat b - 128)"
proof -
  assume b: "0x80 \<le> (b :: u8)"
  have "b AND 0x7f = take_bit 7 b" by (simp add: take_bit_eq_mask mask_eq_decr_exp)
  then have "unat (b AND 0x7f) = unat b mod 128" 
    by (simp add: unsigned_take_bit_eq take_bit_eq_mod unat_mod_distrib)
  also have "\<dots> = unat b - 128"
    using b unsigned_less [of b, where 'a = nat] by (simp add: word_le_nat_alt mod_if)
  finally show ?thesis
    by (metis of_nat_unat)
qed

lemma uvarint_loop_value:
  assumes "take_bit s x = x" "uvarint_loop bs i x s = (v, n)" "0 < n"
  shows "v = x + of_nat (uvarint_value bs) * 2 ^ s"
  using assms
proof (induction bs i x s rule: uvarint_loop.induct)
  case (1 i x s)
  then show ?case by simp
next
  case (2 b bs i x s)
  show ?case
  proof (cases "b < 0x80")
    case True
    then have "v = x OR push_bit s (ucast b)" using 2(3,4) by (auto split: if_splits)
    also have "\<dots> = x + push_bit s (ucast b)" by (rule or_push_bit_disjoint [OF 2(2)])
    finally show ?thesis using True by (simp add: push_bit_eq_mult)
  next
    case False
    let ?c = "ucast (b AND 0x7f) :: u32"
    have "b AND 0x7f = take_bit 7 b"
      by (simp add: take_bit_eq_mask mask_eq_decr_exp)
    then have "take_bit 7 ?c = ?c"
      by (simp add: unsigned_take_bit_eq)
    then have t: "take_bit (s + 7) (x OR push_bit s ?c) = x OR push_bit s ?c"
      by (rule take_bit_or_push_bit [OF 2(2)])
    have "v = (x OR push_bit s ?c) + of_nat (uvarint_value bs) * 2 ^ (s + 7)"
      using False 2(3,4) by (intro 2(1) [OF False t]) auto
    also have "x OR push_bit s ?c = x + push_bit s ?c" by (rule or_push_bit_disjoint [OF 2(2)])
    finally show ?thesis
      using False low7_value [of b] leI [OF False]
      by (simp add: push_bit_eq_mult algebra_simps power_add)
  qed
qed

lemma Uvarint32_value:
  assumes "Uvarint32 buf = (v, n)" "0 < n"
  shows "unat v = uvarint_value buf mod 2 ^ 32"
  using uvarint_loop_value [of 0 0 buf 0 v n] assms by (simp add: Uvarint32_def unsigned_of_nat take_bit_eq_mod)

section \<open>Properties\<close>

text \<open>Round trip of the frame length header: encoding any 32-bit length into the five-byte head
  buffer never panics, uses at most five bytes, and decoding the used bytes followed by anything
  gives the length back and consumes exactly those bytes.\<close>

lemma uvarint_roundtrip:
  "\<exists>buf n. PutUvarint32 (replicate 5 0) x = Done (buf, n) \<and> 1 \<le> n \<and> n \<le> 5 \<and> length buf = 5 \<and>
     Uvarint32 (take n buf @ rest) = (x, int n)"
proof -
  let ?n = "length (uvarint_bytes x)"
  let ?buf = "uvarint_bytes x @ drop ?n (replicate 5 0)"
  have n: "?n \<le> 5" by (rule length_uvarint_bytes_max)
  then have "PutUvarint32 (replicate 5 0) x = Done (?buf, ?n)"
    by (simp add: PutUvarint32_def put_uvarint_loop_eq)
  moreover have "Uvarint32 (take ?n ?buf @ rest) = (x, int ?n)"
    by (simp add: Uvarint32_encoded)
  moreover have "1 \<le> ?n" using uvarint_bytes_nonempty(2) [of x] by linarith
  ultimately show ?thesis using n by (intro exI conjI) (assumption | simp)+
qed


text \<open>The overflow report promised by the comment of \<open>Uvarint32\<close> (a negative count for a value
  larger than 32 bits) is not given: five bytes that denote \<open>2 ^ 35 - 1\<close>, and six bytes that denote
  \<open>2 ^ 35\<close>, are accepted with a truncated value.\<close>

lemma Uvarint32_accepts_overflow:
  "Uvarint32 [0xff, 0xff, 0xff, 0xff, 0x7f] = (0xffffffff, 5) \<and>
   uvarint_value [0xff, 0xff, 0xff, 0xff, 0x7f] = 2 ^ 35 - 1 \<and>
   Uvarint32 [0x80, 0x80, 0x80, 0x80, 0x80, 0x01] = (0, 6) \<and>
   uvarint_value [0x80, 0x80, 0x80, 0x80, 0x80, 0x01] = 2 ^ 35"
  by (simp add: Uvarint32_def push_bit_eq_mult)

end
