(* ===== verification/Byte_Order.thy ===== *)
theory Byte_Order
  imports VPrelude
begin

text \<open>
  The part of Go's \<open>encoding/binary\<close> the program uses: fixed-width unsigned integers in little- and
  big-endian order. \<open>binary.ByteOrder\<close> is a Go interface, taken as an argument by
  \<open>LengthFieldCodec\<close>; it is the locale \<open>byte_order\<close> here, with both implementations as
  interpretations.
\<close>

section \<open>The interface\<close>

text \<open>\<open>put n v\<close> is \<open>PutUint16/32/64\<close> on a buffer of \<open>n\<close> bytes (the value is truncated to the width),
  \<open>get\<close> the corresponding \<open>Uint\<close>.\<close>

locale byte_order =
  fixes put :: "nat \<Rightarrow> nat \<Rightarrow> bytes"
    and get :: "bytes \<Rightarrow> nat"
  assumes length_put: "length (put n v) = n"
    and get_put: "get (put n v) = v mod 256 ^ n"
    and get_bound: "get bs < 256 ^ length bs"
begin

lemma get_put_fits: "v < 256 ^ n \<Longrightarrow> get (put n v) = v"
  by (simp add: get_put)

lemma put_inj: "put n v = put n w \<Longrightarrow> v mod 256 ^ n = w mod 256 ^ n"
  by (metis get_put)

lemma get_put_append: "v < 256 ^ n \<Longrightarrow> get (take n (put n v @ rest)) = v"
  by (simp add: length_put get_put)

end

section \<open>Little and big endian\<close>

fun le_put :: "nat \<Rightarrow> nat \<Rightarrow> bytes" where
  "le_put 0 v = []"
| "le_put (Suc n) v = of_nat v # le_put n (v div 256)"

fun le_get :: "bytes \<Rightarrow> nat" where
  "le_get [] = 0"
| "le_get (b # bs) = unat b + 256 * le_get bs"

definition be_put :: "nat \<Rightarrow> nat \<Rightarrow> bytes" where
  "be_put n v = rev (le_put n v)"

definition be_get :: "bytes \<Rightarrow> nat" where
  "be_get bs = le_get (rev bs)"

lemma length_le_put [simp]: "length (le_put n v) = n"
  by (induction n arbitrary: v) auto

lemma unat_of_nat_u8 [simp]: "unat (of_nat v :: u8) = v mod 256"
  by (simp add: unsigned_of_nat take_bit_eq_mod)

lemma unat_u8_less [simp]: "unat (b :: u8) < 256"
  using unsigned_less [of b, where 'a = nat] by simp

lemma le_get_put: "le_get (le_put n v) = v mod 256 ^ n"
proof (induction n arbitrary: v)
  case 0
  then show ?case by simp
next
  case (Suc n)
  then show ?case by (simp add: mod_mult2_eq)
qed

lemma le_get_bound: "le_get bs < 256 ^ length bs"
proof (induction bs)
  case Nil
  then show ?case by simp
next
  case (Cons b bs)
  have "unat b + 256 * le_get bs < 256 * Suc (le_get bs)" by simp
  also have "\<dots> \<le> 256 * 256 ^ length bs" using Cons by (intro mult_le_mono2) simp
  finally show ?case by simp
qed

text \<open>The other direction: the bytes themselves are recovered.\<close>

lemma le_put_get: "le_put (length bs) (le_get bs) = bs"
proof (induction bs)
  case Nil
  then show ?case by simp
next
  case (Cons b bs)
  then show ?case by (simp add: word_unat_eq_iff del: of_nat_add of_nat_mult)
qed

lemma le_put_nth: "i < n \<Longrightarrow> le_put n v ! i = of_nat (v div 256 ^ i)"
  by (induction n arbitrary: v i) (auto simp: nth_Cons' div_mult2_eq [symmetric] power_commutes
      simp flip: power_Suc)

lemma le_get_append: "le_get (xs @ ys) = le_get xs + 256 ^ length xs * le_get ys"
  by (induction xs) (auto simp: algebra_simps)

lemma le_get_zeros [simp]: "le_get (replicate n 0) = 0"
  by (induction n) auto

interpretation little: byte_order le_put le_get
  by unfold_locales (simp_all add: le_get_put le_get_bound)

interpretation big: byte_order be_put be_get
  by unfold_locales
    (simp_all add: be_put_def be_get_def le_get_put le_get_bound [of "rev _", simplified])

text \<open>The widths the program uses.\<close>

definition PutUint32_le :: "u32 \<Rightarrow> bytes" where "PutUint32_le v = le_put 4 (unat v)"
definition PutUint32_be :: "u32 \<Rightarrow> bytes" where "PutUint32_be v = be_put 4 (unat v)"
definition PutUint64_le :: "u64 \<Rightarrow> bytes" where "PutUint64_le v = le_put 8 (unat v)"
definition Uint32_be :: "bytes \<Rightarrow> u32" where "Uint32_be bs = of_nat (be_get bs)"
definition Uint64_le :: "bytes \<Rightarrow> u64" where "Uint64_le bs = of_nat (le_get bs)"

lemma length_PutUint64_le [simp]: "length (PutUint64_le v) = 8"
  by (simp add: PutUint64_le_def)

lemma Uint64_le_Put [simp]: "Uint64_le (PutUint64_le v) = v"
proof -
  have "unat v < 256 ^ 8" using unsigned_less [of v, where 'a = nat] by simp
  then show ?thesis by (simp add: Uint64_le_def PutUint64_le_def little.get_put_fits)
qed

lemma PutUint64_le_Uint: "length bs = 8 \<Longrightarrow> PutUint64_le (Uint64_le bs) = bs"
proof -
  assume l: "length bs = 8"
  have "le_get bs < 256 ^ 8" using le_get_bound [of bs] l by simp
  then have "unat (of_nat (le_get bs) :: u64) = le_get bs"
    by (simp add: unsigned_of_nat take_bit_eq_mod)
  then show ?thesis
    using le_put_get [of bs] l by (simp add: Uint64_le_def PutUint64_le_def)
qed

lemma Uint64_le_eq_iff: "length bs = 8 \<Longrightarrow> Uint64_le bs = v \<longleftrightarrow> bs = PutUint64_le v"
  using PutUint64_le_Uint [of bs] by auto

lemma ucast_Uint64_le: "(ucast (Uint64_le (b # bs)) :: u8) = b"
  by (simp add: Uint64_le_def word_unat_eq_iff unsigned_ucast_eq unsigned_of_nat take_bit_eq_mod
      mod_mod_cancel flip: of_nat_add of_nat_mult)

lemma Uint32_be_Put [simp]: "Uint32_be (PutUint32_be v) = v"
proof -
  have "unat v < 256 ^ 4" using unsigned_less [of v, where 'a = nat] by simp
  then show ?thesis by (simp add: Uint32_be_def PutUint32_be_def big.get_put_fits)
qed

end
