(* ===== verification/Sync_Map.thy ===== *)
theory Sync_Map
  imports VPrelude "HOL-Library.AList"
begin

text \<open>
  Go's \<open>sync.Map\<close> as the services use it, and the two helpers of \<open>common/utils.go\<close> on it. A map is
  an association list with distinct keys; the order of the list is the order in which \<open>Range\<close> visits
  the entries, which Go leaves unspecified, so properties are stated for every list.
\<close>

type_synonym ('k, 'v) smap = "('k \<times> 'v) list"

definition sm_ok :: "('k, 'v) smap \<Rightarrow> bool" where
  "sm_ok m \<longleftrightarrow> distinct (map fst m)"

definition sm_empty :: "('k, 'v) smap" where
  "sm_empty = []"

definition sm_load :: "('k, 'v) smap \<Rightarrow> 'k \<Rightarrow> 'v option" where
  "sm_load m k = map_of m k"

definition sm_store :: "'k \<Rightarrow> 'v \<Rightarrow> ('k, 'v) smap \<Rightarrow> ('k, 'v) smap" where
  "sm_store k v m = AList.update k v m"

definition sm_delete :: "'k \<Rightarrow> ('k, 'v) smap \<Rightarrow> ('k, 'v) smap" where
  "sm_delete k m = AList.delete k m"

definition sm_keys :: "('k, 'v) smap \<Rightarrow> 'k list" where
  "sm_keys m = map fst m"

section \<open>The interface the services rely on\<close>

locale kv_store =
  fixes empty :: "'m"
    and load :: "'m \<Rightarrow> 'k \<Rightarrow> 'v option"
    and store :: "'k \<Rightarrow> 'v \<Rightarrow> 'm \<Rightarrow> 'm"
    and delete :: "'k \<Rightarrow> 'm \<Rightarrow> 'm"
    and ok :: "'m \<Rightarrow> bool"
  assumes load_empty: "load empty k = None"
    and load_store: "load (store k v m) j = (if j = k then Some v else load m j)"
    and load_delete: "load (delete k m) j = (if j = k then None else load m j)"
    and ok_empty: "ok empty"
    and ok_store: "ok m \<Longrightarrow> ok (store k v m)"
    and ok_delete: "ok m \<Longrightarrow> ok (delete k m)"
begin

lemma load_store_same: "load (store k v m) k = Some v"
  by (simp add: load_store)

lemma load_delete_same: "load (delete k m) k = None"
  by (simp add: load_delete)

text \<open>Deleting a list of keys, the loop the services run after collecting keys from \<open>Range\<close>.\<close>

lemma load_delete_all:
  "load (fold delete ks m) j = (if j \<in> set ks then None else load m j)"
  by (induction ks arbitrary: m) (auto simp: load_delete)

lemma ok_delete_all: "ok m \<Longrightarrow> ok (fold delete ks m)"
  by (induction ks arbitrary: m) (auto simp: ok_delete)

text \<open>Moving a binding from one store to another, as the hole puncher does on success.\<close>

lemma move_exclusive:
  assumes "load a k = Some v"
  shows "load (store k v b) k = Some v \<and> load (delete k a) k = None \<and>
         (\<forall>j. j \<noteq> k \<longrightarrow> load (store k v b) j = load b j \<and> load (delete k a) j = load a j)"
  using assms by (simp add: load_store load_delete)

end

interpretation sm: kv_store sm_empty sm_load sm_store sm_delete sm_ok
  by unfold_locales
    (auto simp: sm_empty_def sm_load_def sm_store_def sm_delete_def sm_ok_def
       update_conv' delete_conv' distinct_update distinct_delete)

lemmas sm_simps [simp] =
  sm.load_empty sm.load_store sm.load_delete sm.ok_empty sm.ok_store sm.ok_delete

lemma sm_load_Some_iff: "sm_ok m \<Longrightarrow> sm_load m k = Some v \<longleftrightarrow> (k, v) \<in> set m"
  by (simp add: sm_load_def sm_ok_def)

lemma sm_load_None_iff: "sm_load m k = None \<longleftrightarrow> k \<notin> set (sm_keys m)"
  by (simp add: sm_load_def sm_keys_def map_of_eq_None_iff)

lemma sm_load_Nil [simp]: "sm_load [] k = None"
  by (simp add: sm_load_def)

lemma set_sm_delete: "set (sm_keys (sm_delete k m)) = set (sm_keys m) - {k}"
  by (auto simp: sm_keys_def sm_delete_def delete_keys image_iff)

section \<open>Helpers of \<open>common/utils.go\<close>\<close>

text \<open>\<open>ClearMap\<close>: collect the keys with \<open>Range\<close>, then delete them one by one; \<open>nil\<close> is ignored.\<close>

definition ClearMap :: "('k, 'v) smap option \<Rightarrow> ('k, 'v) smap option" where
  "ClearMap m = (case m of None \<Rightarrow> None | Some t \<Rightarrow> Some (fold sm_delete (sm_keys t) t))"

definition MapLength :: "('k, 'v) smap option \<Rightarrow> nat" where
  "MapLength m = (case m of None \<Rightarrow> 0 | Some t \<Rightarrow> fold (\<lambda>_ n. n + 1) (sm_keys t) 0)"

lemma sm_all_None: "(\<And>k. sm_load m k = None) \<Longrightarrow> m = []"
proof (cases m)
  case (Cons e es)
  moreover assume "\<And>k. sm_load m k = None"
  from this [of "fst e"] have "sm_load m (fst e) = None" .
  ultimately show ?thesis by (cases e) (simp add: sm_load_def)
qed simp

lemma ClearMap_Some [simp]: "ClearMap (Some m) = Some []"
proof -
  have "sm_load (fold sm_delete (sm_keys m) m) k = None" for k
    by (simp add: sm.load_delete_all sm_load_None_iff)
  then show ?thesis by (simp add: ClearMap_def sm_all_None)
qed

lemma MapLength_Some [simp]: "MapLength (Some m) = length m"
proof -
  have "fold (\<lambda>_ n. n + 1) ks a = a + length ks" for ks :: "'a list" and a :: nat
    by (induction ks arbitrary: a) auto
  then show ?thesis by (simp add: MapLength_def sm_keys_def)
qed

end
