(* ===== verification/Addr_Utils.thy ===== *)
theory Addr_Utils
  imports Byte_Order
begin

text \<open>
  The address helpers of \<open>common/utils.go\<close> (IPv4 and MAC addresses, network masks, unicast tests),
  with the copies that \<open>config/config_app.go\<close>, \<open>model/peer_info.go\<close> and \<open>model/route_info.go\<close> keep,
  and the parts of \<open>strings\<close>, \<open>strconv\<close> and \<open>fmt\<close> they call. Go strings are byte strings; \<open>string\<close> has
  one \<open>char\<close> per byte.
\<close>

section \<open>The standard library functions used\<close>

text \<open>\<open>strings.Split(s, c)\<close> for a one-character separator.\<close>

fun go_split :: "char \<Rightarrow> string \<Rightarrow> string list" where
  "go_split c [] = [[]]"
| "go_split c (x # xs) =
     (if x = c then [] # go_split c xs
      else (case go_split c xs of [] \<Rightarrow> [[x]] | y # ys \<Rightarrow> (x # y) # ys))"

text \<open>\<open>strconv.ParseInt(s, 10, bits)\<close> and \<open>strconv.ParseUint(s, 10, bits)\<close>: \<open>None\<close> is the error.\<close>

definition digit_val :: "char \<Rightarrow> nat option" where
  "digit_val c = (let n = of_char c :: nat in if 48 \<le> n \<and> n \<le> 57 then Some (n - 48) else None)"

fun digits_acc :: "nat \<Rightarrow> string \<Rightarrow> nat option" where
  "digits_acc a [] = Some a"
| "digits_acc a (c # cs) =
     (case digit_val c of None \<Rightarrow> None | Some d \<Rightarrow> digits_acc (10 * a + d) cs)"

definition parse_digits :: "string \<Rightarrow> nat option" where
  "parse_digits s = (if s = [] then None else digits_acc 0 s)"

definition ParseUint :: "nat \<Rightarrow> string \<Rightarrow> nat option" where
  "ParseUint bits s =
     (case parse_digits s of None \<Rightarrow> None | Some n \<Rightarrow> if n < 2 ^ bits then Some n else None)"

definition ParseInt :: "nat \<Rightarrow> string \<Rightarrow> int option" where
  "ParseInt bits s =
     (let (neg, t) = (case s of
          [] \<Rightarrow> (False, s)
        | c # cs \<Rightarrow> if c = CHR ''+'' then (False, cs) else if c = CHR ''-'' then (True, cs)
                   else (False, s))
      in case parse_digits t of
           None \<Rightarrow> None
         | Some n \<Rightarrow> if neg then (if n \<le> 2 ^ (bits - 1) then Some (- int n) else None)
                    else (if n < 2 ^ (bits - 1) then Some (int n) else None))"

text \<open>\<open>%d\<close> of an unsigned value.\<close>

fun dec :: "nat \<Rightarrow> string" where
  "dec n = (if n < 10 then [char_of (48 + n)] else dec (n div 10) @ [char_of (48 + n mod 10)])"

declare dec.simps [simp del]

text \<open>\<open>%02X\<close> of a byte.\<close>

definition hex_digit :: "nat \<Rightarrow> char" where
  "hex_digit n = (if n < 10 then char_of (48 + n) else char_of (55 + n))"

definition hex2 :: "u8 \<Rightarrow> string" where
  "hex2 b = [hex_digit (unat b div 16), hex_digit (unat b mod 16)]"

text \<open>\<open>fmt.Sscanf\<close> with a \<open>%x\<close> verb into a \<open>byte\<close>: leading blanks are skipped (a newline is an
  error), then a non-empty run of hexadecimal digits is read, which must not exceed 255.\<close>

definition is_blank :: "char \<Rightarrow> bool" where
  "is_blank c \<longleftrightarrow> (of_char c :: nat) \<in> {9, 11, 12, 13, 32}"

definition hex_val :: "char \<Rightarrow> nat option" where
  "hex_val c = (let n = of_char c :: nat in
     if 48 \<le> n \<and> n \<le> 57 then Some (n - 48)
     else if 65 \<le> n \<and> n \<le> 70 then Some (n - 55)
     else if 97 \<le> n \<and> n \<le> 102 then Some (n - 87) else None)"

fun hex_run :: "nat \<Rightarrow> string \<Rightarrow> nat \<times> string" where
  "hex_run a [] = (a, [])"
| "hex_run a (c # cs) =
     (case hex_val c of None \<Rightarrow> (a, c # cs) | Some d \<Rightarrow> hex_run (16 * a + d) cs)"

definition scan_hex_byte :: "string \<Rightarrow> (u8 \<times> string) option" where
  "scan_hex_byte s =
     (case dropWhile is_blank s of
        [] \<Rightarrow> None
      | c # cs \<Rightarrow>
          (case hex_val c of
             None \<Rightarrow> None
           | Some d \<Rightarrow> let (n, rest) = hex_run d cs
                      in if n < 256 then Some (of_nat n, rest) else None))"

fun scan_mac :: "nat \<Rightarrow> string \<Rightarrow> bytes option" where
  "scan_mac 0 s = Some []"
| "scan_mac (Suc n) s =
     (case scan_hex_byte s of
        None \<Rightarrow> None
      | Some (b, rest) \<Rightarrow>
          if n = 0 then Some [b]
          else (case rest of
                  [] \<Rightarrow> None
                | c # cs \<Rightarrow> if c = CHR '':'' then map_option (Cons b) (scan_mac n cs) else None))"

section \<open>\<open>common/utils.go\<close>\<close>

datatype addr_error = ErrEmptyIp | ErrInvalidIp | ErrIpNumber | ErrExtractAddr | ErrExtractIp
  | ErrExtractPort | ErrMac

fun ip_loop :: "string list \<Rightarrow> u32 \<Rightarrow> addr_error + u32" where
  "ip_loop [] IP = Inr IP"
| "ip_loop (t # ts) IP =
     (case ParseInt 16 t of
        None \<Rightarrow> Inl ErrIpNumber
      | Some val \<Rightarrow> ip_loop ts (push_bit 8 IP OR of_int val))"

definition IpV4toUint32 :: "string \<Rightarrow> addr_error + u32" where
  "IpV4toUint32 ip =
     (if length ip = 0 then Inl ErrEmptyIp
      else let temp = go_split CHR ''.'' ip
           in if length temp \<noteq> 4 then Inl ErrInvalidIp else ip_loop temp 0)"

definition Uint32toIpV4 :: "u32 \<Rightarrow> string" where
  "Uint32toIpV4 ip =
     dec (unat (drop_bit 24 ip)) @ ''.'' @ dec (unat (drop_bit 16 ip AND 0xFF)) @ ''.'' @
     dec (unat (drop_bit 8 ip AND 0xFF)) @ ''.'' @ dec (unat (ip AND 0xFF))"

definition ExtractAddrFromStr :: "bool \<Rightarrow> string \<Rightarrow> addr_error + (u32 \<times> u32)" where
  "ExtractAddrFromStr isLittleEndian addr =
     (let sockStr = go_split CHR '':'' addr in
      if length sockStr \<noteq> 2 then Inl ErrExtractAddr
      else case IpV4toUint32 (sockStr ! 0) of
        Inl _ \<Rightarrow> Inl ErrExtractIp
      | Inr ip \<Rightarrow>
          (case ParseInt 32 (sockStr ! 1) of
             None \<Rightarrow> Inl ErrExtractPort
           | Some p \<Rightarrow>
               let sockIp = (if isLittleEndian then ip else Uint32_be (PutUint32_le ip))
               in Inr (sockIp, of_int p)))"

text \<open>\<open>MaskBitLen\<close>: the loop with its counter and moving mask.\<close>

function mask_loop :: "u32 \<Rightarrow> nat \<Rightarrow> u32 \<Rightarrow> nat" where
  "mask_loop ipMask i m =
     (if i < 32 then
        (if ipMask AND m \<noteq> 0 then mask_loop ipMask (i + 1) (drop_bit 1 m) else i)
      else 32)"
  by pat_completeness auto
termination by (relation "measure (\<lambda>(ipMask, i, m). 32 - i)") auto

declare mask_loop.simps [simp del]

definition MaskBitLen :: "u32 \<Rightarrow> u32" where
  "MaskBitLen ipMask = of_nat (mask_loop ipMask 0 0x80000000)"

definition Uint64ToMacStr :: "u64 \<Rightarrow> string" where
  "Uint64ToMacStr mac =
     (let macBuf = PutUint64_le mac in
      hex2 (macBuf ! 0) @ '':'' @ hex2 (macBuf ! 1) @ '':'' @ hex2 (macBuf ! 2) @ '':'' @
      hex2 (macBuf ! 3) @ '':'' @ hex2 (macBuf ! 4) @ '':'' @ hex2 (macBuf ! 5))"

definition MacStrToUint64 :: "string \<Rightarrow> addr_error + u64" where
  "MacStrToUint64 macStr =
     (case scan_mac 6 macStr of
        None \<Rightarrow> Inl ErrMac
      | Some bs \<Rightarrow> Inr (Uint64_le (bs @ [0, 0])))"

definition MacBroadcast :: u64 where "MacBroadcast = 0xFFFFFFFFFFFF"
definition MacMulticast :: u64 where "MacMulticast = 0x01005E"

definition IsUniCast :: "u64 \<Rightarrow> bool" where
  "IsUniCast mac \<longleftrightarrow> mac \<noteq> MacBroadcast \<and> mac \<noteq> MacMulticast"

definition IsBroadcastMac :: "u64 \<Rightarrow> bool" where
  "IsBroadcastMac mac \<longleftrightarrow> mac = MacBroadcast"

definition IsMulticastMac :: "u64 \<Rightarrow> bool" where
  "IsMulticastMac mac \<longleftrightarrow> mac = MacMulticast"

text \<open>\<open>0xFFFFFFFF << (32 - n)\<close>, the mask the services build from a prefix length.\<close>

definition prefix_mask :: "u32 \<Rightarrow> u32" where
  "prefix_mask n = push_bit (unat (32 - n)) 0xFFFFFFFF"

section \<open>The copies in other packages\<close>

definition config_IpV4toUint32 :: "string \<Rightarrow> addr_error + u32" where
  "config_IpV4toUint32 ip =
     (if length ip = 0 then Inl ErrEmptyIp
      else let temp = go_split CHR ''.'' ip
           in if length temp \<noteq> 4 then Inl ErrInvalidIp else ip_loop temp 0)"

definition config_Uint32toIpV4 :: "u32 \<Rightarrow> string" where
  "config_Uint32toIpV4 ip =
     dec (unat (drop_bit 24 ip)) @ ''.'' @ dec (unat (drop_bit 16 ip AND 0xFF)) @ ''.'' @
     dec (unat (drop_bit 8 ip AND 0xFF)) @ ''.'' @ dec (unat (ip AND 0xFF))"

definition uint2IpV4 :: "u32 \<Rightarrow> string" where
  "uint2IpV4 ip =
     dec (unat (drop_bit 24 ip)) @ ''.'' @ dec (unat (drop_bit 16 ip AND 0xFF)) @ ''.'' @
     dec (unat (drop_bit 8 ip AND 0xFF)) @ ''.'' @ dec (unat (ip AND 0xFF))"

record RouteInfo =
  Destination :: u32
  Mask :: u32
  Gateway :: u32

definition GetDst :: "RouteInfo \<Rightarrow> string" where
  "GetDst r =
     dec (unat (drop_bit 24 (Destination r))) @ ''.'' @
     dec (unat (drop_bit 16 (Destination r) AND 0xFF)) @ ''.'' @
     dec (unat (drop_bit 8 (Destination r) AND 0xFF)) @ ''.'' @ dec (unat (Destination r AND 0xFF))"

definition GetMask :: "RouteInfo \<Rightarrow> string" where
  "GetMask r =
     dec (unat (drop_bit 24 (Mask r))) @ ''.'' @ dec (unat (drop_bit 16 (Mask r) AND 0xFF)) @ ''.'' @
     dec (unat (drop_bit 8 (Mask r) AND 0xFF)) @ ''.'' @ dec (unat (Mask r AND 0xFF))"

definition GetGw :: "RouteInfo \<Rightarrow> string" where
  "GetGw r =
     dec (unat (drop_bit 24 (Gateway r))) @ ''.'' @
     dec (unat (drop_bit 16 (Gateway r) AND 0xFF)) @ ''.'' @
     dec (unat (drop_bit 8 (Gateway r) AND 0xFF)) @ ''.'' @ dec (unat (Gateway r AND 0xFF))"

section \<open>Printing and parsing\<close>

lemma of_char_of_small: "n < 256 \<Longrightarrow> (of_char (char_of n :: char) :: nat) = n"
  by simp

lemma digit_val_dec: "d < 10 \<Longrightarrow> digit_val (char_of (48 + d)) = Some d"
  by (simp add: digit_val_def Let_def)

lemma digits_acc_append:
  "digits_acc a (xs @ ys) = (case digits_acc a xs of None \<Rightarrow> None | Some b \<Rightarrow> digits_acc b ys)"
  by (induction xs arbitrary: a) (auto split: option.splits)

lemma digits_acc_dec: "digits_acc 0 (dec n) = Some n"
proof (induction n rule: dec.induct)
  case (1 n)
  show ?case
  proof (cases "n < 10")
    case True
    then show ?thesis by (simp add: dec.simps [of n] digit_val_dec)
  next
    case False
    then show ?thesis
      using 1 by (simp add: dec.simps [of n] digits_acc_append digit_val_dec)
  qed
qed

lemma dec_nonempty [simp]: "dec n \<noteq> []"
  by (simp add: dec.simps)

lemma parse_digits_dec [simp]: "parse_digits (dec n) = Some n"
  by (simp add: parse_digits_def digits_acc_dec)

lemma dec_digits: "c \<in> set (dec n) \<Longrightarrow> digit_val c \<noteq> None"
proof (induction n rule: dec.induct)
  case (1 n)
  then show ?case
    by (cases "n < 10") (auto simp: dec.simps [of n] digit_val_dec)
qed

lemma dec_no_sep:
  "CHR ''.'' \<notin> set (dec n)" "CHR '':'' \<notin> set (dec n)" "CHR ''+'' \<notin> set (dec n)" "CHR ''-'' \<notin> set (dec n)"
  using dec_digits [of "CHR ''.''" n] dec_digits [of "CHR '':''" n]
    dec_digits [of "CHR ''+''" n] dec_digits [of "CHR ''-''" n]
  by (auto simp: digit_val_def Let_def)

lemma dec_head: "\<exists>c cs. dec n = c # cs \<and> c \<noteq> CHR ''+'' \<and> c \<noteq> CHR ''-''"
  using dec_nonempty [of n] dec_no_sep [of n] by (cases "dec n") auto

lemma ParseInt_dec: "n < 2 ^ (bits - 1) \<Longrightarrow> ParseInt bits (dec n) = Some (int n)"
proof -
  assume n: "n < 2 ^ (bits - 1)"
  obtain c cs where c: "dec n = c # cs" "c \<noteq> CHR ''+''" "c \<noteq> CHR ''-''" using dec_head by blast
  then have "parse_digits (c # cs) = Some n" using parse_digits_dec [of n] by simp
  then show ?thesis using n c by (simp add: ParseInt_def)
qed

lemma ParseUint_dec: "n < 2 ^ bits \<Longrightarrow> ParseUint bits (dec n) = Some n"
  by (simp add: ParseUint_def)

lemma go_split_single: "c \<notin> set x \<Longrightarrow> go_split c x = [x]"
  by (induction x) auto

lemma go_split_cons: "c \<notin> set x \<Longrightarrow> go_split c (x @ c # ys) = x # go_split c ys"
  by (induction x) auto

lemma go_split_nonempty [simp]: "go_split c s \<noteq> []"
  by (induction s) (auto split: list.splits)

section \<open>IPv4 addresses\<close>

text \<open>Each step of the loop shifts the next octet in.\<close>

lemma and_FF: "x AND 0xFF = take_bit 8 (x :: 'a::len word)"
  by (simp add: take_bit_eq_mask mask_eq_decr_exp)

lemma octet_step:
  "push_bit 8 (drop_bit (n + 8) x) OR take_bit 8 (drop_bit n x) = drop_bit n (x :: 'a::len word)"
proof (rule bit_eqI)
  fix k
  show "bit (push_bit 8 (drop_bit (n + 8) x) OR take_bit 8 (drop_bit n x)) k
      \<longleftrightarrow> bit (drop_bit n x) k"
    using bit_imp_le_length [of x "n + k"]
    by (cases "k < 8") (auto simp: bit_simps add.assoc)
qed

lemma octet_bound: "unat (take_bit 8 (x :: 'a::len word)) < 256"
proof -
  have "unat (take_bit 8 x) = unat x mod 256"
    unfolding unsigned_take_bit_eq by (simp add: take_bit_eq_mod)
  then show ?thesis by simp
qed

lemma ip_octets:
  "push_bit 8 (push_bit 8 (push_bit 8 (drop_bit 24 ip) OR take_bit 8 (drop_bit 16 ip))
     OR take_bit 8 (drop_bit 8 ip)) OR take_bit 8 ip = (ip :: u32)"
  using octet_step [of 16 ip] octet_step [of 8 ip] octet_step [of 0 ip] by simp

lemma ip_loop_dec:
  "unat v < 256 \<Longrightarrow> ip_loop (dec (unat v) # ts) IP = ip_loop ts (push_bit 8 IP OR (v :: u32))"
  by (simp add: ParseInt_dec)

lemma split_ip:
  "go_split CHR ''.'' (dec a @ ''.'' @ dec b @ ''.'' @ dec c @ ''.'' @ dec d) =
     [dec a, dec b, dec c, dec d]"
  by (simp add: go_split_cons go_split_single dec_no_sep)

lemma drop_bit_24_bound: "unat (drop_bit 24 (x :: u32)) < 256"
  using unsigned_less [of x, where 'a = nat] by (simp add: unat_drop_bit_div less_mult_imp_div_less)

lemma IpV4toUint32_print: "IpV4toUint32 (Uint32toIpV4 ip) = Inr ip"
  unfolding IpV4toUint32_def Uint32toIpV4_def and_FF split_ip Let_def
  using ip_octets [of ip]
  by (simp add: ip_loop_dec octet_bound drop_bit_24_bound del: ip_loop.simps(2))

section \<open>Masks\<close>

lemma mask_loop_le: "i \<le> 32 \<Longrightarrow> mask_loop x i m \<le> 32"
  by (induction x i m rule: mask_loop.induct) (simp add: mask_loop.simps)

text \<open>The moving mask is bit \<open>31 - i\<close>, so the loop counts leading ones.\<close>

lemma mask_loop_step:
  assumes "i < 32"
  shows "mask_loop x i (2 ^ (31 - i)) =
    (if bit x (31 - i) then mask_loop x (i + 1) (drop_bit 1 (2 ^ (31 - i))) else i)"
  using assms by (simp add: mask_loop.simps [of x i] and_exp_eq_0_iff_not_bit)

lemma drop_bit_exp: "i < 31 \<Longrightarrow> drop_bit (Suc 0) (2 ^ (31 - i) :: u32) = 2 ^ (31 - Suc i)"
  by (auto simp: drop_bit_exp_eq)

lemma mask_loop_leading:
  assumes "i \<le> n" "n \<le> 32" "\<And>k. i \<le> k \<Longrightarrow> k < n \<Longrightarrow> bit x (31 - k)" "n < 32 \<Longrightarrow> \<not> bit x (31 - n)"
  shows "i < 32 \<Longrightarrow> mask_loop x i (2 ^ (31 - i)) = n"
  using assms
proof (induction "32 - i" arbitrary: i)
  case 0
  then show ?case by simp
next
  case (Suc d)
  show ?case
  proof (cases "i = n")
    case True
    then show ?thesis using Suc.prems mask_loop_step [of i x] by simp
  next
    case False
    then have b: "bit x (31 - i)" using Suc.prems by simp
    show ?thesis
    proof (cases "i = 31")
      case True
      then show ?thesis
        using Suc.prems False b mask_loop_step [of i x] by (simp add: mask_loop.simps [of x 32])
    next
      case f: False
      then have "mask_loop x (Suc i) (2 ^ (31 - Suc i)) = n"
        using Suc False by (intro Suc.hyps(1)) auto
      then show ?thesis
        using Suc.prems f b mask_loop_step [of i x] drop_bit_exp [of i] by simp
    qed
  qed
qed

lemma unat_MaskBitLen:
  assumes "n \<le> 32" "\<And>k. k < n \<Longrightarrow> bit x (31 - k)" "n < 32 \<Longrightarrow> \<not> bit x (31 - n)"
  shows "MaskBitLen x = of_nat n"
  using mask_loop_leading [of 0 n x] assms by (simp add: MaskBitLen_def)

lemma bit_FFFFFFFF: "bit (0xFFFFFFFF :: u32) k \<longleftrightarrow> k < 32"
proof -
  have "(0xFFFFFFFF :: u32) = - 1" by simp
  then show ?thesis by (simp only: bit_minus_1_iff) simp
qed

lemma bit_prefix_mask: "unat n \<le> 32 \<Longrightarrow> bit (prefix_mask n) k \<longleftrightarrow> 32 - unat n \<le> k \<and> k < 32"
proof -
  assume "unat n \<le> 32"
  then have "unat (32 - n) = 32 - unat n"
    by (subst unat_sub) (auto simp: word_le_nat_alt)
  then show ?thesis
    unfolding prefix_mask_def bit_push_bit_iff bit_FFFFFFFF by auto
qed

lemma MaskBitLen_prefix_mask: "unat n \<le> 32 \<Longrightarrow> MaskBitLen (prefix_mask n) = n"
proof -
  assume n: "unat n \<le> 32"
  have "MaskBitLen (prefix_mask n) = of_nat (unat n)"
    using n by (intro unat_MaskBitLen) (auto simp: bit_prefix_mask)
  then show ?thesis by simp
qed

section \<open>MAC addresses\<close>

lemma hex_val_digit: "d < 16 \<Longrightarrow> hex_val (hex_digit d) = Some d"
  by (auto simp: hex_val_def hex_digit_def Let_def)

lemma hex_digit_not_blank: "d < 16 \<Longrightarrow> \<not> is_blank (hex_digit d)"
  by (auto simp: is_blank_def hex_digit_def)

lemma unat_u8_div: "unat (b :: u8) div 16 < 16"
  using unat_u8_less [of b] by linarith

lemma hex_run_stop: "hex_val c = None \<Longrightarrow> hex_run a (c # cs) = (a, c # cs)"
  by simp

lemma scan_hex_byte_hex2:
  assumes "rest = [] \<or> hex_val (hd rest) = None"
  shows "scan_hex_byte (hex2 b @ rest) = Some (b, rest)"
proof -
  have "hex_run (unat b) rest = (unat b, rest)" using assms by (cases rest) auto
  then show ?thesis
    by (simp add: scan_hex_byte_def hex2_def hex_digit_not_blank hex_val_digit unat_u8_div
        mult_div_mod_eq Let_def)
qed

lemma scan_mac_colon: "scan_mac (Suc (Suc n)) (hex2 b @ CHR '':'' # cs) =
    map_option (Cons b) (scan_mac (Suc n) cs)"
  by (subst scan_mac.simps) (simp add: scan_hex_byte_hex2 hex_val_def Let_def)

lemma scan_mac_last: "scan_mac (Suc 0) (hex2 b) = Some [b]"
  using scan_hex_byte_hex2 [of "[]" b] by simp

lemma scan_mac_print: "scan_mac 6 (Uint64ToMacStr mac) = Some (take 6 (PutUint64_le mac))"
proof -
  have "take 6 (PutUint64_le mac) = map ((!) (PutUint64_le mac)) [0..<6]"
    by (intro nth_equalityI) auto
  then show ?thesis
    by (simp add: Uint64ToMacStr_def Let_def numeral_eq_Suc scan_mac_colon scan_mac_last upt_rec
        del: scan_mac.simps(2))
qed

lemma unat_le_get_take:
  assumes "length bs = 8"
  shows "Uint64_le (take 6 bs @ [0, 0]) = take_bit 48 (Uint64_le bs)"
proof -
  have split: "le_get bs = le_get (take 6 bs) + 256 ^ 6 * le_get (drop 6 bs)"
    using le_get_append [of "take 6 bs" "drop 6 bs"] assms by simp
  have "le_get (take 6 bs) < 256 ^ 6"
    using le_get_bound [of "take 6 bs"] assms by simp
  then have "le_get (take 6 bs) = le_get bs mod 2 ^ 48"
    by (simp add: split)
  then show ?thesis
    using assms by (simp add: Uint64_le_def le_get_append take_bit_of_nat take_bit_eq_mod [where 'a = nat]
        flip: take_bit_eq_mod)
qed

section \<open>Properties\<close>

text \<open>IPv4 addresses survive printing and parsing, in \<open>common\<close> and in the copies of \<open>config\<close>;
  the text every package produces for an address is the same.\<close>

lemma ipv4_roundtrip:
  "IpV4toUint32 (Uint32toIpV4 ip) = Inr ip \<and>
   config_IpV4toUint32 (config_Uint32toIpV4 ip) = Inr ip \<and>
   IpV4toUint32 (uint2IpV4 ip) = Inr ip \<and>
   IpV4toUint32 (GetGw \<lparr>Destination = d, Mask = m, Gateway = ip\<rparr>) = Inr ip"
  using IpV4toUint32_print [of ip]
  by (simp add: IpV4toUint32_def Uint32toIpV4_def config_IpV4toUint32_def config_Uint32toIpV4_def
      uint2IpV4_def GetGw_def)

text \<open>The socket address printed by the transport is read back by \<open>ExtractAddrFromStr\<close>: the same
  address and port on a little-endian machine, for every port that fits the signed 32-bit parser.\<close>

lemma ExtractAddr_roundtrip:
  assumes "port < 2 ^ 31"
  shows "ExtractAddrFromStr True (Uint32toIpV4 ip @ '':'' @ dec port) = Inr (ip, of_nat port)"
proof -
  have "CHR '':'' \<notin> set (Uint32toIpV4 ip)"
    by (simp add: Uint32toIpV4_def dec_no_sep)
  then have "go_split CHR '':'' (Uint32toIpV4 ip @ '':'' @ dec port) = [Uint32toIpV4 ip, dec port]"
    by (simp add: go_split_cons go_split_single dec_no_sep)
  then show ?thesis
    unfolding ExtractAddrFromStr_def Let_def
    using assms by (simp add: IpV4toUint32_print ParseInt_dec)
qed

text \<open>\<open>IpV4toUint32\<close> does not check that the parts are octets: it accepts parts outside 0..255 and
  lets them spill into the neighbouring octets.\<close>

lemma IpV4toUint32_accepts_non_octets:
  "IpV4toUint32 ''10.0.0.256'' = Inr 0x0A000100 \<and> IpV4toUint32 ''0.0.0.-1'' = Inr 0xFFFFFFFF"
  by (simp add: IpV4toUint32_def ParseInt_def parse_digits_def digit_val_def Let_def push_bit_eq_mult)

text \<open>\<open>MaskBitLen\<close> inverts the mask the services build from a prefix length, for all 33 lengths.\<close>

lemma MaskBitLen_inverts_prefix:
  "unat n \<le> 32 \<Longrightarrow> MaskBitLen (prefix_mask n) = n"
  by (rule MaskBitLen_prefix_mask)

text \<open>MAC addresses survive printing and parsing: the 48 bits the text holds come back.\<close>

lemma mac_roundtrip: "MacStrToUint64 (Uint64ToMacStr mac) = Inr (take_bit 48 mac)"
  by (simp add: MacStrToUint64_def scan_mac_print unat_le_get_take)

text \<open>\<open>IsUniCast\<close> compares the whole address with the constant \<open>0x01005E\<close>: an IPv4 multicast
  destination \<open>01:00:5E:x:y:z\<close>, read from a frame the way \<open>tapData2Net\<close> reads it, is never recognised as
  multicast and always counts as unicast (the broadcast address does not).\<close>

lemma multicast_counts_as_unicast:
  "IsUniCast (Uint64_le [0x01, 0x00, 0x5E, x, y, z, 0, 0]) \<and>
   \<not> IsMulticastMac (Uint64_le [0x01, 0x00, 0x5E, x, y, z, 0, 0]) \<and>
   \<not> IsUniCast (Uint64_le [0xFF, 0xFF, 0xFF, 0xFF, 0xFF, 0xFF, 0, 0])"
proof -
  let ?mac = "Uint64_le [0x01, 0x00, 0x5E, x, y, z, 0, 0]"
  have "ucast ?mac = (0x01 :: u8)" by (simp add: ucast_Uint64_le)
  moreover have "ucast MacBroadcast = (0xFF :: u8)" "ucast MacMulticast = (0x5E :: u8)"
    by (simp_all add: MacBroadcast_def MacMulticast_def)
  ultimately have "?mac \<noteq> MacBroadcast" "?mac \<noteq> MacMulticast" by auto
  then show ?thesis
    by (simp add: IsUniCast_def IsMulticastMac_def)
      (simp add: Uint64_le_def MacBroadcast_def)
qed

end
