(* ===== verification/Crypt.thy ===== *)
theory Crypt
  imports VPrelude
begin

text \<open>
  The payload ciphers of \<open>common/security.go\<close>: padding, CBC chaining for AES, block-by-block DES, the string
  functions, RSA with its key files, and the interface \<open>Crypt\<close>. The block functions of AES and DES and the RSA
  library are parameters of which only the documented laws are used; the modes of \<open>crypto/cipher\<close>, with the
  run-time checks that make them panic, are modelled.
\<close>

section \<open>Block ciphers and modes\<close>

record block_cipher =
  bc_size :: nat
  bc_enc :: "bytes \<Rightarrow> bytes \<Rightarrow> bytes"   \<comment> \<open>key, block\<close>
  bc_dec :: "bytes \<Rightarrow> bytes \<Rightarrow> bytes"

text \<open>What a block cipher promises for a key it accepts.\<close>

definition lawful :: "block_cipher \<Rightarrow> bytes \<Rightarrow> bool" where
  "lawful b k \<longleftrightarrow> 0 < bc_size b \<and> bc_size b < 256 \<and>
     (\<forall>x. length x = bc_size b \<longrightarrow> length (bc_enc b k x) = bc_size b \<and> length (bc_dec b k x) = bc_size b \<and>
        bc_dec b k (bc_enc b k x) = x)"

definition xor_bytes :: "bytes \<Rightarrow> bytes \<Rightarrow> bytes" where
  "xor_bytes xs ys = map2 (XOR) xs ys"

function cbc_encrypt :: "nat \<Rightarrow> (bytes \<Rightarrow> bytes) \<Rightarrow> bytes \<Rightarrow> bytes \<Rightarrow> bytes" where
  "cbc_encrypt n E iv xs =
     (if n = 0 \<or> length xs < n then []
      else let c = E (xor_bytes (take n xs) iv) in c @ cbc_encrypt n E c (drop n xs))"
  by pat_completeness auto
termination by (relation "measure (\<lambda>(n, E, iv, xs). length xs)") auto

function cbc_decrypt :: "nat \<Rightarrow> (bytes \<Rightarrow> bytes) \<Rightarrow> bytes \<Rightarrow> bytes \<Rightarrow> bytes" where
  "cbc_decrypt n D iv xs =
     (if n = 0 \<or> length xs < n then []
      else xor_bytes (D (take n xs)) iv @ cbc_decrypt n D (take n xs) (drop n xs))"
  by pat_completeness auto
termination by (relation "measure (\<lambda>(n, D, iv, xs). length xs)") auto

declare cbc_encrypt.simps [simp del] cbc_decrypt.simps [simp del]

text \<open>\<open>NewCBCEncrypter\<close> and \<open>CryptBlocks\<close>: the initial vector must have the block size, the input must be a
  whole number of blocks and fit into the output.\<close>

definition cbc_blocks :: "(nat \<Rightarrow> (bytes \<Rightarrow> bytes) \<Rightarrow> bytes \<Rightarrow> bytes \<Rightarrow> bytes) \<Rightarrow> nat \<Rightarrow> (bytes \<Rightarrow> bytes) \<Rightarrow> bytes \<Rightarrow>
    bytes \<Rightarrow> bytes \<Rightarrow> bytes go" where
  "cbc_blocks mode n f iv dst src =
     (if length iv \<noteq> n then Panicked StdlibPanic
      else if length src mod n \<noteq> 0 \<or> length dst < length src then Panicked StdlibPanic
      else Done (mode n f iv src @ drop (length src) dst))"

section \<open>AES\<close>

record AesCrypt =
  ac_keyByte :: bytes
  ac_block :: block_cipher

definition padding :: "nat \<Rightarrow> nat \<Rightarrow> nat" where
  "padding blockSize dataLen = blockSize - dataLen mod blockSize"

definition padded :: "nat \<Rightarrow> bytes \<Rightarrow> bytes" where
  "padded blockSize src = (let p = padding blockSize (length src) in src @ replicate p (of_nat p))"

text \<open>The key length: the second test repeats the first, so 24 is never chosen.\<close>

definition aes_key :: "bytes \<Rightarrow> bytes" where
  "aes_key data = (let k = length data;
       keyLen = (if k \<le> 16 then 16 else if k \<le> 16 then 24 else 32)
     in go_copy (replicate keyLen 0) 0 data)"

definition NewAesCrypt :: "block_cipher \<Rightarrow> bytes \<Rightarrow> AesCrypt option" where
  "NewAesCrypt aes key = (if key = [] then None else Some \<lparr>ac_keyByte = aes_key key, ac_block = aes\<rparr>)"

datatype crypt_error = DstTooSmall | NotFullBlocks | RsaFailed

definition aes_Encode :: "AesCrypt \<Rightarrow> bytes \<Rightarrow> bytes \<Rightarrow> (crypt_error + int \<times> bytes) go" where
  "aes_Encode a src dst =
     (let n = bc_size (ac_block a); src1 = padded n src in
      if length dst < length src1 then Done (Inl DstTooSmall)
      else go_map (\<lambda>d. Inr (int (length src1), d))
             (cbc_blocks cbc_encrypt n (bc_enc (ac_block a) (ac_keyByte a)) (ac_keyByte a) dst src1))"

text \<open>\<open>Decode\<close> recovers from every panic; the caller then sees the zero results. The contents of the output
  after a panic are those before it.\<close>

definition aes_Decode :: "AesCrypt \<Rightarrow> bytes \<Rightarrow> bytes \<Rightarrow> crypt_error + int \<times> bytes" where
  "aes_Decode a src dst = go_recover
     (go_bind (cbc_blocks cbc_decrypt (bc_size (ac_block a)) (bc_dec (ac_block a) (ac_keyByte a)) (ac_keyByte a) dst src)
       (\<lambda>d. go_map (\<lambda>u. Inr (int (length src) - int (unat u), d)) (go_nth d (int (length src) - 1))))
     (Inr (0, dst))"

section \<open>DES\<close>

record DesCrypt =
  dc_keyByte :: bytes
  dc_block :: block_cipher

definition NewDesCrypt :: "block_cipher \<Rightarrow> bytes \<Rightarrow> DesCrypt option" where
  "NewDesCrypt des key = (if key = [] then None else Some \<lparr>dc_keyByte = go_copy (replicate 8 0) 0 key, dc_block = des\<rparr>)"

text \<open>The loop over the blocks of \<open>src\<close>; \<open>block.Encrypt\<close> panics when the rest of the output is shorter than a
  block. A last partial block would be a slice out of range.\<close>

function des_loop :: "nat \<Rightarrow> (bytes \<Rightarrow> bytes) \<Rightarrow> bytes \<Rightarrow> nat \<Rightarrow> bytes \<Rightarrow> (nat \<times> bytes) go" where
  "des_loop n f dst offset src =
     (if src = [] \<or> n = 0 then Done (offset, dst)
      else if length src < n then Panicked SliceOutOfRange
      else if length dst < offset + n then Panicked StdlibPanic
      else des_loop n f (go_copy dst offset (f (take n src))) (offset + n) (drop n src))"
  by pat_completeness auto
termination by (relation "measure (\<lambda>(n, f, dst, offset, src). length src)") auto

declare des_loop.simps [simp del]

definition des_Encode :: "DesCrypt \<Rightarrow> bytes \<Rightarrow> bytes \<Rightarrow> (crypt_error + int \<times> bytes) go" where
  "des_Encode d src dst =
     (let n = bc_size (dc_block d); src1 = padded n src in
      if length src1 mod n \<noteq> 0 then Done (Inl NotFullBlocks)
      else go_map (\<lambda>(offset, out). Inr (int offset, out)) (des_loop n (bc_enc (dc_block d) (dc_keyByte d)) dst 0 src1))"

definition des_Decode :: "DesCrypt \<Rightarrow> bytes \<Rightarrow> bytes \<Rightarrow> (crypt_error + int \<times> bytes) go" where
  "des_Decode d src dst =
     (let n = bc_size (dc_block d) in
      if length src mod n \<noteq> 0 then Done (Inl NotFullBlocks)
      else go_bind (des_loop n (bc_dec (dc_block d) (dc_keyByte d)) dst 0 src) (\<lambda>(offset, out).
        go_map (\<lambda>u. Inr (int offset - int (unat u), out)) (go_nth out (int offset - 1))))"

section \<open>RSA\<close>

text \<open>The library: key generation, the PEM and X.509 encodings and the PKCS1 scheme. Keys are opaque. A parsed
  public key that is not an RSA key is \<open>Some None\<close>.\<close>

type_synonym rsa_key = nat

record rsa_lib =
  rl_generate :: "(bytes \<times> bytes option) option"  \<comment> \<open>the marshalled private and public key\<close>
  rl_pem_encode :: "string \<Rightarrow> bytes \<Rightarrow> bytes option"
  rl_pem_decode :: "bytes \<Rightarrow> bytes option"
  rl_ParsePKIXPublicKey :: "bytes \<Rightarrow> rsa_key option option"
  rl_ParsePKCS1PrivateKey :: "bytes \<Rightarrow> rsa_key option"
  rl_EncryptPKCS1v15 :: "rsa_key \<Rightarrow> bytes \<Rightarrow> bytes option"
  rl_DecryptPKCS1v15 :: "rsa_key \<Rightarrow> bytes \<Rightarrow> bytes option"

text \<open>The working directory: the readable files and the names a file can be created under.\<close>

record key_dir =
  kd_files :: "string \<rightharpoonup> bytes"
  kd_creatable :: "string \<Rightarrow> bool"

record RsaCrypt =
  rc_privateKey :: rsa_key
  rc_publicKey :: rsa_key
  rc_lib :: rsa_lib

definition privateKeyFile :: string where "privateKeyFile = ''rsa_private.pem''"
definition publicKeyFile :: string where "publicKeyFile = ''ras_public.pem''"
definition privateKeyPrefix :: string where "privateKeyPrefix = ''RSA PRIVATE KEY''"
definition publicKeyPrefix :: string where "publicKeyPrefix = ''RSA PUBLIC KEY''"

text \<open>\<open>os.Create\<close> followed by \<open>pem.Encode\<close>; writing to a file that could not be created is an error too.\<close>

definition create_pem :: "rsa_lib \<Rightarrow> string \<Rightarrow> string \<Rightarrow> bytes \<Rightarrow> key_dir \<Rightarrow> key_dir \<times> bool" where
  "create_pem lib name prefix key dir =
     (if \<not> kd_creatable dir name then (dir, False)
      else case rl_pem_encode lib prefix key of
        None \<Rightarrow> (dir\<lparr>kd_files := (kd_files dir)(name \<mapsto> [])\<rparr>, False)
      | Some data \<Rightarrow> (dir\<lparr>kd_files := (kd_files dir)(name \<mapsto> data)\<rparr>, True))"

definition CreateRsaKey :: "rsa_lib \<Rightarrow> key_dir \<Rightarrow> key_dir \<times> bool" where
  "CreateRsaKey lib dir =
     (case rl_generate lib of
        None \<Rightarrow> (dir, False)
      | Some (x509PrivateKey, public) \<Rightarrow>
          (let (dir1, ok) = create_pem lib privateKeyFile privateKeyPrefix x509PrivateKey dir in
           if \<not> ok then (dir1, False)
           else case public of
             None \<Rightarrow> (dir1, False)
           | Some x509PublicKey \<Rightarrow> create_pem lib publicKeyFile publicKeyPrefix x509PublicKey dir1))"

text \<open>The keys of the two files, in the order the constructor reads and parses them; the type assertion on the
  public key panics.\<close>

definition load_keys :: "rsa_lib \<Rightarrow> key_dir \<Rightarrow> RsaCrypt option go" where
  "load_keys lib dir =
     (case (kd_files dir privateKeyFile, kd_files dir publicKeyFile) of
        (Some privateKeyBytes, Some publicKeyBytes) \<Rightarrow>
          (case Option.bind (rl_pem_decode lib publicKeyBytes) (rl_ParsePKIXPublicKey lib) of
             None \<Rightarrow> Done None
           | Some None \<Rightarrow> Panicked AssertFailed
           | Some (Some pub) \<Rightarrow>
               (case Option.bind (rl_pem_decode lib privateKeyBytes) (rl_ParsePKCS1PrivateKey lib) of
                  None \<Rightarrow> Done None
                | Some priv \<Rightarrow> Done (Some \<lparr>rc_privateKey = priv, rc_publicKey = pub, rc_lib = lib\<rparr>)))
      | _ \<Rightarrow> Done None)"

definition NewRsaCrypt :: "rsa_lib \<Rightarrow> key_dir \<Rightarrow> key_dir \<times> RsaCrypt option go" where
  "NewRsaCrypt lib dir =
     (let (dir1, ok) = (if kd_files dir publicKeyFile = None then CreateRsaKey lib dir else (dir, True))
      in (dir1, if ok then load_keys lib dir1 else Done None))"

definition rsa_Encode :: "RsaCrypt \<Rightarrow> bytes \<Rightarrow> bytes \<Rightarrow> (crypt_error + int \<times> bytes) go" where
  "rsa_Encode r src dst =
     (case rl_EncryptPKCS1v15 (rc_lib r) (rc_publicKey r) src of
        None \<Rightarrow> Done (Inl RsaFailed)
      | Some cipherText \<Rightarrow> Done (Inr (int (length cipherText), go_copy dst 0 cipherText)))"

definition rsa_Decode :: "RsaCrypt \<Rightarrow> bytes \<Rightarrow> bytes \<Rightarrow> (crypt_error + int \<times> bytes) go" where
  "rsa_Decode r src dst =
     (case rl_DecryptPKCS1v15 (rc_lib r) (rc_privateKey r) src of
        None \<Rightarrow> Done (Inl RsaFailed)
      | Some plainText \<Rightarrow> Done (Inr (int (length plainText), go_copy dst 0 plainText)))"

section \<open>The interface\<close>

text \<open>A value of the interface type \<open>Crypt\<close> that is not nil: its dynamic type and a pointer, which may be nil. A
  method called on a nil pointer panics at its first field access; the AES decoder recovers from that too.\<close>

datatype Crypt =
    AesRef "AesCrypt option"
  | DesRef "DesCrypt option"
  | RsaRef "RsaCrypt option"

definition crypt_Encode :: "Crypt \<Rightarrow> bytes \<Rightarrow> bytes \<Rightarrow> (crypt_error + int \<times> bytes) go" where
  "crypt_Encode c src dst = (case c of
     AesRef (Some a) \<Rightarrow> aes_Encode a src dst
   | DesRef (Some d) \<Rightarrow> des_Encode d src dst
   | RsaRef (Some r) \<Rightarrow> rsa_Encode r src dst
   | _ \<Rightarrow> Panicked NilDeref)"

definition crypt_Decode :: "Crypt \<Rightarrow> bytes \<Rightarrow> bytes \<Rightarrow> (crypt_error + int \<times> bytes) go" where
  "crypt_Decode c src dst = (case c of
     AesRef (Some a) \<Rightarrow> Done (aes_Decode a src dst)
   | AesRef None \<Rightarrow> Done (Inr (0, dst))
   | DesRef (Some d) \<Rightarrow> des_Decode d src dst
   | RsaRef (Some r) \<Rightarrow> rsa_Decode r src dst
   | _ \<Rightarrow> Panicked NilDeref)"

record crypt_lib =
  cl_aes :: block_cipher
  cl_des :: block_cipher
  cl_rsa :: "RsaCrypt option"   \<comment> \<open>what \<open>NewRsaCrypt\<close> returns\<close>

section \<open>Strings\<close>

definition AesEncrypt :: "block_cipher \<Rightarrow> bytes \<Rightarrow> bytes \<Rightarrow> bytes" where
  "AesEncrypt aes plantText key = go_recover
     (let k = aes_key key; n = bc_size aes; d = padded n plantText in
      go_bind (go_slice k 0 (int n)) (\<lambda>iv. cbc_blocks cbc_encrypt n (bc_enc aes k) iv (replicate (length d) 0) d)) []"

definition AesDecrypt :: "block_cipher \<Rightarrow> bytes \<Rightarrow> bytes \<Rightarrow> bytes" where
  "AesDecrypt aes cipherText key = go_recover
     (let k = aes_key key; n = bc_size aes in
      go_bind (go_slice k 0 (int n)) (\<lambda>iv.
      go_bind (cbc_blocks cbc_decrypt n (bc_dec aes k) iv (replicate (length cipherText) 0) cipherText) (\<lambda>d.
      go_bind (go_nth d (int (length d) - 1)) (\<lambda>u. go_slice d 0 (int (length d) - int (unat u)))))) []"

section \<open>Facts about the modes\<close>

lemma length_xor_bytes [simp]: "length (xor_bytes xs ys) = min (length xs) (length ys)"
  by (simp add: xor_bytes_def)

lemma xor_xor_bytes [simp]: "length xs = length ys \<Longrightarrow> xor_bytes (xor_bytes xs ys) ys = xs"
  by (induction xs ys rule: list_induct2) (simp_all add: xor_bytes_def xor.assoc)

lemma lawfulD:
  assumes "lawful b k"
  shows "0 < bc_size b" "bc_size b < 256"
    "length x = bc_size b \<Longrightarrow> length (bc_enc b k x) = bc_size b"
    "length x = bc_size b \<Longrightarrow> bc_dec b k (bc_enc b k x) = x"
  using assms by (simp_all add: lawful_def)

lemma cbc_roundtrip:
  assumes "lawful b k" "length iv = bc_size b" "length xs = m * bc_size b"
  shows "length (cbc_encrypt (bc_size b) (bc_enc b k) iv xs) = m * bc_size b \<and>
    cbc_decrypt (bc_size b) (bc_dec b k) iv (cbc_encrypt (bc_size b) (bc_enc b k) iv xs) = xs"
  using assms(2,3)
proof (induction m arbitrary: iv xs)
  case 0
  then show ?case by (simp add: cbc_encrypt.simps [of _ _ _ "[]"] cbc_decrypt.simps [of _ _ _ "[]"] lawfulD(1) [OF assms(1)])
next
  case (Suc m)
  note law = lawfulD [OF assms(1)]
  define c where "c = bc_enc b k (xor_bytes (take (bc_size b) xs) iv)"
  define r where "r = cbc_encrypt (bc_size b) (bc_enc b k) c (drop (bc_size b) xs)"
  have c: "length c = bc_size b" "bc_dec b k c = xor_bytes (take (bc_size b) xs) iv"
    using Suc.prems law by (simp_all add: c_def)
  have e: "cbc_encrypt (bc_size b) (bc_enc b k) iv xs = c @ r"
    using Suc.prems law(1) by (simp add: cbc_encrypt.simps [of _ _ iv] c_def r_def Let_def)
  have "length r = m * bc_size b \<and> cbc_decrypt (bc_size b) (bc_dec b k) c r = drop (bc_size b) xs"
    unfolding r_def by (rule Suc.IH) (use c Suc.prems in simp_all)
  moreover have "cbc_decrypt (bc_size b) (bc_dec b k) iv (c @ r) =
      xor_bytes (bc_dec b k c) iv @ cbc_decrypt (bc_size b) (bc_dec b k) c r"
    using c law(1) by (simp add: cbc_decrypt.simps [of _ _ iv])
  ultimately show ?case using e c Suc.prems by simp
qed

lemma length_padded:
  assumes "0 < n"
  shows "length (padded n src) = (length src div n + 1) * n" "length src < length (padded n src)"
proof -
  have l: "length (padded n src) = length src + (n - length src mod n)"
    by (simp add: padded_def padding_def Let_def)
  have "length src mod n < n" using assms by simp
  moreover have "length src div n * n + length src mod n = length src" by (rule div_mult_mod_eq)
  ultimately have "length src + (n - length src mod n) = length src div n * n + n" by linarith
  then show "length (padded n src) = (length src div n + 1) * n" using l by (simp add: algebra_simps)
  show "length src < length (padded n src)" using l \<open>length src mod n < n\<close> by simp
qed

text \<open>The last byte of a padded block tells how much to drop.\<close>

lemma padded_last:
  assumes "0 < n" "n < 256"
  shows "int (length (padded n src)) - int (unat (padded n src ! (length (padded n src) - 1))) = int (length src)"
proof -
  define p where "p = n - length src mod n"
  have p: "0 < p" "p < 256" using assms by (simp_all add: p_def less_imp_diff_less)
  have e: "padded n src = src @ replicate p (of_nat p)" by (simp add: padded_def padding_def p_def Let_def)
  have "unat (of_nat p :: u8) = p" using p by (simp add: unat_of_nat)
  moreover have "padded n src ! (length (padded n src) - 1) = of_nat p" using p by (auto simp: e nth_append)
  ultimately show ?thesis by (simp add: e)
qed

lemma take_padded [simp]: "take (length src) (padded n src) = src"
  by (simp add: padded_def Let_def)

lemma aes_key_length: "length (aes_key key) = (if length key \<le> 16 then 16 else 32)"
  by (simp add: aes_key_def Let_def)

lemma cbc_blocks_ok:
  "length iv = n \<Longrightarrow> length src = m * n \<Longrightarrow> length src \<le> length dst \<Longrightarrow>
    cbc_blocks mode n f iv dst src = Done (mode n f iv src @ drop (length src) dst)"
  by (simp add: cbc_blocks_def)

section \<open>Round trips and failures\<close>

lemma aes_encode_ok:
  assumes "NewAesCrypt aes key = Some a" "lawful aes (aes_key key)" "bc_size aes = 16" "length key \<le> 16"
    and "length (padded 16 src) \<le> length dst"
  shows "aes_Encode a src dst = Done (Inr (int (length (padded 16 src)),
    cbc_encrypt 16 (bc_enc aes (aes_key key)) (aes_key key) (padded 16 src) @ drop (length (padded 16 src)) dst))"
proof -
  have a: "a = \<lparr>ac_keyByte = aes_key key, ac_block = aes\<rparr>" using assms(1) by (simp add: NewAesCrypt_def split: if_splits)
  show ?thesis using assms(3-5)
    by (simp add: a aes_Encode_def Let_def cbc_blocks_ok [OF _ length_padded(1)] aes_key_length)
qed

lemma aes_decode_ok:
  assumes "NewAesCrypt aes key = Some a" "lawful aes (aes_key key)" "bc_size aes = 16" "length key \<le> 16"
    and "length xs = Suc m * 16" "length xs \<le> length dst"
  shows "aes_Decode a (cbc_encrypt 16 (bc_enc aes (aes_key key)) (aes_key key) xs) dst =
    Inr (int (length xs) - int (unat (xs ! (length xs - 1))), xs @ drop (length xs) dst)"
proof -
  have a: "a = \<lparr>ac_keyByte = aes_key key, ac_block = aes\<rparr>" using assms(1) by (simp add: NewAesCrypt_def split: if_splits)
  define c where "c = cbc_encrypt 16 (bc_enc aes (aes_key key)) (aes_key key) xs"
  have c: "length c = Suc m * 16" "cbc_decrypt 16 (bc_dec aes (aes_key key)) (aes_key key) c = xs"
    using cbc_roundtrip [OF assms(2), of "aes_key key" xs "Suc m"] assms(3-5) unfolding c_def
    by (simp_all add: aes_key_length)
  have "cbc_blocks cbc_decrypt 16 (bc_dec aes (aes_key key)) (aes_key key) dst c = Done (xs @ drop (length xs) dst)"
    using cbc_blocks_ok [of "aes_key key" 16 c "Suc m" dst cbc_decrypt "bc_dec aes (aes_key key)"] c assms(4-6)
    by (simp add: aes_key_length)
  moreover have "nat (15 + int m * 16) = 15 + m * 16" by linarith
  ultimately show ?thesis using assms(3,5) c(1)
    by (simp add: c_def [symmetric] a aes_Decode_def nth_append)
qed

text \<open>
  With a password of 1 to 16 bytes and an output buffer of at least the padded length, \<open>Encode\<close> succeeds and
  reports the padded length; \<open>Decode\<close> of exactly those bytes reports the length of the plaintext and leaves the
  plaintext at the start of its buffer. The same holds of DES with any password but the empty one.
\<close>

definition seals :: "Crypt \<Rightarrow> nat \<Rightarrow> bool" where
  "seals c m \<longleftrightarrow> (\<forall>src dst out. length src + m \<le> length dst \<longrightarrow> length src + m \<le> length out \<longrightarrow>
     (\<exists>n d p. crypt_Encode c src dst = Done (Inr (int n, d)) \<and> length src < n \<and> n \<le> length src + m \<and>
        length d = length dst \<and> crypt_Decode c (take n d) out = Done (Inr (int (length src), p)) \<and>
        take (length src) p = src \<and> length p = length out))"

lemma aes_seals:
  assumes "NewAesCrypt aes key = Some a" "lawful aes (aes_key key)" "bc_size aes = 16" "length key \<le> 16"
  shows "seals (AesRef (Some a)) 16"
  unfolding seals_def
proof (intro allI impI)
  fix src dst out :: bytes
  assume len: "length src + 16 \<le> length dst" "length src + 16 \<le> length out"
  define xs where "xs = padded 16 src"
  define c where "c = cbc_encrypt 16 (bc_enc aes (aes_key key)) (aes_key key) xs"
  have l: "length xs = Suc (length src div 16) * 16" "length src < length xs"
    using length_padded [of 16 src] by (simp_all add: xs_def)
  have "length xs \<le> length src + 16" by (simp add: xs_def padded_def padding_def Let_def)
  then have b: "length xs \<le> length dst" "length xs \<le> length out" "length xs \<le> length src + 16" using len by simp_all
  have "length c = length xs"
    using cbc_roundtrip [OF assms(2), of "aes_key key" xs "Suc (length src div 16)"] assms(3,4) l(1)
    by (simp add: c_def aes_key_length)
  then have e: "aes_Encode a src dst = Done (Inr (int (length xs), c @ drop (length xs) dst))"
    "take (length xs) (c @ drop (length xs) dst) = c"
    using aes_encode_ok [OF assms(1-4), of src dst] b(1) by (simp_all add: c_def xs_def)
  have "int (length xs) - int (unat (xs ! (length xs - 1))) = int (length src)"
    using padded_last [of 16 src] by (simp add: xs_def)
  moreover have "take (length src) (xs @ drop (length xs) out) = src"
    using l(2) take_padded [of src 16] by (simp add: xs_def)
  ultimately have "aes_Decode a c out = Inr (int (length src), xs @ drop (length xs) out) \<and>
      take (length src) (xs @ drop (length xs) out) = src \<and> length (xs @ drop (length xs) out) = length out"
    using aes_decode_ok [OF assms(1-4) l(1) b(2)] b(2) by (simp add: c_def)
  moreover have "length (c @ drop (length xs) dst) = length dst" using \<open>length c = length xs\<close> b(1) by simp
  ultimately show "\<exists>n d p. crypt_Encode (AesRef (Some a)) src dst = Done (Inr (int n, d)) \<and> length src < n \<and> n \<le> length src + 16 \<and>
        length d = length dst \<and> crypt_Decode (AesRef (Some a)) (take n d) out = Done (Inr (int (length src), p)) \<and>
        take (length src) p = src \<and> length p = length out"
    using e l(2) b(3) by (rule_tac x = "length xs" in exI, rule_tac x = "c @ drop (length xs) dst" in exI,
        rule_tac x = "xs @ drop (length xs) out" in exI) (simp add: crypt_Encode_def crypt_Decode_def del: take_append)
qed

text \<open>
  A password longer than 16 bytes: the constructor takes a 32-byte key and \<open>Encode\<close> hands the whole key to
  \<open>NewCBCEncrypter\<close> as the initial vector, whose length is not the block size: every \<open>Encode\<close> into a large
  enough buffer panics, and every \<open>Decode\<close> recovers from the same panic and reports an empty plaintext without an
  error.
\<close>

lemma aes_long_password_unusable:
  assumes "NewAesCrypt aes key = Some a" "bc_size aes = 16" "16 < length key"
  shows "aes_Encode a src dst = (if length dst < length (padded 16 src) then Done (Inl DstTooSmall)
      else Panicked StdlibPanic) \<and> aes_Decode a src dst = Inr (0, dst)"
proof -
  have a: "a = \<lparr>ac_keyByte = aes_key key, ac_block = aes\<rparr>" using assms(1) by (simp add: NewAesCrypt_def split: if_splits)
  show ?thesis using assms(2,3) by (simp add: a aes_Encode_def aes_Decode_def Let_def cbc_blocks_def aes_key_length)
qed

text \<open>
  \<open>Decode\<close> trusts the padding byte: for every password of 1 to 16 bytes there is a packet of one block for
  which it reports a negative length and no error.
\<close>

lemma aes_decode_negative:
  assumes "NewAesCrypt aes key = Some a" "lawful aes (aes_key key)" "bc_size aes = 16" "length key \<le> 16"
    and "16 \<le> length dst"
  shows "\<exists>src p. length src = 16 \<and> aes_Decode a src dst = Inr (- 239, p)"
proof -
  define xs :: bytes where "xs = replicate 16 255"
  have l: "length xs = Suc 0 * 16" "xs ! 15 = 255" by (simp_all add: xs_def)
  have "length (cbc_encrypt 16 (bc_enc aes (aes_key key)) (aes_key key) xs) = 16"
    using cbc_roundtrip [OF assms(2), of "aes_key key" xs "Suc 0"] assms(3,4) l by (simp add: aes_key_length)
  moreover have "aes_Decode a (cbc_encrypt 16 (bc_enc aes (aes_key key)) (aes_key key) xs) dst = Inr (- 239, xs @ drop 16 dst)"
    using aes_decode_ok [OF assms(1-4) l(1)] assms(5) l by simp
  ultimately show ?thesis by blast
qed

text \<open>DES writes block after block; \<open>des_blocks\<close> is what is written.\<close>

function des_blocks :: "nat \<Rightarrow> (bytes \<Rightarrow> bytes) \<Rightarrow> bytes \<Rightarrow> bytes" where
  "des_blocks n f src = (if n = 0 \<or> length src < n then [] else f (take n src) @ des_blocks n f (drop n src))"
  by pat_completeness auto
termination by (relation "measure (\<lambda>(n, f, src). length src)") auto

declare des_blocks.simps [simp del]

lemma des_blocks_roundtrip:
  assumes "lawful b k" "length xs = m * bc_size b"
  shows "length (des_blocks (bc_size b) (bc_enc b k) xs) = m * bc_size b \<and>
    des_blocks (bc_size b) (bc_dec b k) (des_blocks (bc_size b) (bc_enc b k) xs) = xs"
  using assms(2)
proof (induction m arbitrary: xs)
  case 0
  then show ?case by (simp add: des_blocks.simps [of _ _ "[]"] lawfulD(1) [OF assms(1)])
next
  case (Suc m)
  note law = lawfulD [OF assms(1)]
  define c where "c = bc_enc b k (take (bc_size b) xs)"
  define r where "r = des_blocks (bc_size b) (bc_enc b k) (drop (bc_size b) xs)"
  have c: "length c = bc_size b" "bc_dec b k c = take (bc_size b) xs" using Suc.prems law by (simp_all add: c_def)
  have e: "des_blocks (bc_size b) (bc_enc b k) xs = c @ r"
    using Suc.prems law(1) by (simp add: des_blocks.simps [of _ _ xs] c_def r_def)
  have "length r = m * bc_size b \<and> des_blocks (bc_size b) (bc_dec b k) r = drop (bc_size b) xs"
    unfolding r_def by (rule Suc.IH) (use Suc.prems in simp)
  moreover have "des_blocks (bc_size b) (bc_dec b k) (c @ r) = bc_dec b k c @ des_blocks (bc_size b) (bc_dec b k) r"
    using c law(1) by (simp add: des_blocks.simps [of _ _ "c @ r"])
  ultimately show ?case using e c Suc.prems by simp
qed

lemma des_loop_blocks:
  assumes "0 < n" "length src = m * n" "offset + m * n \<le> length dst"
    and "\<And>x. length x = n \<Longrightarrow> length (f x) = n"
  shows "des_loop n f dst offset src = Done (offset + m * n, go_copy dst offset (des_blocks n f src))"
  using assms(2,3)
proof (induction m arbitrary: dst offset src)
  case 0
  then show ?case using assms(1) by (simp add: des_loop.simps [of _ _ _ _ "[]"] des_blocks.simps [of _ _ "[]"] go_copy_def)
next
  case (Suc m)
  define d where "d = go_copy dst offset (f (take n src))"
  have f: "length (f (take n src)) = n" using Suc.prems assms(4) by simp
  have d: "length d = length dst" using Suc.prems by (simp add: d_def)
  have "des_loop n f dst offset src = des_loop n f d (offset + n) (drop n src)"
    using Suc.prems assms(1) by (auto simp: des_loop.simps [of n f dst] d_def)
  also have "\<dots> = Done (offset + n + m * n, go_copy d (offset + n) (des_blocks n f (drop n src)))"
    by (rule Suc.IH) (use Suc.prems d in simp_all)
  also have "go_copy d (offset + n) (des_blocks n f (drop n src)) = go_copy dst offset (des_blocks n f src)"
    using Suc.prems assms(1) f d
    by (simp add: des_blocks.simps [of n f src] go_copy_def d_def add.assoc add.commute add.left_commute)
  finally show ?case by (simp add: add.assoc)
qed

lemma des_seals:
  assumes "NewDesCrypt des key = Some d" "lawful des (dc_keyByte d)" "bc_size des = 8"
  shows "seals (DesRef (Some d)) 8"
  unfolding seals_def
proof (intro allI impI)
  fix src dst out :: bytes
  assume len: "length src + 8 \<le> length dst" "length src + 8 \<le> length out"
  define k where "k = dc_keyByte d"
  define xs where "xs = padded 8 src"
  define c where "c = des_blocks 8 (bc_enc des k) xs"
  define n where "n = length xs"
  have d: "dc_block d = des" using assms(1) by (auto simp: NewDesCrypt_def split: if_splits)
  have l: "n = Suc (length src div 8) * 8" "length src < n" "n \<le> length src + 8"
    using length_padded [of 8 src] by (simp_all add: n_def xs_def padded_def padding_def Let_def)
  have c: "length c = n" "des_blocks 8 (bc_dec des k) c = xs"
    using des_blocks_roundtrip [OF assms(2), of xs "Suc (length src div 8)"] assms(3) l(1)
    by (simp_all add: c_def k_def n_def)
  have "des_loop 8 (bc_enc des k) dst 0 xs = Done (n, go_copy dst 0 c)"
    using des_loop_blocks [of 8 xs "Suc (length src div 8)" 0 dst "bc_enc des k"] l assms(2,3) len
    by (auto simp: n_def c_def k_def lawful_def)
  then have e: "des_Encode d src dst = Done (Inr (int n, go_copy dst 0 c))"
    using assms(3) l(1) by (simp add: des_Encode_def d Let_def k_def xs_def [symmetric] n_def [symmetric] split del: if_split)
  have t: "take n (go_copy dst 0 c) = c" using c(1) l(3) len(1) by (simp add: go_copy_0)
  have "des_loop 8 (bc_dec des k) out 0 c = Done (n, go_copy out 0 xs)"
    using des_loop_blocks [of 8 c "Suc (length src div 8)" 0 out "bc_dec des k"] l c assms(2,3) len
    by (auto simp: k_def lawful_def)
  moreover have o: "go_copy out 0 xs = xs @ drop n out" using l(3) len(2) by (simp add: go_copy_0 n_def)
  moreover have "go_nth (xs @ drop n out) (int n - 1) = Done (xs ! (n - 1))"
    using l(2) by (auto simp: go_nth_def n_def nth_append nat_diff_distrib)
  moreover have "int n - int (unat (xs ! (n - 1))) = int (length src)"
    using padded_last [of 8 src] by (simp add: xs_def n_def)
  ultimately have "des_Decode d c out = Done (Inr (int (length src), xs @ drop n out))"
    using assms(3) c(1) l(1) by (simp add: des_Decode_def d Let_def k_def split del: if_split)
  moreover have "take (length src) (xs @ drop n out) = src" using l(2) take_padded [of src 8] by (simp add: xs_def n_def)
  moreover have "length (xs @ drop n out) = length out" using l(3) len(2) by (simp add: n_def)
  ultimately show "\<exists>n w p. crypt_Encode (DesRef (Some d)) src dst = Done (Inr (int n, w)) \<and> length src < n \<and> n \<le> length src + 8 \<and>
        length w = length dst \<and> crypt_Decode (DesRef (Some d)) (take n w) out = Done (Inr (int (length src), p)) \<and>
        take (length src) p = src \<and> length p = length out"
    using e t l by (rule_tac x = n in exI, rule_tac x = "go_copy dst 0 c" in exI, rule_tac x = "xs @ drop n out" in exI)
      (simp add: crypt_Encode_def crypt_Decode_def)
qed

text \<open>The string functions invert each other for every key, the empty one and those longer than 16 bytes
  included: here only the first block of the key is the initial vector.
\<close>

lemma AesDecrypt_AesEncrypt:
  assumes "lawful aes (aes_key key)" "bc_size aes = 16"
  shows "AesDecrypt aes (AesEncrypt aes plain key) key = plain"
proof -
  define xs where "xs = padded 16 plain"
  define iv where "iv = take 16 (aes_key key)"
  define c where "c = cbc_encrypt 16 (bc_enc aes (aes_key key)) iv xs"
  have l: "length xs = Suc (length plain div 16) * 16" "length plain < length xs"
    using length_padded [of 16 plain] by (simp_all add: xs_def)
  have iv: "go_slice (aes_key key) 0 16 = Done iv" "length iv = 16"
    by (simp_all add: go_slice_def iv_def aes_key_length)
  have c: "length c = length xs" "cbc_decrypt 16 (bc_dec aes (aes_key key)) iv c = xs"
    using cbc_roundtrip [OF assms(1), of iv xs "Suc (length plain div 16)"] assms(2) l(1) iv(2) by (simp_all add: c_def)
  have e: "AesEncrypt aes plain key = c"
    using cbc_blocks_ok [OF iv(2) l(1), of "replicate (length xs) 0" cbc_encrypt "bc_enc aes (aes_key key)"] assms(2) iv(1)
    by (simp add: AesEncrypt_def Let_def xs_def [symmetric] c_def)
  have b: "cbc_blocks cbc_decrypt 16 (bc_dec aes (aes_key key)) iv (replicate (length c) 0) c = Done xs"
    using cbc_blocks_ok [OF iv(2), of c "Suc (length plain div 16)" "replicate (length c) 0" cbc_decrypt
        "bc_dec aes (aes_key key)"] c l(1) by simp
  have p: "int (length xs) - int (unat (xs ! (length xs - 1))) = int (length plain)"
    using padded_last [of 16 plain] by (simp add: xs_def)
  have "go_nth xs (int (length xs) - 1) = Done (xs ! (length xs - 1))"
    using l(2) by (auto simp: go_nth_def nat_diff_distrib)
  moreover have "go_slice xs 0 (int (length plain)) = Done plain"
    using l(2) take_padded [of plain 16] by (simp add: go_slice_def xs_def)
  ultimately show ?thesis using b p iv(1) assms(2) by (simp add: AesDecrypt_def e Let_def split del: if_split)
qed

text \<open>(C35) RSA on a first run. In a directory without a public key file where both files can be created, the
  constructor generates a pair, stores it in the two files and loads it back, whatever was in the private key
  file; with the library's own round trips, what it encrypts it decrypts, and a second start loads the same keys
  and creates nothing.
\<close>

theorem rsa_first_run:
  assumes "kd_files dir publicKeyFile = None" "kd_creatable dir privateKeyFile" "kd_creatable dir publicKeyFile"
    and "rl_generate lib = Some (priv, Some pub)"
    and "\<And>prefix k. \<exists>data. rl_pem_encode lib prefix k = Some data \<and> rl_pem_decode lib data = Some k"
    and "rl_ParsePKIXPublicKey lib pub = Some (Some e)" "rl_ParsePKCS1PrivateKey lib priv = Some d"
    and "\<And>m ct. rl_EncryptPKCS1v15 lib e m = Some ct \<Longrightarrow> rl_DecryptPKCS1v15 lib d ct = Some m"
  shows "\<exists>dir1 r. NewRsaCrypt lib dir = (dir1, Done (Some r)) \<and> NewRsaCrypt lib dir1 = (dir1, Done (Some r)) \<and>
    (\<forall>src dst out ct buf. rsa_Encode r src dst = Done (Inr (ct, buf)) \<longrightarrow> ct \<le> int (length dst) \<longrightarrow>
      length src \<le> length out \<longrightarrow>
      rsa_Decode r (take (nat ct) buf) out = Done (Inr (int (length src), src @ drop (length src) out)))"
proof -
  obtain x y where xy: "rl_pem_encode lib privateKeyPrefix priv = Some x" "rl_pem_decode lib x = Some priv"
    "rl_pem_encode lib publicKeyPrefix pub = Some y" "rl_pem_decode lib y = Some pub"
    using assms(5) by metis
  have ne: "privateKeyFile \<noteq> publicKeyFile" by (simp add: privateKeyFile_def publicKeyFile_def)
  define dir1 where "dir1 = dir\<lparr>kd_files := (kd_files dir)(privateKeyFile \<mapsto> x, publicKeyFile \<mapsto> y)\<rparr>"
  define r where "r = \<lparr>rc_privateKey = d, rc_publicKey = e, rc_lib = lib\<rparr>"
  have "CreateRsaKey lib dir = (dir1, True)"
    using assms(2-4) xy by (simp add: CreateRsaKey_def create_pem_def dir1_def)
  moreover have load: "load_keys lib dir1 = Done (Some r)"
    using xy assms(6,7) ne by (simp add: load_keys_def dir1_def r_def)
  ultimately have "NewRsaCrypt lib dir = (dir1, Done (Some r))" using assms(1) by (simp add: NewRsaCrypt_def)
  moreover have "NewRsaCrypt lib dir1 = (dir1, Done (Some r))" using load by (simp add: NewRsaCrypt_def dir1_def)
  moreover have "rsa_Decode r (take (nat ct) buf) out = Done (Inr (int (length src), src @ drop (length src) out))"
    if h: "rsa_Encode r src dst = Done (Inr (ct, buf))" "ct \<le> int (length dst)" "length src \<le> length out"
    for src dst out ct buf
  proof -
    obtain c where c: "rl_EncryptPKCS1v15 lib e src = Some c" "ct = int (length c)" "buf = go_copy dst 0 c"
      using h(1) by (auto simp: rsa_Encode_def r_def split: option.splits)
    then have "take (nat ct) buf = c" using h(2) by (simp add: go_copy_0)
    then show ?thesis using assms(8) [OF c(1)] h(3) by (simp add: rsa_Decode_def r_def go_copy_0)
  qed
  ultimately show ?thesis by blast
qed

section \<open>Instances\<close>

text \<open>A cipher that satisfies the laws, for the instances below: it reverses the block.\<close>

definition mirror :: "nat \<Rightarrow> block_cipher" where
  "mirror n = \<lparr>bc_size = n, bc_enc = \<lambda>k. rev, bc_dec = \<lambda>k. rev\<rparr>"

lemma lawful_mirror: "0 < n \<Longrightarrow> n < 256 \<Longrightarrow> lawful (mirror n) k" "bc_size (mirror n) = n"
  by (simp_all add: lawful_def mirror_def)

definition plain_rsa :: rsa_lib where
  "plain_rsa = \<lparr>rl_generate = Some ([1], Some [2]), rl_pem_encode = (\<lambda>_ k. Some (0 # k)),
     rl_pem_decode = (\<lambda>d. if d = [] then None else Some (tl d)), rl_ParsePKIXPublicKey = (\<lambda>_. Some (Some 7)),
     rl_ParsePKCS1PrivateKey = (\<lambda>_. Some 7), rl_EncryptPKCS1v15 = (\<lambda>k m. Some (rev m)),
     rl_DecryptPKCS1v15 = (\<lambda>k m. Some (rev m))\<rparr>"

theorem rsa_first_run_witness:
  "\<exists>dir1 r. NewRsaCrypt plain_rsa \<lparr>kd_files = (\<lambda>_. None), kd_creatable = (\<lambda>_. True)\<rparr> = (dir1, Done (Some r)) \<and>
    NewRsaCrypt plain_rsa dir1 = (dir1, Done (Some r)) \<and>
    (\<forall>src dst out ct buf. rsa_Encode r src dst = Done (Inr (ct, buf)) \<longrightarrow> ct \<le> int (length dst) \<longrightarrow>
      length src \<le> length out \<longrightarrow>
      rsa_Decode r (take (nat ct) buf) out = Done (Inr (int (length src), src @ drop (length src) out)))"
  by (rule rsa_first_run [of _ plain_rsa "[1]" "[2]" 7 7]) (auto simp: plain_rsa_def)

end
