(* ===== verification/App_Model.thy ===== *)
theory App_Model
  imports Addr_Utils Sync_Map Crypt
begin

text \<open>
  The data of the peer: the enumerations and contexts of \<open>model/\<close>, the protocol messages of
  \<open>protocol/Message.pb.go\<close>, the state of the services and the global state \<open>app\<close> they share
  (\<open>app/context.go\<close>, \<open>config.AppConfig\<close>). Objects the code shares by pointer (the contexts of P2P
  sockets) live in stores and are referred to by address. What the services do to the outside world
  (writes to a channel, notifications to the user interface, stopping a bootstrap, routes) is
  appended to a trace of events.
\<close>

section \<open>Enumerations\<close>

datatype PeerState = StateUnInit | StateInitError | StateInitOk | StateUnConn | StateConnOk
  | StateUnAck | StateAuthFail | StateOk

fun peer_state_num :: "PeerState \<Rightarrow> nat" where
  "peer_state_num StateUnInit = 0"
| "peer_state_num StateInitError = 1"
| "peer_state_num StateInitOk = 2"
| "peer_state_num StateUnConn = 3"
| "peer_state_num StateConnOk = 4"
| "peer_state_num StateUnAck = 5"
| "peer_state_num StateAuthFail = 6"
| "peer_state_num StateOk = 7"

lemma peer_state_num_inj: "peer_state_num a = peer_state_num b \<Longrightarrow> a = b"
  by (cases a; cases b) simp_all

text \<open>The code compares states with \<open><\<close>: the order of the numbers.\<close>

instantiation PeerState :: linorder
begin

definition less_eq_PeerState :: "PeerState \<Rightarrow> PeerState \<Rightarrow> bool" where
  "less_eq_PeerState a b \<longleftrightarrow> peer_state_num a \<le> peer_state_num b"

definition less_PeerState :: "PeerState \<Rightarrow> PeerState \<Rightarrow> bool" where
  "less_PeerState a b \<longleftrightarrow> peer_state_num a < peer_state_num b"

instance
  by intro_classes
    (auto simp: less_eq_PeerState_def less_PeerState_def intro: peer_state_num_inj)

end

lemma not_connected_iff:
  "s < StateConnOk \<longleftrightarrow> s \<in> {StateUnInit, StateInitError, StateInitOk, StateUnConn}"
  by (cases s) (simp_all add: less_PeerState_def)

datatype CryptType = CryptNone | CryptAES | CryptDES | CryptRSA | CryptUnknown

datatype LinkMode = LinkUnKnow | LinkETH | LinkWiFi | LinkGprs

fun link_mode_num :: "LinkMode \<Rightarrow> u32" where
  "link_mode_num LinkUnKnow = 0"
| "link_mode_num LinkETH = 1"
| "link_mode_num LinkWiFi = 2"
| "link_mode_num LinkGprs = 3"

datatype IpMode = AutoAssign | Static

datatype TunTapState = TunTapUnInit | TunTapInitFailed | TunTapInitOk | TunTapRunning | TunTapStop

datatype MsgType = Msg_Auth | Msg_AuthAck | Msg_UnAuth | Msg_StateChanged | Msg_Config
  | Msg_ConfigAck | Msg_Ping | Msg_Pong | Msg_GroupPeersRequest | Msg_GroupPeersResponse
  | Msg_PeerLinksRequest | Msg_PeerLinksResponse | Msg_Packet | Msg_P2PTrigger | Msg_P2PAck
  | Msg_P2PTry

section \<open>Protocol messages\<close>

record Sock =
  Family :: u32
  Port :: u32
  Addr :: u32

record IpNet =
  NetAddr :: u32
  NetBitLen :: u32

record Statistics =
  TransSend :: u64
  TransReceive :: u64
  P2PSend :: u64
  P2PReceive :: u64

record PeerInfo =
  pi_PeerName :: string
  pi_DevType :: string
  pi_NetAddr :: u32
  pi_InterAddr :: u32
  pi_PeerMac :: u64
  pi_NetBitLen :: u32
  pi_InterNetBitLen :: u32
  pi_Online :: bool
  pi_LinkMode :: u32
  pi_LinkQuality :: u32
  pi_Stats :: "Statistics option"
  pi_Sock :: "Sock option"

record LinkInfo =
  li_Addr :: u32
  li_Rx :: u64
  li_Tx :: u64

record MsgAuth =
  au_PeerMac :: u64
  au_PeerName :: string
  au_Group :: string
  au_Password :: string
  au_PeerOs :: string
  au_PeerAddr :: "IpNet option"
  au_InnerAddr :: "IpNet option"
  au_AutoMac :: bool
  au_AutoIp :: bool
  au_LinkMode :: u32
  au_LinkQuality :: u32

record MsgAuthAck =
  aa_AuthRes :: int
  aa_Token :: u32
  aa_AssignMac :: bool
  aa_PeerMac :: u64
  aa_AssignIp :: bool
  aa_PeerAddr :: "IpNet option"
  aa_Sock :: "Sock option"

record MsgUnAuth =
  ua_PeerMac :: u64
  ua_Group :: string
  ua_Token :: u32

record MsgState =
  ms_PeerMac :: u64
  ms_Online :: bool
  ms_PeerInfo :: "PeerInfo option"

record MsgConfig =
  mc_SrcMac :: u64
  mc_DstMac :: u64
  mc_NewName :: string
  mc_InnerAddr :: "IpNet option"

record MsgConfigAck =
  ca_SrcMac :: u64
  ca_DstMac :: u64
  ca_IsOk :: bool
  ca_Tip :: string

record MsgPing =
  mp_PeerName :: string
  mp_PeerAddr :: "IpNet option"
  mp_InnerAddr :: "IpNet option"
  mp_Stats :: "Statistics option"
  mp_LinkMode :: u32
  mp_LinkQuality :: u32

record MsgPong =
  po_PongRes :: u32
  po_Sock :: "Sock option"

record MsgP2PTrigger =
  tr_SrcMac :: u64
  tr_DstMac :: u64

record MsgP2PAck =
  pa_PeerMac :: u64
  pa_Valid :: bool
  pa_SelfExternSock :: "Sock option"
  pa_OtherExternSock :: "Sock option"

record MsgGroupPeersRequest =
  gr_SrcMac :: u64
  gr_GroupName :: string

record MsgGroupPeersResponse =
  ga_Cookie :: u32
  ga_PeerInfo :: "PeerInfo list"

record MsgPeerLinksRequest =
  lr_SrcMac :: u64
  lr_DstMac :: u64

text \<open>A repeated field that is absent from the wire is \<open>nil\<close> in Go; \<open>ProcessPeerLinksResponse\<close> tests
  for it, and an empty repeated field is always decoded as \<open>nil\<close>, so the empty list stands for it.\<close>

record MsgPeerLinksResponse =
  la_SrcMac :: u64
  la_DstMac :: u64
  la_Cookie :: u32
  la_LinkInfo :: "LinkInfo list"

record MsgPeerFrame =
  pf_MsgType :: MsgType
  pf_PeerMac :: u64
  pf_Token :: u32
  pf_MsgAuth :: "MsgAuth option"
  pf_MsgUnAuth :: "MsgUnAuth option"
  pf_MsgPing :: "MsgPing option"
  pf_MsgP2PTrigger :: "MsgP2PTrigger option"
  pf_MsgGroupPeer :: "MsgGroupPeersRequest option"
  pf_MsgLinks :: "MsgPeerLinksRequest option"
  pf_MsgLinksAck :: "MsgPeerLinksResponse option"
  pf_MsgConfig :: "MsgConfig option"
  pf_MsgConfigAck :: "MsgConfigAck option"

text \<open>A Go composite literal leaves the fields it does not name at their zero value.\<close>

definition peer_frame :: "MsgType \<Rightarrow> u64 \<Rightarrow> u32 \<Rightarrow> MsgPeerFrame" where
  "peer_frame ty mac token = \<lparr>pf_MsgType = ty, pf_PeerMac = mac, pf_Token = token, pf_MsgAuth = None,
     pf_MsgUnAuth = None, pf_MsgPing = None, pf_MsgP2PTrigger = None, pf_MsgGroupPeer = None,
     pf_MsgLinks = None, pf_MsgLinksAck = None, pf_MsgConfig = None, pf_MsgConfigAck = None\<rparr>"

record MsgServerFrame =
  sf_MsgType :: MsgType
  sf_MsgAuthAck :: "MsgAuthAck option"
  sf_MsgState :: "MsgState option"
  sf_MsgPong :: "MsgPong option"
  sf_MsgP2PTrigger :: "MsgP2PTrigger option"
  sf_MsgP2PAck :: "MsgP2PAck option"
  sf_MsgGroupPeerAck :: "MsgGroupPeersResponse option"
  sf_MsgLinks :: "MsgPeerLinksRequest option"
  sf_MsgLinksAck :: "MsgPeerLinksResponse option"
  sf_MsgConfig :: "MsgConfig option"
  sf_MsgConfigAck :: "MsgConfigAck option"

definition server_frame :: "MsgType \<Rightarrow> MsgServerFrame" where
  "server_frame ty = \<lparr>sf_MsgType = ty, sf_MsgAuthAck = None, sf_MsgState = None, sf_MsgPong = None,
     sf_MsgP2PTrigger = None, sf_MsgP2PAck = None, sf_MsgGroupPeerAck = None, sf_MsgLinks = None,
     sf_MsgLinksAck = None, sf_MsgConfig = None, sf_MsgConfigAck = None\<rparr>"

record MsgDataFrame =
  df_MsgType :: MsgType
  df_SrcMac :: u64
  df_DstMac :: u64
  df_Token :: u32
  df_Data :: bytes

datatype frame = PeerFrame MsgPeerFrame | DataFrame MsgDataFrame | ServerFrame MsgServerFrame

section \<open>Configuration\<close>

record PeerConfig =
  pc_GroupName :: string
  pc_GroupPwd :: string
  pc_PeerPwd :: string
  pc_Name :: string
  pc_CryptType :: CryptType

record TapConfig =
  tc_Name :: string
  tc_HwMac :: u64
  tc_HwMacStr :: string
  tc_IpMode :: IpMode
  tc_IpAddr :: u32
  tc_IpAddrStr :: string
  tc_IpMask :: u32
  tc_DevType :: u32

text \<open>\<open>InitAppConfig\<close> leaves neither \<open>PeerConfig\<close> nor \<open>TapConfig\<close> nil, so both are plain fields.\<close>

record AppConfig =
  ac_ServerIp :: string
  ac_ServerPort :: int
  ac_Heartbeat :: u32
  ac_Offline :: u32
  ac_MaxPacketSize :: int
  ac_PacketNum :: int
  ac_P2pTryCount :: u32
  ac_P2pRetryInterval :: u32
  ac_AllowVisitPort :: bool
  ac_EnableLog :: bool
  ac_SaveLog :: bool
  ac_LogLevel :: u8
  ac_PeerConfig :: PeerConfig
  ac_TapConfig :: TapConfig

section \<open>Socket contexts\<close>

text \<open>\<open>netty.Bootstrap\<close> and \<open>netty.HandlerContext\<close> values are opaque references.\<close>

type_synonym bootstrap_ref = nat
type_synonym handler_ref = nat
type_synonym addr = nat

record ServerSockContext =
  ss_Bootstrap :: "bootstrap_ref option"
  ss_Handler :: "handler_ref option"
  ss_Token :: u32
  ss_LastReceive :: int
  ss_Heartbeat :: u32
  ss_Offline :: u32
  ss_Connected :: bool

record PeerSockContext =
  ps_PeerMac :: u64
  ps_Bootstrap :: "bootstrap_ref option"
  ps_Handler :: "handler_ref option"
  ps_LocalSock :: "Sock option"
  ps_TryConnCount :: u32
  ps_LastTryConnTime :: int
  ps_LastReceive :: int
  ps_PingTryCount :: u64
  ps_Heartbeat :: u32
  ps_Offline :: u32
  ps_Connected :: bool

record PunchSockContext =
  pk_PeerMac :: u64
  pk_Bootstrap :: "bootstrap_ref option"
  pk_Handler :: "handler_ref option"
  pk_LocalSock :: "Sock option"
  pk_StartTime :: int
  pk_LastReceive :: int
  pk_Connected :: bool

record PunchFailInfo =
  fi_DstMac :: u64
  fi_FailedCount :: u32
  fi_FailedTime :: int

section \<open>Service state\<close>

text \<open>A \<open>context.CancelFunc\<close> that has not been created is \<open>None\<close>; \<open>Some c\<close> says whether it was called.\<close>

record RuntimeService =
  rt_running :: bool
  rt_cancel :: "bool option"
  rt_appConfig :: AppConfig
  rt_crypt :: "Crypt option"
  rt_peerState :: PeerState
  rt_serverSock :: "ServerSockContext option"
  rt_serverChannel :: "nat option"
  rt_linkMode :: LinkMode
  rt_linkQuality :: u32
  rt_externSock :: "Sock option"
  rt_LocalIp :: "IpNet option"
  rt_LocalIpStr :: string
  rt_stats :: "Statistics option"
  rt_lastRoute :: "RouteInfo option"
  rt_groupPeerCookie :: u32
  rt_groupPeers :: "(u64, PeerInfo) smap option"
  rt_linkInfos :: "(u64, LinkInfo list) smap"
  rt_linkInfoReqCookie :: "(u64, u32) smap"
  rt_configSend :: "(u64, nat) smap"

record P2pService =
  pp_running :: bool
  pp_cancel :: "bool option"
  pp_p2pFailedTime :: int
  pp_punchSocks :: "(u64, addr) smap"
  pp_p2pTrySocks :: "(u64, addr) smap"
  pp_p2pSocks :: "(u64, addr) smap"
  pp_hisP2PFailInfo :: "(u64, PunchFailInfo) smap"

record TunTapService =
  tt_tapper :: "nat option"
  tt_state :: TunTapState
  tt_readBuf :: nat
  tt_macBuf :: bytes

text \<open>What the outside world sees.\<close>

datatype event =
    EvWrite handler_ref frame
  | EvConnect bootstrap_ref string string
  | EvStop bootstrap_ref
  | EvCloseChannel nat
  | EvUpdateState PeerState
  | EvUpdatePeers
  | EvUpdateStats "Statistics option"
  | EvSaveConfig
  | EvTapWrite bytes
  | EvTapClose nat
  | EvTapConfigure nat u64 string string
  | EvAddRoute string string string
  | EvDelRoute string string string
  | EvConfigResult nat "string option"

record app =
  config :: AppConfig
  runtime :: RuntimeService
  p2p :: P2pService
  tun :: TunTapService
  serial_started :: bool
  peerHeap :: "addr \<Rightarrow> PeerSockContext"
  punchHeap :: "addr \<Rightarrow> PunchSockContext"
  next_addr :: addr
  next_ref :: nat
  trace :: "event list"

definition emit :: "event \<Rightarrow> app \<Rightarrow> app" where
  "emit e a = a\<lparr>trace := trace a @ [e]\<rparr>"

text \<open>\<open>Bootstrap.Stop()\<close> and \<open>Handler.Write(msg)\<close> on a reference that may be nil.\<close>

definition stop_bootstrap :: "bootstrap_ref option \<Rightarrow> app \<Rightarrow> app go" where
  "stop_bootstrap b a = (case b of None \<Rightarrow> Panicked NilDeref | Some r \<Rightarrow> Done (emit (EvStop r) a))"

definition write_handler :: "handler_ref option \<Rightarrow> frame \<Rightarrow> app \<Rightarrow> app go" where
  "write_handler h fr a =
     (case h of None \<Rightarrow> Panicked NilDeref | Some r \<Rightarrow> Done (emit (EvWrite r fr) a))"

definition set_peer_ctx :: "addr \<Rightarrow> (PeerSockContext \<Rightarrow> PeerSockContext) \<Rightarrow> app \<Rightarrow> app" where
  "set_peer_ctx x f a = a\<lparr>peerHeap := (peerHeap a)(x := f (peerHeap a x))\<rparr>"

definition set_punch_ctx :: "addr \<Rightarrow> (PunchSockContext \<Rightarrow> PunchSockContext) \<Rightarrow> app \<Rightarrow> app" where
  "set_punch_ctx x f a = a\<lparr>punchHeap := (punchHeap a)(x := f (punchHeap a x))\<rparr>"

definition upd_rt :: "(RuntimeService \<Rightarrow> RuntimeService) \<Rightarrow> app \<Rightarrow> app" where
  "upd_rt f a = a\<lparr>runtime := f (runtime a)\<rparr>"

definition upd_p2p :: "(P2pService \<Rightarrow> P2pService) \<Rightarrow> app \<Rightarrow> app" where
  "upd_p2p f a = a\<lparr>p2p := f (p2p a)\<rparr>"

definition upd_tun :: "(TunTapService \<Rightarrow> TunTapService) \<Rightarrow> app \<Rightarrow> app" where
  "upd_tun f a = a\<lparr>tun := f (tun a)\<rparr>"

text \<open>Frame conditions of the elementary updates.\<close>

lemma emit_simps [simp]:
  "config (emit e a) = config a" "runtime (emit e a) = runtime a" "p2p (emit e a) = p2p a"
  "tun (emit e a) = tun a" "peerHeap (emit e a) = peerHeap a" "punchHeap (emit e a) = punchHeap a"
  "serial_started (emit e a) = serial_started a" "trace (emit e a) = trace a @ [e]"
  "next_addr (emit e a) = next_addr a" "next_ref (emit e a) = next_ref a"
  by (simp_all add: emit_def)

lemma set_peer_ctx_simps [simp]:
  "config (set_peer_ctx x f a) = config a" "runtime (set_peer_ctx x f a) = runtime a"
  "p2p (set_peer_ctx x f a) = p2p a" "tun (set_peer_ctx x f a) = tun a"
  "punchHeap (set_peer_ctx x f a) = punchHeap a" "trace (set_peer_ctx x f a) = trace a"
  "serial_started (set_peer_ctx x f a) = serial_started a"
  "next_addr (set_peer_ctx x f a) = next_addr a" "next_ref (set_peer_ctx x f a) = next_ref a"
  "peerHeap (set_peer_ctx x f a) = (peerHeap a)(x := f (peerHeap a x))"
  by (simp_all add: set_peer_ctx_def)

lemma set_punch_ctx_simps [simp]:
  "config (set_punch_ctx x f a) = config a" "runtime (set_punch_ctx x f a) = runtime a"
  "p2p (set_punch_ctx x f a) = p2p a" "tun (set_punch_ctx x f a) = tun a"
  "peerHeap (set_punch_ctx x f a) = peerHeap a" "trace (set_punch_ctx x f a) = trace a"
  "serial_started (set_punch_ctx x f a) = serial_started a"
  "next_addr (set_punch_ctx x f a) = next_addr a" "next_ref (set_punch_ctx x f a) = next_ref a"
  "punchHeap (set_punch_ctx x f a) = (punchHeap a)(x := f (punchHeap a x))"
  by (simp_all add: set_punch_ctx_def)

lemma upd_p2p_simps [simp]:
  "config (upd_p2p f a) = config a" "runtime (upd_p2p f a) = runtime a"
  "p2p (upd_p2p f a) = f (p2p a)" "tun (upd_p2p f a) = tun a"
  "peerHeap (upd_p2p f a) = peerHeap a" "trace (upd_p2p f a) = trace a"
  "punchHeap (upd_p2p f a) = punchHeap a" "serial_started (upd_p2p f a) = serial_started a"
  "next_addr (upd_p2p f a) = next_addr a" "next_ref (upd_p2p f a) = next_ref a"
  by (simp_all add: upd_p2p_def)

lemma upd_rt_simps [simp]:
  "config (upd_rt f a) = config a" "runtime (upd_rt f a) = f (runtime a)"
  "p2p (upd_rt f a) = p2p a" "tun (upd_rt f a) = tun a"
  "peerHeap (upd_rt f a) = peerHeap a" "trace (upd_rt f a) = trace a"
  "punchHeap (upd_rt f a) = punchHeap a" "serial_started (upd_rt f a) = serial_started a"
  "next_addr (upd_rt f a) = next_addr a" "next_ref (upd_rt f a) = next_ref a"
  by (simp_all add: upd_rt_def)

lemma upd_tun_simps [simp]:
  "config (upd_tun f a) = config a" "runtime (upd_tun f a) = runtime a"
  "p2p (upd_tun f a) = p2p a" "tun (upd_tun f a) = f (tun a)"
  "peerHeap (upd_tun f a) = peerHeap a" "trace (upd_tun f a) = trace a"
  "punchHeap (upd_tun f a) = punchHeap a" "serial_started (upd_tun f a) = serial_started a"
  "next_addr (upd_tun f a) = next_addr a" "next_ref (upd_tun f a) = next_ref a"
  by (simp_all add: upd_tun_def)

lemma stop_bootstrap_Some [simp]: "stop_bootstrap (Some r) a = Done (emit (EvStop r) a)"
  by (simp add: stop_bootstrap_def)

lemma write_handler_Some [simp]: "write_handler (Some r) fr a = Done (emit (EvWrite r fr) a)"
  by (simp add: write_handler_def)

lemma write_handler_None [simp]: "write_handler None fr a = Panicked NilDeref"
  by (simp add: write_handler_def)

section \<open>The state at start-up\<close>

text \<open>The services as \<open>NewRuntimeService\<close>, \<open>NewP2pService\<close> and \<open>NewTunTapService\<close> create them for a
  configuration; no context has been allocated.\<close>

definition zero_peer_ctx :: PeerSockContext where
  "zero_peer_ctx = \<lparr>ps_PeerMac = 0, ps_Bootstrap = None, ps_Handler = None, ps_LocalSock = None,
     ps_TryConnCount = 0, ps_LastTryConnTime = 0, ps_LastReceive = 0, ps_PingTryCount = 0,
     ps_Heartbeat = 0, ps_Offline = 0, ps_Connected = False\<rparr>"

definition zero_punch_ctx :: PunchSockContext where
  "zero_punch_ctx = \<lparr>pk_PeerMac = 0, pk_Bootstrap = None, pk_Handler = None, pk_LocalSock = None,
     pk_StartTime = 0, pk_LastReceive = 0, pk_Connected = False\<rparr>"

definition NewP2pService :: P2pService where
  "NewP2pService = \<lparr>pp_running = False, pp_cancel = None, pp_p2pFailedTime = 0, pp_punchSocks = [],
     pp_p2pTrySocks = [], pp_p2pSocks = [], pp_hisP2PFailInfo = []\<rparr>"

text \<open>\<open>conf\<close> is the copy that \<open>CopyAppConfigTo\<close> makes of the global configuration.\<close>

definition NewRuntimeService :: "AppConfig \<Rightarrow> RuntimeService" where
  "NewRuntimeService conf = \<lparr>rt_running = False, rt_cancel = None, rt_appConfig = conf,
     rt_crypt = None, rt_peerState = StateUnInit, rt_serverSock = None, rt_serverChannel = None,
     rt_linkMode = LinkUnKnow, rt_linkQuality = 0, rt_externSock = None, rt_LocalIp = None,
     rt_LocalIpStr = [], rt_stats = None, rt_lastRoute = None, rt_groupPeerCookie = 0,
     rt_groupPeers = None, rt_linkInfos = [], rt_linkInfoReqCookie = [], rt_configSend = []\<rparr>"

definition NewTunTapService :: TunTapService where
  "NewTunTapService = \<lparr>tt_tapper = None, tt_state = TunTapUnInit, tt_readBuf = 0,
     tt_macBuf = replicate 8 0\<rparr>"

definition new_app :: "AppConfig \<Rightarrow> app" where
  "new_app conf = \<lparr>config = conf, runtime = NewRuntimeService conf, p2p = NewP2pService,
     tun = NewTunTapService, serial_started = False, peerHeap = (\<lambda>_. zero_peer_ctx),
     punchHeap = (\<lambda>_. zero_punch_ctx), next_addr = 0, next_ref = 0, trace = []\<rparr>"

text \<open>A configuration for concrete examples.\<close>

definition sample_config :: AppConfig where
  "sample_config = \<lparr>ac_ServerIp = ''127.0.0.1'', ac_ServerPort = 7006, ac_Heartbeat = 10,
     ac_Offline = 60, ac_MaxPacketSize = 2048, ac_PacketNum = 1, ac_P2pTryCount = 5,
     ac_P2pRetryInterval = 120, ac_AllowVisitPort = False, ac_EnableLog = False, ac_SaveLog = False,
     ac_LogLevel = 4,
     ac_PeerConfig = \<lparr>pc_GroupName = ''group'', pc_GroupPwd = [], pc_PeerPwd = [], pc_Name = ''peer'',
       pc_CryptType = CryptNone\<rparr>,
     ac_TapConfig = \<lparr>tc_Name = ''tap0'', tc_HwMac = 0x050403020100, tc_HwMacStr = ''00:01:02:03:04:05'',
       tc_IpMode = AutoAssign, tc_IpAddr = 0x0A000002, tc_IpAddrStr = ''10.0.0.2'', tc_IpMask = 24,
       tc_DevType = 0\<rparr>\<rparr>"

end
