(* ===== verification/Runtime_Core.thy ===== *)
theory Runtime_Core
  imports App_Model
begin

text \<open>
  The operations of \<open>RuntimeService\<close> that the other components call back into, and the state tests of
  \<open>model/sock_info.go\<close>: setting the peer state, looking up peers, traffic statistics, the guarded
  write to the server. Times are nanoseconds since the epoch; \<open>unix\<close> is \<open>time.Time.Unix()\<close>.
\<close>

definition unix :: "int \<Rightarrow> int" where
  "unix t = t div 1000000000"

text \<open>Errors of the service operations, one constructor for each message.\<close>

datatype svc_error =
    ErrNotRegistered        \<comment> \<open>server not connected or peer not registered\<close>
  | ErrNotConnected         \<comment> \<open>the client is not connected, cannot send\<close>
  | ErrNoServerHandler      \<comment> \<open>server network configuration not initialised\<close>
  | ErrNoSock               \<comment> \<open>no valid socket found\<close>
  | ErrDataNil | ErrCryptNil | ErrCryptFailed
  | ErrBadMacOrIp
  | ErrNilMessage | ErrBadMac | ErrBadIp | ErrAuthRefused int
  | ErrConfigRefused | ErrNoLocalIp | ErrEmptyLinks
  | ErrPunchExpired | ErrPunchInvalid | ErrPunchMissing | ErrPunchConnect
  | ErrP2pNotNeeded | ErrP2pBadMac | ErrP2pBadAck | ErrNatImpossible | ErrNoPunchSock
  | ErrP2pConnect | ErrP2pTryFailed | ErrBadSock | ErrAddr addr_error
  | ErrTapNoConfig | ErrTapCreate | ErrTapGetMac | ErrTapSetMac | ErrTapSetIp | ErrTapNotRunning
  | ErrTapNil | ErrTapClose | ErrPing | ErrConnect | ErrCryptType

section \<open>State of a server socket\<close>

text \<open>\<open>ServerSockContext.IsConnected\<close>; \<open>netOk\<close> is the answer of the ping to the internet.\<close>

definition server_IsConnected :: "int \<Rightarrow> bool \<Rightarrow> ServerSockContext \<Rightarrow> bool" where
  "server_IsConnected t netOk s =
     (if \<not> ss_Connected s then False
      else if unix t - ss_LastReceive s \<ge> int (unat (ss_Offline s)) then False
      else if unix t - ss_LastReceive s > int (unat (ss_Heartbeat s + 3)) then netOk
      else True)"

definition peer_IsConnected :: "int \<Rightarrow> PeerSockContext \<Rightarrow> bool" where
  "peer_IsConnected t s \<longleftrightarrow>
     ps_Connected s \<and> (of_int (unix t - ps_LastReceive s) :: u32) < ps_Offline s"

section \<open>Shared operations\<close>

definition SetPeerState :: "PeerState \<Rightarrow> app \<Rightarrow> app" where
  "SetPeerState st a =
     (if rt_peerState (runtime a) \<noteq> st
      then emit (EvUpdateState st) (upd_rt (\<lambda>r. r\<lparr>rt_peerState := st\<rparr>) a)
      else a)"

text \<open>\<open>Init\<close> creates \<open>groupPeers\<close> before any service runs; a lookup before that finds no peer here.\<close>

definition FindPeer :: "u64 \<Rightarrow> app \<Rightarrow> PeerInfo option" where
  "FindPeer mac a =
     (case rt_groupPeers (runtime a) of None \<Rightarrow> None | Some m \<Rightarrow> sm_load m mac)"

definition SetStats :: "u64 \<Rightarrow> bool \<Rightarrow> bool \<Rightarrow> app \<Rightarrow> app" where
  "SetStats sz rx isP2p a =
     (case rt_stats (runtime a) of
        None \<Rightarrow> a
      | Some st \<Rightarrow>
          if rt_peerState (runtime a) < StateConnOk then a
          else upd_rt (\<lambda>r. r\<lparr>rt_stats := Some (
                 if rx then
                   (if isP2p then st\<lparr>P2PReceive := P2PReceive st + sz\<rparr>
                    else st\<lparr>TransReceive := TransReceive st + sz\<rparr>)
                 else
                   (if isP2p then st\<lparr>P2PSend := P2PSend st + sz\<rparr>
                    else st\<lparr>TransSend := TransSend st + sz\<rparr>))\<rparr>) a)"

text \<open>\<open>forwardMessage\<close> on a message whose handler may be nil.\<close>

definition forwardMessage :: "handler_ref option \<Rightarrow> frame \<Rightarrow> app \<Rightarrow> app" where
  "forwardMessage h content a =
     (if \<not> rt_running (runtime a) then a
      else case h of None \<Rightarrow> a | Some r \<Rightarrow> emit (EvWrite r content) a)"

section \<open>Facts\<close>

lemma SetPeerState_state [simp]: "rt_peerState (runtime (SetPeerState st a)) = st"
  by (simp add: SetPeerState_def)

lemma SetPeerState_frame [simp]:
  "config (SetPeerState st a) = config a" "p2p (SetPeerState st a) = p2p a"
  "tun (SetPeerState st a) = tun a" "peerHeap (SetPeerState st a) = peerHeap a"
  "punchHeap (SetPeerState st a) = punchHeap a" "next_addr (SetPeerState st a) = next_addr a"
  "next_ref (SetPeerState st a) = next_ref a" "serial_started (SetPeerState st a) = serial_started a"
  "rt_serverSock (runtime (SetPeerState st a)) = rt_serverSock (runtime a)"
  "rt_running (runtime (SetPeerState st a)) = rt_running (runtime a)"
  "rt_appConfig (runtime (SetPeerState st a)) = rt_appConfig (runtime a)"
  "rt_groupPeers (runtime (SetPeerState st a)) = rt_groupPeers (runtime a)"
  "rt_stats (runtime (SetPeerState st a)) = rt_stats (runtime a)"
  "rt_LocalIp (runtime (SetPeerState st a)) = rt_LocalIp (runtime a)"
  "rt_serverChannel (runtime (SetPeerState st a)) = rt_serverChannel (runtime a)"
  "rt_lastRoute (runtime (SetPeerState st a)) = rt_lastRoute (runtime a)"
  by (simp_all add: SetPeerState_def)

text \<open>A transition is reported once: repeating it is silent.\<close>

lemma SetPeerState_idem: "SetPeerState st (SetPeerState st a) = SetPeerState st a"
  by (simp add: SetPeerState_def)

lemma forwardMessage_frame [simp]:
  "config (forwardMessage h m a) = config a" "runtime (forwardMessage h m a) = runtime a"
  "p2p (forwardMessage h m a) = p2p a" "tun (forwardMessage h m a) = tun a"
  "peerHeap (forwardMessage h m a) = peerHeap a" "punchHeap (forwardMessage h m a) = punchHeap a"
  "next_addr (forwardMessage h m a) = next_addr a" "next_ref (forwardMessage h m a) = next_ref a"
  "serial_started (forwardMessage h m a) = serial_started a"
  by (simp_all add: forwardMessage_def split: option.split)

lemma forwardMessage_running:
  "rt_running (runtime a) \<Longrightarrow> forwardMessage (Some h) m a = emit (EvWrite h m) a"
  by (simp add: forwardMessage_def)

text \<open>The traffic totals; the counters are 64-bit and wrap.\<close>

definition total_bytes :: "Statistics \<Rightarrow> u64" where
  "total_bytes st = TransSend st + TransReceive st + P2PSend st + P2PReceive st"

lemma SetStats_total:
  assumes "rt_stats (runtime a) = Some st" "StateConnOk \<le> rt_peerState (runtime a)"
  shows "\<exists>st'. rt_stats (runtime (SetStats sz rx isP2p a)) = Some st' \<and>
    total_bytes st' = total_bytes st + sz"
  using assms by (simp add: SetStats_def total_bytes_def not_less [symmetric] algebra_simps)

lemma SetStats_frame [simp]:
  "config (SetStats n rx q a) = config a" "p2p (SetStats n rx q a) = p2p a"
  "tun (SetStats n rx q a) = tun a" "peerHeap (SetStats n rx q a) = peerHeap a"
  "punchHeap (SetStats n rx q a) = punchHeap a" "trace (SetStats n rx q a) = trace a"
  "rt_peerState (runtime (SetStats n rx q a)) = rt_peerState (runtime a)"
  "rt_running (runtime (SetStats n rx q a)) = rt_running (runtime a)"
  "rt_serverSock (runtime (SetStats n rx q a)) = rt_serverSock (runtime a)"
  "rt_groupPeers (runtime (SetStats n rx q a)) = rt_groupPeers (runtime a)"
  by (simp_all add: SetStats_def split: option.split)

end
