(* ===== verification/P2p_Service.thy ===== *)
theory P2p_Service
  imports Runtime_Core
begin

text \<open>
  The hole-punching service of \<open>service/p2p_service.go\<close> together with the two \<open>HandleActive\<close>
  callbacks its connections run (\<open>msg_handler.go\<close>, \<open>data_handler.go\<close>). \<open>t\<close> is the clock in nanoseconds;
  \<open>conn\<close> is the outcome of opening a UDP socket: an error or the text of the local address. A
  successful \<open>Bootstrap.Connect\<close> runs the \<open>HandleActive\<close> of the last pipeline handler before it
  returns. The state is that of a service that has been started once, so the four maps exist.
\<close>

section \<open>Environment\<close>

datatype connect_result = ConnErr | ConnOk string

text \<open>\<open>IsLittleEndian\<close> reads the first byte of an \<open>int32\<close> in memory; the machines the peer is built for
  store integers little-endian.\<close>

definition IsLittleEndian :: bool where
  "IsLittleEndian \<longleftrightarrow> hd (PutUint32_le 0x01020304) = 0x04"

definition AF_INET :: u32 where "AF_INET = 2"

definition data_frame :: "MsgType \<Rightarrow> u64 \<Rightarrow> u64 \<Rightarrow> MsgDataFrame" where
  "data_frame ty src dst = \<lparr>df_MsgType = ty, df_SrcMac = src, df_DstMac = dst, df_Token = 0, df_Data = []\<rparr>"

abbreviation hwMac :: "app \<Rightarrow> u64" where
  "hwMac a \<equiv> tc_HwMac (ac_TapConfig (config a))"

definition int_str :: "int \<Rightarrow> string" where
  "int_str i = (if i < 0 then CHR ''-'' # dec (nat (- i)) else dec (nat i))"

definition upd_punchSocks :: "((u64, addr) smap \<Rightarrow> (u64, addr) smap) \<Rightarrow> app \<Rightarrow> app" where
  "upd_punchSocks f = upd_p2p (\<lambda>s. s\<lparr>pp_punchSocks := f (pp_punchSocks s)\<rparr>)"

definition upd_trySocks :: "((u64, addr) smap \<Rightarrow> (u64, addr) smap) \<Rightarrow> app \<Rightarrow> app" where
  "upd_trySocks f = upd_p2p (\<lambda>s. s\<lparr>pp_p2pTrySocks := f (pp_p2pTrySocks s)\<rparr>)"

definition upd_p2pSocks :: "((u64, addr) smap \<Rightarrow> (u64, addr) smap) \<Rightarrow> app \<Rightarrow> app" where
  "upd_p2pSocks f = upd_p2p (\<lambda>s. s\<lparr>pp_p2pSocks := f (pp_p2pSocks s)\<rparr>)"

definition upd_failInfo :: "((u64, PunchFailInfo) smap \<Rightarrow> (u64, PunchFailInfo) smap) \<Rightarrow> app \<Rightarrow> app" where
  "upd_failInfo f = upd_p2p (\<lambda>s. s\<lparr>pp_hisP2PFailInfo := f (pp_hisP2PFailInfo s)\<rparr>)"

lemmas p2p_upd_defs = upd_punchSocks_def upd_trySocks_def upd_p2pSocks_def upd_failInfo_def

lemma upd_punchSocks_simps [simp]:
  "config (upd_punchSocks f a) = config a" "runtime (upd_punchSocks f a) = runtime a"
  "tun (upd_punchSocks f a) = tun a" "serial_started (upd_punchSocks f a) = serial_started a"
  "peerHeap (upd_punchSocks f a) = peerHeap a" "punchHeap (upd_punchSocks f a) = punchHeap a"
  "next_addr (upd_punchSocks f a) = next_addr a" "next_ref (upd_punchSocks f a) = next_ref a"
  "trace (upd_punchSocks f a) = trace a"
  "pp_running (p2p (upd_punchSocks f a)) = pp_running (p2p a)"
  "pp_cancel (p2p (upd_punchSocks f a)) = pp_cancel (p2p a)"
  "pp_p2pFailedTime (p2p (upd_punchSocks f a)) = pp_p2pFailedTime (p2p a)"
  "pp_punchSocks (p2p (upd_punchSocks f a)) = f (pp_punchSocks (p2p a))"
  "pp_p2pTrySocks (p2p (upd_punchSocks f a)) = pp_p2pTrySocks (p2p a)"
  "pp_p2pSocks (p2p (upd_punchSocks f a)) = pp_p2pSocks (p2p a)"
  "pp_hisP2PFailInfo (p2p (upd_punchSocks f a)) = pp_hisP2PFailInfo (p2p a)"
  by (simp_all add: upd_punchSocks_def)

lemma upd_trySocks_simps [simp]:
  "config (upd_trySocks f a) = config a" "runtime (upd_trySocks f a) = runtime a"
  "tun (upd_trySocks f a) = tun a" "serial_started (upd_trySocks f a) = serial_started a"
  "peerHeap (upd_trySocks f a) = peerHeap a" "punchHeap (upd_trySocks f a) = punchHeap a"
  "next_addr (upd_trySocks f a) = next_addr a" "next_ref (upd_trySocks f a) = next_ref a"
  "trace (upd_trySocks f a) = trace a" "pp_running (p2p (upd_trySocks f a)) = pp_running (p2p a)"
  "pp_cancel (p2p (upd_trySocks f a)) = pp_cancel (p2p a)"
  "pp_p2pFailedTime (p2p (upd_trySocks f a)) = pp_p2pFailedTime (p2p a)"
  "pp_punchSocks (p2p (upd_trySocks f a)) = pp_punchSocks (p2p a)"
  "pp_p2pTrySocks (p2p (upd_trySocks f a)) = f (pp_p2pTrySocks (p2p a))"
  "pp_p2pSocks (p2p (upd_trySocks f a)) = pp_p2pSocks (p2p a)"
  "pp_hisP2PFailInfo (p2p (upd_trySocks f a)) = pp_hisP2PFailInfo (p2p a)"
  by (simp_all add: upd_trySocks_def)

lemma upd_p2pSocks_simps [simp]:
  "config (upd_p2pSocks f a) = config a" "runtime (upd_p2pSocks f a) = runtime a"
  "tun (upd_p2pSocks f a) = tun a" "serial_started (upd_p2pSocks f a) = serial_started a"
  "peerHeap (upd_p2pSocks f a) = peerHeap a" "punchHeap (upd_p2pSocks f a) = punchHeap a"
  "next_addr (upd_p2pSocks f a) = next_addr a" "next_ref (upd_p2pSocks f a) = next_ref a"
  "trace (upd_p2pSocks f a) = trace a" "pp_running (p2p (upd_p2pSocks f a)) = pp_running (p2p a)"
  "pp_cancel (p2p (upd_p2pSocks f a)) = pp_cancel (p2p a)"
  "pp_p2pFailedTime (p2p (upd_p2pSocks f a)) = pp_p2pFailedTime (p2p a)"
  "pp_punchSocks (p2p (upd_p2pSocks f a)) = pp_punchSocks (p2p a)"
  "pp_p2pTrySocks (p2p (upd_p2pSocks f a)) = pp_p2pTrySocks (p2p a)"
  "pp_p2pSocks (p2p (upd_p2pSocks f a)) = f (pp_p2pSocks (p2p a))"
  "pp_hisP2PFailInfo (p2p (upd_p2pSocks f a)) = pp_hisP2PFailInfo (p2p a)"
  by (simp_all add: upd_p2pSocks_def)

lemma upd_failInfo_simps [simp]:
  "config (upd_failInfo f a) = config a" "runtime (upd_failInfo f a) = runtime a"
  "tun (upd_failInfo f a) = tun a" "serial_started (upd_failInfo f a) = serial_started a"
  "peerHeap (upd_failInfo f a) = peerHeap a" "punchHeap (upd_failInfo f a) = punchHeap a"
  "next_addr (upd_failInfo f a) = next_addr a" "next_ref (upd_failInfo f a) = next_ref a"
  "trace (upd_failInfo f a) = trace a" "pp_running (p2p (upd_failInfo f a)) = pp_running (p2p a)"
  "pp_cancel (p2p (upd_failInfo f a)) = pp_cancel (p2p a)"
  "pp_p2pFailedTime (p2p (upd_failInfo f a)) = pp_p2pFailedTime (p2p a)"
  "pp_punchSocks (p2p (upd_failInfo f a)) = pp_punchSocks (p2p a)"
  "pp_p2pTrySocks (p2p (upd_failInfo f a)) = pp_p2pTrySocks (p2p a)"
  "pp_p2pSocks (p2p (upd_failInfo f a)) = pp_p2pSocks (p2p a)"
  "pp_hisP2PFailInfo (p2p (upd_failInfo f a)) = f (pp_hisP2PFailInfo (p2p a))"
  by (simp_all add: upd_failInfo_def)

section \<open>Starting and stopping\<close>

definition p2p_Start :: "app \<Rightarrow> app" where
  "p2p_Start a =
     (if pp_running (p2p a) then a
      else upd_p2p (\<lambda>s. s\<lparr>pp_running := True, pp_cancel := Some False,
             pp_punchSocks := sm_empty, pp_p2pTrySocks := sm_empty, pp_p2pSocks := sm_empty,
             pp_hisP2PFailInfo := sm_empty,
             pp_p2pFailedTime := int (unat (ac_Heartbeat (config a)))\<rparr>) a)"

definition p2p_Stop :: "app \<Rightarrow> app go" where
  "p2p_Stop a =
     (let a1 = upd_p2p (\<lambda>s. s\<lparr>pp_running := False\<rparr>) a in
      case pp_cancel (p2p a) of
        None \<Rightarrow> Panicked NilDeref
      | Some _ \<Rightarrow> Done (upd_p2p (\<lambda>s. s\<lparr>pp_cancel := Some True\<rparr>) a1))"

section \<open>Failures\<close>

definition saveFailPunchInfo :: "int \<Rightarrow> u64 \<Rightarrow> app \<Rightarrow> app go" where
  "saveFailPunchInfo t mac a =
     (let a1 = (case sm_load (pp_hisP2PFailInfo (p2p a)) mac of
          Some p \<Rightarrow> upd_failInfo (sm_store mac (p\<lparr>fi_FailedCount := fi_FailedCount p + 1, fi_FailedTime := t\<rparr>)) a
        | None \<Rightarrow> upd_failInfo (sm_store mac \<lparr>fi_DstMac = mac, fi_FailedCount = 1, fi_FailedTime = t\<rparr>) a)
      in go_bind (case sm_load (pp_punchSocks (p2p a1)) mac of
             Some x \<Rightarrow> stop_bootstrap (pk_Bootstrap (punchHeap a1 x)) a1
           | None \<Rightarrow> Done a1)
         (\<lambda>a2. Done (upd_punchSocks (sm_delete mac) a2)))"

definition DeleteFailedP2P :: "u64 \<Rightarrow> app \<Rightarrow> app" where
  "DeleteFailedP2P mac a = upd_failInfo (sm_delete mac) a"

section \<open>Punching through the server\<close>

definition SendP2PTrigger :: "int \<Rightarrow> u64 \<Rightarrow> app \<Rightarrow> (app \<times> svc_error option) go" where
  "SendP2PTrigger t dstMac a =
     (case sm_load (pp_punchSocks (p2p a)) dstMac of
        Some x \<Rightarrow>
          (let p = punchHeap a x in
           if unix t - pk_StartTime p \<ge> pp_p2pFailedTime (p2p a)
           then go_bind (stop_bootstrap (pk_Bootstrap p) a)
                  (\<lambda>a1. Done (upd_punchSocks (sm_delete dstMac) a1, Some ErrPunchInvalid))
           else if pk_Handler p = None then Done (a, Some ErrPunchInvalid)
           else go_bind (write_handler (pk_Handler p)
                  (PeerFrame ((peer_frame Msg_P2PTrigger (hwMac a) 0)
                     \<lparr>pf_MsgP2PTrigger := Some \<lparr>tr_SrcMac = hwMac a, tr_DstMac = dstMac\<rparr>\<rparr>)) a)
                  (\<lambda>a1. Done (a1, None)))
      | None \<Rightarrow> Done (a, Some ErrPunchMissing))"

text \<open>\<open>MessageHandler.HandleActive\<close> on a punch socket; the error of \<open>SendP2PTrigger\<close> is dropped.\<close>

definition punch_HandleActive :: "int \<Rightarrow> addr \<Rightarrow> handler_ref \<Rightarrow> app \<Rightarrow> app go" where
  "punch_HandleActive t x h a =
     (let a1 = set_punch_ctx x (\<lambda>p. p\<lparr>pk_Handler := Some h, pk_Connected := True,
                                   pk_LastReceive := unix t\<rparr>) a
      in go_map fst (SendP2PTrigger t (pk_PeerMac (punchHeap a1 x)) a1))"

text \<open>Allocating a context and a bootstrap: \<open>&model.PunchSockContext{...}\<close>, \<open>netty.NewBootstrap()\<close>.\<close>

definition alloc_punch :: "u64 \<Rightarrow> int \<Rightarrow> app \<Rightarrow> app" where
  "alloc_punch mac start a = a\<lparr>punchHeap := (punchHeap a)(next_addr a :=
       \<lparr>pk_PeerMac = mac, pk_Bootstrap = Some (next_ref a), pk_Handler = None, pk_LocalSock = None,
        pk_StartTime = start, pk_LastReceive = 0, pk_Connected = False\<rparr>),
     next_addr := next_addr a + 1, next_ref := next_ref a + 1\<rparr>"

definition alloc_peer :: "u64 \<Rightarrow> app \<Rightarrow> app" where
  "alloc_peer mac a = a\<lparr>peerHeap := (peerHeap a)(next_addr a :=
       \<lparr>ps_PeerMac = mac, ps_Bootstrap = Some (next_ref a), ps_Handler = None, ps_LocalSock = None,
        ps_TryConnCount = 0, ps_LastTryConnTime = 0, ps_LastReceive = 0, ps_PingTryCount = 0,
        ps_Heartbeat = 5, ps_Offline = 15, ps_Connected = False\<rparr>),
     next_addr := next_addr a + 1, next_ref := next_ref a + 1\<rparr>"

text \<open>A fresh reference for the handler context of a new channel.\<close>

definition fresh_handler :: "app \<Rightarrow> handler_ref \<times> app" where
  "fresh_handler a = (next_ref a, a\<lparr>next_ref := next_ref a + 1\<rparr>)"

definition newPunchSock ::
  "int \<Rightarrow> connect_result \<Rightarrow> u64 \<Rightarrow> app \<Rightarrow> (app \<times> (svc_error + Sock)) go" where
  "newPunchSock t conn dstMac a =
     (let x = next_addr a;
          a1 = upd_punchSocks (sm_store dstMac x) (alloc_punch dstMac (unix t) a);
          url = ''//'' @ ac_ServerIp (config a) @ '':'' @ int_str (ac_ServerPort (config a));
          a2 = emit (EvConnect (next_ref a) url ''0.0.0.0:0'') a1
      in case conn of
        ConnErr \<Rightarrow> go_map (\<lambda>a3. (a3, Inl ErrPunchConnect)) (saveFailPunchInfo t dstMac a2)
      | ConnOk lAddr \<Rightarrow>
          (let (h, a3) = fresh_handler a2 in
           go_bind (punch_HandleActive t x h a3)
             (\<lambda>a4. case ExtractAddrFromStr IsLittleEndian lAddr of
                Inr (ip, port) \<Rightarrow>
                  (let sock = \<lparr>Family = AF_INET, Port = port, Addr = ip\<rparr> in
                   Done (set_punch_ctx x (\<lambda>p. p\<lparr>pk_LocalSock := Some sock\<rparr>) a4, Inr sock))
              | Inl e \<Rightarrow> Done (a4, Inl (ErrAddr e)))))"

definition StartPunch ::
  "int \<Rightarrow> connect_result \<Rightarrow> u64 \<Rightarrow> bool \<Rightarrow> app \<Rightarrow> (app \<times> svc_error option) go" where
  "StartPunch t conn dstMac trigger a =
     (case sm_load (pp_punchSocks (p2p a)) dstMac of
        Some x \<Rightarrow>
          (let p = punchHeap a x in
           if unix t - pk_StartTime p < pp_p2pFailedTime (p2p a)
           then (if trigger then SendP2PTrigger t dstMac a else Done (a, None))
           else go_bind (stop_bootstrap (pk_Bootstrap p) a)
                  (\<lambda>a1. Done (upd_punchSocks (sm_delete dstMac) a1, Some ErrPunchExpired)))
      | None \<Rightarrow>
          go_map (\<lambda>(a1, r). (a1, case r of Inr _ \<Rightarrow> None | Inl e \<Rightarrow> Some e))
            (newPunchSock t conn dstMac a))"

definition isNeedP2P :: "int \<Rightarrow> u64 \<Rightarrow> app \<Rightarrow> bool" where
  "isNeedP2P t dstMac a =
     (if IsUniCast dstMac then
        (if (case sm_load (pp_hisP2PFailInfo (p2p a)) dstMac of
               Some p \<Rightarrow> fi_FailedCount p \<ge> 10 \<or>
                 (of_int (unix (t - fi_FailedTime p)) :: u32) < ac_P2pRetryInterval (config a)
             | None \<Rightarrow> False)
         then False
         else if FindPeer dstMac a = None then False
         else if sm_load (pp_p2pTrySocks (p2p a)) dstMac \<noteq> None then False
         else True)
      else False)"

definition TryForwardMessage ::
  "int \<Rightarrow> connect_result \<Rightarrow> u64 \<Rightarrow> MsgDataFrame option \<Rightarrow> app \<Rightarrow> (app \<times> bool) go" where
  "TryForwardMessage t conn mac msg a =
     (if \<not> pp_running (p2p a) then Done (a, False)
      else case msg of None \<Rightarrow> Done (a, False) | Some m \<Rightarrow>
        (if \<not> IsUniCast mac then Done (a, False)
         else case sm_load (pp_p2pSocks (p2p a)) mac of
           Some x \<Rightarrow>
             (if ps_Handler (peerHeap a x) \<noteq> None
              then go_map (\<lambda>a1. (a1, True)) (write_handler (ps_Handler (peerHeap a x)) (DataFrame m) a)
              else Done (a, False))
         | None \<Rightarrow>
             (if isNeedP2P t mac a
              then go_map (\<lambda>(a1, err). (a1, False)) (StartPunch t conn mac False a)
              else Done (a, False))))"

definition ProcessP2PTrigger ::
  "int \<Rightarrow> connect_result \<Rightarrow> MsgP2PTrigger option \<Rightarrow> app \<Rightarrow> (app \<times> svc_error option) go" where
  "ProcessP2PTrigger t conn msg a =
     (case msg of None \<Rightarrow> Done (a, Some ErrNilMessage) | Some m \<Rightarrow>
       (if IsUniCast (tr_SrcMac m) then
          (if sm_load (pp_p2pTrySocks (p2p a)) (tr_SrcMac m) \<noteq> None then Done (a, Some ErrP2pNotNeeded)
           else if sm_load (pp_p2pSocks (p2p a)) (tr_SrcMac m) \<noteq> None then Done (a, Some ErrP2pNotNeeded)
           else StartPunch t conn (tr_SrcMac m) True a)
        else Done (a, Some ErrP2pBadMac)))"

text \<open>\<open>DataHandler.HandleActive\<close> on a peer socket.\<close>

definition data_HandleActive :: "addr \<Rightarrow> handler_ref \<Rightarrow> app \<Rightarrow> app" where
  "data_HandleActive x h a =
     (let a1 = set_peer_ctx x (\<lambda>p. p\<lparr>ps_Connected := True, ps_Handler := Some h\<rparr>) a in
      emit (EvWrite h (DataFrame (data_frame Msg_Ping (hwMac a1) (ps_PeerMac (peerHeap a1 x))))) a1)"

definition ProcessP2PAck ::
  "connect_result \<Rightarrow> int \<Rightarrow> MsgP2PAck option \<Rightarrow> app \<Rightarrow> (app \<times> svc_error option) go" where
  "ProcessP2PAck conn t msgAck a =
     (case msgAck of None \<Rightarrow> Done (a, Some ErrP2pBadAck) | Some m \<Rightarrow>
      case pa_OtherExternSock m of None \<Rightarrow> Done (a, Some ErrP2pBadAck) | Some other \<Rightarrow>
      if \<not> pa_Valid m
      then go_map (\<lambda>a1. (a1, Some ErrNatImpossible)) (saveFailPunchInfo t (pa_PeerMac m) a)
      else case sm_load (pp_punchSocks (p2p a)) (pa_PeerMac m) of
        None \<Rightarrow> Done (a, Some ErrNoPunchSock)
      | Some px \<Rightarrow>
        (case pk_LocalSock (punchHeap a px) of
           None \<Rightarrow> Done (a, Some ErrNoPunchSock)
         | Some loc \<Rightarrow>
             (let x = next_addr a;
                  a1 = upd_trySocks (sm_store (pa_PeerMac m) x) (alloc_peer (pa_PeerMac m) a);
                  url = ''//'' @ Uint32toIpV4 (Addr other) @ '':'' @ dec (unat (Port other));
                  lAddr = Uint32toIpV4 (Addr loc) @ '':'' @ dec (unat (Port loc));
                  a2 = emit (EvConnect (next_ref a) url lAddr) a1
              in case conn of
                ConnErr \<Rightarrow> Done (upd_trySocks (sm_delete (pa_PeerMac m)) a2, Some ErrP2pConnect)
              | ConnOk la \<Rightarrow>
                  (let (h, a3) = fresh_handler a2;
                       a4 = data_HandleActive x h a3
                   in case ExtractAddrFromStr IsLittleEndian la of
                     Inr (ip, port) \<Rightarrow>
                       Done (set_peer_ctx x (\<lambda>p. p\<lparr>ps_LocalSock :=
                               Some \<lparr>Family = AF_INET, Port = port, Addr = ip\<rparr>\<rparr>) a4, None)
                   | Inl _ \<Rightarrow> Done (a4, None)))))"

section \<open>Trying and succeeding\<close>

definition SendP2PTry :: "int \<Rightarrow> u64 \<Rightarrow> app \<Rightarrow> (app \<times> svc_error option) go" where
  "SendP2PTry t dstMac a =
     (case sm_load (pp_p2pTrySocks (p2p a)) dstMac of
        Some x \<Rightarrow>
          (let a1 = set_peer_ctx x (\<lambda>p. p\<lparr>ps_TryConnCount := ps_TryConnCount p + 1,
                                         ps_LastTryConnTime := unix t\<rparr>) a;
               ctx = peerHeap a1 x
           in if ps_Handler ctx \<noteq> None
              then go_map (\<lambda>a2. (a2, None)) (write_handler (ps_Handler ctx)
                     (DataFrame (data_frame Msg_P2PTry (hwMac a1) (ps_PeerMac ctx))) a1)
              else Done (upd_trySocks (sm_delete dstMac) a1, Some ErrP2pTryFailed))
      | None \<Rightarrow> Done (upd_trySocks (sm_delete dstMac) a, Some ErrP2pTryFailed))"

definition P2PSuccess :: "u64 \<Rightarrow> addr option \<Rightarrow> app \<Rightarrow> (app \<times> svc_error option) go" where
  "P2PSuccess dstMac sock a =
     (case sock of None \<Rightarrow> Done (a, Some ErrBadSock) | Some s \<Rightarrow>
        go_bind
          (case sm_load (pp_p2pTrySocks (p2p a)) dstMac of
             Some x \<Rightarrow>
               (let a1 = upd_trySocks (sm_delete dstMac) (upd_p2pSocks (sm_store dstMac x) a);
                    ctx = peerHeap a1 x
                in write_handler (ps_Handler ctx)
                     (DataFrame (data_frame Msg_P2PTry (hwMac a1) (ps_PeerMac ctx))) a1)
           | None \<Rightarrow> Done (upd_p2pSocks (sm_store dstMac s) a))
          (\<lambda>a2. Done (emit EvUpdatePeers a2, None)))"

definition IsP2P :: "u64 \<Rightarrow> app \<Rightarrow> bool" where
  "IsP2P dstMac a \<longleftrightarrow> sm_load (pp_p2pSocks (p2p a)) dstMac \<noteq> None"

definition stop_loaded :: "(u64, addr) smap \<Rightarrow> u64 \<Rightarrow> app \<Rightarrow> app go" where
  "stop_loaded m mac a =
     (case sm_load m mac of
        Some x \<Rightarrow> stop_bootstrap (ps_Bootstrap (peerHeap a x)) a
      | None \<Rightarrow> Done a)"

definition PeerStateChanged :: "u64 \<Rightarrow> app \<Rightarrow> app go" where
  "PeerStateChanged mac a =
     (let a1 = upd_failInfo (sm_delete mac) a in
      go_bind (stop_loaded (pp_p2pTrySocks (p2p a1)) mac a1) (\<lambda>a2.
      let a3 = upd_trySocks (sm_delete mac) a2 in
      go_bind (stop_loaded (pp_p2pSocks (p2p a3)) mac a3) (\<lambda>a4.
      Done (upd_p2pSocks (sm_delete mac) a4))))"

section \<open>The state check loop\<close>

definition stop_and_disconnect :: "addr \<Rightarrow> app \<Rightarrow> app go" where
  "stop_and_disconnect x a =
     go_map (set_peer_ctx x (\<lambda>p. p\<lparr>ps_Connected := False\<rparr>))
       (stop_bootstrap (ps_Bootstrap (peerHeap a x)) a)"

text \<open>One visit of \<open>Range\<close> over the established sockets; the list collects the contexts to remove.\<close>

definition check_p2pSock :: "int \<Rightarrow> u64 \<times> addr \<Rightarrow> app \<times> addr list \<Rightarrow> (app \<times> addr list) go" where
  "check_p2pSock now e s =
     (let (key, x) = e; (a, toRemoveP2P) = s; v = peerHeap a x in
      if (of_int (now - ps_LastReceive v) :: u32) > ps_Heartbeat v + 2 then
        (if ps_PingTryCount v \<ge> 3 \<or> ps_Handler v = None
         then go_map (\<lambda>a1. (a1, toRemoveP2P @ [x])) (stop_and_disconnect x a)
         else (let a1 = set_peer_ctx x (\<lambda>p. p\<lparr>ps_PingTryCount := ps_PingTryCount p + 1\<rparr>) a in
               go_map (\<lambda>a2. (a2, toRemoveP2P)) (write_handler (ps_Handler v)
                 (DataFrame (data_frame Msg_Ping (hwMac a) (ps_PeerMac v))) a1)))
      else if (of_int (now - ps_LastReceive v) :: u32) > ac_Offline (config a)
      then go_map (\<lambda>a1. (a1, toRemoveP2P @ [x])) (stop_and_disconnect x a)
      else Done (a, toRemoveP2P))"

definition check_trySock :: "int \<Rightarrow> u64 \<times> addr \<Rightarrow> app \<times> addr list \<Rightarrow> (app \<times> addr list) go" where
  "check_trySock t e s =
     (let (key, x) = e; (a, toRemoveP2PTry) = s; v = peerHeap a x in
      if ps_TryConnCount v \<ge> ac_P2pTryCount (config a)
      then go_map (\<lambda>a1. (a1, toRemoveP2PTry @ [x])) (stop_and_disconnect x a)
      else go_map (\<lambda>(a1, err). (a1, toRemoveP2PTry)) (SendP2PTry t (ps_PeerMac v) a))"

definition remove_p2pSock :: "addr \<Rightarrow> app \<Rightarrow> app" where
  "remove_p2pSock u a = upd_p2pSocks (sm_delete (ps_PeerMac (peerHeap a u))) a"

definition remove_trySock :: "int \<Rightarrow> addr \<Rightarrow> app \<Rightarrow> app go" where
  "remove_trySock t u a =
     go_map (upd_trySocks (sm_delete (ps_PeerMac (peerHeap a u))))
       (saveFailPunchInfo t (ps_PeerMac (peerHeap a u)) a)"

text \<open>The two halves of a tick: established sockets, then sockets being tried.\<close>

definition tick_p2pSocks :: "int \<Rightarrow> app \<Rightarrow> app go" where
  "tick_p2pSocks t a =
     go_map (\<lambda>(a1, rm). if rm \<noteq> [] then emit EvUpdatePeers (fold remove_p2pSock rm a1) else a1)
       (go_fold (check_p2pSock (unix t)) (pp_p2pSocks (p2p a)) (a, []))"

definition tick_trySocks :: "int \<Rightarrow> app \<Rightarrow> app go" where
  "tick_trySocks t a =
     go_bind (go_fold (check_trySock t) (pp_p2pTrySocks (p2p a)) (a, []))
       (\<lambda>(a1, rm). go_fold (remove_trySock t) rm a1)"

definition stateCheck_tick :: "int \<Rightarrow> app \<Rightarrow> app go" where
  "stateCheck_tick t a = go_bind (tick_p2pSocks t a) (tick_trySocks t)"

text \<open>Stopping every socket. The type switch in the first loop tests for the struct type while the map
  holds pointers, so that loop only collects keys that are never used.\<close>

definition stop_if_bootstrap :: "u64 \<times> addr \<Rightarrow> app \<Rightarrow> app go" where
  "stop_if_bootstrap e a =
     (if ps_Bootstrap (peerHeap a (snd e)) \<noteq> None then stop_and_disconnect (snd e) a else Done a)"

definition stopP2pSockets :: "app \<Rightarrow> app go" where
  "stopP2pSockets a =
     go_bind (go_fold stop_if_bootstrap (pp_p2pSocks (p2p a)) a) (\<lambda>a1.
     let a2 = upd_p2pSocks (\<lambda>m. the (ClearMap (Some m))) a1 in
     go_bind (go_fold stop_if_bootstrap (pp_p2pTrySocks (p2p a2)) a2) (\<lambda>a3.
     Done (upd_trySocks (\<lambda>m. the (ClearMap (Some m))) a3)))"

text \<open>The goroutine \<open>stateCheck\<close>, driven by what its \<open>select\<close> receives: cancellation or the timer.
  The loop is over when \<open>running\<close> is false at its head; the deferred function clears \<open>running\<close>.\<close>

datatype select_case = SelDone | SelTimer int

fun stateCheck :: "select_case list \<Rightarrow> app \<Rightarrow> app go" where
  "stateCheck cs a =
     (if \<not> pp_running (p2p a)
      then go_map (upd_p2p (\<lambda>s. s\<lparr>pp_running := False\<rparr>)) (stopP2pSockets a)
      else case cs of
        [] \<Rightarrow> Done a
      | SelDone # _ \<Rightarrow> go_map (upd_p2p (\<lambda>s. s\<lparr>pp_running := False\<rparr>)) (stopP2pSockets a)
      | SelTimer t # rest \<Rightarrow> go_bind (stateCheck_tick t a) (stateCheck rest))"

definition stop_peer_bootstrap :: "u64 \<times> addr \<Rightarrow> app \<Rightarrow> app go" where
  "stop_peer_bootstrap e a = stop_bootstrap (ps_Bootstrap (peerHeap a (snd e))) a"

definition ResetP2PSocks :: "app \<Rightarrow> app go" where
  "ResetP2PSocks a =
     (let a1 = upd_failInfo (\<lambda>m. the (ClearMap (Some m))) (upd_punchSocks (\<lambda>m. the (ClearMap (Some m))) a) in
      go_bind (go_fold stop_peer_bootstrap (pp_p2pTrySocks (p2p a1)) a1) (\<lambda>a2.
      let a3 = upd_trySocks (\<lambda>m. the (ClearMap (Some m))) a2 in
      go_bind (go_fold stop_peer_bootstrap (pp_p2pSocks (p2p a3)) a3) (\<lambda>a4.
      Done (upd_p2pSocks (\<lambda>m. the (ClearMap (Some m))) a4))))"

declare stateCheck.simps [simp del]

section \<open>Invariant\<close>

text \<open>A peer context as \<open>ProcessP2PAck\<close> creates it: allocated, with its bootstrap.\<close>

definition peer_ctx :: "app \<Rightarrow> addr \<Rightarrow> bool" where
  "peer_ctx a x \<longleftrightarrow> x < next_addr a \<and> ps_Bootstrap (peerHeap a x) \<noteq> None"

definition try_ctx :: "app \<Rightarrow> u64 \<Rightarrow> addr \<Rightarrow> bool" where
  "try_ctx a k x \<longleftrightarrow> peer_ctx a x \<and> ps_Handler (peerHeap a x) \<noteq> None \<and> ps_PeerMac (peerHeap a x) = k"

definition punch_ctx :: "app \<Rightarrow> addr \<Rightarrow> bool" where
  "punch_ctx a x \<longleftrightarrow> x < next_addr a \<and> pk_Bootstrap (punchHeap a x) \<noteq> None"

definition p2p_inv :: "app \<Rightarrow> bool" where
  "p2p_inv a \<longleftrightarrow>
     sm_ok (pp_punchSocks (p2p a)) \<and> sm_ok (pp_p2pTrySocks (p2p a)) \<and>
     sm_ok (pp_p2pSocks (p2p a)) \<and> sm_ok (pp_hisP2PFailInfo (p2p a)) \<and>
     (\<forall>k x. sm_load (pp_punchSocks (p2p a)) k = Some x \<longrightarrow> punch_ctx a x) \<and>
     (\<forall>k x. sm_load (pp_p2pTrySocks (p2p a)) k = Some x \<longrightarrow> try_ctx a k x) \<and>
     (\<forall>k x. sm_load (pp_p2pSocks (p2p a)) k = Some x \<longrightarrow> peer_ctx a x)"

text \<open>What every operation keeps of the contexts that exist: they are never freed, keep bootstrap and
  address, and do not lose their handler.\<close>

definition ctx_le :: "app \<Rightarrow> app \<Rightarrow> bool" where
  "ctx_le a b \<longleftrightarrow> next_addr a \<le> next_addr b \<and>
     (\<forall>x<next_addr a.
        ps_Bootstrap (peerHeap b x) = ps_Bootstrap (peerHeap a x) \<and>
        ps_PeerMac (peerHeap b x) = ps_PeerMac (peerHeap a x) \<and>
        (ps_Handler (peerHeap a x) \<noteq> None \<longrightarrow> ps_Handler (peerHeap b x) \<noteq> None) \<and>
        pk_Bootstrap (punchHeap b x) = pk_Bootstrap (punchHeap a x) \<and>
        pk_PeerMac (punchHeap b x) = pk_PeerMac (punchHeap a x))"

lemma ctx_le_refl [simp]: "ctx_le a a"
  by (simp add: ctx_le_def)

lemma ctx_le_trans: "ctx_le a b \<Longrightarrow> ctx_le b c \<Longrightarrow> ctx_le a c"
  by (auto simp: ctx_le_def)

lemma ctx_le_mono:
  assumes "ctx_le a b"
  shows "peer_ctx a x \<Longrightarrow> peer_ctx b x" "try_ctx a k x \<Longrightarrow> try_ctx b k x" "punch_ctx a x \<Longrightarrow> punch_ctx b x"
  using assms by (auto simp: ctx_le_def peer_ctx_def try_ctx_def punch_ctx_def)

text \<open>\<open>step_ok a m\<close>: the call returns, in a good state, and keeps the contexts.\<close>

definition step_ok :: "app \<Rightarrow> app go \<Rightarrow> bool" where
  "step_ok a m \<longleftrightarrow> (\<exists>b. m = Done b \<and> p2p_inv b \<and> ctx_le a b)"

lemma step_ok_Done: "step_ok a (Done b) \<longleftrightarrow> p2p_inv b \<and> ctx_le a b"
  by (simp add: step_ok_def)

lemma step_ok_bind:
  assumes "step_ok a m" "\<And>b. p2p_inv b \<Longrightarrow> ctx_le a b \<Longrightarrow> step_ok b (f b)"
  shows "step_ok a (go_bind m f)"
  using assms ctx_le_trans by (fastforce simp: step_ok_def)

text \<open>A loop whose body is safe in every state that extends the first one.\<close>

lemma step_ok_fold:
  assumes "p2p_inv a" "\<And>e b. e \<in> set es \<Longrightarrow> p2p_inv b \<Longrightarrow> ctx_le a b \<Longrightarrow> step_ok b (f e b)"
  shows "step_ok a (go_fold f es a)"
proof -
  have "\<exists>b. go_fold f es a = Done b \<and> (p2p_inv b \<and> ctx_le a b)"
  proof (rule go_fold_inv)
    fix e b assume "e \<in> set es" and b: "p2p_inv b \<and> ctx_le a b"
    with assms(2) obtain c where "f e b = Done c" "p2p_inv c" "ctx_le b c"
      unfolding step_ok_def by blast
    with b show "\<exists>c. f e b = Done c \<and> p2p_inv c \<and> ctx_le a c" using ctx_le_trans by blast
  qed (use assms(1) in simp)
  then show ?thesis by (simp add: step_ok_def)
qed

text \<open>The same for a loop that also collects a list whose elements satisfy \<open>P\<close>.\<close>

lemma step_ok_fold_collect:
  assumes "p2p_inv a"
    and "\<And>e b rm. e \<in> set es \<Longrightarrow> p2p_inv b \<Longrightarrow> ctx_le a b \<Longrightarrow> \<forall>x\<in>set rm. P x \<Longrightarrow>
      \<exists>c rm'. f e (b, rm) = Done (c, rm') \<and> p2p_inv c \<and> ctx_le b c \<and> (\<forall>x\<in>set rm'. P x)"
  shows "\<exists>b rm. go_fold f es (a, []) = Done (b, rm) \<and> p2p_inv b \<and> ctx_le a b \<and> (\<forall>x\<in>set rm. P x)"
proof -
  have "\<exists>s. go_fold f es (a, []) = Done s \<and>
      (p2p_inv (fst s) \<and> ctx_le a (fst s) \<and> (\<forall>x\<in>set (snd s). P x))"
  proof (intro go_fold_inv)
    fix e s assume "e \<in> set es" "p2p_inv (fst s) \<and> ctx_le a (fst s) \<and> (\<forall>x\<in>set (snd s). P x)"
    moreover from this assms(2) [of e "fst s" "snd s"] obtain c rm' where
      "f e s = Done (c, rm')" "p2p_inv c" "ctx_le (fst s) c" "\<forall>x\<in>set rm'. P x" by auto
    ultimately show "\<exists>s'. f e s = Done s' \<and>
        p2p_inv (fst s') \<and> ctx_le a (fst s') \<and> (\<forall>x\<in>set (snd s'). P x)"
      by (auto intro: ctx_le_trans)
  qed (use assms(1) in simp_all)
  then show ?thesis by auto
qed

text \<open>Elementary updates.\<close>

lemma p2p_inv_emit [simp]: "p2p_inv (emit e a) = p2p_inv a"
  by (simp add: p2p_inv_def try_ctx_def peer_ctx_def punch_ctx_def)

lemma ctx_le_emit [simp]: "ctx_le a (emit e b) = ctx_le a b"
  by (simp add: ctx_le_def)

lemma ctx_le_upd_p2p [simp]: "ctx_le a (upd_p2p f b) = ctx_le a b"
  by (simp add: ctx_le_def)

lemma ctx_le_upd [simp]:
  "ctx_le a (upd_punchSocks f b) = ctx_le a b" "ctx_le a (upd_trySocks f b) = ctx_le a b"
  "ctx_le a (upd_p2pSocks f b) = ctx_le a b" "ctx_le a (upd_failInfo g b) = ctx_le a b"
  "ctx_le (upd_punchSocks f a) b = ctx_le a b" "ctx_le (upd_trySocks f a) b = ctx_le a b"
  "ctx_le (upd_p2pSocks f a) b = ctx_le a b" "ctx_le (upd_failInfo g a) b = ctx_le a b"
  by (simp_all add: p2p_upd_defs, simp_all add: ctx_le_def)

lemma ctx_upd [simp]:
  "peer_ctx (upd_punchSocks f a) = peer_ctx a" "peer_ctx (upd_trySocks f a) = peer_ctx a"
  "peer_ctx (upd_p2pSocks f a) = peer_ctx a" "peer_ctx (upd_failInfo g a) = peer_ctx a"
  "try_ctx (upd_punchSocks f a) = try_ctx a" "try_ctx (upd_trySocks f a) = try_ctx a"
  "try_ctx (upd_p2pSocks f a) = try_ctx a" "try_ctx (upd_failInfo g a) = try_ctx a"
  "punch_ctx (upd_punchSocks f a) = punch_ctx a" "punch_ctx (upd_trySocks f a) = punch_ctx a"
  "punch_ctx (upd_p2pSocks f a) = punch_ctx a" "punch_ctx (upd_failInfo g a) = punch_ctx a"
  "peer_ctx (emit e a) = peer_ctx a" "try_ctx (emit e a) = try_ctx a" "punch_ctx (emit e a) = punch_ctx a"
  by (simp_all add: fun_eq_iff peer_ctx_def try_ctx_def punch_ctx_def)

lemma p2p_inv_delete [simp]:
  assumes "p2p_inv a"
  shows "p2p_inv (upd_punchSocks (sm_delete k) a)" "p2p_inv (upd_trySocks (sm_delete k) a)"
    "p2p_inv (upd_p2pSocks (sm_delete k) a)" "p2p_inv (upd_failInfo (sm_delete k) a)"
    "p2p_inv (upd_failInfo (sm_store k v) a)"
  using assms by (simp_all add: p2p_inv_def)

lemma p2p_inv_store:
  assumes "p2p_inv a"
  shows "punch_ctx a x \<Longrightarrow> p2p_inv (upd_punchSocks (sm_store k x) a)"
    "try_ctx a k x \<Longrightarrow> p2p_inv (upd_trySocks (sm_store k x) a)"
    "peer_ctx a x \<Longrightarrow> p2p_inv (upd_p2pSocks (sm_store k x) a)"
  using assms by (simp_all add: p2p_inv_def)

lemma p2p_inv_clear [simp]:
  assumes "p2p_inv a"
  shows "p2p_inv (upd_punchSocks (\<lambda>m. []) a)" "p2p_inv (upd_trySocks (\<lambda>m. []) a)"
    "p2p_inv (upd_p2pSocks (\<lambda>m. []) a)" "p2p_inv (upd_failInfo (\<lambda>m. []) a)"
  using assms by (simp_all add: p2p_inv_def sm_ok_def)

text \<open>A state that keeps the contexts and the maps of a good state is good.\<close>

lemma p2p_inv_mono:
  assumes "p2p_inv a" "ctx_le a b" "p2p b = p2p a"
  shows "p2p_inv b"
  using assms ctx_le_mono [OF assms(2)] unfolding p2p_inv_def by metis

lemma ctx_le_set_peer:
  assumes "\<And>p. ps_Bootstrap (f p) = ps_Bootstrap p" "\<And>p. ps_PeerMac (f p) = ps_PeerMac p"
    "\<And>p. ps_Handler p \<noteq> None \<Longrightarrow> ps_Handler (f p) \<noteq> None"
  shows "ctx_le a (set_peer_ctx x f a)"
  using assms by (simp add: ctx_le_def)

lemma ctx_le_set_punch:
  assumes "\<And>p. pk_Bootstrap (f p) = pk_Bootstrap p" "\<And>p. pk_PeerMac (f p) = pk_PeerMac p"
  shows "ctx_le a (set_punch_ctx x f a)"
  using assms by (simp add: ctx_le_def)

lemma step_ok_set_peer:
  assumes "p2p_inv a" "\<And>p. ps_Bootstrap (f p) = ps_Bootstrap p" "\<And>p. ps_PeerMac (f p) = ps_PeerMac p"
    "\<And>p. ps_Handler p \<noteq> None \<Longrightarrow> ps_Handler (f p) \<noteq> None"
  shows "p2p_inv (set_peer_ctx x f a) \<and> ctx_le a (set_peer_ctx x f a)"
  using p2p_inv_mono [OF assms(1) ctx_le_set_peer [of f]] ctx_le_set_peer [of f] assms(2-4) by simp

lemma step_ok_set_punch:
  assumes "p2p_inv a" "\<And>p. pk_Bootstrap (f p) = pk_Bootstrap p" "\<And>p. pk_PeerMac (f p) = pk_PeerMac p"
  shows "p2p_inv (set_punch_ctx x f a) \<and> ctx_le a (set_punch_ctx x f a)"
  using p2p_inv_mono [OF assms(1) ctx_le_set_punch [of f]] ctx_le_set_punch [of f] assms(2-3) by simp

lemma stop_bootstrap_ok:
  "p2p_inv a \<Longrightarrow> b \<noteq> None \<Longrightarrow> step_ok a (stop_bootstrap b a)"
  by (auto simp: step_ok_def)

lemma write_handler_ok:
  "p2p_inv a \<Longrightarrow> h \<noteq> None \<Longrightarrow> step_ok a (write_handler h fr a)"
  by (auto simp: step_ok_def)

lemma p2p_invD:
  assumes "p2p_inv a"
  shows "sm_load (pp_punchSocks (p2p a)) k = Some x \<Longrightarrow> punch_ctx a x"
    "sm_load (pp_p2pTrySocks (p2p a)) k = Some x \<Longrightarrow> try_ctx a k x"
    "sm_load (pp_p2pSocks (p2p a)) k = Some x \<Longrightarrow> peer_ctx a x"
    "(k, x) \<in> set (pp_punchSocks (p2p a)) \<Longrightarrow> punch_ctx a x"
    "(k, x) \<in> set (pp_p2pTrySocks (p2p a)) \<Longrightarrow> try_ctx a k x"
    "(k, x) \<in> set (pp_p2pSocks (p2p a)) \<Longrightarrow> peer_ctx a x"
  using assms by (auto simp: p2p_inv_def sm_load_Some_iff)

lemma step_ok_map:
  assumes "step_ok a m" "\<And>b. p2p_inv b \<Longrightarrow> ctx_le a b \<Longrightarrow> p2p_inv (f b) \<and> ctx_le b (f b)"
  shows "step_ok a (go_map f m)"
  using assms ctx_le_trans by (fastforce simp: step_ok_def)

section \<open>Every operation keeps the invariant and returns\<close>

lemma stop_and_disconnect_ok: "p2p_inv a \<Longrightarrow> peer_ctx a x \<Longrightarrow> step_ok a (stop_and_disconnect x a)"
  unfolding stop_and_disconnect_def
  by (rule step_ok_map) (simp_all add: stop_bootstrap_ok peer_ctx_def step_ok_set_peer)

lemma saveFailPunchInfo_ok:
  assumes inv: "p2p_inv a"
  shows "step_ok a (saveFailPunchInfo t mac a)"
proof -
  define a1 where "a1 = (case sm_load (pp_hisP2PFailInfo (p2p a)) mac of
      Some p \<Rightarrow> upd_failInfo (sm_store mac (p\<lparr>fi_FailedCount := fi_FailedCount p + 1, fi_FailedTime := t\<rparr>)) a
    | None \<Rightarrow> upd_failInfo (sm_store mac \<lparr>fi_DstMac = mac, fi_FailedCount = 1, fi_FailedTime = t\<rparr>) a)"
  have i1: "p2p_inv a1" and l1: "ctx_le a a1"
    using inv by (simp_all add: a1_def split: option.split)
  have "step_ok a (case sm_load (pp_punchSocks (p2p a1)) mac of
      Some x \<Rightarrow> stop_bootstrap (pk_Bootstrap (punchHeap a1 x)) a1 | None \<Rightarrow> Done a1)"
    using i1 l1 p2p_invD(1) [OF i1, of mac]
    by (auto simp: step_ok_def punch_ctx_def split: option.split)
  then show ?thesis unfolding saveFailPunchInfo_def Let_def a1_def [symmetric]
    by (rule step_ok_bind) (simp add: step_ok_Done)
qed

text \<open>Calls that also return an error: the state part.\<close>

lemma SendP2PTrigger_ok: "p2p_inv a \<Longrightarrow> step_ok a (go_map fst (SendP2PTrigger t mac a))"
  using p2p_invD(1) [of a mac]
  by (auto simp: SendP2PTrigger_def Let_def step_ok_def punch_ctx_def split: option.split)

lemma punch_HandleActive_ok: "p2p_inv a \<Longrightarrow> step_ok a (punch_HandleActive t x h a)"
proof -
  assume inv: "p2p_inv a"
  define a1 where "a1 = set_punch_ctx x (\<lambda>p. p\<lparr>pk_Handler := Some h, pk_Connected := True,
                                   pk_LastReceive := unix t\<rparr>) a"
  have "p2p_inv a1 \<and> ctx_le a a1" unfolding a1_def by (rule step_ok_set_punch) (simp_all add: inv)
  then show ?thesis
    unfolding punch_HandleActive_def a1_def [symmetric] Let_def
    using SendP2PTrigger_ok [of a1] ctx_le_trans by (fastforce simp: step_ok_def)
qed

lemma alloc_punch_ok:
  assumes "p2p_inv a"
  shows "p2p_inv (alloc_punch mac t a) \<and> ctx_le a (alloc_punch mac t a)"
proof -
  have "ctx_le a (alloc_punch mac t a)" by (simp add: ctx_le_def alloc_punch_def)
  with assms show ?thesis by (auto intro: p2p_inv_mono simp: alloc_punch_def)
qed

lemma alloc_peer_ok:
  assumes "p2p_inv a"
  shows "p2p_inv (alloc_peer mac a) \<and> ctx_le a (alloc_peer mac a)"
proof -
  have "ctx_le a (alloc_peer mac a)" by (simp add: ctx_le_def alloc_peer_def)
  with assms show ?thesis by (auto intro: p2p_inv_mono simp: alloc_peer_def)
qed

lemma fresh_handler_ok:
  assumes "p2p_inv a"
  shows "p2p_inv (snd (fresh_handler a)) \<and> ctx_le a (snd (fresh_handler a))"
proof -
  have "ctx_le a (snd (fresh_handler a))" by (simp add: ctx_le_def fresh_handler_def)
  with assms show ?thesis by (auto intro: p2p_inv_mono simp: fresh_handler_def)
qed

lemma step_ok_le: "ctx_le a b \<Longrightarrow> step_ok b m \<Longrightarrow> step_ok a m"
  using ctx_le_trans by (auto simp: step_ok_def)

lemma newPunchSock_ok:
  assumes inv: "p2p_inv a"
  shows "step_ok a (go_map fst (newPunchSock t conn mac a))"
proof -
  define x where "x = next_addr a"
  define a2 where "a2 = emit (EvConnect (next_ref a) (''//'' @ ac_ServerIp (config a) @ '':'' @
      int_str (ac_ServerPort (config a))) ''0.0.0.0:0'')
    (upd_punchSocks (sm_store mac x) (alloc_punch mac (unix t) a))"
  have "punch_ctx (alloc_punch mac (unix t) a) x"
    by (simp add: punch_ctx_def alloc_punch_def x_def)
  then have a2: "p2p_inv a2" "ctx_le a a2"
    using alloc_punch_ok [OF inv] p2p_inv_store(1) by (simp_all add: a2_def)
  define a3 where "a3 = snd (fresh_handler a2)"
  have a3: "p2p_inv a3" "ctx_le a a3"
    using fresh_handler_ok [OF a2(1)] a2(2) ctx_le_trans [of a a2] by (simp_all add: a3_def)
  show ?thesis
  proof (cases conn)
    case ConnErr
    have "step_ok a (saveFailPunchInfo t mac a2)"
      using saveFailPunchInfo_ok [OF a2(1)] a2(2) by (rule step_ok_le [rotated])
    with ConnErr show ?thesis
      unfolding newPunchSock_def Let_def x_def [symmetric] a2_def [symmetric] by simp
  next
    case (ConnOk lAddr)
    have act: "step_ok a (punch_HandleActive t x (fst (fresh_handler a2)) a3)"
      by (rule step_ok_le [OF a3(2) punch_HandleActive_ok [OF a3(1)]])
    have fin: "step_ok b (go_map fst (case ExtractAddrFromStr IsLittleEndian lAddr of
        Inr (ip, port) \<Rightarrow>
          Done (set_punch_ctx x (\<lambda>p. p\<lparr>pk_LocalSock := Some \<lparr>Family = AF_INET, Port = port, Addr = ip\<rparr>\<rparr>) b,
            Inr \<lparr>Family = AF_INET, Port = port, Addr = ip\<rparr>)
      | Inl e \<Rightarrow> Done (b, Inl (ErrAddr e))))" if "p2p_inv b" for b
      using that by (auto simp: step_ok_Done step_ok_set_punch Let_def split: sum.split)
    from ConnOk show ?thesis
      unfolding newPunchSock_def Let_def x_def [symmetric] a2_def [symmetric]
      by (simp add: case_prod_beta a3_def [symmetric])
        (rule step_ok_bind [OF act], rule fin)
  qed
qed

lemma StartPunch_ok: "p2p_inv a \<Longrightarrow> step_ok a (go_map fst (StartPunch t conn mac trg a))"
  using p2p_invD(1) [of a mac] newPunchSock_ok [of a t conn mac] SendP2PTrigger_ok [of a t mac]
  by (auto simp: StartPunch_def Let_def step_ok_def punch_ctx_def case_prod_beta split: option.split)

lemma TryForwardMessage_ok: "p2p_inv a \<Longrightarrow> step_ok a (go_map fst (TryForwardMessage t conn mac m a))"
  using StartPunch_ok [of a t conn mac False]
  by (auto simp: TryForwardMessage_def step_ok_def case_prod_beta split: option.split)

lemma ProcessP2PTrigger_ok: "p2p_inv a \<Longrightarrow> step_ok a (go_map fst (ProcessP2PTrigger t conn m a))"
  using StartPunch_ok by (auto simp: ProcessP2PTrigger_def step_ok_Done split: option.split)

lemma SendP2PTry_ok: "p2p_inv a \<Longrightarrow> step_ok a (go_map fst (SendP2PTry t mac a))"
proof (cases "sm_load (pp_p2pTrySocks (p2p a)) mac")
  case (Some x)
  assume inv: "p2p_inv a"
  define a1 where "a1 = set_peer_ctx x (\<lambda>p. p\<lparr>ps_TryConnCount := ps_TryConnCount p + 1,
                                         ps_LastTryConnTime := unix t\<rparr>) a"
  have "p2p_inv a1 \<and> ctx_le a a1" unfolding a1_def by (rule step_ok_set_peer) (simp_all add: inv)
  with Some show ?thesis
    by (auto simp: SendP2PTry_def Let_def a1_def [symmetric] step_ok_def)
qed (simp add: SendP2PTry_def step_ok_Done)

lemma P2PSuccess_ok:
  assumes inv: "p2p_inv a" and s: "\<And>x. s = Some x \<Longrightarrow> peer_ctx a x"
  shows "step_ok a (go_map fst (P2PSuccess mac s a))"
proof (cases s)
  case (Some x)
  have "try_ctx a mac y \<Longrightarrow> p2p_inv (upd_trySocks (sm_delete mac) (upd_p2pSocks (sm_store mac y) a))" for y
    using inv by (simp add: p2p_inv_store(3) try_ctx_def)
  then show ?thesis
    using inv s Some p2p_invD(2) [OF inv, of mac]
    by (auto simp: P2PSuccess_def Let_def step_ok_def p2p_inv_store(3) try_ctx_def split: option.split)
qed (simp add: P2PSuccess_def step_ok_Done inv)

lemma stop_loaded_ok:
  assumes "p2p_inv a" "m = pp_p2pTrySocks (p2p a) \<or> m = pp_p2pSocks (p2p a)"
  shows "step_ok a (stop_loaded m mac a)"
  using assms p2p_invD(2,3) [OF assms(1), of mac]
  by (auto simp: stop_loaded_def step_ok_def try_ctx_def peer_ctx_def split: option.split)

lemma PeerStateChanged_ok:
  assumes inv: "p2p_inv a"
  shows "step_ok a (PeerStateChanged mac a)"
  unfolding PeerStateChanged_def Let_def
proof (rule step_ok_bind)
  show "step_ok a (stop_loaded (pp_p2pTrySocks (p2p (upd_failInfo (sm_delete mac) a))) mac
      (upd_failInfo (sm_delete mac) a))"
    by (rule step_ok_le [OF _ stop_loaded_ok]) (use inv in simp_all)
  fix b assume b: "p2p_inv b"
  show "step_ok b (go_bind (stop_loaded (pp_p2pSocks (p2p (upd_trySocks (sm_delete mac) b))) mac
      (upd_trySocks (sm_delete mac) b)) (\<lambda>a4. Done (upd_p2pSocks (sm_delete mac) a4)))"
    by (rule step_ok_bind, rule step_ok_le [OF _ stop_loaded_ok]) (use b in \<open>simp_all add: step_ok_Done\<close>)
qed

lemma data_HandleActive_ok:
  assumes "p2p_inv a"
  shows "p2p_inv (data_HandleActive x h a) \<and> ctx_le a (data_HandleActive x h a)"
  using step_ok_set_peer [OF assms] by (simp add: data_HandleActive_def Let_def)

text \<open>Handling a \<open>P2PAck\<close>: between the store and the active callback the new context has no handler, so
  the invariant is shown for the state after the callback.\<close>

lemma alloc_try_active_ok:
  fixes a mac e
  defines "x \<equiv> next_addr a"
  defines "a2 \<equiv> emit e (upd_trySocks (sm_store mac x) (alloc_peer mac a))"
  assumes inv: "p2p_inv a"
  shows "p2p_inv (data_HandleActive x h (snd (fresh_handler a2)))" (is "p2p_inv ?b")
    and "ctx_le a (data_HandleActive x h (snd (fresh_handler a2)))"
    and "p2p_inv (upd_trySocks (sm_delete mac) a2)" "ctx_le a a2"
proof -
  show le: "ctx_le a ?b"
    by (simp add: ctx_le_def data_HandleActive_def Let_def fresh_handler_def a2_def alloc_peer_def x_def)
  show "ctx_le a a2" using alloc_peer_ok [OF inv] by (simp add: a2_def)
  have tx: "try_ctx ?b mac x"
    by (simp add: try_ctx_def peer_ctx_def data_HandleActive_def Let_def fresh_handler_def a2_def
        alloc_peer_def x_def)
  have p: "p2p ?b = p2p (upd_trySocks (sm_store mac x) a)"
    by (simp add: data_HandleActive_def Let_def fresh_handler_def a2_def alloc_peer_def p2p_upd_defs)
  show "p2p_inv ?b"
    unfolding p2p_inv_def p using inv tx ctx_le_mono [OF le] by (simp add: p2p_inv_def)
  have "p2p (upd_trySocks (sm_delete mac) a2) = p2p (upd_trySocks (sm_delete mac) (upd_trySocks (sm_store mac x) a))"
    by (simp add: a2_def alloc_peer_def p2p_upd_defs)
  moreover have "ctx_le a (upd_trySocks (sm_delete mac) a2)"
    using alloc_peer_ok [OF inv] by (simp add: a2_def)
  note ctx_le_mono [OF this]
  ultimately show "p2p_inv (upd_trySocks (sm_delete mac) a2)"
    using inv by (simp add: p2p_inv_def del: ctx_upd)
qed

lemma ProcessP2PAck_ok:
  assumes inv: "p2p_inv a"
  shows "step_ok a (go_map fst (ProcessP2PAck conn t m a))"
proof -
  note ok = alloc_try_active_ok [OF inv]
  have set: "step_ok a (Done (set_peer_ctx x (\<lambda>p. p\<lparr>ps_LocalSock := s\<rparr>) b))"
    if "p2p_inv b" "ctx_le a b" for b x s
    using step_ok_set_peer [OF that(1), of "\<lambda>p. p\<lparr>ps_LocalSock := s\<rparr>" x] that(2) ctx_le_trans
    by (auto simp: step_ok_Done)
  show ?thesis
    using saveFailPunchInfo_ok [OF inv] inv alloc_peer_ok [OF inv]
    by (auto simp: ProcessP2PAck_def Let_def case_prod_beta step_ok_Done ok
        split: option.split connect_result.split sum.split intro!: set [unfolded step_ok_Done])
qed

lemma check_p2pSock_ok:
  assumes inv: "p2p_inv b" and x: "peer_ctx b x"
  shows "\<exists>c rm'. check_p2pSock now (k, x) (b, rm) = Done (c, rm') \<and> p2p_inv c \<and> ctx_le b c \<and>
    set rm' \<subseteq> insert x (set rm)"
proof -
  obtain c where c: "stop_and_disconnect x b = Done c" "p2p_inv c" "ctx_le b c"
    using stop_and_disconnect_ok [OF inv x] by (auto simp: step_ok_def)
  have "p2p_inv (set_peer_ctx x (\<lambda>p. p\<lparr>ps_PingTryCount := ps_PingTryCount p + 1\<rparr>) b) \<and>
      ctx_le b (set_peer_ctx x (\<lambda>p. p\<lparr>ps_PingTryCount := ps_PingTryCount p + 1\<rparr>) b)"
    by (rule step_ok_set_peer) (simp_all add: inv)
  with c inv show ?thesis by (auto simp: check_p2pSock_def Let_def)
qed

lemma check_trySock_ok:
  assumes inv: "p2p_inv b" and x: "peer_ctx b x"
  shows "\<exists>c rm'. check_trySock t (k, x) (b, rm) = Done (c, rm') \<and> p2p_inv c \<and> ctx_le b c \<and>
    set rm' \<subseteq> insert x (set rm)"
proof -
  obtain c where c: "stop_and_disconnect x b = Done c" "p2p_inv c" "ctx_le b c"
    using stop_and_disconnect_ok [OF inv x] by (auto simp: step_ok_def)
  obtain d r where "SendP2PTry t (ps_PeerMac (peerHeap b x)) b = Done (d, r)" "p2p_inv d" "ctx_le b d"
    using SendP2PTry_ok [OF inv, of t "ps_PeerMac (peerHeap b x)"]
    by (cases "SendP2PTry t (ps_PeerMac (peerHeap b x)) b") (auto simp: step_ok_def)
  with c show ?thesis by (auto simp: check_trySock_def Let_def)
qed

lemma fold_remove_p2pSock_ok:
  "p2p_inv a \<Longrightarrow> p2p_inv (fold remove_p2pSock rm a) \<and> ctx_le a (fold remove_p2pSock rm a)"
proof (induction rm arbitrary: a)
  case (Cons x rm)
  then show ?case using Cons.IH [of "remove_p2pSock x a"] by (simp add: remove_p2pSock_def)
qed simp

lemma tick_p2pSocks_ok:
  assumes inv: "p2p_inv a"
  shows "step_ok a (tick_p2pSocks t a)"
proof -
  have "\<exists>b rm. go_fold (check_p2pSock (unix t)) (pp_p2pSocks (p2p a)) (a, []) = Done (b, rm) \<and>
      p2p_inv b \<and> ctx_le a b \<and> (\<forall>x\<in>set rm. True)"
  proof (rule step_ok_fold_collect [OF inv])
    fix e b and rm :: "addr list"
    assume "e \<in> set (pp_p2pSocks (p2p a))" "p2p_inv b" "ctx_le a b"
    with inv show "\<exists>c rm'. check_p2pSock (unix t) e (b, rm) = Done (c, rm') \<and> p2p_inv c \<and>
        ctx_le b c \<and> (\<forall>x\<in>set rm'. True)"
      using check_p2pSock_ok ctx_le_mono(1) p2p_invD(6) by (cases e) blast
  qed
  then obtain b rm where "go_fold (check_p2pSock (unix t)) (pp_p2pSocks (p2p a)) (a, []) = Done (b, rm)"
    "p2p_inv b" "ctx_le a b" by blast
  then show ?thesis
    using fold_remove_p2pSock_ok [of b rm] ctx_le_trans by (auto simp: tick_p2pSocks_def step_ok_def)
qed

lemma tick_trySocks_ok:
  assumes inv: "p2p_inv a"
  shows "step_ok a (tick_trySocks t a)"
proof -
  have "\<exists>b rm. go_fold (check_trySock t) (pp_p2pTrySocks (p2p a)) (a, []) = Done (b, rm) \<and>
      p2p_inv b \<and> ctx_le a b \<and> (\<forall>x\<in>set rm. True)"
  proof (rule step_ok_fold_collect [OF inv])
    fix e b and rm :: "addr list"
    assume "e \<in> set (pp_p2pTrySocks (p2p a))" "p2p_inv b" "ctx_le a b"
    with inv show "\<exists>c rm'. check_trySock t e (b, rm) = Done (c, rm') \<and> p2p_inv c \<and>
        ctx_le b c \<and> (\<forall>x\<in>set rm'. True)"
      using check_trySock_ok ctx_le_mono(1) p2p_invD(5) try_ctx_def by (cases e) blast
  qed
  then obtain b rm where b: "go_fold (check_trySock t) (pp_p2pTrySocks (p2p a)) (a, []) = Done (b, rm)"
    "p2p_inv b" "ctx_le a b" by blast
  have "step_ok b (go_fold (remove_trySock t) rm b)"
    by (rule step_ok_fold [OF b(2)])
      (auto simp: remove_trySock_def intro!: step_ok_map saveFailPunchInfo_ok)
  with b show ?thesis by (auto simp: tick_trySocks_def intro: step_ok_le)
qed

lemma stateCheck_tick_ok: "p2p_inv a \<Longrightarrow> step_ok a (stateCheck_tick t a)"
  unfolding stateCheck_tick_def by (rule step_ok_bind) (simp_all add: tick_p2pSocks_ok tick_trySocks_ok)

lemma stop_if_bootstrap_ok: "p2p_inv a \<Longrightarrow> peer_ctx a (snd e) \<Longrightarrow> step_ok a (stop_if_bootstrap e a)"
  by (simp add: stop_if_bootstrap_def stop_and_disconnect_ok step_ok_Done)

lemma stop_peer_bootstrap_ok: "p2p_inv a \<Longrightarrow> peer_ctx a (snd e) \<Longrightarrow> step_ok a (stop_peer_bootstrap e a)"
  by (simp add: stop_peer_bootstrap_def stop_bootstrap_ok peer_ctx_def)

lemma fold_socks_ok:
  assumes inv: "p2p_inv a" and m: "m = pp_p2pTrySocks (p2p a) \<or> m = pp_p2pSocks (p2p a)"
    and f: "\<And>e b. p2p_inv b \<Longrightarrow> peer_ctx b (snd e) \<Longrightarrow> step_ok b (f e b)"
  shows "step_ok a (go_fold f m a)"
proof (rule step_ok_fold [OF inv])
  fix e b assume "e \<in> set m" "p2p_inv b" "ctx_le a b"
  moreover from this m inv have "peer_ctx a (snd e)"
    using p2p_invD(5,6) [OF inv, of "fst e" "snd e"] by (auto simp: try_ctx_def)
  ultimately show "step_ok b (f e b)" using f ctx_le_mono(1) by blast
qed

lemma stopP2pSockets_ok: "p2p_inv a \<Longrightarrow> step_ok a (stopP2pSockets a)"
  unfolding stopP2pSockets_def Let_def
  by (rule step_ok_bind, rule fold_socks_ok, simp, simp, simp add: stop_if_bootstrap_ok,
      rule step_ok_bind, rule step_ok_le [OF _ fold_socks_ok])
    (simp_all add: stop_if_bootstrap_ok step_ok_Done)

lemma ResetP2PSocks_ok: "p2p_inv a \<Longrightarrow> step_ok a (ResetP2PSocks a)"
  unfolding ResetP2PSocks_def Let_def
  by (rule step_ok_bind, rule step_ok_le [OF _ fold_socks_ok], simp, simp, simp, 
      simp add: stop_peer_bootstrap_ok,
      rule step_ok_bind, rule step_ok_le [OF _ fold_socks_ok])
    (simp_all add: stop_peer_bootstrap_ok step_ok_Done)

lemma upd_running_ok:
  assumes "p2p_inv a" "\<And>s. pp_punchSocks (f s) = pp_punchSocks s" "\<And>s. pp_p2pTrySocks (f s) = pp_p2pTrySocks s"
    "\<And>s. pp_p2pSocks (f s) = pp_p2pSocks s" "\<And>s. pp_hisP2PFailInfo (f s) = pp_hisP2PFailInfo s"
  shows "p2p_inv (upd_p2p f a)"
  using assms by (simp add: p2p_inv_def punch_ctx_def peer_ctx_def try_ctx_def)

lemma p2p_Start_ok: "p2p_inv a \<Longrightarrow> p2p_inv (p2p_Start a)"
  by (simp add: p2p_Start_def p2p_inv_def)

lemma stateCheck_ok: "p2p_inv a \<Longrightarrow> step_ok a (stateCheck cs a)"
proof (induction cs a rule: stateCheck.induct)
  case (1 cs a)
  have stop: "step_ok a (go_map (upd_p2p (\<lambda>s. s\<lparr>pp_running := False\<rparr>)) (stopP2pSockets a))"
    using stopP2pSockets_ok [OF 1(2)] by (rule step_ok_map) (simp add: upd_running_ok)
  show ?case
  proof (cases "pp_running (p2p a)")
    case True
    with stop 1 show ?thesis
      by (subst stateCheck.simps)
        (auto simp: step_ok_Done stateCheck_tick_ok split: list.split select_case.split intro!: step_ok_bind)
  qed (subst stateCheck.simps, use stop in simp)
qed

section \<open>The service as a transition system\<close>

text \<open>One step per call another component or the timer can make. A \<open>P2PSuccess\<close> comes from the
  \<open>DataHandler\<close> of a peer context.\<close>

inductive p2p_step :: "app \<Rightarrow> app \<Rightarrow> bool" where
  start: "p2p_step a (p2p_Start a)"
| stop: "p2p_Stop a = Done b \<Longrightarrow> p2p_step a b"
| tick: "stateCheck_tick t a = Done b \<Longrightarrow> p2p_step a b"
| halt: "stopP2pSockets a = Done b \<Longrightarrow> p2p_step a b"
| forward: "TryForwardMessage t conn mac msg a = Done (b, r) \<Longrightarrow> p2p_step a b"
| trigger: "ProcessP2PTrigger t conn m a = Done (b, e) \<Longrightarrow> p2p_step a b"
| ack: "ProcessP2PAck conn t m2 a = Done (b, e) \<Longrightarrow> p2p_step a b"
| success: "peer_ctx a s \<Longrightarrow> P2PSuccess mac (Some s) a = Done (b, e) \<Longrightarrow> p2p_step a b"
| changed: "PeerStateChanged mac a = Done b \<Longrightarrow> p2p_step a b"
| reset: "ResetP2PSocks a = Done b \<Longrightarrow> p2p_step a b"
| forget: "p2p_step a (DeleteFailedP2P mac a)"

inductive p2p_reachable :: "app \<Rightarrow> bool" where
  init: "\<not> pp_running (p2p a) \<Longrightarrow> p2p_reachable (p2p_Start a)"
| step: "p2p_reachable a \<Longrightarrow> p2p_step a b \<Longrightarrow> p2p_reachable b"

lemma p2p_step_inv: "p2p_step a b \<Longrightarrow> p2p_inv a \<Longrightarrow> p2p_inv b"
proof (induction rule: p2p_step.induct)
  case (stop a b)
  then show ?case by (auto simp: p2p_Stop_def upd_running_ok Let_def split: option.splits)
next
  case (forward t conn mac msg a b r)
  then show ?case using TryForwardMessage_ok [of a t conn mac msg] by (simp add: step_ok_Done)
next
  case (trigger t conn m a b e)
  then show ?case using ProcessP2PTrigger_ok [of a t conn m] by (simp add: step_ok_Done)
next
  case (ack conn t m2 a b e)
  then show ?case using ProcessP2PAck_ok [of a conn t m2] by (simp add: step_ok_Done)
next
  case (success a s mac b e)
  then show ?case using P2PSuccess_ok [of a "Some s" mac] by (simp add: step_ok_Done)
next
  case (tick t a b)
  then show ?case using stateCheck_tick_ok [of a t] by (simp add: step_ok_Done)
next
  case (halt a b)
  then show ?case using stopP2pSockets_ok [of a] by (simp add: step_ok_Done)
next
  case (changed mac a b)
  then show ?case using PeerStateChanged_ok [of a mac] by (simp add: step_ok_Done)
next
  case (reset a b)
  then show ?case using ResetP2PSocks_ok [of a] by (simp add: step_ok_Done)
qed (simp_all add: p2p_Start_ok DeleteFailedP2P_def)

lemma p2p_reachable_inv: "p2p_reachable a \<Longrightarrow> p2p_inv a"
proof (induction rule: p2p_reachable.induct)
  case (init a)
  then show ?case by (simp add: p2p_Start_def p2p_inv_def)
qed (rule p2p_step_inv)

end
