(* ===== verification/P2p_Properties.thy ===== *)
theory P2p_Properties
  imports P2p_Service
begin

text \<open>
  What the hole-punching service guarantees: no call panics in a reachable state, data goes to an
  established peer exactly when there is one, a successful punch promotes the socket, silent peers
  and hopeless attempts are dropped after a bounded number of ticks. Two properties record where
  the code falls short: punch sockets survive \<open>stopP2pSockets\<close>, and an entry stored under a foreign
  address is never dropped.
\<close>

section \<open>One tick over the established sockets\<close>

text \<open>What a pass of \<open>Range\<close> may change: ping counters grow, contexts are marked, keys collected.\<close>

definition pass_le :: "app \<times> addr list \<Rightarrow> app \<times> addr list \<Rightarrow> bool" where
  "pass_le s s' \<longleftrightarrow> p2p (fst s') = p2p (fst s) \<and> config (fst s') = config (fst s) \<and>
     set (snd s) \<subseteq> set (snd s') \<and>
     (\<forall>z. ps_LastReceive (peerHeap (fst s') z) = ps_LastReceive (peerHeap (fst s) z) \<and>
          ps_Heartbeat (peerHeap (fst s') z) = ps_Heartbeat (peerHeap (fst s) z) \<and>
          ps_PeerMac (peerHeap (fst s') z) = ps_PeerMac (peerHeap (fst s) z) \<and>
          ps_PingTryCount (peerHeap (fst s) z) \<le> ps_PingTryCount (peerHeap (fst s') z))"

lemma pass_le_refl [simp]: "pass_le s s"
  by (simp add: pass_le_def)

lemma pass_le_trans: "pass_le s t \<Longrightarrow> pass_le t u \<Longrightarrow> pass_le s u"
  unfolding pass_le_def by (metis order_trans)

definition silent :: "int \<Rightarrow> addr \<Rightarrow> app \<Rightarrow> bool" where
  "silent now x a \<longleftrightarrow>
     (of_int (now - ps_LastReceive (peerHeap a x)) :: u32) > ps_Heartbeat (peerHeap a x) + 2"

lemma ping_incr: "\<not> 3 \<le> c \<Longrightarrow> c < c + (1 :: u64)"
proof -
  assume "\<not> 3 \<le> c"
  then have "unat c < 3" by (simp add: not_le word_less_nat_alt)
  then have "unat (c + 1) = unat c + 1" by (simp add: unat_word_ariths)
  then show ?thesis by (simp add: word_less_nat_alt)
qed

lemma check_p2pSock_pass:
  assumes "check_p2pSock now (k, x) s = Done s'"
  shows "pass_le s s'"
  using assms
  by (cases s) (auto simp: check_p2pSock_def Let_def pass_le_def go_map_Done_iff stop_and_disconnect_def
      stop_bootstrap_def write_handler_def less_imp_le ping_incr split: if_splits option.splits)

lemma check_p2pSock_silent:
  assumes "check_p2pSock now (k, x) s = Done s'" "silent now x (fst s)"
  shows "x \<in> set (snd s') \<or> (\<not> 3 \<le> ps_PingTryCount (peerHeap (fst s) x) \<and>
    ps_PingTryCount (peerHeap (fst s) x) < ps_PingTryCount (peerHeap (fst s') x))"
  using assms
  by (cases s) (auto simp: check_p2pSock_def silent_def Let_def go_map_Done_iff stop_and_disconnect_def
      stop_bootstrap_def write_handler_def ping_incr split: if_splits option.splits)

lemma pass_silent:
  assumes f: "go_fold (check_p2pSock now) es (a, []) = Done (b, rm)"
    and e: "(k, x) \<in> set es" and s: "silent now x a"
  shows "x \<in> set rm \<or> (\<not> 3 \<le> ps_PingTryCount (peerHeap a x) \<and>
    ps_PingTryCount (peerHeap a x) < ps_PingTryCount (peerHeap b x))"
proof -
  have pass: "go_fold (check_p2pSock now) xs u = Done v \<Longrightarrow> pass_le u v" for xs u v
    by (rule go_fold_rel [where R = pass_le and f = "check_p2pSock now" and es = xs])
      (auto intro: pass_le_trans check_p2pSock_pass)
  from go_fold_visit [OF f e] obtain s1 s2 where
    p1: "pass_le (a, []) s1" and c: "check_p2pSock now (k, x) s1 = Done s2" and p2: "pass_le s2 (b, rm)"
    using pass by blast
  from p1 s have "silent now x (fst s1)" by (simp add: silent_def pass_le_def)
  note check_p2pSock_silent [OF c this]
  moreover have "ps_PingTryCount (peerHeap a x) \<le> ps_PingTryCount (peerHeap (fst s1) x)"
    using p1 by (simp add: pass_le_def)
  moreover have "ps_PingTryCount (peerHeap (fst s2) x) \<le> ps_PingTryCount (peerHeap b x)" "set (snd s2) \<subseteq> set rm"
    using p2 by (simp_all add: pass_le_def)
  ultimately show ?thesis by (meson le_less_trans less_le_trans order_trans subsetD)
qed

lemma fold_remove_p2pSock:
  "config (fold remove_p2pSock rm a) = config a" "peerHeap (fold remove_p2pSock rm a) = peerHeap a"
  "pp_p2pSocks (p2p (fold remove_p2pSock rm a)) =
     fold sm_delete (map (\<lambda>u. ps_PeerMac (peerHeap a u)) rm) (pp_p2pSocks (p2p a))"
  by (induction rm arbitrary: a) (simp_all add: remove_p2pSock_def)

text \<open>A tick over the established sockets: who is dropped, and what is left of the others.\<close>

lemma tick_p2pSocks_cases:
  assumes "tick_p2pSocks t a = Done b"
  obtains c rm where "go_fold (check_p2pSock (unix t)) (pp_p2pSocks (p2p a)) (a, []) = Done (c, rm)"
    "pass_le (a, []) (c, rm)" "peerHeap b = peerHeap c"
    "\<And>k. sm_load (pp_p2pSocks (p2p b)) k =
      (if k \<in> (\<lambda>u. ps_PeerMac (peerHeap a u)) ` set rm then None else sm_load (pp_p2pSocks (p2p a)) k)"
proof -
  from assms obtain c rm where f: "go_fold (check_p2pSock (unix t)) (pp_p2pSocks (p2p a)) (a, []) = Done (c, rm)"
    and b: "b = (if rm \<noteq> [] then emit EvUpdatePeers (fold remove_p2pSock rm c) else c)"
    by (auto simp: tick_p2pSocks_def go_map_Done_iff)
  have p: "pass_le (a, []) (c, rm)"
    by (rule go_fold_rel [OF _ _ _ f]) (auto intro: pass_le_trans check_p2pSock_pass)
  then have "sm_load (pp_p2pSocks (p2p b)) k =
      (if k \<in> (\<lambda>u. ps_PeerMac (peerHeap a u)) ` set rm then None else sm_load (pp_p2pSocks (p2p a)) k)" for k
    by (simp add: b fold_remove_p2pSock sm.load_delete_all pass_le_def)
  then show ?thesis using that [OF f p] by (simp add: b fold_remove_p2pSock)
qed

text \<open>The pass over the sockets being tried touches neither the established ones nor their timers.\<close>

definition try_frame :: "app \<Rightarrow> app \<Rightarrow> bool" where
  "try_frame a b \<longleftrightarrow> pp_p2pSocks (p2p b) = pp_p2pSocks (p2p a) \<and> config b = config a \<and>
     (\<forall>z. ps_LastReceive (peerHeap b z) = ps_LastReceive (peerHeap a z) \<and>
          ps_Heartbeat (peerHeap b z) = ps_Heartbeat (peerHeap a z) \<and>
          ps_PeerMac (peerHeap b z) = ps_PeerMac (peerHeap a z) \<and>
          ps_PingTryCount (peerHeap b z) = ps_PingTryCount (peerHeap a z))"

lemma saveFailPunchInfo_frame:
  "saveFailPunchInfo t mac a = Done b \<Longrightarrow> peerHeap b = peerHeap a \<and> config b = config a \<and>
    pp_p2pSocks (p2p b) = pp_p2pSocks (p2p a) \<and> pp_p2pTrySocks (p2p b) = pp_p2pTrySocks (p2p a)"
  by (auto simp: saveFailPunchInfo_def Let_def go_bind_Done_iff stop_bootstrap_def split: option.splits)

lemma check_trySock_frame: "check_trySock t e s = Done s' \<Longrightarrow> try_frame (fst s) (fst s')"
  by (cases s; cases e) (auto simp: check_trySock_def Let_def try_frame_def go_map_Done_iff stop_and_disconnect_def
      stop_bootstrap_def SendP2PTry_def write_handler_def split: if_splits option.splits)

lemma tick_trySocks_frame:
  assumes "tick_trySocks t a = Done b"
  shows "try_frame a b"
proof -
  from assms obtain c rm where f: "go_fold (check_trySock t) (pp_p2pTrySocks (p2p a)) (a, []) = Done (c, rm)"
    and g: "go_fold (remove_trySock t) rm c = Done b"
    by (auto simp: tick_trySocks_def go_bind_Done_iff)
  have "try_frame a c"
    using go_fold_rel [where R = "\<lambda>s s'. try_frame (fst s) (fst s')", OF _ _ _ f]
    by (simp add: check_trySock_frame) (auto simp: try_frame_def)
  moreover have "try_frame c b"
    by (rule go_fold_rel [OF _ _ _ g])
      (auto simp: try_frame_def remove_trySock_def go_map_Done_iff dest: saveFailPunchInfo_frame)
  ultimately show ?thesis by (auto simp: try_frame_def)
qed

lemma stateCheck_tick_split:
  assumes "stateCheck_tick t a = Done b"
  obtains c where "tick_p2pSocks t a = Done c" "try_frame c b"
  using assms tick_trySocks_frame by (auto simp: stateCheck_tick_def go_bind_Done_iff)

lemma tick_removed:
  assumes "stateCheck_tick t a = Done b" "sm_load (pp_p2pSocks (p2p a)) k = None"
  shows "sm_load (pp_p2pSocks (p2p b)) k = None"
proof -
  from assms(1) obtain c where "tick_p2pSocks t a = Done c" "try_frame c b"
    by (rule stateCheck_tick_split)
  with assms(2) show ?thesis by (auto elim!: tick_p2pSocks_cases simp: try_frame_def)
qed

lemma ticks_removed:
  assumes "go_fold stateCheck_tick ts a = Done b" "sm_load (pp_p2pSocks (p2p a)) k = None"
  shows "sm_load (pp_p2pSocks (p2p b)) k = None"
proof -
  have "sm_load (pp_p2pSocks (p2p a)) k = None \<longrightarrow> sm_load (pp_p2pSocks (p2p b)) k = None"
    by (rule go_fold_rel [OF _ _ _ assms(1)]) (simp, simp, simp add: tick_removed)
  with assms(2) show ?thesis by simp
qed

lemma tick_silent:
  assumes inv: "p2p_inv a" and b: "stateCheck_tick t a = Done b"
    and k: "sm_load (pp_p2pSocks (p2p a)) k = Some x" and m: "ps_PeerMac (peerHeap a x) = k"
    and s: "silent (unix t) x a"
  shows "sm_load (pp_p2pSocks (p2p b)) k = None \<or>
    (sm_load (pp_p2pSocks (p2p b)) k = Some x \<and> ps_PeerMac (peerHeap b x) = k \<and>
     (\<forall>t'. silent t' x b = silent t' x a) \<and> \<not> 3 \<le> ps_PingTryCount (peerHeap a x) \<and>
     ps_PingTryCount (peerHeap a x) < ps_PingTryCount (peerHeap b x))"
proof -
  from b obtain c where c: "tick_p2pSocks t a = Done c" and fr: "try_frame c b"
    by (rule stateCheck_tick_split)
  from c obtain d rm where
    f: "go_fold (check_p2pSock (unix t)) (pp_p2pSocks (p2p a)) (a, []) = Done (d, rm)"
    and p: "pass_le (a, []) (d, rm)" and h: "peerHeap c = peerHeap d"
    and l: "\<And>k. sm_load (pp_p2pSocks (p2p c)) k =
      (if k \<in> (\<lambda>u. ps_PeerMac (peerHeap a u)) ` set rm then None else sm_load (pp_p2pSocks (p2p a)) k)"
    by (rule tick_p2pSocks_cases) blast
  have "(k, x) \<in> set (pp_p2pSocks (p2p a))"
    using inv k by (simp add: p2p_inv_def sm_load_Some_iff)
  from pass_silent [OF f this s] show ?thesis
    using l [of k] k m fr h p by (auto simp: try_frame_def pass_le_def silent_def)
qed

lemma ticks_silent:
  assumes "p2p_inv a" "sm_load (pp_p2pSocks (p2p a)) k = Some x" "ps_PeerMac (peerHeap a x) = k"
    "\<And>t. t \<in> set ts \<Longrightarrow> silent (unix t) x a"
    "length ts > 3 - unat (ps_PingTryCount (peerHeap a x))"
  shows "\<exists>b. go_fold stateCheck_tick ts a = Done b \<and> \<not> IsP2P k b"
  using assms
proof (induction ts arbitrary: a)
  case (Cons t ts)
  obtain b where b: "stateCheck_tick t a = Done b" "p2p_inv b"
    using stateCheck_tick_ok [OF Cons.prems(1)] by (auto simp: step_ok_def)
  obtain c where c: "go_fold stateCheck_tick ts b = Done c"
    using step_ok_fold [OF b(2), of ts stateCheck_tick] stateCheck_tick_ok by (auto simp: step_ok_def)
  from tick_silent [OF Cons.prems(1) b(1) Cons.prems(2,3)] Cons.prems(4)
  consider "sm_load (pp_p2pSocks (p2p b)) k = None"
    | "sm_load (pp_p2pSocks (p2p b)) k = Some x" "ps_PeerMac (peerHeap b x) = k"
      "\<forall>t'. silent t' x b = silent t' x a" "\<not> 3 \<le> ps_PingTryCount (peerHeap a x)"
      "ps_PingTryCount (peerHeap a x) < ps_PingTryCount (peerHeap b x)" by auto
  then show ?case
  proof cases
    case 1
    then show ?thesis using b c ticks_removed [OF c] by (simp add: IsP2P_def)
  next
    case 2
    then have "unat (ps_PingTryCount (peerHeap a x)) < 3"
      "unat (ps_PingTryCount (peerHeap a x)) < unat (ps_PingTryCount (peerHeap b x))"
      by (simp_all add: not_le word_less_nat_alt)
    with Cons.prems(5) have "length ts > 3 - unat (ps_PingTryCount (peerHeap b x))" by simp
    with 2 Cons.IH [OF b(2)] Cons.prems(4) b show ?thesis by simp
  qed
qed simp

section \<open>Properties\<close>


text \<open>A state with one peer being tried, used by the examples: the state \<open>ProcessP2PAck\<close> leaves.\<close>

definition sample_try :: "u64 \<Rightarrow> app" where
  "sample_try mac = (let a = p2p_Start (new_app sample_config) in
     data_HandleActive (next_addr a) 1 (snd (fresh_handler (emit (EvConnect 0 [] [])
       (upd_trySocks (sm_store mac (next_addr a)) (alloc_peer mac a))))))"

lemma started_inv: "p2p_inv (p2p_Start (new_app conf))"
  by (rule p2p_reachable_inv, rule p2p_reachable.init) (simp add: new_app_def NewP2pService_def)

lemma sample_try_inv: "p2p_inv (sample_try mac)"
  unfolding sample_try_def Let_def by (rule alloc_try_active_ok(1) [OF started_inv])

lemma sample_try_simps:
  "sm_load (pp_p2pTrySocks (p2p (sample_try mac))) k = (if k = mac then Some 0 else None)"
  "sm_load (pp_p2pSocks (p2p (sample_try mac))) k = None"
  "ps_Handler (peerHeap (sample_try mac) 0) = Some 1" "ps_PeerMac (peerHeap (sample_try mac) 0) = mac"
  "peer_ctx (sample_try mac) 0" "ps_TryConnCount (peerHeap (sample_try mac) 0) = 0"
  "ac_P2pTryCount (config (sample_try mac)) = 5"
  "pp_running (p2p (sample_try mac))" "ps_PingTryCount (peerHeap (sample_try mac) 0) = 0"
  "ps_LastReceive (peerHeap (sample_try mac) 0) = 0" "ps_Heartbeat (peerHeap (sample_try mac) 0) = 5"
  by (simp_all add: sample_try_def Let_def data_HandleActive_def fresh_handler_def alloc_peer_def
      p2p_Start_def new_app_def NewP2pService_def peer_ctx_def sample_config_def)


text \<open>A peer that stays silent is dropped: whatever the other sockets do, four ticks at which the
  peer has been silent for longer than its heartbeat plus two seconds remove it from the
  established sockets, so that its traffic falls back to the server.\<close>

lemma silent_peer_dropped:
  assumes "p2p_inv a" "sm_load (pp_p2pSocks (p2p a)) k = Some x" "ps_PeerMac (peerHeap a x) = k"
    and "length ts = 4"
    and "\<forall>t\<in>set ts. (of_int (unix t - ps_LastReceive (peerHeap a x)) :: u32) > ps_Heartbeat (peerHeap a x) + 2"
  shows "\<exists>b. go_fold stateCheck_tick ts a = Done b \<and> \<not> IsP2P k b"
  by (rule ticks_silent) (use assms in \<open>auto simp: silent_def\<close>)

text \<open>The sample peer after its punch succeeded.\<close>

definition sample_p2p :: "u64 \<Rightarrow> app" where
  "sample_p2p mac = upd_p2pSocks (sm_store mac 0) (upd_trySocks (sm_delete mac) (sample_try mac))"

lemma sample_p2p_inv: "p2p_inv (sample_p2p mac)"
  using sample_try_inv [of mac] by (simp add: sample_p2p_def p2p_inv_store(3) sample_try_simps)

text \<open>Data for a peer is sent directly exactly when the service runs, the destination is unicast and
  an established socket with a handler is stored for it; then the frame is written to that handler
  and nothing else changes.\<close>

lemma TryForwardMessage_direct:
  "TryForwardMessage t conn mac (Some m) a = Done (b, True) \<longleftrightarrow>
     pp_running (p2p a) \<and> IsUniCast mac \<and>
     (\<exists>x h. sm_load (pp_p2pSocks (p2p a)) mac = Some x \<and> ps_Handler (peerHeap a x) = Some h \<and>
        b = emit (EvWrite h (DataFrame m)) a)"
  by (auto simp: TryForwardMessage_def go_map_Done_iff split: option.split)

text \<open>A successful punch promotes the tried socket: the peer's first try message moves its context
  from the tried to the established sockets, answers it on the same handler and refreshes the
  peers shown; every other entry of both tables is unchanged.\<close>

lemma P2PSuccess_promotes:
  assumes "p2p_inv a" "sm_load (pp_p2pTrySocks (p2p a)) mac = Some x"
  shows "\<exists>b h. P2PSuccess mac (Some s) a = Done (b, None) \<and> IsP2P mac b \<and>
    ps_Handler (peerHeap a x) = Some h \<and>
    (\<forall>k. sm_load (pp_p2pSocks (p2p b)) k =
        (if k = mac then Some x else sm_load (pp_p2pSocks (p2p a)) k) \<and>
       sm_load (pp_p2pTrySocks (p2p b)) k =
        (if k = mac then None else sm_load (pp_p2pTrySocks (p2p a)) k)) \<and>
    trace b = trace a @ [EvWrite h (DataFrame (data_frame Msg_P2PTry (hwMac a) mac)), EvUpdatePeers]"
  using assms(2) p2p_invD(2) [OF assms]
  by (auto simp: P2PSuccess_def Let_def IsP2P_def try_ctx_def)

text \<open>After ten failed attempts the service gives up on a peer: data for it never opens a new
  socket and leaves the state unchanged, until the failure record is deleted.\<close>

lemma no_punch_after_ten_failures:
  assumes "sm_load (pp_hisP2PFailInfo (p2p a)) mac = Some p" "fi_FailedCount p \<ge> 10"
    "sm_load (pp_p2pSocks (p2p a)) mac = None"
  shows "TryForwardMessage t conn mac msg a = Done (a, False)"
  using assms by (auto simp: TryForwardMessage_def isNeedP2P_def split: option.split)

section \<open>Stopping\<close>

lemma stop_if_bootstrap_fold:
  assumes "\<And>e. e \<in> set es \<Longrightarrow> ps_Bootstrap (peerHeap a (snd e)) \<noteq> None"
  shows "\<exists>b. go_fold stop_if_bootstrap es a = Done b \<and> p2p b = p2p a \<and> punchHeap b = punchHeap a \<and>
    (\<forall>z. ps_Bootstrap (peerHeap b z) = ps_Bootstrap (peerHeap a z)) \<and>
    trace b = trace a @ map (\<lambda>e. EvStop (the (ps_Bootstrap (peerHeap a (snd e))))) es"
  using assms
proof (induction es arbitrary: a)
  case (Cons e es)
  then obtain r where r: "ps_Bootstrap (peerHeap a (snd e)) = Some r" by fastforce
  define a1 where "a1 = set_peer_ctx (snd e) (\<lambda>p. p\<lparr>ps_Connected := False\<rparr>) (emit (EvStop r) a)"
  have b: "ps_Bootstrap (peerHeap a1 z) = ps_Bootstrap (peerHeap a z)" for z by (simp add: a1_def)
  have "stop_if_bootstrap e a = Done a1"
    by (simp add: stop_if_bootstrap_def stop_and_disconnect_def r a1_def)
  with Cons.IH [of a1] Cons.prems r show ?case by (simp add: b) (simp add: a1_def)
qed simp

text \<open>\<open>stopP2pSockets\<close> stops every established and tried socket and empties both tables, but it leaves
  the punch sockets untouched: they stay in their table, connected, and their bootstraps are not
  stopped.\<close>

lemma stopP2pSockets_leaks_punch_sockets:
  assumes "p2p_inv a"
  shows "\<exists>b. stopP2pSockets a = Done b \<and> pp_p2pSocks (p2p b) = [] \<and> pp_p2pTrySocks (p2p b) = [] \<and>
    pp_punchSocks (p2p b) = pp_punchSocks (p2p a) \<and> punchHeap b = punchHeap a \<and>
    trace b = trace a @ map (\<lambda>e. EvStop (the (ps_Bootstrap (peerHeap a (snd e)))))
      (pp_p2pSocks (p2p a) @ pp_p2pTrySocks (p2p a))"
proof -
  have bs: "ps_Bootstrap (peerHeap a (snd e)) \<noteq> None"
    if "e \<in> set (pp_p2pSocks (p2p a)) \<or> e \<in> set (pp_p2pTrySocks (p2p a))" for e
    using that p2p_invD(5,6) [OF assms, of "fst e" "snd e"] by (auto simp: try_ctx_def peer_ctx_def)
  obtain b where b: "go_fold stop_if_bootstrap (pp_p2pSocks (p2p a)) a = Done b" "p2p b = p2p a"
      "punchHeap b = punchHeap a" "\<forall>z. ps_Bootstrap (peerHeap b z) = ps_Bootstrap (peerHeap a z)"
      "trace b = trace a @ map (\<lambda>e. EvStop (the (ps_Bootstrap (peerHeap a (snd e))))) (pp_p2pSocks (p2p a))"
    using stop_if_bootstrap_fold [of "pp_p2pSocks (p2p a)" a] bs by blast
  define c where "c = upd_p2pSocks (\<lambda>m. []) b"
  have c: "peerHeap c = peerHeap b" "trace c = trace b" "punchHeap c = punchHeap b"
    "pp_p2pTrySocks (p2p c) = pp_p2pTrySocks (p2p a)" "pp_punchSocks (p2p c) = pp_punchSocks (p2p a)"
    "pp_p2pSocks (p2p c) = []" by (simp_all add: c_def b)
  obtain d where "go_fold stop_if_bootstrap (pp_p2pTrySocks (p2p a)) c = Done d" "p2p d = p2p c"
      "punchHeap d = punchHeap c"
      "trace d = trace c @ map (\<lambda>e. EvStop (the (ps_Bootstrap (peerHeap a (snd e))))) (pp_p2pTrySocks (p2p a))"
    using stop_if_bootstrap_fold [of "pp_p2pTrySocks (p2p a)" c] bs b(4) c(1) by auto
  then show ?thesis using b c by (simp add: stopP2pSockets_def c_def [symmetric])
qed

lemma foreign_entry_sticks:
  assumes "go_fold stateCheck_tick ts a = Done b" "sm_load (pp_p2pSocks (p2p a)) k = Some x"
    "\<forall>u. ps_PeerMac (peerHeap a u) \<noteq> k"
  shows "sm_load (pp_p2pSocks (p2p b)) k = Some x"
proof -
  have step: "sm_load (pp_p2pSocks (p2p d)) k = Some x \<and> (\<forall>u. ps_PeerMac (peerHeap d u) \<noteq> k)"
    if "stateCheck_tick t c = Done d" "sm_load (pp_p2pSocks (p2p c)) k = Some x"
      "\<forall>u. ps_PeerMac (peerHeap c u) \<noteq> k" for t c d
  proof -
    from that(1) obtain e where e: "tick_p2pSocks t c = Done e" "try_frame e d"
      by (rule stateCheck_tick_split)
    with that(2,3) show ?thesis
      by (auto elim!: tick_p2pSocks_cases simp: try_frame_def pass_le_def image_iff)
  qed
  have "(sm_load (pp_p2pSocks (p2p a)) k = Some x \<and> (\<forall>u. ps_PeerMac (peerHeap a u) \<noteq> k)) \<longrightarrow>
    (sm_load (pp_p2pSocks (p2p b)) k = Some x \<and> (\<forall>u. ps_PeerMac (peerHeap b u) \<noteq> k))"
    by (rule go_fold_rel [OF _ _ _ assms(1)]) (simp, simp, simp add: step)
  with assms(2,3) show ?thesis by simp
qed

text \<open>An entry stored under an address other than the one its context carries is never dropped: when a
  try message arrives from an address that is not being tried, \<open>P2PSuccess\<close> files the receiving
  socket under that address, and as the ticks delete by the context's own address no number of
  them removes it, however long the peer is silent.\<close>

lemma foreign_address_never_dropped:
  assumes "p2p_inv a" "sm_load (pp_p2pTrySocks (p2p a)) mac = None" "peer_ctx a s"
    "\<forall>u. ps_PeerMac (peerHeap a u) \<noteq> mac"
  shows "\<exists>b. P2PSuccess mac (Some s) a = Done (b, None) \<and>
    (\<forall>ts. \<exists>c. go_fold stateCheck_tick ts b = Done c \<and> IsP2P mac c)"
proof -
  define b where "b = emit EvUpdatePeers (upd_p2pSocks (sm_store mac s) a)"
  have "P2PSuccess mac (Some s) a = Done (b, None)"
    by (simp add: P2PSuccess_def assms(2) b_def)
  moreover have inv: "p2p_inv b" using assms(1,3) by (simp add: b_def p2p_inv_store(3))
  have "\<exists>c. go_fold stateCheck_tick ts b = Done c \<and> IsP2P mac c" for ts
  proof -
    obtain c where c: "go_fold stateCheck_tick ts b = Done c"
      using step_ok_fold [OF inv, of ts stateCheck_tick] stateCheck_tick_ok by (auto simp: step_ok_def)
    then show ?thesis using foreign_entry_sticks [OF c, of mac s] assms(4) by (simp add: b_def IsP2P_def)
  qed
  ultimately show ?thesis by blast
qed

text \<open>When the server reports a change of a peer's state, every trace of the peer is dropped: its
  failure record, its tried and its established socket, and both sockets are stopped; the other
  peers keep theirs.\<close>

lemma PeerStateChanged_forgets:
  assumes "p2p_inv a"
  shows "\<exists>b. PeerStateChanged mac a = Done b \<and>
    (\<forall>k. sm_load (pp_p2pSocks (p2p b)) k = (if k = mac then None else sm_load (pp_p2pSocks (p2p a)) k) \<and>
         sm_load (pp_p2pTrySocks (p2p b)) k = (if k = mac then None else sm_load (pp_p2pTrySocks (p2p a)) k) \<and>
         sm_load (pp_hisP2PFailInfo (p2p b)) k =
           (if k = mac then None else sm_load (pp_hisP2PFailInfo (p2p a)) k)) \<and>
    (\<forall>x r. ps_Bootstrap (peerHeap a x) = Some r \<and>
       (sm_load (pp_p2pSocks (p2p a)) mac = Some x \<or> sm_load (pp_p2pTrySocks (p2p a)) mac = Some x) \<longrightarrow>
       EvStop r \<in> set (trace b))"
  using p2p_invD(2,3) [OF assms, of mac]
  by (auto simp: PeerStateChanged_def stop_loaded_def Let_def try_ctx_def peer_ctx_def split: option.split)

section \<open>Giving up an attempt\<close>

text \<open>What is known of the tried socket \<open>x\<close> of peer \<open>k\<close> during a pass: its counter is \<open>n\<close>, and it has
  been selected for removal or not.\<close>

definition pass_try :: "app \<Rightarrow> u64 \<Rightarrow> addr \<Rightarrow> u32 \<Rightarrow> bool \<Rightarrow> app \<times> addr list \<Rightarrow> bool" where
  "pass_try a k x n sel s \<longleftrightarrow> p2p_inv (fst s) \<and> ctx_le a (fst s) \<and> config (fst s) = config a \<and>
     sm_load (pp_p2pTrySocks (p2p (fst s))) k = Some x \<and>
     ps_TryConnCount (peerHeap (fst s) x) = n \<and> (x \<in> set (snd s) \<longleftrightarrow> sel) \<and>
     (\<forall>u\<in>set (snd s). u < next_addr a \<and> (ps_PeerMac (peerHeap a u) = k \<longrightarrow> u = x))"

lemma check_trySock_fields:
  assumes "check_trySock t (j, y) (b, rm) = Done (c, rm')" "p2p_inv b" "try_ctx b j y"
    "sm_load (pp_p2pTrySocks (p2p b)) j = Some y"
  shows "config c = config b" "pp_p2pTrySocks (p2p c) = pp_p2pTrySocks (p2p b)"
    "z \<noteq> y \<Longrightarrow> peerHeap c z = peerHeap b z"
    "ps_TryConnCount (peerHeap b y) \<ge> ac_P2pTryCount (config b) \<Longrightarrow> rm' = rm @ [y] \<and>
       ps_TryConnCount (peerHeap c y) = ps_TryConnCount (peerHeap b y)"
    "\<not> ps_TryConnCount (peerHeap b y) \<ge> ac_P2pTryCount (config b) \<Longrightarrow> rm' = rm \<and>
       ps_TryConnCount (peerHeap c y) = ps_TryConnCount (peerHeap b y) + 1"
  using assms
  by (auto simp: check_trySock_def Let_def go_map_Done_iff stop_and_disconnect_def stop_bootstrap_def
      SendP2PTry_def write_handler_def try_ctx_def split: if_splits option.splits)

lemma pass_try_step:
  assumes p: "pass_try a k x n sel (b, rm)" and jy: "try_ctx a j y"
    and l: "sm_load (pp_p2pTrySocks (p2p b)) j = Some y" and k: "try_ctx a k x"
  shows "\<exists>s'. check_trySock t (j, y) (b, rm) = Done s' \<and> pp_p2pTrySocks (p2p (fst s')) = pp_p2pTrySocks (p2p b) \<and>
    (j \<noteq> k \<longrightarrow> pass_try a k x n sel s') \<and>
    (j = k \<and> n \<ge> ac_P2pTryCount (config a) \<longrightarrow> pass_try a k x n True s') \<and>
    (j = k \<and> \<not> n \<ge> ac_P2pTryCount (config a) \<longrightarrow> pass_try a k x (n + 1) sel s')"
proof -
  have b: "p2p_inv b" "ctx_le a b" using p by (simp_all add: pass_try_def)
  have tb: "try_ctx b j y" using ctx_le_mono(2) [OF b(2) jy] .
  obtain c rm' where c: "check_trySock t (j, y) (b, rm) = Done (c, rm')" "p2p_inv c" "ctx_le b c"
    using check_trySock_ok [OF b(1), of y t j rm] tb unfolding try_ctx_def by blast
  note f = check_trySock_fields [OF c(1) b(1) tb l]
  have le: "ctx_le a c" using b(2) c(3) by (rule ctx_le_trans)
  have y: "y < next_addr a" "ps_PeerMac (peerHeap a y) = j" using jy by (auto simp: try_ctx_def peer_ctx_def)
  have q: "config b = config a" "sm_load (pp_p2pTrySocks (p2p b)) k = Some x"
    "ps_TryConnCount (peerHeap b x) = n" "x \<in> set rm \<longleftrightarrow> sel"
    "\<forall>u\<in>set rm. u < next_addr a \<and> (ps_PeerMac (peerHeap a u) = k \<longrightarrow> u = x)"
    using p by (simp_all add: pass_try_def)
  have "try_ctx b k x" using ctx_le_mono(2) [OF b(2) k] .
  with tb have "y = x \<Longrightarrow> j = k" by (simp add: try_ctx_def)
  with q(2) l have eq: "j = k \<longleftrightarrow> y = x" by auto
  have cx: "j \<noteq> k \<Longrightarrow> peerHeap c x = peerHeap b x" using f(3) [of x] eq by simp
  show ?thesis
  proof (cases "ps_TryConnCount (peerHeap b y) \<ge> ac_P2pTryCount (config b)")
    case True
    show ?thesis
      by (rule exI [of _ "(c, rm')"])
        (use q cx c le f(1,2) f(4) [OF True] True eq y in \<open>cases "j = k"; simp add: pass_try_def\<close>)
  next
    case False
    show ?thesis
      by (rule exI [of _ "(c, rm')"])
        (use q cx c le f(1,2) f(5) [OF False] False eq y in \<open>cases "j = k"; simp add: pass_try_def\<close>)
  qed
qed

lemma pass_try_others:
  assumes "pass_try a k x n sel s" "try_ctx a k x"
    and "\<forall>(j, y)\<in>set es. j \<noteq> k \<and> try_ctx a j y \<and> sm_load (pp_p2pTrySocks (p2p (fst s))) j = Some y"
  shows "\<exists>s'. go_fold (check_trySock t) es s = Done s' \<and> pass_try a k x n sel s' \<and>
    pp_p2pTrySocks (p2p (fst s')) = pp_p2pTrySocks (p2p (fst s))"
  using assms(1,3)
proof (induction es arbitrary: s)
  case (Cons e es)
  obtain j y where e: "e = (j, y)" by force
  with Cons.prems pass_try_step [of a k x n sel "fst s" "snd s" j y t] assms(2)
  obtain s1 where "check_trySock t e s = Done s1" "pass_try a k x n sel s1"
    "pp_p2pTrySocks (p2p (fst s1)) = pp_p2pTrySocks (p2p (fst s))" by auto
  with Cons.IH [of s1] Cons.prems show ?case by simp
qed simp

text \<open>The whole pass over the tried sockets: the counter of \<open>x\<close> is raised by one, or \<open>x\<close> is selected.\<close>

lemma pass_try_all:
  assumes inv: "p2p_inv a" and k: "sm_load (pp_p2pTrySocks (p2p a)) k = Some x"
  defines "n \<equiv> ps_TryConnCount (peerHeap a x)"
  shows "\<exists>s. go_fold (check_trySock t) (pp_p2pTrySocks (p2p a)) (a, []) = Done s \<and>
    pass_try a k x (if n \<ge> ac_P2pTryCount (config a) then n else n + 1) (n \<ge> ac_P2pTryCount (config a)) s"
proof -
  let ?m = "pp_p2pTrySocks (p2p a)"
  have ok: "sm_ok ?m" and tk: "try_ctx a k x" using inv p2p_invD(2) [OF inv k] by (simp_all add: p2p_inv_def)
  have "(k, x) \<in> set ?m" using k ok by (simp add: sm_load_Some_iff)
  then obtain xs ys where m: "?m = xs @ (k, x) # ys" by (meson split_list)
  have oth: "\<forall>(j, y)\<in>set xs \<union> set ys. j \<noteq> k \<and> try_ctx a j y \<and> sm_load ?m j = Some y"
  proof (intro ballI)
    fix e assume e: "e \<in> set xs \<union> set ys"
    then have "e \<in> set ?m" by (auto simp: m)
    then have "sm_load ?m (fst e) = Some (snd e)" using ok by (simp add: sm_load_Some_iff)
    moreover from e ok have "fst e \<noteq> k" by (auto simp: m sm_ok_def image_iff)
    ultimately show "case e of (j, y) \<Rightarrow> j \<noteq> k \<and> try_ctx a j y \<and> sm_load ?m j = Some y"
      using p2p_invD(2) [OF inv] by (auto simp: case_prod_beta)
  qed
  have "pass_try a k x n False (a, [])" using inv k by (simp add: pass_try_def n_def)
  from pass_try_others [OF this tk, of xs t] oth obtain s1 where
    s1: "go_fold (check_trySock t) xs (a, []) = Done s1" "pass_try a k x n False s1"
      "pp_p2pTrySocks (p2p (fst s1)) = ?m" by auto
  let ?n = "if n \<ge> ac_P2pTryCount (config a) then n else n + 1" and ?g = "n \<ge> ac_P2pTryCount (config a)"
  from s1(2,3) k tk pass_try_step [of a k x n False "fst s1" "snd s1" k x t] obtain s2 where
    s2: "check_trySock t (k, x) s1 = Done s2" "pass_try a k x ?n ?g s2"
      "pp_p2pTrySocks (p2p (fst s2)) = ?m" by (cases ?g) auto
  from pass_try_others [OF s2(2) tk, of ys t] oth s2(3) obtain s3 where
    "go_fold (check_trySock t) ys s2 = Done s3" "pass_try a k x ?n ?g s3" by auto
  with s1 s2 show ?thesis unfolding m by (simp add: go_fold_append)
qed

text \<open>Removing the selected sockets; a failure record, once made, stays.\<close>

lemma saveFailPunchInfo_records:
  assumes "saveFailPunchInfo t mac a = Done b"
  shows "sm_load (pp_hisP2PFailInfo (p2p b)) mac \<noteq> None"
    "sm_load (pp_hisP2PFailInfo (p2p a)) k \<noteq> None \<Longrightarrow> sm_load (pp_hisP2PFailInfo (p2p b)) k \<noteq> None"
  using assms
  by (auto simp: saveFailPunchInfo_def Let_def go_bind_Done_iff stop_bootstrap_def split: option.splits if_splits)

lemma remove_trySock_effect:
  assumes "remove_trySock t u a = Done b"
  shows "peerHeap b = peerHeap a" "config b = config a"
    "sm_load (pp_p2pTrySocks (p2p b)) k =
      (if k = ps_PeerMac (peerHeap a u) then None else sm_load (pp_p2pTrySocks (p2p a)) k)"
    "k = ps_PeerMac (peerHeap a u) \<or> sm_load (pp_hisP2PFailInfo (p2p a)) k \<noteq> None \<Longrightarrow>
      sm_load (pp_hisP2PFailInfo (p2p b)) k \<noteq> None"
  using assms saveFailPunchInfo_frame saveFailPunchInfo_records
  by (auto simp: remove_trySock_def go_map_Done_iff)

lemma remove_trySocks_effect:
  assumes "go_fold (remove_trySock t) rm a = Done b"
  shows "peerHeap b = peerHeap a \<and> config b = config a \<and>
    sm_load (pp_p2pTrySocks (p2p b)) k =
      (if k \<in> (\<lambda>u. ps_PeerMac (peerHeap a u)) ` set rm then None else sm_load (pp_p2pTrySocks (p2p a)) k) \<and>
    (k \<in> (\<lambda>u. ps_PeerMac (peerHeap a u)) ` set rm \<or> sm_load (pp_hisP2PFailInfo (p2p a)) k \<noteq> None \<longrightarrow>
      sm_load (pp_hisP2PFailInfo (p2p b)) k \<noteq> None)"
  using assms
proof (induction rm arbitrary: a)
  case (Cons u rm)
  then obtain c where c: "remove_trySock t u a = Done c" "go_fold (remove_trySock t) rm c = Done b"
    by (auto simp: go_bind_Done_iff)
  with Cons.IH [of c] remove_trySock_effect [OF c(1)] show ?case by auto
qed simp

lemma tick_trySocks_effect:
  assumes inv: "p2p_inv a" and k: "sm_load (pp_p2pTrySocks (p2p a)) k = Some x"
    and b: "tick_trySocks t a = Done b"
  defines "n \<equiv> ps_TryConnCount (peerHeap a x)"
  shows "if n \<ge> ac_P2pTryCount (config a)
    then sm_load (pp_p2pTrySocks (p2p b)) k = None \<and> sm_load (pp_hisP2PFailInfo (p2p b)) k \<noteq> None
    else sm_load (pp_p2pTrySocks (p2p b)) k = Some x \<and> ps_TryConnCount (peerHeap b x) = n + 1"
proof -
  obtain c rm where f: "go_fold (check_trySock t) (pp_p2pTrySocks (p2p a)) (a, []) = Done (c, rm)"
    and p: "pass_try a k x (if n \<ge> ac_P2pTryCount (config a) then n else n + 1)
              (n \<ge> ac_P2pTryCount (config a)) (c, rm)"
    using pass_try_all [OF inv k, of t] unfolding n_def by (metis surj_pair)
  with b have g: "go_fold (remove_trySock t) rm c = Done b" by (simp add: tick_trySocks_def)
  have x: "x < next_addr a" "ps_PeerMac (peerHeap a x) = k"
    using p2p_invD(2) [OF inv k] by (simp_all add: try_ctx_def peer_ctx_def)
  have mac: "ps_PeerMac (peerHeap c u) = ps_PeerMac (peerHeap a u)" if "u < next_addr a" for u
    using p that by (simp add: pass_try_def ctx_le_def)
  have "k \<in> (\<lambda>u. ps_PeerMac (peerHeap c u)) ` set rm \<longleftrightarrow> x \<in> set rm"
    using p x mac by (auto simp: pass_try_def image_iff)
  then show ?thesis using remove_trySocks_effect [OF g, of k] p by (auto simp: pass_try_def)
qed

text \<open>The pass over the established sockets does not touch the tried ones.\<close>

definition est_frame :: "app \<Rightarrow> app \<Rightarrow> bool" where
  "est_frame a b \<longleftrightarrow> pp_p2pTrySocks (p2p b) = pp_p2pTrySocks (p2p a) \<and> config b = config a \<and>
     pp_hisP2PFailInfo (p2p b) = pp_hisP2PFailInfo (p2p a) \<and>
     (\<forall>z. ps_TryConnCount (peerHeap b z) = ps_TryConnCount (peerHeap a z))"

lemma check_p2pSock_frame: "check_p2pSock now e s = Done s' \<Longrightarrow> est_frame (fst s) (fst s')"
  by (cases s; cases e) (auto simp: check_p2pSock_def Let_def est_frame_def go_map_Done_iff stop_and_disconnect_def
      stop_bootstrap_def write_handler_def split: if_splits option.splits)

lemma tick_p2pSocks_frame:
  assumes "tick_p2pSocks t a = Done b"
  shows "est_frame a b"
proof -
  from assms obtain c rm where f: "go_fold (check_p2pSock (unix t)) (pp_p2pSocks (p2p a)) (a, []) = Done (c, rm)"
    and b: "b = (if rm \<noteq> [] then emit EvUpdatePeers (fold remove_p2pSock rm c) else c)"
    by (auto simp: tick_p2pSocks_def go_map_Done_iff)
  have "est_frame (fst (a, [] :: addr list)) (fst (c, rm))"
    by (rule go_fold_rel [OF _ _ _ f]) (simp_all add: check_p2pSock_frame, simp_all add: est_frame_def)
  moreover have "est_frame d (fold remove_p2pSock rm d)" for d
    by (induction rm arbitrary: d) (simp_all add: est_frame_def remove_p2pSock_def)
  ultimately show ?thesis by (auto simp: b est_frame_def)
qed

lemma tick_try_None:
  assumes "stateCheck_tick t a = Done b" "sm_load (pp_p2pTrySocks (p2p a)) k = None"
    "sm_load (pp_hisP2PFailInfo (p2p a)) k \<noteq> None"
  shows "sm_load (pp_p2pTrySocks (p2p b)) k = None \<and> sm_load (pp_hisP2PFailInfo (p2p b)) k \<noteq> None"
proof -
  from assms(1) obtain c d rm where c: "tick_p2pSocks t a = Done c"
    and f: "go_fold (check_trySock t) (pp_p2pTrySocks (p2p c)) (c, []) = Done (d, rm)"
    and g: "go_fold (remove_trySock t) rm d = Done b"
    by (auto simp: stateCheck_tick_def tick_trySocks_def go_bind_Done_iff)
  let ?R = "\<lambda>s s'. (sm_load (pp_p2pTrySocks (p2p (fst s))) k = None \<longrightarrow> sm_load (pp_p2pTrySocks (p2p (fst s'))) k = None)
      \<and> pp_hisP2PFailInfo (p2p (fst s')) = pp_hisP2PFailInfo (p2p (fst s))"
  have "?R (c, [] :: addr list) (d, rm)"
  proof (rule go_fold_rel [OF _ _ _ f, where R = ?R])
    fix e s s' assume "check_trySock t e s = Done s'"
    then show "?R s s'"
      by (cases s; cases e) (auto simp: check_trySock_def Let_def go_map_Done_iff stop_and_disconnect_def
          stop_bootstrap_def SendP2PTry_def write_handler_def split: if_splits option.splits)
  qed simp_all
  with tick_p2pSocks_frame [OF c] remove_trySocks_effect [OF g, of k] assms(2,3) show ?thesis
    by (simp add: est_frame_def)
qed

lemma ticks_try:
  assumes "p2p_inv a" "sm_load (pp_p2pTrySocks (p2p a)) k = Some x"
    "length ts > unat (ac_P2pTryCount (config a)) - unat (ps_TryConnCount (peerHeap a x))"
  shows "\<exists>b. go_fold stateCheck_tick ts a = Done b \<and> sm_load (pp_p2pTrySocks (p2p b)) k = None \<and>
    sm_load (pp_hisP2PFailInfo (p2p b)) k \<noteq> None"
  using assms
proof (induction ts arbitrary: a)
  case (Cons t ts)
  obtain c where c: "tick_p2pSocks t a = Done c" "p2p_inv c"
    using tick_p2pSocks_ok [OF Cons.prems(1), of t] by (auto simp: step_ok_def)
  obtain b where b: "tick_trySocks t c = Done b" "p2p_inv b"
    using tick_trySocks_ok [OF c(2), of t] by (auto simp: step_ok_def)
  have tick: "stateCheck_tick t a = Done b" by (simp add: stateCheck_tick_def c b)
  have fr: "est_frame a c" using c(1) by (rule tick_p2pSocks_frame)
  obtain d where d: "go_fold stateCheck_tick ts b = Done d"
    using step_ok_fold [OF b(2), of ts stateCheck_tick] stateCheck_tick_ok by (auto simp: step_ok_def)
  let ?n = "ps_TryConnCount (peerHeap a x)" and ?m = "ac_P2pTryCount (config a)"
  have cfg: "config b = config a"
    using tick_trySocks_frame [OF b(1)] fr by (simp add: try_frame_def est_frame_def)
  have eff: "if ?n \<ge> ?m
      then sm_load (pp_p2pTrySocks (p2p b)) k = None \<and> sm_load (pp_hisP2PFailInfo (p2p b)) k \<noteq> None
      else sm_load (pp_p2pTrySocks (p2p b)) k = Some x \<and> ps_TryConnCount (peerHeap b x) = ?n + 1"
    using tick_trySocks_effect [OF c(2) _ b(1), of k x] Cons.prems(2) fr by (simp add: est_frame_def)
  show ?case
  proof (cases "?n \<ge> ?m")
    case True
    have "(sm_load (pp_p2pTrySocks (p2p b)) k = None \<and> sm_load (pp_hisP2PFailInfo (p2p b)) k \<noteq> None) \<longrightarrow>
      (sm_load (pp_p2pTrySocks (p2p d)) k = None \<and> sm_load (pp_hisP2PFailInfo (p2p d)) k \<noteq> None)"
      by (rule go_fold_rel [OF _ _ _ d]) (simp, simp, simp add: tick_try_None)
    with True eff d tick show ?thesis by simp
  next
    case False
    then have lt: "unat ?n < unat ?m" by (simp add: word_le_nat_alt)
    then have "unat (?n + 1) = unat ?n + 1"
      using unsigned_less [of ?m, where 'a = nat] by (simp add: unat_word_ariths)
    with False eff lt Cons.prems(3) cfg
    have "length ts > unat (ac_P2pTryCount (config b)) - unat (ps_TryConnCount (peerHeap b x))" by simp
    with Cons.IH [OF b(2)] False eff tick show ?thesis by simp
  qed
qed simp

text \<open>(C21) A peer that never answers is given up: after one more tick than the configured number of
  tries its socket has left the table of tried sockets and a failure is recorded for it, which
  starts the retry interval.\<close>

theorem unanswered_try_given_up:
  assumes "p2p_inv a" "sm_load (pp_p2pTrySocks (p2p a)) k = Some x"
    and "length ts = unat (ac_P2pTryCount (config a)) + 1"
  shows "\<exists>b. go_fold stateCheck_tick ts a = Done b \<and> sm_load (pp_p2pTrySocks (p2p b)) k = None \<and>
    sm_load (pp_hisP2PFailInfo (p2p b)) k \<noteq> None"
  by (rule ticks_try [OF assms(1,2)]) (simp add: assms(3))

theorem unanswered_try_given_up_witness:
  "\<exists>b. go_fold stateCheck_tick [3, 6, 9, 12, 15, 18] (sample_try 7) = Done b \<and>
    sm_load (pp_p2pTrySocks (p2p b)) 7 = None \<and> sm_load (pp_hisP2PFailInfo (p2p b)) 7 \<noteq> None"
  by (rule unanswered_try_given_up [where x = 0]) (simp_all add: sample_try_inv sample_try_simps)

end
