(* ===== verification/Tuntap_Service.thy ===== *)
theory Tuntap_Service
  imports Runtime_Core
begin

text \<open>
  The life cycle of the virtual network card, \<open>service/tuntap_service.go\<close>: creating the device,
  configuring it, closing it, writing frames to it. The device driver is outside the model: what
  its calls answer is the record \<open>tap_env\<close>. Reading the device is part of \<open>Data_Path\<close>, because it
  calls the runtime service.
\<close>

datatype create_result = CreateErr | CreateNil | CreateOk nat

record tap_env =
  te_create :: create_result
  te_getMac :: "u64 option"
  te_setMac_ok :: bool
  te_setIp_ok :: bool
  te_close_ok :: bool
  te_up_ok :: bool

definition SizeEthFrame :: nat where "SizeEthFrame = 14"
definition SizeMaxPacket :: nat where "SizeMaxPacket = 2048"

definition set_tun_state :: "TunTapState \<Rightarrow> app \<Rightarrow> app" where
  "set_tun_state st = upd_tun (\<lambda>u. u\<lparr>tt_state := st\<rparr>)"

lemma set_tun_state_simps [simp]:
  "config (set_tun_state st a) = config a" "runtime (set_tun_state st a) = runtime a"
  "p2p (set_tun_state st a) = p2p a" "trace (set_tun_state st a) = trace a"
  "peerHeap (set_tun_state st a) = peerHeap a" "punchHeap (set_tun_state st a) = punchHeap a"
  "next_addr (set_tun_state st a) = next_addr a" "next_ref (set_tun_state st a) = next_ref a"
  "serial_started (set_tun_state st a) = serial_started a"
  "tt_state (tun (set_tun_state st a)) = st" "tt_tapper (tun (set_tun_state st a)) = tt_tapper (tun a)"
  "tt_readBuf (tun (set_tun_state st a)) = tt_readBuf (tun a)"
  "tt_macBuf (tun (set_tun_state st a)) = tt_macBuf (tun a)"
  by (simp_all add: set_tun_state_def)

text \<open>\<open>InitAppConfig\<close> leaves \<open>TapConfig\<close> non-nil, so the first test of \<open>createTap\<close> never fires.\<close>

definition createTap :: "tap_env \<Rightarrow> app \<Rightarrow> app \<times> svc_error option" where
  "createTap env a =
     (let tc = ac_TapConfig (config a) in
      if tc_HwMac tc = 0 \<or> tc_IpAddr tc = 0
      then (set_tun_state TunTapUnInit a, Some ErrBadMacOrIp)
      else case te_create env of
        CreateErr \<Rightarrow> (set_tun_state TunTapInitFailed (upd_tun (\<lambda>u. u\<lparr>tt_tapper := None\<rparr>) a), Some ErrTapCreate)
      | CreateNil \<Rightarrow> (set_tun_state TunTapInitFailed (upd_tun (\<lambda>u. u\<lparr>tt_tapper := None\<rparr>) a), Some ErrTapNil)
      | CreateOk d \<Rightarrow> (set_tun_state TunTapInitOk (upd_tun (\<lambda>u. u\<lparr>tt_tapper := Some d\<rparr>) a), None))"

text \<open>\<open>Start\<close> configures the device with the address and mask of the configuration; the goroutine it
  starts begins with \<open>readTap_enter\<close>.\<close>

definition tun_Start :: "tap_env \<Rightarrow> app \<Rightarrow> app \<times> svc_error option" where
  "tun_Start env a =
     (if tt_state (tun a) = TunTapRunning then (a, None)
      else let (a1, err) = createTap env a in
      case err of Some e \<Rightarrow> (a1, Some e) | None \<Rightarrow>
      (case te_getMac env of
         None \<Rightarrow> (a1, Some ErrTapGetMac)
       | Some curMac \<Rightarrow>
           (let tc = ac_TapConfig (config a1) in
            if curMac \<noteq> tc_HwMac tc \<and> \<not> te_setMac_ok env then (a1, Some ErrTapSetMac)
            else let mask = push_bit (unat (32 - tc_IpMask tc)) (0xFFFFFFFF :: u32) in
            if \<not> te_setIp_ok env then (a1, Some ErrTapSetIp)
            else (upd_tun (\<lambda>u. u\<lparr>tt_readBuf := SizeMaxPacket\<rparr>)
                    (emit (EvTapConfigure (the (tt_tapper (tun a1))) (tc_HwMac tc)
                       (Uint32toIpV4 (tc_IpAddr tc)) (Uint32toIpV4 mask)) a1), None))))"

definition tun_Stop :: "tap_env \<Rightarrow> app \<Rightarrow> app \<times> svc_error option" where
  "tun_Stop env a =
     (let a1 = set_tun_state TunTapStop a in
      case tt_tapper (tun a1) of
        None \<Rightarrow> (a1, None)
      | Some d \<Rightarrow>
          (let a2 = emit (EvTapClose d) a1 in
           if te_close_ok env then (upd_tun (\<lambda>u. u\<lparr>tt_tapper := None\<rparr>) a2, None)
           else (a2, Some ErrTapClose)))"

definition WriteData2TunTap :: "bytes \<Rightarrow> app \<Rightarrow> app \<times> svc_error option" where
  "WriteData2TunTap data a =
     (if tt_state (tun a) \<noteq> TunTapRunning then (a, Some ErrTapNotRunning)
      else case tt_tapper (tun a) of
        None \<Rightarrow> (a, Some ErrTapNil)
      | Some d \<Rightarrow> (emit (EvTapWrite data) a, None))"

definition tun_AddRoute :: "bool \<Rightarrow> string \<Rightarrow> string \<Rightarrow> string \<Rightarrow> app \<Rightarrow> app \<times> bool" where
  "tun_AddRoute ok dst msk gw a = (emit (EvAddRoute dst msk gw) a, ok)"

definition tun_DelRoute :: "string \<Rightarrow> string \<Rightarrow> string \<Rightarrow> app \<Rightarrow> app" where
  "tun_DelRoute dst msk gw a = emit (EvDelRoute dst msk gw) a"

section \<open>Facts\<close>

lemma WriteData2TunTap_frame [simp]:
  "runtime (fst (WriteData2TunTap d a)) = runtime a" "p2p (fst (WriteData2TunTap d a)) = p2p a"
  "config (fst (WriteData2TunTap d a)) = config a" "tun (fst (WriteData2TunTap d a)) = tun a"
  "peerHeap (fst (WriteData2TunTap d a)) = peerHeap a" "punchHeap (fst (WriteData2TunTap d a)) = punchHeap a"
  "next_addr (fst (WriteData2TunTap d a)) = next_addr a" "next_ref (fst (WriteData2TunTap d a)) = next_ref a"
  "serial_started (fst (WriteData2TunTap d a)) = serial_started a"
  by (simp_all add: WriteData2TunTap_def split: option.split)

lemma createTap_frame [simp]:
  "runtime (fst (createTap env a)) = runtime a" "p2p (fst (createTap env a)) = p2p a"
  "config (fst (createTap env a)) = config a" "trace (fst (createTap env a)) = trace a"
  "peerHeap (fst (createTap env a)) = peerHeap a" "punchHeap (fst (createTap env a)) = punchHeap a"
  "next_addr (fst (createTap env a)) = next_addr a" "next_ref (fst (createTap env a)) = next_ref a"
  "serial_started (fst (createTap env a)) = serial_started a"
  by (simp_all add: createTap_def Let_def split: create_result.split)

lemma createTap_ok:
  "snd (createTap env a) = None \<longleftrightarrow>
     tc_HwMac (ac_TapConfig (config a)) \<noteq> 0 \<and> tc_IpAddr (ac_TapConfig (config a)) \<noteq> 0 \<and>
     (\<exists>d. te_create env = CreateOk d)"
  "snd (createTap env a) = None \<Longrightarrow>
     tt_state (tun (fst (createTap env a))) = TunTapInitOk \<and> tt_tapper (tun (fst (createTap env a))) \<noteq> None"
  by (cases "te_create env"; simp add: createTap_def Let_def)
    (cases "te_create env"; simp add: createTap_def Let_def split: if_splits)

lemma tun_Start_frame [simp]:
  "runtime (fst (tun_Start env a)) = runtime a" "p2p (fst (tun_Start env a)) = p2p a"
  "config (fst (tun_Start env a)) = config a"
  "peerHeap (fst (tun_Start env a)) = peerHeap a" "punchHeap (fst (tun_Start env a)) = punchHeap a"
  "next_addr (fst (tun_Start env a)) = next_addr a" "next_ref (fst (tun_Start env a)) = next_ref a"
  "serial_started (fst (tun_Start env a)) = serial_started a"
  by (simp_all add: tun_Start_def Let_def case_prod_beta split: option.split)

lemma tun_Stop_frame [simp]:
  "runtime (fst (tun_Stop env a)) = runtime a" "p2p (fst (tun_Stop env a)) = p2p a"
  "config (fst (tun_Stop env a)) = config a"
  "peerHeap (fst (tun_Stop env a)) = peerHeap a" "punchHeap (fst (tun_Stop env a)) = punchHeap a"
  "next_addr (fst (tun_Stop env a)) = next_addr a" "next_ref (fst (tun_Stop env a)) = next_ref a"
  "serial_started (fst (tun_Stop env a)) = serial_started a"
  by (simp_all add: tun_Stop_def Let_def split: option.split)

text \<open>Starting the card succeeds only with a configured MAC and IP address, and then the device was
  told exactly the configured MAC, the configured address and the mask whose prefix length is
  the configured one.\<close>

lemma tun_Start_configures:
  assumes "tun_Start env a = (b, None)" "tt_state (tun a) \<noteq> TunTapRunning"
    and "unat (tc_IpMask (ac_TapConfig (config a))) \<le> 32"
  shows "\<exists>d mask. tt_tapper (tun b) = Some d \<and> tt_state (tun b) = TunTapInitOk \<and>
    tc_HwMac (ac_TapConfig (config a)) \<noteq> 0 \<and> tc_IpAddr (ac_TapConfig (config a)) \<noteq> 0 \<and>
    trace b = trace a @ [EvTapConfigure d (tc_HwMac (ac_TapConfig (config a)))
      (Uint32toIpV4 (tc_IpAddr (ac_TapConfig (config a)))) (Uint32toIpV4 mask)] \<and>
    MaskBitLen mask = tc_IpMask (ac_TapConfig (config a))"
proof -
  obtain a1 where c: "createTap env a = (a1, None)"
    using assms(1,2) by (cases "createTap env a") (auto simp: tun_Start_def split: option.splits)
  obtain d where d: "tt_tapper (tun a1) = Some d" "tt_state (tun a1) = TunTapInitOk"
    using createTap_ok(2) [of env a] c by auto
  have m: "MaskBitLen (push_bit (unat (32 - tc_IpMask (ac_TapConfig (config a)))) 0xFFFFFFFF) =
      tc_IpMask (ac_TapConfig (config a))"
    using MaskBitLen_prefix_mask [OF assms(3)] by (simp add: prefix_mask_def)
  have fr: "config a1 = config a" "trace a1 = trace a"
    using createTap_frame(3,4) [of env a] c by simp_all
  have "tc_HwMac (ac_TapConfig (config a)) \<noteq> 0" "tc_IpAddr (ac_TapConfig (config a)) \<noteq> 0"
    using createTap_ok(1) [of env a] c by simp_all
  with assms(1,2) c d m fr show ?thesis
    by (auto simp: tun_Start_def Let_def split: option.splits if_splits)
qed

definition sample_tap :: tap_env where
  "sample_tap = \<lparr>te_create = CreateOk 1, te_getMac = Some 0, te_setMac_ok = True, te_setIp_ok = True,
     te_close_ok = True, te_up_ok = True\<rparr>"

end
