(* ===== verification/Base64.thy ===== *)
theory Base64
  imports Addr_Utils
begin

text \<open>
  \<open>base64.StdEncoding\<close> of the Go standard library, which the configuration uses for the passwords and
  the registration message for the group password: encoding with padding, and decoding, which
  skips line breaks, rejects every other character outside the alphabet and does not check the
  unused bits before the padding.
\<close>

definition bytes_of :: "string \<Rightarrow> nat list" where
  "bytes_of s = map of_char s"

definition string_of :: "nat list \<Rightarrow> string" where
  "string_of bs = map char_of bs"

lemma string_of_bytes_of [simp]: "string_of (bytes_of s) = s"
  by (simp add: bytes_of_def string_of_def comp_def)

lemma bytes_of_bound: "b \<in> set (bytes_of s) \<Longrightarrow> b < 256"
  by (auto simp: bytes_of_def of_char_def)

definition b64_char :: "nat \<Rightarrow> char" where
  "b64_char n = (if n < 26 then char_of (65 + n) else if n < 52 then char_of (71 + n)
     else if n < 62 then char_of (n - 4) else if n = 62 then CHR ''+'' else CHR ''/'')"

definition b64_val :: "char \<Rightarrow> nat option" where
  "b64_val c = (let n = of_char c in
     if 65 \<le> n \<and> n \<le> 90 then Some (n - 65) else if 97 \<le> n \<and> n \<le> 122 then Some (n - 71)
     else if 48 \<le> n \<and> n \<le> 57 then Some (n + 4) else if n = 43 then Some 62
     else if n = 47 then Some 63 else None)"

fun b64_enc :: "nat list \<Rightarrow> string" where
  "b64_enc [] = []"
| "b64_enc [a] = [b64_char (a div 4), b64_char (a mod 4 * 16), CHR ''='', CHR ''='']"
| "b64_enc [a, b] = [b64_char (a div 4), b64_char (a mod 4 * 16 + b div 16), b64_char (b mod 16 * 4), CHR ''='']"
| "b64_enc (a # b # c # rest) = b64_char (a div 4) # b64_char (a mod 4 * 16 + b div 16) #
     b64_char (b mod 16 * 4 + c div 64) # b64_char (c mod 64) # b64_enc rest"

definition EncodeToString :: "string \<Rightarrow> string" where
  "EncodeToString s = b64_enc (bytes_of s)"

fun b64_dec :: "string \<Rightarrow> nat list option" where
  "b64_dec [] = Some []"
| "b64_dec (w # x # y # z # rest) =
     (case (b64_val w, b64_val x) of
        (Some i, Some j) \<Rightarrow>
          (if y = CHR ''='' then
             (if z = CHR ''='' \<and> rest = [] then Some [i * 4 + j div 16] else None)
           else case b64_val y of
             None \<Rightarrow> None
           | Some k \<Rightarrow>
             (if z = CHR ''='' then
                (if rest = [] then Some [i * 4 + j div 16, j mod 16 * 16 + k div 4] else None)
              else case b64_val z of
                None \<Rightarrow> None
              | Some l \<Rightarrow> map_option (\<lambda>bs. (i * 4 + j div 16) # (j mod 16 * 16 + k div 4) # (k mod 4 * 64 + l) # bs)
                            (b64_dec rest)))
      | _ \<Rightarrow> None)"
| "b64_dec _ = None"

definition DecodeString :: "string \<Rightarrow> string option" where
  "DecodeString s = map_option string_of (b64_dec (filter (\<lambda>c. of_char c \<noteq> (10::nat) \<and> of_char c \<noteq> (13::nat)) s))"

section \<open>Round trip\<close>

lemma of_b64_char:
  "n < 64 \<Longrightarrow> (of_char (b64_char n) :: nat) =
     (if n < 26 then 65 + n else if n < 52 then 71 + n else if n < 62 then n - 4 else if n = 62 then 43 else 47)"
  by (simp add: b64_char_def of_char_of_small)

lemma b64_val_char [simp]: "n < 64 \<Longrightarrow> b64_val (b64_char n) = Some n"
  by (auto simp: b64_val_def of_b64_char Let_def)

lemma b64_char_not_pad [simp]: "n < 64 \<Longrightarrow> b64_char n \<noteq> CHR ''=''"
proof
  assume "n < 64" "b64_char n = CHR ''=''"
  from arg_cong [OF this(2), of "of_char :: char \<Rightarrow> nat"] \<open>n < 64\<close> show False
    by (simp add: of_b64_char split: if_splits)
qed

lemma sextet_bound: "x < 4 \<Longrightarrow> y < 16 \<Longrightarrow> x * 16 + y < (64::nat)" "x < 16 \<Longrightarrow> y < 4 \<Longrightarrow> x * 4 + y < (64::nat)"
  by simp_all

lemma octet_parts:
  fixes b :: nat
  assumes "b < 256"
  shows "b div 4 < 64" "b div 16 < 16" "b div 64 < 4"
  using assms by (simp_all add: less_mult_imp_div_less)

lemma b64_sextets:
  fixes a b c :: nat
  assumes "a < 256" "b < 256" "c < 256"
  shows "a div 4 < 64" "a mod 4 * 16 < 64" "a mod 4 * 16 + b div 16 < 64" "b mod 16 * 4 < 64"
    "b mod 16 * 4 + c div 64 < 64" "c mod 64 < 64"
  using octet_parts [OF assms(1)] octet_parts(2) [OF assms(2)] octet_parts(3) [OF assms(3)]
    sextet_bound(1) [of "a mod 4" 0] sextet_bound(1) [of "a mod 4" "b div 16"]
    sextet_bound(2) [of "b mod 16" 0] sextet_bound(2) [of "b mod 16" "c div 64"]
  by simp_all

lemma b64_octets:
  fixes a b c :: nat
  assumes "a < 256" "b < 256" "c < 256"
  shows "a div 4 * 4 + (a mod 4 * 16 + b div 16) div 16 = a"
    "(a mod 4 * 16 + b div 16) mod 16 * 16 + (b mod 16 * 4 + c div 64) div 4 = b"
    "(b mod 16 * 4 + c div 64) mod 4 * 64 + c mod 64 = c"
proof -
  have "b div 16 < 16" "c div 64 < 4" using octet_parts assms by simp_all
  then show "a div 4 * 4 + (a mod 4 * 16 + b div 16) div 16 = a"
    "(a mod 4 * 16 + b div 16) mod 16 * 16 + (b mod 16 * 4 + c div 64) div 4 = b"
    "(b mod 16 * 4 + c div 64) mod 4 * 64 + c mod 64 = c"
    by (simp_all add: div_mult_self3 [of 16] mod_mult_self3)
qed

lemma b64_dec_enc: "\<forall>b\<in>set bs. b < 256 \<Longrightarrow> b64_dec (b64_enc bs) = Some bs"
proof (induction bs rule: b64_enc.induct)
  case (2 a)
  then show ?case using b64_sextets [of a 0 0] b64_octets [of a 0 0] by simp
next
  case (3 a b)
  then show ?case using b64_sextets [of a b 0] b64_octets [of a b 0] by simp
next
  case (4 a b c rest)
  then have "b < 256" by simp
  then have "b div 16 < 16" by (rule octet_parts)
  with 4 show ?case using b64_sextets [of a b c] b64_octets [of a b c] by simp
qed simp

lemma b64_enc_chars: "\<forall>b\<in>set bs. b < 256 \<Longrightarrow> x \<in> set (b64_enc bs) \<Longrightarrow>
  x \<in> insert CHR ''='' (b64_char ` {..<64})"
proof (induction bs rule: b64_enc.induct)
  case (2 a)
  then show ?case using b64_sextets [of a 0 0] by auto
next
  case (3 a b)
  then show ?case using b64_sextets [of a b 0] by auto
next
  case (4 a b c rest)
  then show ?case using b64_sextets [of a b c] by auto
qed simp

lemma b64_enc_visible:
  assumes "\<forall>b\<in>set bs. b < 256" "x \<in> set (b64_enc bs)"
  shows "of_char x \<noteq> (10::nat) \<and> of_char x \<noteq> (13::nat) \<and> of_char x < (128::nat)"
  using b64_enc_chars [OF assms] by (auto simp: of_b64_char split: if_splits)

lemma DecodeString_EncodeToString [simp]: "DecodeString (EncodeToString s) = Some s"
proof -
  have b: "\<forall>b\<in>set (bytes_of s). b < 256" by (simp add: bytes_of_bound)
  have "filter (\<lambda>c. of_char c \<noteq> (10::nat) \<and> of_char c \<noteq> (13::nat)) (b64_enc (bytes_of s)) = b64_enc (bytes_of s)"
    using b64_enc_visible [OF b] by (simp add: filter_id_conv)
  then show ?thesis by (simp add: DecodeString_def EncodeToString_def b64_dec_enc [OF b])
qed

definition ascii :: "string \<Rightarrow> bool" where
  "ascii s \<longleftrightarrow> (\<forall>c\<in>set s. of_char c < (128::nat))"

lemma ascii_EncodeToString [simp]: "ascii (EncodeToString s)"
  using b64_enc_visible [of "bytes_of s"] by (simp add: ascii_def EncodeToString_def bytes_of_bound)

end
