(* ===== verification/App_Config.thy ===== *)
theory App_Config
  imports App_Model Base64
begin

text \<open>
  The configuration file, \<open>config/config_app.go\<close>: loading with defaults, saving, copying. JSON is the
  standard library's; it is a parameter: \<open>marshal\<close> gives the text, \<open>unmarshal\<close> the scalar fields with
  the two nested structures, which may be absent. Fields tagged \<open>json:"-"\<close> do not travel.
\<close>

section \<open>Operations\<close>

type_synonym parsed_config = "AppConfig \<times> PeerConfig option \<times> TapConfig option"

definition TAP :: u32 where "TAP = 1"

definition default_tap :: TapConfig where
  "default_tap = \<lparr>tc_Name = ''vilan'', tc_HwMac = 0, tc_HwMacStr = [], tc_IpMode = AutoAssign,
     tc_IpAddr = 0, tc_IpAddrStr = [], tc_IpMask = 0, tc_DevType = TAP\<rparr>"

definition upd_peer :: "(PeerConfig \<Rightarrow> PeerConfig) \<Rightarrow> AppConfig \<Rightarrow> AppConfig" where
  "upd_peer f c = c\<lparr>ac_PeerConfig := f (ac_PeerConfig c)\<rparr>"

definition upd_tap :: "(TapConfig \<Rightarrow> TapConfig) \<Rightarrow> AppConfig \<Rightarrow> AppConfig" where
  "upd_tap f c = c\<lparr>ac_TapConfig := f (ac_TapConfig c)\<rparr>"

text \<open>\<open>SaveAppConfig\<close>: the passwords are encoded for the file only, the textual addresses are refreshed in
  the configuration itself. The result is the configuration left in memory and the file written.\<close>

definition encode_passwords :: "PeerConfig \<Rightarrow> PeerConfig" where
  "encode_passwords p = p\<lparr>pc_PeerPwd := EncodeToString (pc_PeerPwd p), pc_GroupPwd := EncodeToString (pc_GroupPwd p)\<rparr>"

definition refresh_tap :: "TapConfig \<Rightarrow> TapConfig" where
  "refresh_tap t = t\<lparr>tc_HwMacStr := dec (unat (tc_HwMac t)), tc_IpAddrStr := config_Uint32toIpV4 (tc_IpAddr t)\<rparr>"

definition SaveAppConfig :: "(AppConfig \<Rightarrow> string option) \<Rightarrow> AppConfig \<Rightarrow> AppConfig \<times> string option" where
  "SaveAppConfig marshal c =
     (let c1 = upd_tap refresh_tap (upd_peer encode_passwords c);
          content = marshal c1
      in (upd_peer (\<lambda>p. p\<lparr>pc_PeerPwd := pc_PeerPwd (ac_PeerConfig c), pc_GroupPwd := pc_GroupPwd (ac_PeerConfig c)\<rparr>) c1,
          content))"

definition decode_or_keep :: "string \<Rightarrow> string" where
  "decode_or_keep s = (case DecodeString s of Some d \<Rightarrow> d | None \<Rightarrow> s)"

text \<open>The default values for a file that cannot be parsed; \<open>zero\<close> is the zero value of the struct.\<close>

definition default_config :: "string \<Rightarrow> AppConfig \<Rightarrow> AppConfig" where
  "default_config host zero = zero\<lparr>ac_ServerIp := ''192.168.1.100'', ac_ServerPort := 3000, ac_Heartbeat := 30,
     ac_Offline := 90, ac_MaxPacketSize := 65535, ac_PacketNum := 128,
     ac_P2pTryCount := 3, ac_P2pRetryInterval := 3, ac_AllowVisitPort := False,
     ac_EnableLog := True, ac_SaveLog := True, ac_LogLevel := 2,
     ac_PeerConfig := \<lparr>pc_GroupName = ''default_group'',
       pc_GroupPwd = EncodeToString ''12345678'', pc_PeerPwd = EncodeToString ''default_pwd'',
       pc_Name = host, pc_CryptType = CryptAES\<rparr>,
     ac_TapConfig := default_tap\<rparr>"

datatype init_error = ErrReadFile | ErrJson

text \<open>\<open>InitAppConfig\<close> on the content of the file (or its absence) and the host name: the configuration
  installed, the content of the file afterwards, and the error returned.\<close>

definition InitAppConfig ::
  "(AppConfig \<Rightarrow> string option) \<Rightarrow> (string \<Rightarrow> parsed_config option) \<Rightarrow> string option \<Rightarrow> string option \<Rightarrow>
   AppConfig \<Rightarrow> AppConfig option \<times> string option \<times> init_error option" where
  "InitAppConfig marshal unmarshal hostname file zero =
     (case file of
        None \<Rightarrow> (None, None, Some ErrReadFile)
      | Some content \<Rightarrow>
          (let host = (case hostname of Some h \<Rightarrow> if h = [] then ''vilan_peer'' else h | None \<Rightarrow> ''vilan_peer'') in
           case unmarshal content of
             Some (conf, peer, tap) \<Rightarrow>
               (let (p0, save0) = (case peer of
                      Some p \<Rightarrow> (p, False)
                    | None \<Rightarrow> (\<lparr>pc_GroupName = ''default_group'', pc_GroupPwd = [], pc_PeerPwd = ''group_pwd'',
                                pc_Name = host, pc_CryptType = CryptNone\<rparr>, True));
                    (p1, save1) = (if pc_Name p0 = [] then (p0\<lparr>pc_Name := host\<rparr>, True) else (p0, save0));
                    (t1, save2) = (case tap of
                      None \<Rightarrow> (default_tap, True)
                    | Some t \<Rightarrow>
                        (let t' = (case ParseUint 64 (tc_HwMacStr t) of
                               Some hw \<Rightarrow> t\<lparr>tc_HwMac := of_nat hw\<rparr> | None \<Rightarrow> t);
                             t'' = (case config_IpV4toUint32 (tc_IpAddrStr t') of
                               Inr ip \<Rightarrow> t'\<lparr>tc_IpAddr := ip\<rparr> | Inl _ \<Rightarrow> t')
                         in (t'', save1)));
                    c1 = conf\<lparr>ac_PeerConfig := p1\<lparr>pc_PeerPwd := decode_or_keep (pc_PeerPwd p1),
                               pc_GroupPwd := decode_or_keep (pc_GroupPwd p1)\<rparr>, ac_TapConfig := t1\<rparr>
                in if save2 then
                     (let (c2, out) = SaveAppConfig marshal c1 in
                      (Some c2, (case out of Some s \<Rightarrow> Some s | None \<Rightarrow> Some content), None))
                   else (Some c1, Some content, None))
           | None \<Rightarrow>
               (let c0 = default_config host zero;
                    (c1, out) = SaveAppConfig marshal c0
                in (Some (upd_peer (\<lambda>p. p\<lparr>pc_PeerPwd := ''default_pwd'', pc_GroupPwd := ''12345678''\<rparr>) c1),
                    (case out of Some s \<Rightarrow> Some s | None \<Rightarrow> Some content), Some ErrJson))))"

text \<open>\<open>CopyAppConfigTo\<close> names the fields one by one.\<close>

definition CopyAppConfigTo :: "AppConfig \<Rightarrow> AppConfig \<Rightarrow> AppConfig" where
  "CopyAppConfigTo src dst =
     (let tap = ac_TapConfig src; pc = ac_PeerConfig src in
      dst\<lparr>ac_ServerIp := ac_ServerIp src, ac_ServerPort := ac_ServerPort src, ac_Heartbeat := ac_Heartbeat src,
        ac_Offline := ac_Offline src, ac_P2pTryCount := ac_P2pTryCount src,
        ac_P2pRetryInterval := ac_P2pRetryInterval src, ac_MaxPacketSize := ac_MaxPacketSize src,
        ac_PacketNum := ac_PacketNum src, ac_SaveLog := ac_SaveLog src,
        ac_AllowVisitPort := ac_AllowVisitPort src, ac_EnableLog := ac_EnableLog src,
        ac_LogLevel := ac_LogLevel src,
        ac_TapConfig := \<lparr>tc_Name = tc_Name tap, tc_HwMac = tc_HwMac tap, tc_HwMacStr = tc_HwMacStr tap,
          tc_IpMode = tc_IpMode tap, tc_IpAddr = tc_IpAddr tap, tc_IpAddrStr = [], tc_IpMask = tc_IpMask tap,
          tc_DevType = tc_DevType tap\<rparr>,
        ac_PeerConfig := \<lparr>pc_GroupName = pc_GroupName pc, pc_GroupPwd = pc_GroupPwd pc,
          pc_PeerPwd = pc_PeerPwd pc, pc_Name = pc_Name pc, pc_CryptType = pc_CryptType pc\<rparr>\<rparr>)"

section \<open>What JSON is relied on for\<close>

text \<open>Text in a configuration that JSON carries unchanged: ASCII (bytes that are not UTF-8 would be
  replaced). Reading back what was written gives every field except those tagged \<open>json:"-"\<close>.\<close>

definition plain_config :: "AppConfig \<Rightarrow> bool" where
  "plain_config c \<longleftrightarrow> ascii (ac_ServerIp c) \<and> ascii (pc_GroupName (ac_PeerConfig c)) \<and>
     ascii (pc_GroupPwd (ac_PeerConfig c)) \<and> ascii (pc_PeerPwd (ac_PeerConfig c)) \<and>
     ascii (pc_Name (ac_PeerConfig c)) \<and> ascii (tc_Name (ac_TapConfig c)) \<and>
     ascii (tc_HwMacStr (ac_TapConfig c)) \<and> ascii (tc_IpAddrStr (ac_TapConfig c))"

definition carried :: "AppConfig \<Rightarrow> parsed_config" where
  "carried c = (let t = (ac_TapConfig c)\<lparr>tc_HwMac := 0, tc_IpAddr := 0\<rparr> in
     (c\<lparr>ac_TapConfig := t\<rparr>, Some (ac_PeerConfig c), Some t))"

definition written_config :: "AppConfig \<Rightarrow> AppConfig" where
  "written_config c = upd_tap refresh_tap (upd_peer encode_passwords c)"

lemma unat_u64: "unat (m :: u64) < 2 ^ 64"
  using unsigned_less [of m, where 'a = nat] by simp

lemma ParseUint_mac [simp]: "ParseUint 64 (dec (unat (m :: u64))) = Some (unat m)"
  by (rule ParseUint_dec, rule unat_u64)

lemma config_ip_roundtrip [simp]: "config_IpV4toUint32 (config_Uint32toIpV4 i) = Inr i"
  using IpV4toUint32_print [of i]
  by (simp add: config_IpV4toUint32_def config_Uint32toIpV4_def IpV4toUint32_def Uint32toIpV4_def)

lemma decode_or_keep_EncodeToString [simp]: "decode_or_keep (EncodeToString s) = s"
  by (simp add: decode_or_keep_def)

lemma loaded_config:
  assumes "unmarshal s = Some (carried (written_config c))" "pc_Name (ac_PeerConfig c) \<noteq> []"
  shows "InitAppConfig marshal unmarshal host (Some s) zero =
    (Some (upd_tap refresh_tap c), Some s, None)"
  using assms
  by (simp add: InitAppConfig_def carried_def Let_def written_config_def upd_tap_def upd_peer_def
      refresh_tap_def encode_passwords_def)

section \<open>Properties\<close>

text \<open>(C28) What is saved is loaded again: if JSON gives back the text it wrote (apart from the fields
  that do not travel), then a start after \<open>SaveAppConfig\<close> installs exactly the configuration that
  \<open>SaveAppConfig\<close> left in memory - the MAC and IP address are recovered from their text, the
  passwords from base64 - and does not write the file again.\<close>

theorem config_save_load:
  assumes "plain_config (written_config c) \<Longrightarrow>
      marshal (written_config c) = Some s \<and> unmarshal s = Some (carried (written_config c))"
    and "plain_config (written_config c)" and "pc_Name (ac_PeerConfig c) \<noteq> []"
  shows "snd (SaveAppConfig marshal c) = Some s \<and>
    InitAppConfig marshal unmarshal host (Some s) zero = (Some (fst (SaveAppConfig marshal c)), Some s, None) \<and>
    fst (SaveAppConfig marshal c) = upd_tap refresh_tap c"
proof -
  have j: "marshal (written_config c) = Some s" "unmarshal s = Some (carried (written_config c))"
    using assms(1,2) by blast+
  have f: "fst (SaveAppConfig marshal c) = upd_tap refresh_tap c"
    by (simp add: SaveAppConfig_def Let_def upd_peer_def upd_tap_def encode_passwords_def)
  have "snd (SaveAppConfig marshal c) = Some s"
    using j(1) by (simp add: SaveAppConfig_def Let_def written_config_def)
  with loaded_config [of unmarshal, OF j(2) assms(3)] f show ?thesis by simp
qed

lemma ascii_Cons [simp]: "ascii (c # s) \<longleftrightarrow> of_char c < (128::nat) \<and> ascii s" "ascii []"
  by (simp_all add: ascii_def)

lemma ascii_append [simp]: "ascii (s @ t) \<longleftrightarrow> ascii s \<and> ascii t"
  by (auto simp: ascii_def)

lemma ascii_dec [simp]: "ascii (dec n)"
proof -
  have "c \<in> set (dec n) \<Longrightarrow> of_char c < (128::nat)" for c
    using dec_digits [of c n] by (auto simp: digit_val_def Let_def split: if_splits)
  then show ?thesis by (simp add: ascii_def)
qed

theorem config_save_load_witness:
  "let c = sample_config; w = carried (written_config c); s = ''{}'' in
   snd (SaveAppConfig (\<lambda>_. Some s) c) = Some s \<and>
   InitAppConfig (\<lambda>_. Some s) (\<lambda>_. Some w) None (Some s) c =
     (Some (fst (SaveAppConfig (\<lambda>_. Some s) c)), Some s, None)"
proof -
  have "plain_config (written_config sample_config)"
    by (simp add: plain_config_def written_config_def upd_tap_def upd_peer_def encode_passwords_def
        refresh_tap_def config_Uint32toIpV4_def)
      (simp add: sample_config_def)
  moreover have "pc_Name (ac_PeerConfig sample_config) \<noteq> []" by (simp add: sample_config_def)
  ultimately show ?thesis
    using config_save_load [of sample_config "\<lambda>_. Some ''{}''" "''{}''"
        "\<lambda>_. Some (carried (written_config sample_config))" None sample_config]
    by (simp add: Let_def)
qed

text \<open>After a file that is not JSON, the defaults are installed with the plain passwords, but the file
  is written with the passwords encoded twice: the next start reads back the base64 text of the
  default passwords instead of the passwords, so a peer that was started once with the defaults
  no longer matches them.\<close>

lemma default_passwords_encoded_twice:
  fixes zero host
  defines "w \<equiv> written_config (default_config host zero)"
  assumes "host \<noteq> []" and "unmarshal broken = None"
    and "marshal w = Some file" and "unmarshal file = Some (carried w)"
  shows "\<exists>c1 c2. InitAppConfig marshal unmarshal (Some host) (Some broken) zero = (Some c1, Some file, Some ErrJson) \<and>
    InitAppConfig marshal unmarshal (Some host) (Some file) zero = (Some c2, Some file, None) \<and>
    pc_PeerPwd (ac_PeerConfig c1) = ''default_pwd'' \<and> pc_GroupPwd (ac_PeerConfig c1) = ''12345678'' \<and>
    pc_PeerPwd (ac_PeerConfig c2) = EncodeToString ''default_pwd'' \<and>
    pc_GroupPwd (ac_PeerConfig c2) = EncodeToString ''12345678''"
proof -
  have "pc_Name (ac_PeerConfig (default_config host zero)) \<noteq> []"
    using assms(2) by (simp add: default_config_def)
  with assms(5) have "InitAppConfig marshal unmarshal (Some host) (Some file) zero =
      (Some (upd_tap refresh_tap (default_config host zero)), Some file, None)"
    unfolding w_def by (rule loaded_config)
  then show ?thesis
    using assms
    by (simp add: InitAppConfig_def SaveAppConfig_def Let_def upd_peer_def upd_tap_def written_config_def
        default_config_def encode_passwords_def)
qed

text \<open>The copy the services work with has every setting of the global configuration except the textual
  IP address, which is left empty.\<close>

lemma CopyAppConfigTo_copies:
  "CopyAppConfigTo src dst = upd_tap (\<lambda>t. t\<lparr>tc_IpAddrStr := []\<rparr>) src"
  by (simp add: CopyAppConfigTo_def upd_tap_def Let_def)

end
