(* ===== verification/Runtime_Service.thy ===== *)
theory Runtime_Service
  imports P2p_Properties Tuntap_Service App_Config
begin

text \<open>
  The runtime service, \<open>service/runtime_service.go\<close>: the connection to the server, registration, the
  messages exchanged with the server and with other peers through it, routes, and the life cycle.
  What the network and the operating system answer is the record \<open>net_env\<close>.
\<close>

section \<open>Environment\<close>

record iface =
  if_name :: string
  if_addrs :: "string list option"   \<comment> \<open>\<open>None\<close>: the call failed\<close>
  if_type :: "LinkMode option"

record net_env =
  ne_ping :: bool
  ne_conn :: connect_result
  ne_chanAddr :: string                          \<comment> \<open>local address of the server channel\<close>
  ne_localIP :: "string \<Rightarrow> (string \<times> nat) option"  \<comment> \<open>address and total mask bits\<close>
  ne_ifaces :: "iface list option"
  ne_wifi :: "string \<Rightarrow> u32"
  ne_aes :: "string \<Rightarrow> string \<Rightarrow> string option"
  ne_os :: string

definition AESKey :: string where "AESKey = ''vilan_hash_key''"

text \<open>Dereferencing \<open>r.serverSock\<close>, and the two guards most senders share.\<close>

definition with_server :: "app \<Rightarrow> (ServerSockContext \<Rightarrow> 'a go) \<Rightarrow> 'a go" where
  "with_server a k = (case rt_serverSock (runtime a) of None \<Rightarrow> Panicked NilDeref | Some s \<Rightarrow> k s)"

definition send_guard ::
  "app \<Rightarrow> (ServerSockContext \<Rightarrow> handler_ref \<Rightarrow> (app \<times> svc_error option) go) \<Rightarrow> (app \<times> svc_error option) go" where
  "send_guard a k =
     (if rt_peerState (runtime a) < StateConnOk then Done (a, Some ErrNotConnected)
      else with_server a (\<lambda>s. case ss_Handler s of
             None \<Rightarrow> Done (a, Some ErrNoServerHandler)
           | Some h \<Rightarrow> k s h))"

definition upd_server :: "(ServerSockContext \<Rightarrow> ServerSockContext) \<Rightarrow> app \<Rightarrow> app" where
  "upd_server f = upd_rt (\<lambda>r. r\<lparr>rt_serverSock := map_option f (rt_serverSock r)\<rparr>)"

abbreviation rtTap :: "app \<Rightarrow> TapConfig" where
  "rtTap a \<equiv> ac_TapConfig (rt_appConfig (runtime a))"

abbreviation rtPeer :: "app \<Rightarrow> PeerConfig" where
  "rtPeer a \<equiv> ac_PeerConfig (rt_appConfig (runtime a))"

section \<open>Initialisation\<close>

definition rt_Init :: "app \<Rightarrow> app" where
  "rt_Init a =
     SetPeerState StateInitOk (upd_rt (\<lambda>r. r\<lparr>
       rt_stats := Some \<lparr>TransSend = 0, TransReceive = 0, P2PSend = 0, P2PReceive = 0\<rparr>,
       rt_LocalIpStr := [],
       rt_serverSock := Some \<lparr>ss_Bootstrap = None, ss_Handler = None, ss_Token = 0, ss_LastReceive = 0,
         ss_Heartbeat = ac_Heartbeat (rt_appConfig r), ss_Offline = ac_Offline (rt_appConfig r),
         ss_Connected = False\<rparr>,
       rt_groupPeers := Some sm_empty, rt_linkInfos := sm_empty, rt_linkInfoReqCookie := sm_empty,
       rt_configSend := sm_empty\<rparr>) a)"

text \<open>\<open>initCrypt\<close>. The constructors return pointers that are stored in the interface \<open>r.crypt\<close>: a nil pointer
  makes a non-nil interface, so the tests \<open>r.crypt == nil\<close> after the assignments never succeed.\<close>

definition initCrypt :: "crypt_lib \<Rightarrow> app \<Rightarrow> app \<times> svc_error option" where
  "initCrypt lib a =
     (let set = (\<lambda>c. upd_rt (\<lambda>r. r\<lparr>rt_crypt := c\<rparr>) a); pwd = map of_char (pc_PeerPwd (rtPeer a))
      in case pc_CryptType (rtPeer a) of
        CryptNone \<Rightarrow> (set None, None)
      | CryptAES \<Rightarrow> (set (Some (AesRef (NewAesCrypt (cl_aes lib) pwd))), None)
      | CryptDES \<Rightarrow> (set (Some (DesRef (NewDesCrypt (cl_des lib) pwd))), None)
      | CryptRSA \<Rightarrow> (set (Some (RsaRef (cl_rsa lib))), None)
      | CryptUnknown \<Rightarrow> (set None, Some ErrCryptType))"

definition rt_Start :: "crypt_lib \<Rightarrow> app \<Rightarrow> app \<times> svc_error option" where
  "rt_Start lib a =
     (if rt_running (runtime a) then (a, None)
      else initCrypt lib (upd_rt (\<lambda>r. r\<lparr>rt_running := True, rt_cancel := Some False\<rparr>) a))"

section \<open>Local address and link\<close>

definition updateLocalIp :: "net_env \<Rightarrow> string \<Rightarrow> app \<Rightarrow> app" where
  "updateLocalIp env ip a =
     (let a1 = upd_rt (\<lambda>r. r\<lparr>rt_LocalIpStr := ip\<rparr>) a in
      case ne_localIP env ip of
        None \<Rightarrow> a1
      | Some (ipStr, mbits) \<Rightarrow>
          (case IpV4toUint32 ipStr of
             Inl _ \<Rightarrow> a1
           | Inr n \<Rightarrow>
               (let bits = (if mbits = 32 then 24 else mbits) in
                upd_rt (\<lambda>r. r\<lparr>rt_LocalIp := Some \<lparr>NetAddr = n, NetBitLen = of_nat bits\<rparr>\<rparr>) a1)))"

fun find_iface :: "string \<Rightarrow> iface list \<Rightarrow> (iface \<times> LinkMode) option" where
  "find_iface ip [] = None"
| "find_iface ip (i # is) =
     (case if_addrs i of
        None \<Rightarrow> find_iface ip is
      | Some addrs \<Rightarrow>
          (if \<exists>addr\<in>set addrs. hd (go_split CHR ''/'' addr) = ip
           then (case if_type i of Some mode \<Rightarrow> Some (i, mode) | None \<Rightarrow> find_iface ip is)
           else find_iface ip is))"

definition updateLinkInfo :: "net_env \<Rightarrow> string \<Rightarrow> app \<Rightarrow> app" where
  "updateLinkInfo env ip a =
     (let found = (case ne_ifaces env of None \<Rightarrow> None | Some fs \<Rightarrow> find_iface ip fs);
          mode = (case found of None \<Rightarrow> LinkUnKnow | Some (_, m) \<Rightarrow> m);
          quality = (case found of Some (i, LinkWiFi) \<Rightarrow> ne_wifi env (if_name i) | _ \<Rightarrow> 101)
      in upd_rt (\<lambda>r. r\<lparr>rt_linkMode := mode, rt_linkQuality := quality\<rparr>) a)"

section \<open>Registration\<close>

definition auth_message :: "net_env \<Rightarrow> app \<Rightarrow> MsgAuth" where
  "auth_message env a =
     (let r = runtime a; tc = rtTap a; pwd = pc_GroupPwd (rtPeer a);
          groupPwd = (if pwd = [] then []
                      else case ne_aes env pwd AESKey of None \<Rightarrow> pwd | Some e \<Rightarrow> EncodeToString e)
      in \<lparr>au_PeerMac = (if tc_HwMac tc = 0 then 0 else tc_HwMac tc), au_PeerName = pc_Name (rtPeer a),
          au_Group = pc_GroupName (rtPeer a), au_Password = groupPwd, au_PeerOs = ne_os env,
          au_PeerAddr = (if tc_IpMode tc = AutoAssign then None
                         else Some \<lparr>NetAddr = tc_IpAddr tc, NetBitLen = tc_IpMask tc\<rparr>),
          au_InnerAddr = rt_LocalIp r, au_AutoMac = (tc_HwMac tc = 0),
          au_AutoIp = (tc_IpMode tc = AutoAssign),
          au_LinkMode = link_mode_num (rt_linkMode r), au_LinkQuality = rt_linkQuality r\<rparr>)"

definition SendAuthRequest :: "net_env \<Rightarrow> app \<Rightarrow> (app \<times> svc_error option) go" where
  "SendAuthRequest env a = send_guard a (\<lambda>s h.
     let a1 = (if rt_LocalIp (runtime a) = None
               then (let ip = hd (go_split CHR '':'' (ne_chanAddr env)) in
                     updateLinkInfo env ip (updateLocalIp env ip a))
               else a);
         frame = (peer_frame Msg_Auth (tc_HwMac (rtTap a1)) 0)\<lparr>pf_MsgAuth := Some (auth_message env a1)\<rparr>
     in Done (SetPeerState StateUnAck (forwardMessage (Some h) (PeerFrame frame) a1), None))"

definition SendGroupPeersRequest :: "string \<Rightarrow> app \<Rightarrow> (app \<times> svc_error option) go" where
  "SendGroupPeersRequest groupName a = send_guard a (\<lambda>s h.
     let a1 = upd_rt (\<lambda>r. r\<lparr>rt_groupPeers := ClearMap (rt_groupPeers r)\<rparr>) a;
         mac = tc_HwMac (rtTap a1);
         frame = (peer_frame Msg_GroupPeersRequest mac (ss_Token s))
           \<lparr>pf_MsgGroupPeer := Some \<lparr>gr_SrcMac = mac, gr_GroupName = groupName\<rparr>\<rparr>
     in Done (forwardMessage (Some h) (PeerFrame frame) a1, None))"

definition set_both_tap :: "(TapConfig \<Rightarrow> TapConfig) \<Rightarrow> app \<Rightarrow> app" where
  "set_both_tap f a = (upd_rt (\<lambda>r. r\<lparr>rt_appConfig := upd_tap f (rt_appConfig r)\<rparr>) a)
     \<lparr>config := upd_tap f (config a)\<rparr>"

text \<open>\<open>SaveAppConfig\<close> on the global configuration refreshes its textual addresses; the file is written.\<close>

definition save_config :: "app \<Rightarrow> app" where
  "save_config a = emit EvSaveConfig (a\<lparr>config := upd_tap refresh_tap (config a)\<rparr>)"

text \<open>Applying the addresses a registration assigns: the updates in the order of the code, stopping at
  the first invalid one; the flag says whether the configuration must be saved.\<close>

definition assign_addresses :: "MsgAuthAck \<Rightarrow> app \<Rightarrow> (app \<times> svc_error) + (app \<times> bool)" where
  "assign_addresses ack a =
     (let step1 = (if aa_AssignMac ack then
                     (if aa_PeerMac ack = 0 then Inl (SetPeerState StateAuthFail a, ErrBadMac)
                      else Inr (set_both_tap (\<lambda>t. t\<lparr>tc_HwMac := aa_PeerMac ack\<rparr>) a, True))
                   else Inr (a, False))
      in case step1 of
        Inl e \<Rightarrow> Inl e
      | Inr (a1, save) \<Rightarrow>
          (if aa_AssignIp ack then
             (case aa_PeerAddr ack of
                None \<Rightarrow> Inl (SetPeerState StateAuthFail a1, ErrBadIp)
              | Some n \<Rightarrow>
                  (if NetAddr n = 0 \<or> NetBitLen n = 0 then Inl (SetPeerState StateAuthFail a1, ErrBadIp)
                   else Inr (set_both_tap (\<lambda>t. t\<lparr>tc_IpAddr := NetAddr n, tc_IpMask := NetBitLen n\<rparr>) a1, True)))
           else Inr (a1, save)))"

text \<open>What follows a successful registration: old direct connections are dropped, the card is started and
  the members of the group are requested.\<close>

definition start_card :: "tap_env \<Rightarrow> app \<Rightarrow> app" where
  "start_card tenv a =
     (if tt_state (tun a) \<noteq> TunTapRunning then
        (let (a1, err) = tun_Start tenv a in
         if err \<noteq> None then SetPeerState StateInitError a1 else a1)
      else a)"

definition after_registration :: "tap_env \<Rightarrow> app \<Rightarrow> app go" where
  "after_registration tenv a =
     go_bind (ResetP2PSocks a) (\<lambda>a3.
       let a4 = start_card tenv a3
       in go_map fst (SendGroupPeersRequest (pc_GroupName (rtPeer a4)) a4))"

definition ProcessAuthResponse :: "tap_env \<Rightarrow> MsgAuthAck option \<Rightarrow> app \<Rightarrow> (app \<times> svc_error option) go" where
  "ProcessAuthResponse tenv ack0 a =
     (case ack0 of None \<Rightarrow> Done (a, Some ErrNilMessage) | Some ack \<Rightarrow>
       (let a0 = (case aa_Sock ack of None \<Rightarrow> a | Some s \<Rightarrow> upd_rt (\<lambda>r. r\<lparr>rt_externSock := Some s\<rparr>) a) in
        if aa_AuthRes ack \<ge> 0 then
          with_server a0 (\<lambda>_.
            case assign_addresses ack (upd_server (\<lambda>s. s\<lparr>ss_Token := aa_Token ack\<rparr>) a0) of
              Inl (a1, e) \<Rightarrow> Done (a1, Some e)
            | Inr (a1, save) \<Rightarrow>
                go_map (\<lambda>b. (b, None))
                  (after_registration tenv (SetPeerState StateOk (if save then save_config a1 else a1))))
        else Done (SetPeerState StateAuthFail a0, Some (ErrAuthRefused (aa_AuthRes ack)))))"

definition SendUnAuth :: "app \<Rightarrow> (app \<times> svc_error option) go" where
  "SendUnAuth a = send_guard a (\<lambda>s h.
     let mac = tc_HwMac (rtTap a);
         frame = (peer_frame Msg_UnAuth mac (ss_Token s))\<lparr>pf_MsgUnAuth :=
           Some \<lparr>ua_PeerMac = mac, ua_Group = pc_GroupName (rtPeer a), ua_Token = ss_Token s\<rparr>\<rparr>
     in Done (forwardMessage (Some h) (PeerFrame frame) a, None))"

section \<open>The server connection\<close>

text \<open>\<open>MessageHandler.HandleActive\<close> on the server socket.\<close>

definition server_HandleActive :: "int \<Rightarrow> net_env \<Rightarrow> handler_ref \<Rightarrow> app \<Rightarrow> app go" where
  "server_HandleActive t env h a =
     with_server a (\<lambda>_. 
       let a1 = SetPeerState StateUnAck (upd_server (\<lambda>s. s\<lparr>ss_Handler := Some h, ss_Connected := True,
                    ss_LastReceive := unix t\<rparr>) a)
       in go_map fst (SendAuthRequest env a1))"

definition close_channel :: "app \<Rightarrow> app" where
  "close_channel a = upd_rt (\<lambda>r. r\<lparr>rt_serverChannel := None\<rparr>)
     (case rt_serverChannel (runtime a) of None \<Rightarrow> a | Some ch \<Rightarrow> emit (EvCloseChannel ch) a)"

definition initServerSocket :: "int \<Rightarrow> net_env \<Rightarrow> app \<Rightarrow> (app \<times> svc_error option) go" where
  "initServerSocket t env a =
     (let a1 = close_channel a in
      if \<not> ne_ping env then Done (SetPeerState StateUnConn a1, Some ErrPing)
      else with_server a1 (\<lambda>_.
        let b = next_ref a1;
            a2 = (upd_server (\<lambda>s. s\<lparr>ss_Bootstrap := Some b\<rparr>) a1)\<lparr>next_ref := b + 1\<rparr>;
            cfg = rt_appConfig (runtime a2);
            url = ''//'' @ ac_ServerIp cfg @ '':'' @ int_str (ac_ServerPort cfg);
            a3 = emit (EvConnect b url ''0.0.0.0:0'') a2
        in case ne_conn env of
          ConnErr \<Rightarrow> Done (upd_rt (\<lambda>r. r\<lparr>rt_serverChannel := None\<rparr>) (SetPeerState StateUnConn a3), Some ErrConnect)
        | ConnOk la \<Rightarrow>
            (let (h, a4) = fresh_handler a3 in
             go_bind (server_HandleActive t env h a4) (\<lambda>a5.
               let a6 = upd_server (\<lambda>s. s\<lparr>ss_Connected := True\<rparr>)
                          (SetPeerState StateUnAck (upd_rt (\<lambda>r. r\<lparr>rt_serverChannel := Some h\<rparr>) a5));
                   ip = hd (go_split CHR '':'' la)
               in Done (updateLinkInfo env ip (updateLocalIp env ip a6), None)))))"

definition stopAllSockets :: "app \<Rightarrow> app" where
  "stopAllSockets a =
     (let a1 = (case rt_serverSock (runtime a) of
          None \<Rightarrow> a
        | Some s \<Rightarrow>
            (let b = (case ss_Bootstrap s of None \<Rightarrow> a | Some r \<Rightarrow> emit (EvStop r) a) in
             SetPeerState StateUnConn (upd_server (\<lambda>s. s\<lparr>ss_Connected := False\<rparr>) b)))
      in case rt_serverChannel (runtime a1) of
           None \<Rightarrow> a1
         | Some ch \<Rightarrow> upd_rt (\<lambda>r. r\<lparr>rt_serverChannel := None\<rparr>) (emit (EvCloseChannel ch) a1))"

text \<open>The reconnection test at the head of \<open>stateCheck\<close> and in its loop; the flag says whether the
  socket was found connected.\<close>

definition check_server :: "int \<Rightarrow> bool \<Rightarrow> net_env \<Rightarrow> app \<Rightarrow> (app \<times> bool) go" where
  "check_server t netOk env a =
     with_server a (\<lambda>s.
       if \<not> server_IsConnected t netOk s
       then go_map (\<lambda>(b, err). (b, False)) (initServerSocket t env (stopAllSockets a))
       else Done (a, True))"

definition rt_tick :: "int \<Rightarrow> bool \<Rightarrow> net_env \<Rightarrow> app \<Rightarrow> app go" where
  "rt_tick t netOk env a =
     (let a1 = emit (EvUpdateStats (rt_stats (runtime a))) a in
      go_bind (check_server t netOk env a1) (\<lambda>(a2, conn).
        if conn \<and> rt_peerState (runtime a2) \<noteq> StateOk
        then go_map fst (SendAuthRequest env a2) else Done a2))"

datatype rt_select = RtDone | RtTimer int bool net_env

fun rt_loop :: "rt_select list \<Rightarrow> app \<Rightarrow> app go" where
  "rt_loop cs a =
     (if \<not> rt_running (runtime a)
      then Done (upd_rt (\<lambda>r. r\<lparr>rt_running := False\<rparr>) (stopAllSockets a))
      else case cs of
        [] \<Rightarrow> Done a
      | RtDone # _ \<Rightarrow> Done (upd_rt (\<lambda>r. r\<lparr>rt_running := False\<rparr>) (stopAllSockets a))
      | RtTimer t netOk env # rest \<Rightarrow> go_bind (rt_tick t netOk env a) (rt_loop rest))"

definition rt_stateCheck :: "int \<Rightarrow> bool \<Rightarrow> net_env \<Rightarrow> rt_select list \<Rightarrow> app \<Rightarrow> app go" where
  "rt_stateCheck t netOk env cs a = go_bind (check_server t netOk env a) (\<lambda>(a1, _). rt_loop cs a1)"

declare rt_loop.simps [simp del]

section \<open>Messages from the server\<close>

text \<open>The update of the group table for a state change: \<open>groupPeers.Store\<close>, or clearing \<open>Online\<close> in place.\<close>

definition record_state :: "MsgState \<Rightarrow> app \<Rightarrow> app go" where
  "record_state s a =
     (if ms_Online s then
        (case ms_PeerInfo s of
           None \<Rightarrow> Done a
         | Some info \<Rightarrow>
             (case rt_groupPeers (runtime a) of
                None \<Rightarrow> Panicked NilDeref
              | Some m \<Rightarrow> Done (upd_rt (\<lambda>r. r\<lparr>rt_groupPeers := Some (sm_store (ms_PeerMac s) info m)\<rparr>) a)))
      else
        (case rt_groupPeers (runtime a) of
           None \<Rightarrow> Panicked NilDeref
         | Some m \<Rightarrow>
             (case sm_load m (ms_PeerMac s) of
                None \<Rightarrow> Done a
              | Some p \<Rightarrow> Done (upd_rt (\<lambda>r. r\<lparr>rt_groupPeers :=
                            Some (sm_store (ms_PeerMac s) (p\<lparr>pi_Online := False\<rparr>) m)\<rparr>) a))))"

text \<open>\<open>SerialService.PeerStateChanged\<close> loads from maps that only \<open>Start\<close> of the port service creates; on
  the state modelled here it has no effect once they exist.\<close>

definition serial_PeerStateChanged :: "app \<Rightarrow> app go" where
  "serial_PeerStateChanged a = (if serial_started a then Done a else Panicked NilDeref)"

definition ProcessPeerStateChanged :: "MsgState option \<Rightarrow> app \<Rightarrow> (app \<times> svc_error option) go" where
  "ProcessPeerStateChanged st a =
     (case st of None \<Rightarrow> Done (a, Some ErrNilMessage) | Some s \<Rightarrow>
       go_bind (record_state s a) (\<lambda>a1.
       go_bind (PeerStateChanged (ms_PeerMac s) (emit EvUpdatePeers a1)) (\<lambda>a2.
       go_map (\<lambda>a3. (a3, None)) (serial_PeerStateChanged a2))))"

definition ProcessPong :: "MsgPong option \<Rightarrow> app \<Rightarrow> app \<times> svc_error option" where
  "ProcessPong pong a =
     (case pong of None \<Rightarrow> (a, Some ErrNilMessage) | Some p \<Rightarrow>
        ((case po_Sock p of None \<Rightarrow> a | Some s \<Rightarrow> upd_rt (\<lambda>r. r\<lparr>rt_externSock := Some s\<rparr>) a), None))"

definition fresh_group :: "u32 \<Rightarrow> app \<Rightarrow> app" where
  "fresh_group cookie a =
     (if rt_groupPeerCookie (runtime a) \<noteq> cookie \<or> rt_groupPeers (runtime a) = None
      then upd_rt (\<lambda>r. r\<lparr>rt_groupPeers := ClearMap (rt_groupPeers r), rt_groupPeerCookie := cookie\<rparr>) a
      else a)"

definition store_peer :: "PeerInfo \<Rightarrow> app \<Rightarrow> app go" where
  "store_peer p a =
     (case rt_groupPeers (runtime a) of
        None \<Rightarrow> Panicked NilDeref
      | Some m \<Rightarrow> Done (upd_rt (\<lambda>r. r\<lparr>rt_groupPeers := Some (sm_store (pi_PeerMac p) p m)\<rparr>) a))"

definition ProcessGroupPeersResponse :: "MsgGroupPeersResponse option \<Rightarrow> app \<Rightarrow> (app \<times> svc_error option) go" where
  "ProcessGroupPeersResponse resp a =
     (case resp of None \<Rightarrow> Done (a, Some ErrNilMessage) | Some rs \<Rightarrow>
        go_map (\<lambda>b. (emit EvUpdatePeers b, None))
          (go_fold store_peer (ga_PeerInfo rs) (fresh_group (ga_Cookie rs) a)))"

section \<open>Configuration of other peers\<close>

definition sendConfig :: "MsgConfig option \<Rightarrow> nat \<Rightarrow> app \<Rightarrow> (app \<times> svc_error option) go" where
  "sendConfig conf result a = send_guard a (\<lambda>s h.
     case conf of
       None \<Rightarrow> Done (a, Some ErrNoServerHandler)
     | Some c \<Rightarrow>
         (let frame = (peer_frame Msg_Config (tc_HwMac (rtTap a)) (ss_Token s))\<lparr>pf_MsgConfig := Some c\<rparr> in
          Done (upd_rt (\<lambda>r. r\<lparr>rt_configSend := sm_store (mc_DstMac c) result (rt_configSend r)\<rparr>)
                  (forwardMessage (Some h) (PeerFrame frame) a), None)))"

datatype config_tip = TipBadMac | TipBadAddr | TipSend svc_error | TipOk | TipReply string | TipTimeout

text \<open>\<open>UpdateConfig\<close>; \<open>parseCIDR\<close> is \<open>net.ParseCIDR\<close> (the address as text and the prefix length), \<open>reply\<close> what
  the select receives: a result or the timeout.\<close>

definition UpdateConfig ::
  "(string \<Rightarrow> (string \<times> u32) option) \<Rightarrow> (string option) option \<Rightarrow> string \<Rightarrow> string \<Rightarrow> string \<Rightarrow> app \<Rightarrow>
   (app \<times> bool \<times> config_tip) go" where
  "UpdateConfig parseCIDR reply peerMac interAddr peerName a =
     (case ParseUint 64 peerMac of
        None \<Rightarrow> Done (a, False, TipBadMac)
      | Some mac \<Rightarrow>
          (case parseCIDR interAddr of
             None \<Rightarrow> Done (a, False, TipBadAddr)
           | Some (ip, bitLen) \<Rightarrow>
               (case IpV4toUint32 ip of
                  Inl _ \<Rightarrow> Done (a, False, TipBadAddr)
                | Inr netAddr \<Rightarrow>
                    (let res = next_ref a;
                         c = \<lparr>mc_SrcMac = hwMac a, mc_DstMac = of_nat mac, mc_NewName = peerName,
                              mc_InnerAddr = Some \<lparr>NetAddr = netAddr, NetBitLen = bitLen\<rparr>\<rparr>
                     in go_map (\<lambda>(a1, err). case err of
                          Some e \<Rightarrow> (a1, False, TipSend e)
                        | None \<Rightarrow>
                            (let a2 = upd_rt (\<lambda>r. r\<lparr>rt_configSend := sm_delete (of_nat mac) (rt_configSend r)\<rparr>) a1
                             in case reply of
                               None \<Rightarrow> (a2, False, TipTimeout)
                             | Some None \<Rightarrow> (a2, True, TipOk)
                             | Some (Some tip) \<Rightarrow> (a2, False, TipReply tip)))
                        (sendConfig (Some c) res (a\<lparr>next_ref := res + 1\<rparr>))))))"

text \<open>A peer never lets itself be configured remotely; the tip is the literal text of the source,
  represented by a name.\<close>

definition remote_config_tip :: string where
  "remote_config_tip = ''remote configuration of this terminal is not allowed''"

definition ProcessConfig :: "MsgConfig option \<Rightarrow> app \<Rightarrow> (app \<times> svc_error option) go" where
  "ProcessConfig conf a =
     (case conf of None \<Rightarrow> Done (a, Some ErrNilMessage) | Some c \<Rightarrow>
        with_server a (\<lambda>s.
          let mac = tc_HwMac (rtTap a);
              ack = \<lparr>ca_SrcMac = mac, ca_DstMac = mc_SrcMac c, ca_IsOk = False, ca_Tip = remote_config_tip\<rparr>;
              frame = (peer_frame Msg_ConfigAck mac (ss_Token s))\<lparr>pf_MsgConfigAck := Some ack\<rparr>
          in Done (forwardMessage (ss_Handler s) (PeerFrame frame) a, Some ErrConfigRefused)))"

text \<open>\<open>ProcessConfigAck\<close> sends the result on the channel of the pending request, where \<open>UpdateConfig\<close>
  receives it.\<close>

definition ProcessConfigAck :: "MsgConfigAck option \<Rightarrow> app \<Rightarrow> app \<times> svc_error option" where
  "ProcessConfigAck ack0 a =
     (case ack0 of None \<Rightarrow> (a, Some ErrNilMessage) | Some ack \<Rightarrow>
        (case sm_load (rt_configSend (runtime a)) (ca_SrcMac ack) of
           None \<Rightarrow> (a, None)
         | Some ch \<Rightarrow> (emit (EvConfigResult ch (if ca_IsOk ack then None else Some (ca_Tip ack))) a, None)))"

section \<open>Heartbeat\<close>

definition SendPing :: "net_env \<Rightarrow> app \<Rightarrow> (app \<times> svc_error option) go" where
  "SendPing env a = send_guard a (\<lambda>s h.
     let a1 = updateLinkInfo env (rt_LocalIpStr (runtime a)) a; r = runtime a1; tc = rtTap a1;
         ping = \<lparr>mp_PeerName = pc_Name (rtPeer a1),
                 mp_PeerAddr = Some \<lparr>NetAddr = tc_IpAddr tc, NetBitLen = tc_IpMask tc\<rparr>,
                 mp_InnerAddr = rt_LocalIp r, mp_Stats = rt_stats r,
                 mp_LinkMode = link_mode_num (rt_linkMode r), mp_LinkQuality = rt_linkQuality r\<rparr>;
         frame = (peer_frame Msg_Ping (tc_HwMac tc) (ss_Token s))\<lparr>pf_MsgPing := Some ping\<rparr>
     in Done (forwardMessage (Some h) (PeerFrame frame) a1, None))"

section \<open>Devices behind a peer\<close>

definition SendPeerLinksRequest :: "u64 \<Rightarrow> app \<Rightarrow> (app \<times> svc_error option) go" where
  "SendPeerLinksRequest dstMac a = send_guard a (\<lambda>s h.
     let mac = tc_HwMac (rtTap a);
         frame = (peer_frame Msg_PeerLinksRequest mac (ss_Token s))
           \<lparr>pf_MsgLinks := Some \<lparr>lr_SrcMac = mac, lr_DstMac = dstMac\<rparr>\<rparr>
     in Done (forwardMessage (Some h) (PeerFrame frame) a, None))"

text \<open>The addresses of the ARP table inside the local segment, and their packets of fifty.\<close>

fun collect_links :: "u32 \<Rightarrow> u32 \<Rightarrow> string list \<Rightarrow> LinkInfo list" where
  "collect_links segIp msk [] = []"
| "collect_links segIp msk (ipStr # rest) =
     (case IpV4toUint32 ipStr of
        Inr ip \<Rightarrow> (if segIp = (ip AND msk)
                   then \<lparr>li_Addr = ip, li_Rx = 0, li_Tx = 0\<rparr> # collect_links segIp msk rest
                   else collect_links segIp msk rest)
      | Inl _ \<Rightarrow> collect_links segIp msk rest)"

definition link_packets :: "LinkInfo list \<Rightarrow> LinkInfo list list" where
  "link_packets links =
     (let pkg = length links div 50 + (if length links mod 50 > 0 then 1 else 0) in
      map (\<lambda>i. if i = pkg - 1 then drop (i * 50) links
               else take 50 (drop (i * 50) links)) [0..<pkg])"

definition send_links ::
  "handler_ref \<Rightarrow> u32 \<Rightarrow> u32 \<Rightarrow> MsgPeerLinksRequest option \<Rightarrow> LinkInfo list \<Rightarrow> app \<Rightarrow> app go" where
  "send_links h token cookie request pkt a =
     (case request of
        None \<Rightarrow> Panicked NilDeref
      | Some rq \<Rightarrow>
          (let mac = tc_HwMac (rtTap a) in
           Done (forwardMessage (Some h) (PeerFrame
             ((peer_frame Msg_PeerLinksResponse mac token)\<lparr>pf_MsgLinksAck := Some
               \<lparr>la_SrcMac = mac, la_DstMac = lr_SrcMac rq, la_Cookie = cookie, la_LinkInfo = pkt\<rparr>\<rparr>)) a)))"

definition ProcessPeerLinksRequest ::
  "u32 \<Rightarrow> string list \<Rightarrow> MsgPeerLinksRequest option \<Rightarrow> app \<Rightarrow> (app \<times> svc_error option) go" where
  "ProcessPeerLinksRequest cookie arpTable request a =
     with_server a (\<lambda>s.
       case ss_Handler s of None \<Rightarrow> Done (a, Some ErrNoServerHandler) | Some h \<Rightarrow>
       case rt_LocalIp (runtime a) of None \<Rightarrow> Done (a, Some ErrNoLocalIp) | Some loc \<Rightarrow>
         (let msk = push_bit (unat (32 - NetBitLen loc)) (0xFFFFFFFF :: u32);
              segIp = NetAddr loc AND msk;
              links = collect_links segIp msk arpTable
          in go_map (\<lambda>a1. (a1, None))
               (go_fold (send_links h (ss_Token s) cookie request) (link_packets links) a)))"

definition ProcessPeerLinksResponse :: "MsgPeerLinksResponse option \<Rightarrow> app \<Rightarrow> app \<times> svc_error option" where
  "ProcessPeerLinksResponse resp a =
     (case resp of None \<Rightarrow> (a, Some ErrNilMessage) | Some rs \<Rightarrow>
       if la_LinkInfo rs = [] then (a, Some ErrEmptyLinks)
       else
         (let r = runtime a; src = la_SrcMac rs in
          if sm_load (rt_linkInfoReqCookie r) src \<noteq> Some (la_Cookie rs)
          then (upd_rt (\<lambda>r. r\<lparr>rt_linkInfoReqCookie := sm_store src (la_Cookie rs) (rt_linkInfoReqCookie r),
                              rt_linkInfos := sm_store src (la_LinkInfo rs) (rt_linkInfos r)\<rparr>) a, None)
          else (case sm_load (rt_linkInfos r) src of
                  Some links \<Rightarrow> (upd_rt (\<lambda>r. r\<lparr>rt_linkInfos := sm_store src (links @ la_LinkInfo rs) (rt_linkInfos r)\<rparr>) a, None)
                | None \<Rightarrow> (upd_rt (\<lambda>r. r\<lparr>rt_linkInfos := sm_store src (la_LinkInfo rs) (rt_linkInfos r)\<rparr>) a, None))))"

definition GetGroupPeers :: "string \<Rightarrow> bool \<Rightarrow> app \<Rightarrow> (app \<times> PeerInfo list option) go" where
  "GetGroupPeers grp req a =
     (if grp = [] then Done (a, None)
      else if \<not> req then
        (case rt_groupPeers (runtime a) of
           None \<Rightarrow> Panicked NilDeref
         | Some m \<Rightarrow> Done (a, Some (map snd m)))
      else go_map (\<lambda>(a1, _). (a1, Some [])) (SendGroupPeersRequest grp a))"

text \<open>\<open>GetLinkInfos\<close> polls fifteen times, a tenth of a second apart; \<open>obs\<close> is what it finds in the table
  at each poll. It returns as soon as two polls in a row see the same number of entries.\<close>

fun poll_links :: "nat \<Rightarrow> nat \<Rightarrow> LinkInfo list list \<Rightarrow> LinkInfo list option" where
  "poll_links 0 lastLen obs = None"
| "poll_links (Suc n) lastLen [] = None"
| "poll_links (Suc n) lastLen (cur # obs) =
     (if length cur > 0
      then (if lastLen = length cur then Some cur else poll_links n (length cur) obs)
      else poll_links n lastLen obs)"

definition GetLinkInfos :: "LinkInfo list list \<Rightarrow> u64 \<Rightarrow> app \<Rightarrow> (app \<times> LinkInfo list option) go" where
  "GetLinkInfos obs mac a =
     (let a1 = upd_rt (\<lambda>r. r\<lparr>rt_linkInfos := sm_delete mac (rt_linkInfos r)\<rparr>) a in
      go_map (\<lambda>(a2, err). (a2, if err \<noteq> None then None else poll_links 15 0 obs))
        (SendPeerLinksRequest mac a1))"

section \<open>Routes\<close>

definition CleanRoutes :: "app \<Rightarrow> app" where
  "CleanRoutes a =
     upd_rt (\<lambda>r. r\<lparr>rt_lastRoute := None\<rparr>)
       (case rt_lastRoute (runtime a) of
          None \<Rightarrow> a
        | Some rt \<Rightarrow> tun_DelRoute (GetDst rt) (GetMask rt) (GetGw rt) a)"

definition AddRoute :: "bool \<Rightarrow> u64 \<Rightarrow> app \<Rightarrow> app \<times> bool" where
  "AddRoute ok mac a =
     (case FindPeer mac a of
        None \<Rightarrow> (a, False)
      | Some p \<Rightarrow>
          (let a1 = CleanRoutes a;
               msk = push_bit (unat (32 - pi_InterNetBitLen p)) (0xFFFFFFFF :: u32);
               route = \<lparr>Destination = pi_InterAddr p AND msk, Mask = msk, Gateway = pi_NetAddr p\<rparr>;
               (a2, added) = tun_AddRoute ok (GetDst route) (GetMask route) (GetGw route) a1
           in if \<not> added then (a2, False)
              else (upd_rt (\<lambda>r. r\<lparr>rt_lastRoute := Some route\<rparr>) a2, True)))"

section \<open>Stopping and restarting\<close>

definition rt_Stop :: "app \<Rightarrow> app go" where
  "rt_Stop a =
     go_bind (SendUnAuth a) (\<lambda>(a1, _).
       let a2 = upd_rt (\<lambda>r. r\<lparr>rt_running := False\<rparr>) (CleanRoutes a1) in
       case rt_cancel (runtime a2) of
         None \<Rightarrow> Panicked NilDeref
       | Some _ \<Rightarrow> Done (SetPeerState StateUnConn (upd_rt (\<lambda>r. r\<lparr>rt_cancel := Some True\<rparr>) a2)))"

definition rt_Restart ::
  "crypt_lib \<Rightarrow> tap_env \<Rightarrow> app \<Rightarrow> (app \<times> svc_error option) go" where
  "rt_Restart lib tenv a =
     go_bind (p2p_Stop a) (\<lambda>a1. go_bind (rt_Stop a1) (\<lambda>a2.
       let (a3, err) = tun_Stop tenv a2 in
       if err \<noteq> None then Done (a3, err)
       else
         (let a4 = upd_rt (\<lambda>r. r\<lparr>rt_appConfig := CopyAppConfigTo (config a3) (rt_appConfig r)\<rparr>) a3;
              a5 = (if tc_IpMode (rtTap a4) = Static \<and> tc_HwMac (rtTap a4) \<noteq> 0
                    then fst (tun_Start tenv a4) else a4);
              (a6, err2) = rt_Start lib a5
          in if err2 \<noteq> None then Done (a6, err2) else Done (p2p_Start a6, None))))"

end
