(* ===== verification/Data_Path.thy ===== *)
theory Data_Path
  imports Runtime_Service
begin

text \<open>
  The path of frames through the peer: from the virtual card to the network
  (\<open>tapData2Net\<close>, \<open>PostTunTapData\<close>), from the network to the card and the services
  (\<open>MessageHandler\<close>, \<open>DataHandler\<close>), and the loop that reads the card. A handler runs inside the
  channel's read loop; when it panics the loop ends and the pipeline is told of the exception.
\<close>

section \<open>From the card to the network\<close>

definition packet_frame :: "u64 \<Rightarrow> bytes \<Rightarrow> app \<Rightarrow> MsgDataFrame" where
  "packet_frame dstMac data a =
     \<lparr>df_MsgType = Msg_Packet, df_SrcMac = tc_HwMac (rtTap a), df_DstMac = dstMac, df_Token = 0, df_Data = data\<rparr>"

definition PostTunTapData ::
  "int \<Rightarrow> connect_result \<Rightarrow> u64 \<Rightarrow> bytes \<Rightarrow> app \<Rightarrow> (app \<times> svc_error option) go" where
  "PostTunTapData t conn dstMac data a =
     (if rt_peerState (runtime a) \<noteq> StateOk then Done (a, Some ErrNotRegistered)
      else let fr = packet_frame dstMac data a in
      go_bind (TryForwardMessage t conn dstMac (Some fr) a) (\<lambda>(a1, direct).
        if direct then Done (a1, None)
        else with_server a1 (\<lambda>s. case ss_Handler s of
               Some h \<Rightarrow> Done (forwardMessage (Some h) (DataFrame (fr\<lparr>df_Token := ss_Token s\<rparr>)) a1, None)
             | None \<Rightarrow> Done (a1, Some ErrNoSock))))"

definition gratuitousArp :: bytes where
  "gratuitousArp =
     [0xFF, 0xFF, 0xFF, 0xFF, 0xFF, 0xFF,  0, 0, 0, 0, 0, 0,  0x08, 0x06,  0x00, 0x01,  0x08, 0x00,
      0x06,  0x04,  0x00, 0x02,  0, 0, 0, 0, 0, 0,  0, 0, 0, 0,  0xFF, 0xFF, 0xFF, 0xFF, 0xFF, 0xFF,
      0, 0, 0, 0]"

definition arp_buffer :: "u64 \<Rightarrow> u32 \<Rightarrow> bytes" where
  "arp_buffer hw ipAddr =
     (let buffer = gratuitousArp; mac = take 6 (PutUint64_le hw); ip = PutUint32_be ipAddr in
      go_copy (go_copy (go_copy (go_copy buffer 6 mac) 22 mac) 28 ip) 38 ip)"

definition sendGratuitousArp :: "int \<Rightarrow> connect_result \<Rightarrow> app \<Rightarrow> (app \<times> svc_error option) go" where
  "sendGratuitousArp t conn a = send_guard a (\<lambda>_ _.
     if tc_HwMac (rtTap a) = 0 \<or> tc_IpAddr (rtTap a) = 0 then Done (a, Some ErrBadMacOrIp)
     else PostTunTapData t conn MacBroadcast (arp_buffer (tc_HwMac (rtTap a)) (tc_IpAddr (rtTap a))) a)"

text \<open>\<open>tapData2Net\<close>: the destination is the first six bytes, read through the eight-byte buffer of the
  service.\<close>

definition tapData2Net :: "int \<Rightarrow> connect_result \<Rightarrow> bytes \<Rightarrow> app \<Rightarrow> app go" where
  "tapData2Net t conn data a =
     (if length data < SizeEthFrame then Done a
      else
        (let a1 = upd_tun (\<lambda>u. u\<lparr>tt_macBuf := go_copy (tt_macBuf u) 0 (take 6 data)\<rparr>) a;
             dstMac = Uint64_le (tt_macBuf (tun a1))
         in go_map fst (PostTunTapData t conn dstMac data a1)))"

text \<open>The reading goroutine, driven by what \<open>Read\<close> returns. On a failed read the card is closed and
  created again; if that fails the goroutine ends. Its deferred function closes the device.\<close>

datatype tap_read = TapRead tap_env "(int \<times> connect_result \<times> bytes) option"

definition readTap_exit :: "app \<Rightarrow> app" where
  "readTap_exit a = set_tun_state TunTapStop
     (case tt_tapper (tun a) of None \<Rightarrow> a | Some d \<Rightarrow> emit (EvTapClose d) a)"

fun readTap_loop :: "tap_read list \<Rightarrow> app \<Rightarrow> app go" where
  "readTap_loop rs a =
     (if tt_state (tun a) \<noteq> TunTapRunning then Done (readTap_exit a)
      else case rs of
        [] \<Rightarrow> Done a
      | TapRead env res # rest \<Rightarrow>
          (case res of
             Some (t, conn, d # ds) \<Rightarrow> go_bind (tapData2Net t conn (d # ds) a) (readTap_loop rest)
           | _ \<Rightarrow>
             (let a1 = fst (tun_Stop env a); (a2, err) = createTap env a1 in
              if err = None then readTap_loop rest (set_tun_state TunTapRunning a2)
              else Done (readTap_exit a2))))"

definition readTap :: "tap_read list \<Rightarrow> app \<Rightarrow> app go" where
  "readTap rs a = readTap_loop rs (set_tun_state TunTapRunning a)"

declare readTap_loop.simps [simp del]

section \<open>From the network\<close>

datatype conn_kind = ServerConn | PunchConn addr

record msg_env =
  me_time :: int
  me_conn :: connect_result
  me_tap :: tap_env
  me_cookie :: u32
  me_arp :: "string list"
  me_net :: net_env

definition handler_processMsg :: "msg_env \<Rightarrow> MsgServerFrame \<Rightarrow> app \<Rightarrow> (app \<times> svc_error option) go" where
  "handler_processMsg e msg a =
     (case sf_MsgType msg of
        Msg_AuthAck \<Rightarrow> ProcessAuthResponse (me_tap e) (sf_MsgAuthAck msg) a
      | Msg_P2PTrigger \<Rightarrow> ProcessP2PTrigger (me_time e) (me_conn e) (sf_MsgP2PTrigger msg) a
      | Msg_P2PAck \<Rightarrow> ProcessP2PAck (me_conn e) (me_time e) (sf_MsgP2PAck msg) a
      | Msg_StateChanged \<Rightarrow> ProcessPeerStateChanged (sf_MsgState msg) a
      | Msg_Pong \<Rightarrow> Done (ProcessPong (sf_MsgPong msg) a)
      | Msg_GroupPeersResponse \<Rightarrow> ProcessGroupPeersResponse (sf_MsgGroupPeerAck msg) a
      | Msg_PeerLinksRequest \<Rightarrow> ProcessPeerLinksRequest (me_cookie e) (me_arp e) (sf_MsgLinks msg) a
      | Msg_PeerLinksResponse \<Rightarrow> Done (ProcessPeerLinksResponse (sf_MsgLinksAck msg) a)
      | Msg_Config \<Rightarrow> ProcessConfig (sf_MsgConfig msg) a
      | Msg_ConfigAck \<Rightarrow> Done (ProcessConfigAck (sf_MsgConfigAck msg) a)
      | _ \<Rightarrow> Done (a, None))"

definition handler_touch :: "int \<Rightarrow> conn_kind \<Rightarrow> handler_ref \<Rightarrow> app \<Rightarrow> app" where
  "handler_touch t kind h a =
     (case kind of
        ServerConn \<Rightarrow> upd_server (\<lambda>s. s\<lparr>ss_LastReceive := unix t, ss_Handler := Some h\<rparr>) a
      | PunchConn x \<Rightarrow> set_punch_ctx x (\<lambda>p. p\<lparr>pk_LastReceive := unix t, pk_Handler := Some h\<rparr>) a)"

definition msg_HandleRead :: "msg_env \<Rightarrow> conn_kind \<Rightarrow> handler_ref \<Rightarrow> frame option \<Rightarrow> app \<Rightarrow> app go" where
  "msg_HandleRead e kind h msg a =
     (case msg of None \<Rightarrow> Done a | Some m \<Rightarrow>
       (let a1 = handler_touch (me_time e) kind h a in
        case m of
          DataFrame d \<Rightarrow> Done (fst (WriteData2TunTap (df_Data d) a1))
        | ServerFrame f \<Rightarrow> go_map fst (handler_processMsg e f a1)
        | PeerFrame _ \<Rightarrow> Done a1))"

text \<open>Exceptions and closed channels: the default handlers close the channel \<open>ch\<close>.\<close>

definition msg_HandleException :: "conn_kind \<Rightarrow> nat \<Rightarrow> app \<Rightarrow> app" where
  "msg_HandleException kind ch a =
     (let a1 = emit (EvCloseChannel ch) a in
      case kind of ServerConn \<Rightarrow> upd_server (\<lambda>s. s\<lparr>ss_Connected := False\<rparr>) a1 | PunchConn _ \<Rightarrow> a1)"

datatype idle_event = ReadIdle | WriteIdle | OtherEvent

definition msg_HandleEvent :: "net_env \<Rightarrow> idle_event \<Rightarrow> app \<Rightarrow> app go" where
  "msg_HandleEvent env ev a =
     (case ev of
        ReadIdle \<Rightarrow> (if rt_peerState (runtime a) = StateOk then go_map fst (SendPing env a) else Done a)
      | _ \<Rightarrow> Done a)"

text \<open>The handler of a direct connection to the peer whose context is \<open>x\<close>.\<close>

definition data_processMsg :: "MsgDataFrame \<Rightarrow> handler_ref \<Rightarrow> addr \<Rightarrow> app \<Rightarrow> app go" where
  "data_processMsg msg h x a =
     (case df_MsgType msg of
        Msg_Packet \<Rightarrow> Done (fst (WriteData2TunTap (df_Data msg) a))
      | Msg_P2PTry \<Rightarrow> go_map fst (P2PSuccess (df_SrcMac msg) (Some x) a)
      | Msg_Ping \<Rightarrow> Done (emit (EvWrite h (DataFrame (data_frame Msg_Pong (hwMac a) (df_SrcMac msg)))) a)
      | _ \<Rightarrow> Done a)"

definition data_HandleRead :: "int \<Rightarrow> addr \<Rightarrow> handler_ref \<Rightarrow> frame option \<Rightarrow> app \<Rightarrow> app go" where
  "data_HandleRead t x h msg a =
     (case msg of None \<Rightarrow> Done a | Some m \<Rightarrow>
       (let a1 = set_peer_ctx x (\<lambda>p. p\<lparr>ps_Handler := Some h\<rparr>) a in
        case m of
          DataFrame d \<Rightarrow>
            data_processMsg d h x (set_peer_ctx x (\<lambda>p. p\<lparr>ps_LastReceive := unix t, ps_PingTryCount := 0\<rparr>) a1)
        | _ \<Rightarrow> Done a1))"

definition data_HandleEvent :: "addr \<Rightarrow> idle_event \<Rightarrow> app \<Rightarrow> app" where
  "data_HandleEvent x ev a =
     (case ev of
        ReadIdle \<Rightarrow>
          (case ps_Handler (peerHeap a x) of
             None \<Rightarrow> a
           | Some h \<Rightarrow>
               (let a1 = set_peer_ctx x (\<lambda>p. p\<lparr>ps_PingTryCount := ps_PingTryCount p + 1\<rparr>) a in
                emit (EvWrite h (DataFrame (data_frame Msg_Ping (hwMac a1) (ps_PeerMac (peerHeap a1 x))))) a1))
      | _ \<Rightarrow> a)"

text \<open>A message inside the channel's read loop: a panic ends the loop, and \<open>postCloseEvent\<close> hands the
  exception to the pipeline, unless the channel was closed before. The state of a handler that
  panicked is that of its last update; the model keeps the one before the message.\<close>

definition deliver_server :: "msg_env \<Rightarrow> handler_ref \<Rightarrow> frame option \<Rightarrow> app \<Rightarrow> app" where
  "deliver_server e h msg a =
     (case msg_HandleRead e ServerConn h msg a of
        Done b \<Rightarrow> b
      | Panicked _ \<Rightarrow> msg_HandleException ServerConn h (handler_touch (me_time e) ServerConn h a))"

end
