(* ===== verification/Runtime_Properties.thy ===== *)
theory Runtime_Properties
  imports Data_Path
begin

text \<open>
  What the runtime service and the data path guarantee: every frame of the card leaves exactly once,
  messages of the server never crash an initialised peer (one exception apart, recorded here),
  registration installs the assigned addresses, a lost server is reconnected, lists sent in
  packets arrive whole.
\<close>

section \<open>Frames leave the peer exactly once\<close>

text \<open>The payload frames among the events, with the handler they were written to.\<close>

fun packet_writes :: "event list \<Rightarrow> (handler_ref \<times> MsgDataFrame) list" where
  "packet_writes [] = []"
| "packet_writes (EvWrite h (DataFrame d) # tr) =
     (if df_MsgType d = Msg_Packet then (h, d) # packet_writes tr else packet_writes tr)"
| "packet_writes (e # tr) = packet_writes tr"

lemma packet_writes_append [simp]: "packet_writes (xs @ ys) = packet_writes xs @ packet_writes ys"
  by (induction xs rule: packet_writes.induct) simp_all

text \<open>Punching changes neither the runtime state nor the payload traffic.\<close>

definition quiet :: "app \<Rightarrow> app \<Rightarrow> bool" where
  "quiet a b \<longleftrightarrow> runtime b = runtime a \<and> packet_writes (trace b) = packet_writes (trace a) \<and> tun b = tun a \<and>
     config b = config a \<and> serial_started b = serial_started a"

lemma quiet_refl [simp]: "quiet a a"
  by (simp add: quiet_def)

lemma quiet_trans: "quiet a b \<Longrightarrow> quiet b c \<Longrightarrow> quiet a c"
  by (simp add: quiet_def)

lemma quiet_saveFail: "saveFailPunchInfo t mac a = Done b \<Longrightarrow> quiet a b"
  by (auto simp: saveFailPunchInfo_def Let_def go_bind_Done_iff stop_bootstrap_def quiet_def split: option.splits)

lemma quiet_SendP2PTrigger: "SendP2PTrigger t mac a = Done (b, e) \<Longrightarrow> quiet a b"
  by (auto simp: SendP2PTrigger_def Let_def go_bind_Done_iff stop_bootstrap_def write_handler_def quiet_def
      split: option.splits if_splits)

lemma quiet_punch_HandleActive: "punch_HandleActive t x h a = Done b \<Longrightarrow> quiet a b"
  using quiet_SendP2PTrigger
  by (fastforce simp: punch_HandleActive_def Let_def go_map_Done_iff quiet_def)

lemma quiet_newPunchSock:
  assumes "newPunchSock t conn mac a = Done (b, r)"
  shows "quiet a b"
proof (cases conn)
  case ConnErr
  with assms show ?thesis
    by (auto simp: newPunchSock_def Let_def go_map_Done_iff dest!: quiet_saveFail)
      (simp add: quiet_def alloc_punch_def)
next
  case (ConnOk la)
  with assms show ?thesis
    by (cases "ExtractAddrFromStr IsLittleEndian la")
      (auto simp: newPunchSock_def Let_def case_prod_beta go_bind_Done_iff dest!: quiet_punch_HandleActive,
        simp_all add: quiet_def alloc_punch_def fresh_handler_def)
qed

lemma quiet_StartPunch: "StartPunch t conn mac trg a = Done (b, e) \<Longrightarrow> quiet a b"
  using quiet_SendP2PTrigger [of t mac a b e]
  by (auto simp: StartPunch_def Let_def go_bind_Done_iff go_map_Done_iff stop_bootstrap_def
      split: option.splits if_splits dest!: quiet_newPunchSock)
    (auto simp: quiet_def)

text \<open>Which handler a frame for \<open>mac\<close> goes to: the established peer, else the server.\<close>

definition route_of :: "u64 \<Rightarrow> handler_ref \<Rightarrow> app \<Rightarrow> handler_ref \<times> bool" where
  "route_of mac srv a =
     (if pp_running (p2p a) \<and> IsUniCast mac then
        (case sm_load (pp_p2pSocks (p2p a)) mac of
           Some x \<Rightarrow> (case ps_Handler (peerHeap a x) of Some h \<Rightarrow> (h, True) | None \<Rightarrow> (srv, False))
         | None \<Rightarrow> (srv, False))
      else (srv, False))"

lemma TryForwardMessage_route:
  assumes "p2p_inv a" "df_MsgType m = Msg_Packet"
  shows "\<exists>b. TryForwardMessage t conn mac (Some m) a = Done (b, snd (route_of mac srv a)) \<and> runtime b = runtime a \<and>
    packet_writes (trace b) = packet_writes (trace a) @
      (if snd (route_of mac srv a) then [(fst (route_of mac srv a), m)] else [])"
proof -
  obtain b e where p: "StartPunch t conn mac False a = Done (b, e)"
    using StartPunch_ok [OF assms(1), of t conn mac False] by (cases "StartPunch t conn mac False a") (auto simp: step_ok_def)
  then have "quiet a b" by (rule quiet_StartPunch)
  with p assms(2) show ?thesis
    by (auto simp: TryForwardMessage_def route_of_def quiet_def split: option.split)
qed

lemma PostTunTapData_route:
  assumes "p2p_inv a" "rt_peerState (runtime a) = StateOk" "rt_running (runtime a)"
    and s: "rt_serverSock (runtime a) = Some s" "ss_Handler s = Some h"
  shows "\<exists>b fr. PostTunTapData t conn mac data a = Done (b, None) \<and>
    packet_writes (trace b) = packet_writes (trace a) @ [(fst (route_of mac h a), fr)] \<and>
    df_Data fr = data \<and> df_DstMac fr = mac \<and> df_SrcMac fr = tc_HwMac (rtTap a) \<and>
    runtime b = runtime a"
proof -
  obtain b where b: "TryForwardMessage t conn mac (Some (packet_frame mac data a)) a = Done (b, snd (route_of mac h a))"
    "runtime b = runtime a" "packet_writes (trace b) = packet_writes (trace a) @
      (if snd (route_of mac h a) then [(fst (route_of mac h a), packet_frame mac data a)] else [])"
    using TryForwardMessage_route [OF assms(1), of "packet_frame mac data a" t conn mac h]
    by (auto simp: packet_frame_def)
  show ?thesis
  proof (cases "snd (route_of mac h a)")
    case True
    with b assms(2) show ?thesis by (auto simp: PostTunTapData_def Let_def packet_frame_def)
  next
    case False
    then have "fst (route_of mac h a) = h" by (auto simp: route_of_def split: if_splits option.splits)
    with False b assms show ?thesis
      by (auto simp: PostTunTapData_def Let_def packet_frame_def with_server_def forwardMessage_def)
  qed
qed

lemma Uint64_macBuf:
  assumes "length buf = 8" "drop 6 buf = [0, 0]" "6 \<le> length data"
  shows "go_copy buf 0 (take 6 data) = take 6 data @ [0, 0]"
  using assms by (simp add: go_copy_def)

text \<open>(C3) Every Ethernet frame read from the virtual card leaves the registered peer exactly once: it is
  written to the established direct connection of its destination, or else to the server, with the
  destination address taken from its first six bytes, the peer's own source address, and the data
  unchanged; a frame shorter than an Ethernet header is dropped.\<close>

theorem tap_frame_sent_once:
  fixes data :: bytes
  assumes "p2p_inv a" "rt_peerState (runtime a) = StateOk" "rt_running (runtime a)"
    and "rt_serverSock (runtime a) = Some s" "ss_Handler s = Some h"
    and "length (tt_macBuf (tun a)) = 8" "drop 6 (tt_macBuf (tun a)) = [0, 0]"
  defines "dst \<equiv> Uint64_le (take 6 data @ [0, 0])"
  shows "\<exists>b. tapData2Net t conn data a = Done b \<and>
    (if length data < 14 then b = a
     else \<exists>fr. packet_writes (trace b) = packet_writes (trace a) @ [(fst (route_of dst h a), fr)] \<and>
       df_Data fr = data \<and> df_DstMac fr = dst \<and> df_SrcMac fr = tc_HwMac (rtTap a))"
proof (cases "length data < 14")
  case False
  define a1 where "a1 = upd_tun (\<lambda>u. u\<lparr>tt_macBuf := go_copy (tt_macBuf u) 0 (take 6 data)\<rparr>) a"
  have inv: "p2p_inv a1" using assms(1) p2p_inv_mono [of a a1] by (simp add: a1_def ctx_le_def)
  have buf: "tt_macBuf (tun a1) = take 6 data @ [0, 0]"
    using Uint64_macBuf [OF assms(6,7)] False by (simp add: a1_def)
  have same: "runtime a1 = runtime a" "trace a1 = trace a" "route_of dst h a1 = route_of dst h a"
    by (simp_all add: a1_def route_of_def split: option.split)
  from PostTunTapData_route [of a1 s h t conn dst data] inv assms(2-5) same False buf show ?thesis
    by (auto simp: tapData2Net_def SizeEthFrame_def a1_def [symmetric] Let_def dst_def)
qed (simp add: tapData2Net_def SizeEthFrame_def)

text \<open>A registered peer connected to the server, for the examples.\<close>

definition sample_registered :: app where
  "sample_registered = (let a = rt_Init (p2p_Start (new_app sample_config)) in
     SetPeerState StateOk (upd_server (\<lambda>s. s\<lparr>ss_Handler := Some 5, ss_Connected := True, ss_Token := 42\<rparr>)
       (upd_rt (\<lambda>r. r\<lparr>rt_running := True, rt_cancel := Some False\<rparr>) a)))"

lemma p2p_inv_cong:
  assumes "p2p_inv a" "p2p b = p2p a" "next_addr b = next_addr a" "peerHeap b = peerHeap a" "punchHeap b = punchHeap a"
  shows "p2p_inv b"
  using p2p_inv_mono [OF assms(1) _ assms(2)] assms(3-5) by (simp add: ctx_le_def)

lemma sample_registered_inv: "p2p_inv sample_registered"
  by (rule p2p_inv_cong [OF started_inv [of sample_config]])
    (simp_all add: sample_registered_def Let_def rt_Init_def upd_server_def)

lemma sample_registered_simps:
  "rt_peerState (runtime sample_registered) = StateOk" "rt_running (runtime sample_registered)"
  "\<exists>s. rt_serverSock (runtime sample_registered) = Some s \<and> ss_Handler s = Some 5 \<and> ss_Connected s"
  "rt_groupPeers (runtime sample_registered) = Some []"
  "tun sample_registered = NewTunTapService" "serial_started sample_registered = False"
  by (simp_all add: sample_registered_def Let_def rt_Init_def upd_server_def p2p_Start_def new_app_def
      SetPeerState_def NewRuntimeService_def NewP2pService_def sm_empty_def)

theorem tap_frame_sent_once_witness:
  "\<exists>b fr. tapData2Net 0 ConnErr (replicate 20 1) sample_registered = Done b \<and>
     packet_writes (trace b) = packet_writes (trace sample_registered) @
       [(fst (route_of (Uint64_le (take 6 (replicate 20 1) @ [0, 0])) 5 sample_registered), fr)] \<and>
     df_Data fr = replicate 20 1"
proof -
  obtain s where s: "rt_serverSock (runtime sample_registered) = Some s" "ss_Handler s = Some 5"
    using sample_registered_simps(3) by blast
  have buf: "length (tt_macBuf (tun sample_registered)) = 8" "drop 6 (tt_macBuf (tun sample_registered)) = [0, 0]"
    by (simp_all add: sample_registered_simps NewTunTapService_def numeral_2_eq_2)
  show ?thesis
    using tap_frame_sent_once [OF sample_registered_inv sample_registered_simps(1,2) s buf,
        of 0 ConnErr "replicate 20 1"]
    by auto
qed

section \<open>Messages of the server do not crash the peer\<close>

text \<open>What \<open>Init\<close> establishes and every operation keeps.\<close>

definition rt_inv :: "app \<Rightarrow> bool" where
  "rt_inv a \<longleftrightarrow> p2p_inv a \<and> rt_serverSock (runtime a) \<noteq> None \<and> rt_groupPeers (runtime a) \<noteq> None"

lemma p2p_inv_frame [simp]:
  "p2p_inv (upd_rt f a) = p2p_inv a" "p2p_inv (upd_tun g a) = p2p_inv a"
  "p2p_inv (a\<lparr>config := c\<rparr>) = p2p_inv a" "p2p_inv (upd_server h a) = p2p_inv a"
  "p2p_inv (SetPeerState st a) = p2p_inv a" "p2p_inv (forwardMessage m fr a) = p2p_inv a"
  by (rule iffI; rule p2p_inv_cong [rotated]; simp add: upd_server_def)+

lemma upd_server_simps [simp]:
  "rt_serverSock (runtime (upd_server f a)) = map_option f (rt_serverSock (runtime a))"
  "rt_groupPeers (runtime (upd_server f a)) = rt_groupPeers (runtime a)"
  "rt_peerState (runtime (upd_server f a)) = rt_peerState (runtime a)"
  "rt_running (runtime (upd_server f a)) = rt_running (runtime a)"
  "rt_LocalIp (runtime (upd_server f a)) = rt_LocalIp (runtime a)"
  "rt_appConfig (runtime (upd_server f a)) = rt_appConfig (runtime a)"
  "rt_linkInfos (runtime (upd_server f a)) = rt_linkInfos (runtime a)"
  "rt_serverChannel (runtime (upd_server f a)) = rt_serverChannel (runtime a)"
  "config (upd_server f a) = config a" "p2p (upd_server f a) = p2p a" "tun (upd_server f a) = tun a"
  "trace (upd_server f a) = trace a" "serial_started (upd_server f a) = serial_started a"
  "peerHeap (upd_server f a) = peerHeap a" "punchHeap (upd_server f a) = punchHeap a"
  "next_addr (upd_server f a) = next_addr a" "next_ref (upd_server f a) = next_ref a"
  by (simp_all add: upd_server_def)

lemma rt_Init_inv: "p2p_inv a \<Longrightarrow> rt_inv (rt_Init a)"
  by (simp add: rt_inv_def rt_Init_def)

lemma rt_inv_simps [simp]:
  "rt_inv (emit e a) = rt_inv a" "rt_inv (SetPeerState st a) = rt_inv a"
  "rt_inv (forwardMessage h m a) = rt_inv a" "rt_inv (upd_server f a) = rt_inv a"
  "rt_inv (a\<lparr>config := c\<rparr>) = rt_inv a" "rt_inv (upd_tun g a) = rt_inv a"
  by (simp_all add: rt_inv_def)

lemma rt_inv_upd_rt [simp]:
  "rt_inv a \<Longrightarrow> rt_serverSock (f (runtime a)) = rt_serverSock (runtime a) \<Longrightarrow>
    rt_groupPeers (f (runtime a)) = rt_groupPeers (runtime a) \<Longrightarrow> rt_inv (upd_rt f a)"
  by (simp add: rt_inv_def)

lemma rt_inv_D:
  assumes "rt_inv a"
  obtains s m where "rt_serverSock (runtime a) = Some s" "rt_groupPeers (runtime a) = Some m" "p2p_inv a"
  using assms by (auto simp: rt_inv_def)

lemma rt_inv_step_ok:
  assumes "step_ok a m" "rt_inv a" "\<And>b. m = Done b \<Longrightarrow> runtime b = runtime a"
  shows "\<exists>b. m = Done b \<and> rt_inv b"
  using assms by (auto simp: step_ok_def rt_inv_def)

lemma tun_Start_inv [simp]: "rt_inv a \<Longrightarrow> rt_inv (fst (tun_Start env a))"
  using p2p_inv_cong [of a "fst (tun_Start env a)"] by (simp add: rt_inv_def)

lemma WriteData2TunTap_inv [simp]: "rt_inv a \<Longrightarrow> rt_inv (fst (WriteData2TunTap d a))"
  using p2p_inv_cong [of a "fst (WriteData2TunTap d a)"] by (simp add: rt_inv_def)

lemma SendGroupPeersRequest_inv:
  assumes "rt_inv a"
  shows "\<exists>b e. SendGroupPeersRequest g a = Done (b, e) \<and> rt_inv b"
  using assms
  by (auto simp: SendGroupPeersRequest_def send_guard_def with_server_def Let_def rt_inv_def
      split: option.split)

text \<open>The punching service leaves the runtime state alone.\<close>

lemma stop_peer_bootstrap_runtime: "go_fold stop_peer_bootstrap es a = Done b \<Longrightarrow> runtime b = runtime a"
  by (rule go_fold_rel [where R = "\<lambda>a b. runtime b = runtime a"])
    (auto simp: stop_peer_bootstrap_def stop_bootstrap_def split: option.splits)

lemma ResetP2PSocks_runtime: "ResetP2PSocks a = Done b \<Longrightarrow> runtime b = runtime a"
  by (auto simp: ResetP2PSocks_def Let_def go_bind_Done_iff dest!: stop_peer_bootstrap_runtime)

lemma PeerStateChanged_frame:
  "PeerStateChanged mac a = Done b \<Longrightarrow> runtime b = runtime a \<and> serial_started b = serial_started a"
  by (auto simp: PeerStateChanged_def stop_loaded_def Let_def go_bind_Done_iff stop_bootstrap_def
      split: option.splits)

lemma ProcessP2PTrigger_runtime: "ProcessP2PTrigger t conn m a = Done (b, e) \<Longrightarrow> runtime b = runtime a"
  using quiet_StartPunch by (fastforce simp: ProcessP2PTrigger_def quiet_def split: option.splits if_splits)

lemma ProcessP2PAck_runtime: "ProcessP2PAck conn t m a = Done (b, e) \<Longrightarrow> runtime b = runtime a"
  by (auto simp: ProcessP2PAck_def Let_def case_prod_beta go_map_Done_iff alloc_peer_def fresh_handler_def
      data_HandleActive_def quiet_def dest!: quiet_saveFail
      split: option.splits if_splits connect_result.splits sum.splits)

lemma step_ok_pair:
  assumes "step_ok a (go_map fst m)" "rt_inv a" "\<And>b e. m = Done (b, e) \<Longrightarrow> runtime b = runtime a"
  shows "\<exists>b e. m = Done (b, e) \<and> rt_inv b"
proof -
  from assms(1) obtain p where p: "m = Done p" "p2p_inv (fst p)" by (auto simp: step_ok_def go_map_Done_iff)
  then have "runtime (fst p) = runtime a" using assms(3) [of "fst p" "snd p"] by simp
  with p assms(2) have "m = Done (fst p, snd p) \<and> rt_inv (fst p)" by (simp add: rt_inv_def)
  then show ?thesis by blast
qed

lemma rt_inv_set_both_tap [simp]: "rt_inv (set_both_tap f a) = rt_inv a"
  by (simp add: set_both_tap_def rt_inv_def)

lemma assign_addresses_inv:
  assumes "rt_inv a"
  shows "assign_addresses ack a = Inl (b, e) \<Longrightarrow> rt_inv b" "assign_addresses ack a = Inr (b, s) \<Longrightarrow> rt_inv b"
  using assms
  by (cases "aa_AssignMac ack"; cases "aa_AssignIp ack"; cases "aa_PeerAddr ack";
      auto simp: assign_addresses_def Let_def split: if_splits)+

lemma save_config_inv [simp]: "rt_inv (save_config a) = rt_inv a"
  by (simp add: save_config_def)

lemma after_registration_inv:
  assumes inv: "rt_inv a"
  shows "\<exists>b. after_registration env a = Done b \<and> rt_inv b"
proof -
  obtain a3 where a3: "ResetP2PSocks a = Done a3" "rt_inv a3"
    using rt_inv_step_ok [OF ResetP2PSocks_ok inv] inv ResetP2PSocks_runtime by (auto simp: rt_inv_def)
  have "rt_inv (start_card env a3)"
    using a3(2) tun_Start_inv [OF a3(2), of env] by (simp add: start_card_def case_prod_beta)
  from SendGroupPeersRequest_inv [OF this, of "pc_GroupName (rtPeer (start_card env a3))"] a3 show ?thesis
    by (auto simp: after_registration_def Let_def)
qed

lemma ProcessAuthResponse_inv:
  assumes inv: "rt_inv a"
  shows "\<exists>b e. ProcessAuthResponse env ack a = Done (b, e) \<and> rt_inv b"
proof (cases ack)
  case (Some k)
  define a0 where "a0 = (case aa_Sock k of None \<Rightarrow> a | Some s \<Rightarrow> upd_rt (\<lambda>r. r\<lparr>rt_externSock := Some s\<rparr>) a)"
  have i0: "rt_inv a0" using inv by (simp add: a0_def split: option.split)
  then obtain s0 where s0: "rt_serverSock (runtime a0) = Some s0" by (auto simp: rt_inv_def)
  define a1 where "a1 = upd_server (\<lambda>s. s\<lparr>ss_Token := aa_Token k\<rparr>) a0"
  have i1: "rt_inv a1" using i0 by (simp add: a1_def)
  note unf = ProcessAuthResponse_def Some option.case Let_def a0_def [symmetric] a1_def [symmetric] with_server_def s0
  show ?thesis
  proof (cases "aa_AuthRes k \<ge> 0")
    case True
    show ?thesis
    proof (cases "assign_addresses k a1")
      case (Inl p)
      then show ?thesis using assign_addresses_inv(1) [OF i1, of k "fst p" "snd p"] True
        unfolding unf by (simp add: case_prod_beta)
    next
      case (Inr p)
      then have "rt_inv (fst p)" using assign_addresses_inv(2) [OF i1, of k "fst p" "snd p"] by simp
      then have "rt_inv (SetPeerState StateOk (if snd p then save_config (fst p) else fst p))" by simp
      from after_registration_inv [OF this, of env] Inr True show ?thesis
        unfolding unf by (auto simp: case_prod_beta)
    qed
  qed (use i0 in \<open>simp add: unf\<close>)
qed (simp add: ProcessAuthResponse_def inv)

lemma record_state_inv:
  assumes "rt_inv a"
  shows "\<exists>b. record_state s a = Done b \<and> rt_inv b \<and> serial_started b = serial_started a"
  using assms by (auto simp: record_state_def rt_inv_def split: option.split)

lemma ProcessPeerStateChanged_inv:
  assumes inv: "rt_inv a" and ser: "serial_started a"
  shows "\<exists>b e. ProcessPeerStateChanged st a = Done (b, e) \<and> rt_inv b"
proof (cases st)
  case (Some s)
  obtain a1 where a1: "record_state s a = Done a1" "rt_inv a1" "serial_started a1"
    using record_state_inv [OF inv, of s] ser by auto
  have "p2p_inv (emit EvUpdatePeers a1)" using a1(2) by (simp add: rt_inv_def)
  then obtain b where b: "PeerStateChanged (ms_PeerMac s) (emit EvUpdatePeers a1) = Done b" "p2p_inv b"
    using PeerStateChanged_ok by (fastforce simp: step_ok_def)
  with PeerStateChanged_frame [OF b(1)] a1 Some show ?thesis
    by (simp add: ProcessPeerStateChanged_def serial_PeerStateChanged_def rt_inv_def)
qed (simp add: ProcessPeerStateChanged_def inv)

lemma ProcessGroupPeersResponse_inv:
  assumes inv: "rt_inv a"
  shows "\<exists>b e. ProcessGroupPeersResponse rs a = Done (b, e) \<and> rt_inv b"
proof (cases rs)
  case (Some r)
  have "rt_inv (fresh_group (ga_Cookie r) a)" using inv by (auto simp: fresh_group_def rt_inv_def)
  then have "\<exists>c. go_fold store_peer (ga_PeerInfo r) (fresh_group (ga_Cookie r) a) = Done c \<and> rt_inv c"
    by (rule go_fold_inv) (auto simp: rt_inv_def store_peer_def)
  with Some show ?thesis by (auto simp: ProcessGroupPeersResponse_def)
qed (simp add: ProcessGroupPeersResponse_def inv)

lemma ProcessPeerLinksRequest_inv:
  assumes inv: "rt_inv a"
  shows "\<exists>b e. ProcessPeerLinksRequest c tbl (Some rq) a = Done (b, e) \<and> rt_inv b"
proof -
  from inv obtain s where s: "rt_serverSock (runtime a) = Some s" by (auto simp: rt_inv_def)
  have "\<exists>d. go_fold (send_links h tok c (Some rq)) pkts a = Done d \<and> rt_inv d" for h tok pkts
    by (rule go_fold_inv) (simp_all add: inv send_links_def Let_def)
  then show ?thesis
    using inv by (auto simp: ProcessPeerLinksRequest_def with_server_def s Let_def go_map_Done_iff split: option.split)
qed


lemma sample_registered_rt_inv: "rt_inv sample_registered"
  using sample_registered_inv sample_registered_simps(3,4) by (auto simp: rt_inv_def)

lemma rt_inv_serial [simp]: "rt_inv (a\<lparr>serial_started := v\<rparr>) = rt_inv a"
proof -
  have "p2p_inv (a\<lparr>serial_started := v\<rparr>) = p2p_inv a"
    by (rule iffI; rule p2p_inv_cong [rotated]) simp_all
  then show ?thesis by (simp add: rt_inv_def)
qed

definition sample_env :: msg_env where
  "sample_env = \<lparr>me_time = 0, me_conn = ConnErr, me_tap = sample_tap, me_cookie = 1, me_arp = [],
     me_net = \<lparr>ne_ping = True, ne_conn = ConnOk ''10.0.0.2:4000'', ne_chanAddr = ''10.0.0.2:4000'',
       ne_localIP = (\<lambda>_. None), ne_ifaces = None, ne_wifi = (\<lambda>_. 101), ne_aes = (\<lambda>_ _. None), ne_os = ''linux''\<rparr>\<rparr>"


text \<open>When the port service is not running - the default, as visiting ports is not allowed by default -
  a state change of any peer of the group tears down the connection to the server: the handler
  panics after it has recorded the change, the read loop reports the exception, and the channel is
  closed and marked disconnected.\<close>

lemma state_change_without_port_service:
  assumes "rt_inv a" "\<not> serial_started a" "sf_MsgType f = Msg_StateChanged" "sf_MsgState f = Some st"
  shows "msg_HandleRead e ServerConn h (Some (ServerFrame f)) a = Panicked NilDeref \<and>
    EvCloseChannel h \<in> set (trace (deliver_server e h (Some (ServerFrame f)) a)) \<and>
    (\<exists>s. rt_serverSock (runtime (deliver_server e h (Some (ServerFrame f)) a)) = Some s \<and> \<not> ss_Connected s)"
proof -
  define a1 where "a1 = handler_touch (me_time e) ServerConn h a"
  have a1: "rt_inv a1" "\<not> serial_started a1"
    using assms(1,2) by (simp_all add: a1_def handler_touch_def rt_inv_def)
  obtain a2 where a2: "record_state st a1 = Done a2" "rt_inv a2" "\<not> serial_started a2"
    using record_state_inv [OF a1(1), of st] a1(2) by auto
  have "p2p_inv (emit EvUpdatePeers a2)" using a2(2) by (simp add: rt_inv_def)
  then obtain b where b: "PeerStateChanged (ms_PeerMac st) (emit EvUpdatePeers a2) = Done b"
    using PeerStateChanged_ok by (fastforce simp: step_ok_def)
  have p: "msg_HandleRead e ServerConn h (Some (ServerFrame f)) a = Panicked NilDeref"
    using b PeerStateChanged_frame [OF b] a2 assms(3,4)
    by (simp add: msg_HandleRead_def Let_def a1_def [symmetric] handler_processMsg_def
        ProcessPeerStateChanged_def serial_PeerStateChanged_def)
  from a1 show ?thesis
    by (auto simp: p deliver_server_def a1_def [symmetric] msg_HandleException_def rt_inv_def)
qed

section \<open>Registration\<close>

lemma ResetP2PSocks_effect:
  assumes "ResetP2PSocks a = Done b"
  shows "runtime b = runtime a" "config b = config a" "tun b = tun a" "set (trace a) \<subseteq> set (trace b)"
    "pp_p2pSocks (p2p b) = []" "pp_p2pTrySocks (p2p b) = []" "pp_punchSocks (p2p b) = []"
    "pp_hisP2PFailInfo (p2p b) = []"
proof -
  define R where "R = (\<lambda>(c :: app) (d :: app). p2p d = p2p c \<and> runtime d = runtime c \<and> config d = config c \<and> tun d = tun c \<and>
    set (trace c) \<subseteq> set (trace d))"
  have keep: "R c d" if "go_fold stop_peer_bootstrap es c = Done d" for es c d
    by (rule go_fold_rel [OF _ _ _ that])
      (auto simp: R_def stop_peer_bootstrap_def stop_bootstrap_def split: option.splits)
  define a1 where "a1 = upd_failInfo (\<lambda>m. []) (upd_punchSocks (\<lambda>m. []) a)"
  from assms obtain c d where "go_fold stop_peer_bootstrap (pp_p2pTrySocks (p2p a1)) a1 = Done c"
    "go_fold stop_peer_bootstrap (pp_p2pSocks (p2p c)) (upd_trySocks (\<lambda>m. []) c) = Done d"
    and b: "b = upd_p2pSocks (\<lambda>m. []) d"
    by (auto simp: ResetP2PSocks_def Let_def go_bind_Done_iff a1_def)
  from this(1,2) [THEN keep] b
  show "runtime b = runtime a" "config b = config a" "tun b = tun a" "set (trace a) \<subseteq> set (trace b)"
    "pp_p2pSocks (p2p b) = []" "pp_p2pTrySocks (p2p b) = []" "pp_punchSocks (p2p b) = []"
    "pp_hisP2PFailInfo (p2p b) = []"
    by (auto simp: R_def a1_def)
qed



section \<open>Reconnection\<close>

lemma updateLocalIp_frame [simp]:
  "rt_serverSock (runtime (updateLocalIp env ip a)) = rt_serverSock (runtime a)"
  "rt_peerState (runtime (updateLocalIp env ip a)) = rt_peerState (runtime a)"
  "rt_running (runtime (updateLocalIp env ip a)) = rt_running (runtime a)"
  "rt_serverChannel (runtime (updateLocalIp env ip a)) = rt_serverChannel (runtime a)"
  "rt_appConfig (runtime (updateLocalIp env ip a)) = rt_appConfig (runtime a)"
  "trace (updateLocalIp env ip a) = trace a"
  by (auto simp: updateLocalIp_def Let_def split: option.split sum.split)

lemma updateLinkInfo_frame [simp]:
  "rt_serverSock (runtime (updateLinkInfo env ip a)) = rt_serverSock (runtime a)"
  "rt_peerState (runtime (updateLinkInfo env ip a)) = rt_peerState (runtime a)"
  "rt_running (runtime (updateLinkInfo env ip a)) = rt_running (runtime a)"
  "rt_serverChannel (runtime (updateLinkInfo env ip a)) = rt_serverChannel (runtime a)"
  "rt_appConfig (runtime (updateLinkInfo env ip a)) = rt_appConfig (runtime a)"
  "trace (updateLinkInfo env ip a) = trace a"
  by (simp_all add: updateLinkInfo_def Let_def)

lemma SendAuthRequest_connected:
  assumes "rt_serverSock (runtime a) = Some s" "ss_Handler s = Some h" "StateConnOk \<le> rt_peerState (runtime a)"
    "rt_running (runtime a)"
  shows "\<exists>b m. SendAuthRequest env a = Done (b, None) \<and> rt_peerState (runtime b) = StateUnAck \<and>
    rt_serverSock (runtime b) = rt_serverSock (runtime a) \<and> rt_running (runtime b) \<and>
    (\<exists>u. trace b = trace a @ EvWrite h (PeerFrame ((peer_frame Msg_Auth (tc_HwMac (rtTap a)) 0)\<lparr>pf_MsgAuth := Some m\<rparr>)) # u) \<and>
    au_Group m = pc_GroupName (rtPeer a) \<and> au_PeerName m = pc_Name (rtPeer a)"
proof -
  define a1 where "a1 = (if rt_LocalIp (runtime a) = None
     then (let ip = hd (go_split CHR '':'' (ne_chanAddr env)) in updateLinkInfo env ip (updateLocalIp env ip a)) else a)"
  have fr: "rt_serverSock (runtime a1) = rt_serverSock (runtime a)" "rt_running (runtime a1)"
    "rt_appConfig (runtime a1) = rt_appConfig (runtime a)" "trace a1 = trace a"
    using assms(4) by (simp_all add: a1_def Let_def)
  have "SendAuthRequest env a = Done (SetPeerState StateUnAck (forwardMessage (Some h) (PeerFrame
      ((peer_frame Msg_Auth (tc_HwMac (rtTap a1)) 0)\<lparr>pf_MsgAuth := Some (auth_message env a1)\<rparr>)) a1), None)"
    using assms by (cases "rt_LocalIp (runtime a)")
      (simp_all add: SendAuthRequest_def send_guard_def with_server_def not_less [symmetric] Let_def a1_def)
  then show ?thesis
    using fr by (auto simp: forwardMessage_def SetPeerState_def auth_message_def Let_def)
qed

text \<open>(C26) A lost server is reconnected: at a tick where the server socket is disconnected or has been silent
  for the offline time, and the server answers again, the old socket is stopped, a new one is
  connected to the configured server address, and the peer asks to be registered on it.\<close>

theorem tick_reconnects:
  assumes "rt_serverSock (runtime a) = Some s" "rt_running (runtime a)" "\<not> server_IsConnected t netOk s"
    and "ne_ping env" "ne_conn env = ConnOk la"
  shows "\<exists>b s' h m. rt_tick t netOk env a = Done b \<and> rt_peerState (runtime b) = StateUnAck \<and>
    rt_serverSock (runtime b) = Some s' \<and> ss_Connected s' \<and> ss_Handler s' = Some h \<and> ss_LastReceive s' = unix t \<and>
    rt_serverChannel (runtime b) = Some h \<and>
    EvConnect (the (ss_Bootstrap s')) (''//'' @ ac_ServerIp (rt_appConfig (runtime a)) @ '':'' @
      int_str (ac_ServerPort (rt_appConfig (runtime a)))) ''0.0.0.0:0'' \<in> set (trace b) \<and>
    EvWrite h (PeerFrame ((peer_frame Msg_Auth (tc_HwMac (rtTap a)) 0)\<lparr>pf_MsgAuth := Some m\<rparr>)) \<in> set (trace b) \<and>
    (\<forall>r. ss_Bootstrap s = Some r \<longrightarrow> EvStop r \<in> set (trace b))"
proof -
  define a1 where "a1 = close_channel (stopAllSockets (emit (EvUpdateStats (rt_stats (runtime a))) a))"
  have a1: "rt_serverSock (runtime a1) = Some (s\<lparr>ss_Connected := False\<rparr>)" "rt_running (runtime a1)"
    "rt_appConfig (runtime a1) = rt_appConfig (runtime a)"
    "\<forall>r. ss_Bootstrap s = Some r \<longrightarrow> EvStop r \<in> set (trace a1)"
    using assms(1,2)
    by (auto simp: a1_def close_channel_def stopAllSockets_def Let_def SetPeerState_def split: option.split)
  define ref where "ref = next_ref a1"
  define url where "url = ''//'' @ ac_ServerIp (rt_appConfig (runtime a)) @ '':'' @
      int_str (ac_ServerPort (rt_appConfig (runtime a)))"
  define a3 where "a3 = emit (EvConnect ref url ''0.0.0.0:0'') ((upd_server (\<lambda>s. s\<lparr>ss_Bootstrap := Some ref\<rparr>) a1)\<lparr>next_ref := ref + 1\<rparr>)"
  define h where "h = next_ref a3"
  define a4 where "a4 = SetPeerState StateUnAck (upd_server (\<lambda>s. s\<lparr>ss_Handler := Some h, ss_Connected := True,
      ss_LastReceive := unix t\<rparr>) (a3\<lparr>next_ref := h + 1\<rparr>))"
  have a4: "rt_serverSock (runtime a4) = Some (s\<lparr>ss_Connected := True, ss_Bootstrap := Some ref, ss_Handler := Some h,
        ss_LastReceive := unix t\<rparr>)" "rt_running (runtime a4)" "rt_peerState (runtime a4) = StateUnAck"
    "rt_appConfig (runtime a4) = rt_appConfig (runtime a)" "set (trace a3) \<subseteq> set (trace a4)"
    using a1 by (auto simp: a4_def a3_def SetPeerState_def)
  have "StateConnOk \<le> rt_peerState (runtime a4)" by (simp add: a4(3) less_eq_PeerState_def)
  from SendAuthRequest_connected [OF a4(1) _ this a4(2), of h env] obtain a5 m u where
    a5: "SendAuthRequest env a4 = Done (a5, None)" "rt_peerState (runtime a5) = StateUnAck"
      "rt_serverSock (runtime a5) = rt_serverSock (runtime a4)" "rt_running (runtime a5)"
      "trace a5 = trace a4 @ EvWrite h (PeerFrame ((peer_frame Msg_Auth (tc_HwMac (rtTap a)) 0)\<lparr>pf_MsgAuth := Some m\<rparr>)) # u"
    using a4(4) by auto
  define a6 where "a6 = upd_server (\<lambda>s. s\<lparr>ss_Connected := True\<rparr>)
      (SetPeerState StateUnAck (upd_rt (\<lambda>r. r\<lparr>rt_serverChannel := Some h\<rparr>) a5))"
  define b where "b = updateLinkInfo env (hd (go_split CHR '':'' la)) (updateLocalIp env (hd (go_split CHR '':'' la)) a6)"
  have act: "server_HandleActive t env h (a3\<lparr>next_ref := h + 1\<rparr>) = Done a5"
  proof -
    have "rt_serverSock (runtime (a3\<lparr>next_ref := h + 1\<rparr>)) \<noteq> None" using a1(1) by (simp add: a3_def)
    then show ?thesis
      using a5(1) by (auto simp: server_HandleActive_def with_server_def Let_def a4_def)
  qed
  have "initServerSocket t env (stopAllSockets (emit (EvUpdateStats (rt_stats (runtime a))) a)) = Done (b, None)"
    using assms(4,5) a1(1,3) act
    by (simp add: initServerSocket_def Let_def a1_def [symmetric] with_server_def fresh_handler_def
        ref_def [symmetric] url_def a3_def h_def a6_def b_def)
  then have tick: "rt_tick t netOk env a = Done b"
    using assms(1,3) by (simp add: rt_tick_def Let_def check_server_def with_server_def)
  have "rt_serverSock (runtime b) = Some (s\<lparr>ss_Connected := True, ss_Bootstrap := Some ref, ss_Handler := Some h,
        ss_LastReceive := unix t\<rparr>)" "rt_peerState (runtime b) = StateUnAck" "rt_serverChannel (runtime b) = Some h"
    "set (trace a5) \<subseteq> set (trace b)"
    using a5 a4(1) by (auto simp: b_def a6_def SetPeerState_def)
  with tick a1(4) a4(5) a5(5) show ?thesis
    by (auto simp: a3_def url_def)
qed

theorem tick_reconnects_witness:
  "\<exists>b. rt_tick (100 * 1000000000) True (me_net sample_env) sample_registered = Done b \<and>
    rt_peerState (runtime b) = StateUnAck"
proof -
  have o: "\<exists>s. rt_serverSock (runtime sample_registered) = Some s \<and> ss_LastReceive s = 0 \<and> ss_Offline s = 60"
    by (simp add: sample_registered_def Let_def rt_Init_def p2p_Start_def new_app_def NewRuntimeService_def
        sample_config_def SetPeerState_def)
  then obtain s where s: "rt_serverSock (runtime sample_registered) = Some s" "ss_LastReceive s = 0" "ss_Offline s = 60"
    by blast
  from s have "\<not> server_IsConnected (100 * 1000000000) True s"
    by (simp add: server_IsConnected_def unix_def)
  from tick_reconnects [OF s(1) sample_registered_simps(2) this, of "me_net sample_env" "''10.0.0.2:4000''"]
  show ?thesis by (auto simp: sample_env_def)
qed

section \<open>Lists sent in packets arrive whole\<close>

lemma drop_mult_50: "length xs = Suc n * 50 + r \<Longrightarrow> xs = take 50 xs @ drop 50 xs \<and> length (drop 50 xs) = n * 50 + r"
  by simp

text \<open>Cutting a list at multiples of fifty.\<close>

lemma concat_chunks:
  "concat (map (\<lambda>i. take 50 (drop (i * 50) xs)) [0..<n]) = take (n * 50) xs"
proof (induction n)
  case (Suc n)
  have "take (Suc n * 50) xs = take (n * 50) xs @ take 50 (drop (n * 50) xs)"
    by (metis add.commute mult_Suc take_add)
  with Suc show ?case by simp
qed simp

lemma link_packets_spec:
  assumes "links \<noteq> []"
  shows "concat (link_packets links) = links" "\<forall>p\<in>set (link_packets links). p \<noteq> [] \<and> length p \<le> 50"
    "link_packets links \<noteq> []"
proof -
  define n where "n = length links"
  define pkg where "pkg = n div 50 + (if n mod 50 > 0 then 1 else 0)"
  have n: "n > 0" using assms by (simp add: n_def)
  have pk: "pkg > 0" "(pkg - 1) * 50 < n" "n \<le> pkg * 50"
  proof -
    obtain q r where qr: "n div 50 = q" "n mod 50 = r" "n = q * 50 + r" "r < 50"
      using div_mult_mod_eq [of n 50] by (metis mod_less_divisor zero_less_numeral)
    then have "pkg = (if r > 0 then q + 1 else q)" by (simp add: pkg_def)
    with qr n show "pkg > 0" "(pkg - 1) * 50 < n" "n \<le> pkg * 50" by (cases q; simp split: if_splits)+
  qed
  have eq: "link_packets links = map (\<lambda>i. take 50 (drop (i * 50) links)) [0..<pkg]"
  proof -
    have "drop (i * 50) links = take 50 (drop (i * 50) links)" if "i = pkg - 1" for i
      using pk that by (simp add: n_def [symmetric] algebra_simps)
    then show ?thesis by (simp add: link_packets_def Let_def n_def [symmetric] pkg_def [symmetric])
  qed
  show "concat (link_packets links) = links" using pk by (simp add: eq concat_chunks n_def)
  show "link_packets links \<noteq> []" using pk by (simp add: eq)
  have "i * 50 < n" if "i < pkg" for i
  proof -
    have "i * 50 \<le> (pkg - 1) * 50" using that by simp
    with pk(2) show ?thesis by simp
  qed
  then show "\<forall>p\<in>set (link_packets links). p \<noteq> [] \<and> length p \<le> 50"
    by (auto simp: eq n_def [symmetric] not_le [symmetric])
qed

lemma links_appended:
  assumes "\<forall>p\<in>set pkts. p \<noteq> []" "sm_load (rt_linkInfoReqCookie (runtime a)) src = Some c"
    "sm_load (rt_linkInfos (runtime a)) src = Some got"
  shows "sm_load (rt_linkInfos (runtime (fold (\<lambda>p b. fst (ProcessPeerLinksResponse
      (Some \<lparr>la_SrcMac = src, la_DstMac = dst, la_Cookie = c, la_LinkInfo = p\<rparr>) b)) pkts a))) src = Some (got @ concat pkts)"
  using assms
  by (induction pkts arbitrary: a got) (simp_all add: ProcessPeerLinksResponse_def Let_def)

text \<open>The devices behind a peer are transferred completely: for every list of addresses, the packets of
  at most fifty entries that the asked peer sends are never empty, and the asking peer, receiving
  them in order with a cookie it has not seen from that peer or after it has discarded its old
  list, ends up with exactly the list that was sent.\<close>

lemma peer_links_reassembled:
  assumes "links \<noteq> []"
    and "sm_load (rt_linkInfoReqCookie (runtime a)) src \<noteq> Some c \<or> sm_load (rt_linkInfos (runtime a)) src = None"
  shows "(\<forall>p\<in>set (link_packets links). p \<noteq> [] \<and> length p \<le> 50) \<and>
    sm_load (rt_linkInfos (runtime (fold (\<lambda>p b. fst (ProcessPeerLinksResponse
      (Some \<lparr>la_SrcMac = src, la_DstMac = dst, la_Cookie = c, la_LinkInfo = p\<rparr>) b)) (link_packets links) a))) src = Some links"
proof -
  note spec = link_packets_spec [OF assms(1)]
  obtain p ps where pp: "link_packets links = p # ps" using spec(3) by (cases "link_packets links") auto
  define a1 where "a1 = fst (ProcessPeerLinksResponse (Some \<lparr>la_SrcMac = src, la_DstMac = dst, la_Cookie = c, la_LinkInfo = p\<rparr>) a)"
  have "p \<noteq> []" using spec(2) pp by simp
  then have "sm_load (rt_linkInfoReqCookie (runtime a1)) src = Some c" "sm_load (rt_linkInfos (runtime a1)) src = Some p"
    using assms(2) by (auto simp: a1_def ProcessPeerLinksResponse_def Let_def split: option.split)
  from links_appended [OF _ this, of ps dst] spec pp show ?thesis by (simp add: a1_def)
qed

section \<open>Routes\<close>

text \<open>A route to the network behind a peer is added for the whole segment of that network, through the
  peer's virtual address, after the previous route was removed, and cleaning removes exactly the
  route that was added; cleaning twice removes nothing more.\<close>

lemma route_added_and_removed:
  assumes "FindPeer mac a = Some p" "unat (pi_InterNetBitLen p) \<le> 32"
  shows "let b = fst (AddRoute True mac a); m = prefix_mask (pi_InterNetBitLen p);
             dst = Uint32toIpV4 (pi_InterAddr p AND m); gw = Uint32toIpV4 (pi_NetAddr p)
    in snd (AddRoute True mac a) \<and> MaskBitLen m = pi_InterNetBitLen p \<and>
       trace b = trace (CleanRoutes a) @ [EvAddRoute dst (Uint32toIpV4 m) gw] \<and>
       trace (CleanRoutes b) = trace b @ [EvDelRoute dst (Uint32toIpV4 m) gw] \<and>
       trace (CleanRoutes (CleanRoutes b)) = trace (CleanRoutes b)"
  using assms(1) MaskBitLen_prefix_mask [OF assms(2)]
  by (simp add: AddRoute_def tun_AddRoute_def tun_DelRoute_def CleanRoutes_def Let_def prefix_mask_def
      GetDst_def GetMask_def GetGw_def Uint32toIpV4_def)

definition sample_peer :: PeerInfo where
  "sample_peer = \<lparr>pi_PeerName = ''p'', pi_DevType = [], pi_NetAddr = 0x0A000003, pi_InterAddr = 0xC0A80105,
     pi_PeerMac = 7, pi_NetBitLen = 24, pi_InterNetBitLen = 24, pi_Online = True, pi_LinkMode = 1,
     pi_LinkQuality = 100, pi_Stats = None, pi_Sock = None\<rparr>"

section \<open>The group table\<close>

lemma store_peers:
  assumes "rt_groupPeers (runtime a) = Some m"
  shows "\<exists>b. go_fold store_peer ps a = Done b \<and>
    rt_groupPeers (runtime b) = Some (fold (\<lambda>p. sm_store (pi_PeerMac p) p) ps m)"
  using assms by (induction ps arbitrary: a m) (simp_all add: store_peer_def)

lemma load_fold_store:
  "distinct (map pi_PeerMac ps) \<Longrightarrow> sm_load (fold (\<lambda>p. sm_store (pi_PeerMac p) p) ps m) k =
     (case find (\<lambda>p. pi_PeerMac p = k) ps of Some p \<Rightarrow> Some p | None \<Rightarrow> sm_load m k)"
proof (induction ps arbitrary: m)
  case (Cons p ps)
  have "find (\<lambda>p. pi_PeerMac p = k) ps = None" if "pi_PeerMac p = k"
    using Cons.prems that by (auto simp: find_None_iff image_iff)
  with Cons show ?case by (auto split: option.split)
qed simp

text \<open>The group table follows the server: a response with a new cookie replaces the table by exactly the
  peers of the response, further responses with the same cookie add their peers, and each peer is
  found under its own address afterwards.\<close>

lemma group_response_updates_table:
  assumes "rt_inv a" "distinct (map pi_PeerMac ps)"
  shows "\<exists>b. ProcessGroupPeersResponse (Some \<lparr>ga_Cookie = c, ga_PeerInfo = ps\<rparr>) a = Done (b, None) \<and>
    (\<forall>k. FindPeer k b = (case find (\<lambda>p. pi_PeerMac p = k) ps of
        Some p \<Rightarrow> Some p
      | None \<Rightarrow> if rt_groupPeerCookie (runtime a) = c then FindPeer k a else None))"
proof -
  obtain m where m: "rt_groupPeers (runtime a) = Some m" using assms(1) by (auto simp: rt_inv_def)
  define m' where "m' = (if rt_groupPeerCookie (runtime a) = c then m else [])"
  have "rt_groupPeers (runtime (fresh_group c a)) = Some m'"
    using m by (simp add: fresh_group_def m'_def)
  from store_peers [OF this, of ps] obtain b where
    "go_fold store_peer ps (fresh_group c a) = Done b"
    "rt_groupPeers (runtime b) = Some (fold (\<lambda>p. sm_store (pi_PeerMac p) p) ps m')" by blast
  then show ?thesis
    using m load_fold_store [OF assms(2), of m']
    by (auto simp: ProcessGroupPeersResponse_def FindPeer_def m'_def split: option.split)
qed

text \<open>A peer cannot be reconfigured from outside: a configuration message, whatever it asks, changes
  neither copy of the configuration and is answered by a refusal to its sender.\<close>

lemma remote_config_refused:
  assumes "rt_serverSock (runtime a) = Some s" "ss_Handler s = Some h" "rt_running (runtime a)"
  shows "\<exists>b ack. ProcessConfig (Some c) a = Done (b, Some ErrConfigRefused) \<and> config b = config a \<and>
    runtime b = runtime a \<and> trace b = trace a @ [EvWrite h (PeerFrame ack)] \<and>
    pf_MsgType ack = Msg_ConfigAck \<and>
    (\<exists>m. pf_MsgConfigAck ack = Some m \<and> \<not> ca_IsOk m \<and> ca_DstMac m = mc_SrcMac c)"
  using assms by (simp add: ProcessConfig_def with_server_def Let_def forwardMessage_def peer_frame_def)

end
