(* ===== verification/Pipeline.thy ===== *)
theory Pipeline
  imports VPrelude
begin

text \<open>
  The handler pipeline of a channel, \<open>netty/pipeline.go\<close> and \<open>netty/context.go\<close>: a doubly linked list of
  handler contexts between a head and a tail, insertion, search, and the walk that finds the next
  handler for an event. The list lives in a store of nodes; loops that follow pointers are partial
  functions, so that not returning is the value \<open>None\<close>.
\<close>

section \<open>Nodes and pipelines\<close>

text \<open>What the type switches of the package ask of a handler, and a name for it.\<close>

record handler =
  hd_name :: nat
  is_active :: bool
  is_inbound :: bool
  is_outbound :: bool
  is_exception :: bool
  is_inactive :: bool
  is_event :: bool
  is_codec :: bool

record handlerContext =
  hc_handler :: handler
  hc_prev :: "nat option"
  hc_next :: "nat option"

record pipeline =
  pl_heap :: "nat \<Rightarrow> handlerContext"
  pl_head :: nat
  pl_tail :: nat
  pl_size :: int
  pl_fresh :: nat
  pl_channel :: "nat option"

definition headHandler :: handler where
  "headHandler = \<lparr>hd_name = 0, is_active = True, is_inbound = True, is_outbound = True,
     is_exception = True, is_inactive = True, is_event = False, is_codec = False\<rparr>"

definition tailHandler :: handler where
  "tailHandler = \<lparr>hd_name = 1, is_active = False, is_inbound = False, is_outbound = True,
     is_exception = True, is_inactive = True, is_event = False, is_codec = False\<rparr>"

definition NewPipelineWith :: pipeline where
  "NewPipelineWith = \<lparr>pl_heap = (\<lambda>x. if x = 0 then \<lparr>hc_handler = headHandler, hc_prev = None, hc_next = Some 1\<rparr>
        else \<lparr>hc_handler = tailHandler, hc_prev = Some 0, hc_next = None\<rparr>),
     pl_head = 0, pl_tail = 1, pl_size = 2, pl_fresh = 2, pl_channel = None\<rparr>"

definition set_node :: "nat \<Rightarrow> (handlerContext \<Rightarrow> handlerContext) \<Rightarrow> pipeline \<Rightarrow> pipeline" where
  "set_node x f p = p\<lparr>pl_heap := (pl_heap p)(x := f (pl_heap p x))\<rparr>"

definition alloc_node :: "handlerContext \<Rightarrow> pipeline \<Rightarrow> nat \<times> pipeline" where
  "alloc_node n p = (pl_fresh p, p\<lparr>pl_heap := (pl_heap p)(pl_fresh p := n), pl_fresh := pl_fresh p + 1\<rparr>)"

section \<open>Insertion\<close>

definition known_handler :: "handler \<Rightarrow> bool" where
  "known_handler h \<longleftrightarrow> is_active h \<or> is_inbound h \<or> is_outbound h \<or> is_exception h \<or> is_inactive h \<or> is_event h"

definition checkHandler :: "handler list \<Rightarrow> 'a \<Rightarrow> 'a go" where
  "checkHandler hs a = (if \<forall>h\<in>set hs. known_handler h then Done a else Panicked AssertFailed)"

definition addFirst :: "handler \<Rightarrow> pipeline \<Rightarrow> pipeline go" where
  "addFirst h p = go_bind (checkHandler [h] p) (\<lambda>p.
     let oldNext = hc_next (pl_heap p (pl_head p));
         (z, p1) = alloc_node \<lparr>hc_handler = h, hc_prev = Some (pl_head p), hc_next = oldNext\<rparr> p;
         p2 = set_node (pl_head p) (\<lambda>n. n\<lparr>hc_next := Some z\<rparr>) p1
     in case oldNext of
       None \<Rightarrow> Panicked NilDeref
     | Some x \<Rightarrow> Done ((set_node x (\<lambda>n. n\<lparr>hc_prev := hc_next (pl_heap p2 (pl_head p2))\<rparr>) p2)
                   \<lparr>pl_size := pl_size p + 1\<rparr>))"

definition addLast :: "handler \<Rightarrow> pipeline \<Rightarrow> pipeline go" where
  "addLast h p = go_bind (checkHandler [h] p) (\<lambda>p.
     let oldPrev = hc_prev (pl_heap p (pl_tail p));
         (z, p1) = alloc_node \<lparr>hc_handler = h, hc_prev = oldPrev, hc_next = Some (pl_tail p)\<rparr> p;
         p2 = set_node (pl_tail p) (\<lambda>n. n\<lparr>hc_prev := Some z\<rparr>) p1
     in case oldPrev of
       None \<Rightarrow> Panicked NilDeref
     | Some x \<Rightarrow> Done ((set_node x (\<lambda>n. n\<lparr>hc_next := hc_prev (pl_heap p2 (pl_tail p2))\<rparr>) p2)
                   \<lparr>pl_size := pl_size p + 1\<rparr>))"

definition AddFirst :: "handler list \<Rightarrow> pipeline \<Rightarrow> pipeline go" where
  "AddFirst hs p = go_fold addFirst hs p"

definition AddLast :: "handler list \<Rightarrow> pipeline \<Rightarrow> pipeline go" where
  "AddLast hs p = go_fold addLast hs p"

text \<open>\<open>curNode = curNode.next\<close>, repeated.\<close>

primrec walk :: "nat \<Rightarrow> nat \<Rightarrow> pipeline \<Rightarrow> nat go" where
  "walk 0 x p = Done x"
| "walk (Suc n) x p = (case hc_next (pl_heap p x) of None \<Rightarrow> Panicked NilDeref | Some y \<Rightarrow> walk n y p)"

fun insert_loop :: "handler list \<Rightarrow> nat \<Rightarrow> pipeline \<Rightarrow> pipeline go" where
  "insert_loop [] cur p = Done p"
| "insert_loop (h # hs) cur p =
     (let oldNext = hc_next (pl_heap p cur);
          (z, p1) = alloc_node \<lparr>hc_handler = h, hc_prev = Some cur, hc_next = oldNext\<rparr> p;
          p2 = set_node cur (\<lambda>n. n\<lparr>hc_next := Some z\<rparr>) p1
      in case oldNext of
        None \<Rightarrow> Panicked NilDeref
      | Some x \<Rightarrow>
          insert_loop hs z ((set_node x (\<lambda>n. n\<lparr>hc_prev := hc_next (pl_heap p2 cur)\<rparr>) p2)
            \<lparr>pl_size := pl_size p + 1\<rparr>))"

definition AddHandler :: "int \<Rightarrow> handler list \<Rightarrow> pipeline \<Rightarrow> pipeline go" where
  "AddHandler position hs p = go_bind (checkHandler hs p) (\<lambda>p.
     if position \<ge> pl_size p then Panicked AssertFailed
     else if position = -1 \<or> position = pl_size p - 1 then AddLast hs p
     else go_bind (walk (nat position) (pl_head p) p) (\<lambda>cur. insert_loop hs cur p))"

section \<open>Search\<close>

partial_function (option) index_loop ::
  "(handler \<Rightarrow> bool) \<Rightarrow> (handlerContext \<Rightarrow> nat option) \<Rightarrow> int \<Rightarrow> nat \<Rightarrow> int \<Rightarrow> pipeline \<Rightarrow> int option" where
  "index_loop cmp step d x i p =
     (if cmp (hc_handler (pl_heap p x)) then Some i
      else case step (pl_heap p x) of
        None \<Rightarrow> Some (-1)
      | Some y \<Rightarrow> index_loop cmp step d y (i + d) p)"

definition IndexOf :: "(handler \<Rightarrow> bool) \<Rightarrow> pipeline \<Rightarrow> int option" where
  "IndexOf cmp p = index_loop cmp hc_next 1 (pl_head p) 0 p"

definition LastIndexOf :: "(handler \<Rightarrow> bool) \<Rightarrow> pipeline \<Rightarrow> int option" where
  "LastIndexOf cmp p = index_loop cmp hc_prev (-1) (pl_tail p) (pl_size p - 1) p"

definition ContextAt :: "int \<Rightarrow> pipeline \<Rightarrow> nat option go" where
  "ContextAt position p =
     (if position = -1 \<or> position \<ge> pl_size p then Done None
      else go_map Some (walk (nat position) (pl_head p) p))"

text \<open>The loops of \<open>context.go\<close>: from a context, the nearest one in a direction whose handler qualifies.\<close>

partial_function (option) seek ::
  "(handlerContext \<Rightarrow> nat option) \<Rightarrow> (handler \<Rightarrow> bool) \<Rightarrow> pipeline \<Rightarrow> nat \<Rightarrow> nat option option" where
  "seek step ok p x =
     (case step (pl_heap p x) of
        None \<Rightarrow> Some None
      | Some y \<Rightarrow> if ok (hc_handler (pl_heap p y)) then Some (Some y) else seek step ok p y)"

definition hc_Write :: "pipeline \<Rightarrow> nat \<Rightarrow> nat option option" where
  "hc_Write = seek hc_prev is_outbound"
definition hc_Close :: "pipeline \<Rightarrow> nat \<Rightarrow> nat option option" where
  "hc_Close = seek hc_prev is_inactive"
definition hc_Trigger :: "pipeline \<Rightarrow> nat \<Rightarrow> nat option option" where
  "hc_Trigger = seek hc_next is_event"
definition hc_HandleActive :: "pipeline \<Rightarrow> nat \<Rightarrow> nat option option" where
  "hc_HandleActive = seek hc_next is_active"
definition hc_HandleRead :: "pipeline \<Rightarrow> nat \<Rightarrow> nat option option" where
  "hc_HandleRead = seek hc_next is_inbound"
definition hc_HandleWrite :: "pipeline \<Rightarrow> nat \<Rightarrow> nat option option" where
  "hc_HandleWrite = seek hc_prev is_outbound"
definition hc_HandleException :: "pipeline \<Rightarrow> nat \<Rightarrow> nat option option" where
  "hc_HandleException = seek hc_next is_exception"
definition hc_HandleInactive :: "pipeline \<Rightarrow> nat \<Rightarrow> nat option option" where
  "hc_HandleInactive = seek hc_prev is_inactive"
definition hc_HandleEvent :: "pipeline \<Rightarrow> nat \<Rightarrow> nat option option" where
  "hc_HandleEvent = seek hc_next is_event"

text \<open>The handlers a message passes when each one passes it on.\<close>

partial_function (option) chain ::
  "(pipeline \<Rightarrow> nat \<Rightarrow> nat option option) \<Rightarrow> pipeline \<Rightarrow> nat \<Rightarrow> nat list option" where
  "chain fire p x = Option.bind (fire p x) (\<lambda>r. case r of
       None \<Rightarrow> Some []
     | Some y \<Rightarrow> Option.bind (chain fire p y) (\<lambda>ys. Some (y # ys)))"

text \<open>\<open>bootstrap.serveChannel\<close> inserts the executor after the last codec.\<close>

definition insert_executor :: "handler \<Rightarrow> pipeline \<Rightarrow> pipeline go option" where
  "insert_executor ex p = map_option (\<lambda>position.
     if position = -1 then Panicked AssertFailed else AddHandler position [ex] p) (LastIndexOf is_codec p)"

section \<open>The abstract pipeline\<close>

text \<open>\<open>repr p ns hs\<close>: the nodes \<open>ns\<close>, in order from head to tail, carry the handlers \<open>hs\<close> and are linked in both
  directions.\<close>

definition node_at :: "nat list \<Rightarrow> handler list \<Rightarrow> nat \<Rightarrow> handlerContext" where
  "node_at ns hs i = \<lparr>hc_handler = hs ! i,
     hc_prev = (if i = 0 then None else Some (ns ! (i - 1))),
     hc_next = (if Suc i < length ns then Some (ns ! Suc i) else None)\<rparr>"

definition repr :: "pipeline \<Rightarrow> nat list \<Rightarrow> handler list \<Rightarrow> bool" where
  "repr p ns hs \<longleftrightarrow> length ns = length hs \<and> 2 \<le> length ns \<and> distinct ns \<and> (\<forall>x\<in>set ns. x < pl_fresh p) \<and>
     pl_head p = hd ns \<and> pl_tail p = last ns \<and> pl_size p = int (length ns) \<and>
     (\<forall>i<length ns. pl_heap p (ns ! i) = node_at ns hs i)"

lemma reprD:
  assumes "repr p ns hs"
  shows "length hs = length ns" "2 \<le> length ns" "distinct ns" "pl_head p = ns ! 0"
    "pl_tail p = ns ! (length ns - 1)" "pl_size p = int (length ns)"
    "i < length ns \<Longrightarrow> hc_handler (pl_heap p (ns ! i)) = hs ! i"
    "i < length ns \<Longrightarrow> hc_prev (pl_heap p (ns ! i)) = (if i = 0 then None else Some (ns ! (i - 1)))"
    "i < length ns \<Longrightarrow> hc_next (pl_heap p (ns ! i)) = (if Suc i < length ns then Some (ns ! Suc i) else None)"
proof -
  have "ns \<noteq> []" using assms by (auto simp: repr_def)
  then show "length hs = length ns" "2 \<le> length ns" "distinct ns" "pl_head p = ns ! 0"
    "pl_tail p = ns ! (length ns - 1)" "pl_size p = int (length ns)"
    "i < length ns \<Longrightarrow> hc_handler (pl_heap p (ns ! i)) = hs ! i"
    "i < length ns \<Longrightarrow> hc_prev (pl_heap p (ns ! i)) = (if i = 0 then None else Some (ns ! (i - 1)))"
    "i < length ns \<Longrightarrow> hc_next (pl_heap p (ns ! i)) = (if Suc i < length ns then Some (ns ! Suc i) else None)"
    using assms by (auto simp: repr_def node_at_def hd_conv_nth last_conv_nth)
qed

definition ins_at :: "nat \<Rightarrow> 'a \<Rightarrow> 'a list \<Rightarrow> 'a list" where
  "ins_at k x xs = take (Suc k) xs @ x # drop (Suc k) xs"

lemma length_ins_at [simp]: "length (ins_at k x xs) = Suc (length xs)"
  by (simp add: ins_at_def)

lemma nth_ins_at:
  "k < length xs \<Longrightarrow> i \<le> length xs \<Longrightarrow> ins_at k x xs ! i =
     (if i \<le> k then xs ! i else if i = Suc k then x else xs ! (i - 1))"
proof -
  assume k: "k < length xs" and i: "i \<le> length xs"
  consider "i \<le> k" | "i = Suc k" | j where "i = Suc (Suc (k + j))"
    by (metis le_Suc_ex not_less_eq_eq order_antisym_conv add_Suc)
  then show ?thesis using k i by cases (simp_all add: ins_at_def nth_append min_def)
qed

lemma set_ins_at [simp]: "set (ins_at k x xs) = insert x (set xs)"
  by (auto simp: ins_at_def dest: in_set_takeD in_set_dropD) (metis UnCI append_take_drop_id set_append Un_iff)

lemma distinct_ins_at: "distinct xs \<Longrightarrow> x \<notin> set xs \<Longrightarrow> distinct (ins_at k x xs)"
  by (auto simp: ins_at_def dest: in_set_takeD in_set_dropD)
    (metis disjoint_iff set_take_disj_set_drop_if_distinct order_refl)

text \<open>Linking a new node between two neighbours, the step shared by the three insertions.\<close>

definition link_between :: "nat \<Rightarrow> nat \<Rightarrow> handler \<Rightarrow> pipeline \<Rightarrow> pipeline" where
  "link_between c w h p = p\<lparr>pl_heap := (pl_heap p)(pl_fresh p := \<lparr>hc_handler = h, hc_prev = Some c, hc_next = Some w\<rparr>,
       c := (pl_heap p c)\<lparr>hc_next := Some (pl_fresh p)\<rparr>, w := (pl_heap p w)\<lparr>hc_prev := Some (pl_fresh p)\<rparr>),
     pl_fresh := pl_fresh p + 1, pl_size := pl_size p + 1\<rparr>"

lemma repr_link_between:
  assumes r: "repr p ns hs" and k: "Suc k < length ns"
  shows "repr (link_between (ns ! k) (ns ! Suc k) h p) (ins_at k (pl_fresh p) ns) (ins_at k h hs)"
proof -
  let ?z = "pl_fresh p" and ?ns = "ins_at k (pl_fresh p) ns" and ?hs = "ins_at k h hs"
  note d = reprD [OF r]
  have z: "?z \<notin> set ns" using r by (auto simp: repr_def)
  have zi: "ns ! i \<noteq> ?z" if "i < length ns" for i using z that by (metis nth_mem)
  have inj: "ns ! i = ns ! j \<longleftrightarrow> i = j" if "i < length ns" "j < length ns" for i j
    using d(3) that by (simp add: nth_eq_iff_index_eq)
  have heap: "pl_heap p (ns ! i) = node_at ns hs i" if "i < length ns" for i
    using r that by (simp add: repr_def)
  have node: "pl_heap (link_between (ns ! k) (ns ! Suc k) h p) (?ns ! i) = node_at ?ns ?hs i"
    if i: "i < length ?ns" for i
  proof -
    consider "i < k" | "i = k" | "i = Suc k" | "i = Suc (Suc k)" | "i > Suc (Suc k)" by linarith
    then show ?thesis
    proof cases
      case 1
      with i k d(1) zi inj show ?thesis
        by (simp add: link_between_def nth_ins_at heap node_at_def)
    next
      case 2
      with i k d(1) zi inj show ?thesis
        by (simp add: link_between_def nth_ins_at heap node_at_def)
    next
      case 3
      with i k d(1) zi [of k, symmetric] zi [of "Suc k", symmetric] show ?thesis
        by (simp add: link_between_def nth_ins_at node_at_def)
    next
      case 4
      with i k d(1) zi inj show ?thesis
        by (simp add: link_between_def nth_ins_at heap node_at_def)
    next
      case 5
      then obtain j where "i = Suc j" "Suc k < j" by (cases i) auto
      with i k d(1) zi inj show ?thesis
        by (auto simp: link_between_def nth_ins_at heap node_at_def)
    qed
  qed
  have ends: "hd ?ns = hd ns" "last ?ns = last ns"
    using k by (auto simp: ins_at_def hd_append last_append last_drop)
  show ?thesis
    using r k node ends z distinct_ins_at [OF d(3) z]
    by (auto simp: repr_def link_between_def less_Suc_eq)
qed

lemma addFirst_link:
  assumes "repr p ns hs" "known_handler h"
  shows "addFirst h p = Done (link_between (ns ! 0) (ns ! Suc 0) h p)"
proof -
  note d = reprD [OF assms(1)]
  have l: "0 < length ns" "Suc 0 < length ns" using d(2) by linarith+
  with d(3) have "ns ! 0 \<noteq> ns ! Suc 0" by (simp add: nth_eq_iff_index_eq)
  moreover have "ns ! 0 < pl_fresh p" "ns ! Suc 0 < pl_fresh p"
    using assms(1) l [THEN nth_mem] unfolding repr_def by blast+
  ultimately show ?thesis
    using l d(4) d(9) [OF l(1)] assms(2)
    by (cases p) (simp add: addFirst_def checkHandler_def Let_def alloc_node_def set_node_def link_between_def fun_upd_twist)
qed

lemma addLast_link:
  assumes "repr p ns hs" "known_handler h"
  shows "addLast h p = Done (link_between (ns ! (length ns - 2)) (ns ! Suc (length ns - 2)) h p)"
proof -
  note d = reprD [OF assms(1)]
  define k where "k = length ns - 2"
  have k: "Suc k < length ns" "length ns - 1 = Suc k" using d(2) by (simp_all add: k_def)
  have "ns ! k \<noteq> ns ! Suc k" using k d(3) by (simp add: nth_eq_iff_index_eq)
  moreover have "ns ! k < pl_fresh p" "ns ! Suc k < pl_fresh p"
    using assms(1) k by (auto simp: repr_def)
  ultimately show ?thesis
    using k d(5) d(8) [of "Suc k"] assms(2)
    by (cases p) (simp add: addLast_def checkHandler_def Let_def alloc_node_def set_node_def link_between_def
        fun_upd_twist k_def [symmetric])
qed

lemma insert_loop_link:
  assumes "repr p ns hs" "Suc k < length ns"
  shows "insert_loop (h # xs) (ns ! k) p = insert_loop xs (pl_fresh p) (link_between (ns ! k) (ns ! Suc k) h p)"
proof -
  note d = reprD [OF assms(1)]
  have "ns ! k \<noteq> ns ! Suc k" using assms(2) d(3) by (simp add: nth_eq_iff_index_eq)
  moreover have "ns ! k < pl_fresh p" "ns ! Suc k < pl_fresh p"
    using assms by (auto simp: repr_def)
  ultimately show ?thesis
    using assms(2) d(9) [of k]
    by (cases p) (simp add: Let_def alloc_node_def set_node_def link_between_def fun_upd_twist)
qed

lemma walk_repr:
  assumes "repr p ns hs" "i + n < length ns"
  shows "walk n (ns ! i) p = Done (ns ! (i + n))"
  using assms(2) reprD(9) [OF assms(1)] by (induction n arbitrary: i) (simp_all add: add_Suc_right)

section \<open>Interface\<close>

text \<open>A pipeline as its clients see it: a sequence of handlers, with insertion at both ends that keeps the
  first and the last handler in place.\<close>

locale handler_sequence =
  fixes wf :: "'p \<Rightarrow> handler list \<Rightarrow> bool"
    and add_first :: "handler \<Rightarrow> 'p \<Rightarrow> 'p go" and add_last :: "handler \<Rightarrow> 'p \<Rightarrow> 'p go"
  assumes wf_ends: "wf p hs \<Longrightarrow> 2 \<le> length hs"
    and add_first_ok: "wf p hs \<Longrightarrow> known_handler h \<Longrightarrow>
      \<exists>q. add_first h p = Done q \<and> wf q (hd hs # h # tl hs)"
    and add_last_ok: "wf p hs \<Longrightarrow> known_handler h \<Longrightarrow>
      \<exists>q. add_last h p = Done q \<and> wf q (butlast hs @ [h, last hs])"
begin

lemma add_lasts:
  assumes "wf p hs" "\<forall>h\<in>set xs. known_handler h"
  shows "\<exists>q. go_fold add_last xs p = Done q \<and> wf q (butlast hs @ xs @ [last hs])"
  using assms
proof (induction xs arbitrary: p hs)
  case Nil
  have "hs \<noteq> []" using wf_ends [OF Nil.prems(1)] by auto
  with Nil show ?case by simp
next
  case (Cons h xs)
  obtain q where q: "add_last h p = Done q" "wf q (butlast hs @ [h, last hs])"
    using add_last_ok [OF Cons.prems(1), of h] Cons.prems(2) by auto
  from Cons.IH [OF q(2)] Cons.prems(2) q(1) show ?case by (simp add: butlast_append)
qed

lemma add_firsts:
  assumes "wf p hs" "\<forall>h\<in>set xs. known_handler h"
  shows "\<exists>q. go_fold add_first xs p = Done q \<and> wf q (hd hs # rev xs @ tl hs)"
  using assms
proof (induction xs arbitrary: p hs)
  case Nil
  have "hs \<noteq> []" using wf_ends [OF Nil.prems(1)] by auto
  with Nil show ?case by simp
next
  case (Cons h xs)
  obtain q where q: "add_first h p = Done q" "wf q (hd hs # h # tl hs)"
    using add_first_ok [OF Cons.prems(1), of h] Cons.prems(2) by auto
  from Cons.IH [OF q(2)] Cons.prems(2) q(1) show ?case by simp
qed

end

definition pipeline_wf :: "pipeline \<Rightarrow> handler list \<Rightarrow> bool" where
  "pipeline_wf p hs \<longleftrightarrow> (\<exists>ns. repr p ns hs)"

lemma ins_at_first: "hs \<noteq> [] \<Longrightarrow> ins_at 0 h hs = hd hs # h # tl hs"
  by (cases hs) (simp_all add: ins_at_def)

lemma ins_at_last: "2 \<le> length hs \<Longrightarrow> ins_at (length hs - 2) h hs = butlast hs @ [h, last hs]"
proof -
  assume l: "2 \<le> length hs"
  then have "Suc (length hs - 2) = length hs - 1" by simp
  moreover have "drop (length hs - 1) hs = [last hs]"
    using l by (metis drop_butlast append_butlast_last_id append_eq_conv_conj length_butlast list.size(3) not_numeral_le_zero)
  ultimately show ?thesis by (simp add: ins_at_def butlast_conv_take)
qed

interpretation pl: handler_sequence pipeline_wf addFirst addLast
proof unfold_locales
  fix p hs h
  assume wf: "pipeline_wf p hs"
  then obtain ns where r: "repr p ns hs" by (auto simp: pipeline_wf_def)
  note d = reprD [OF r]
  show "2 \<le> length hs" using d by simp
  assume h: "known_handler h"
  have "Suc 0 < length ns" "hs \<noteq> []" using d(1,2) by auto
  from repr_link_between [OF r this(1), of h] addFirst_link [OF r h] ins_at_first [OF this(2), of h]
  show "\<exists>q. addFirst h p = Done q \<and> pipeline_wf q (hd hs # h # tl hs)"
    by (auto simp: pipeline_wf_def)
  have "Suc (length ns - 2) < length ns" using d(2) by simp
  from repr_link_between [OF r this, of h] addLast_link [OF r h] ins_at_last [of hs h] d(1,2)
  show "\<exists>q. addLast h p = Done q \<and> pipeline_wf q (butlast hs @ [h, last hs])"
    by (auto simp: pipeline_wf_def)
qed

section \<open>Insertion at a position, search and dispatch\<close>

lemma insert_loop_repr:
  assumes "repr p ns hs" "Suc k < length ns"
  shows "\<exists>q ns'. insert_loop xs (ns ! k) p = Done q \<and>
    repr q ns' (take (Suc k) hs @ xs @ drop (Suc k) hs)"
  using assms
proof (induction xs arbitrary: p ns hs k)
  case (Cons h xs)
  let ?q = "link_between (ns ! k) (ns ! Suc k) h p" and ?ns = "ins_at k (pl_fresh p) ns" and ?hs = "ins_at k h hs"
  have r: "repr ?q ?ns ?hs" using Cons.prems by (rule repr_link_between)
  have z: "?ns ! Suc k = pl_fresh p" using Cons.prems(2) by (simp add: nth_ins_at)
  have "take (Suc (Suc k)) ?hs = take (Suc k) hs @ [h]" "drop (Suc (Suc k)) ?hs = drop (Suc k) hs"
    using Cons.prems(2) reprD(1) [OF Cons.prems(1)] by (simp_all add: ins_at_def)
  with Cons.IH [OF r, of "Suc k"] Cons.prems insert_loop_link [OF Cons.prems, of h xs] z show ?case by simp
qed auto

lemma index_loop_next:
  assumes r: "repr p ns hs" and i: "i < length ns"
  shows "index_loop c hc_next 1 (ns ! i) (int i) p =
    Some (case find (\<lambda>j. c (hs ! j)) [i..<length ns] of Some j \<Rightarrow> int j | None \<Rightarrow> -1)"
  using i
proof (induction "length ns - i" arbitrary: i)
  case (Suc n)
  note d = reprD(7,9) [OF r Suc.prems]
  have e: "[i..<length ns] = i # [Suc i..<length ns]" using Suc.prems by (simp add: upt_conv_Cons)
  show ?case
  proof (cases "Suc i < length ns")
    case True
    with Suc.hyps(1) [of "Suc i"] Suc.hyps(2) d e show ?thesis
      by (subst index_loop.simps) (simp add: add.commute)
  qed (use d e in \<open>subst index_loop.simps, simp\<close>)
qed simp

lemma index_loop_prev:
  assumes r: "repr p ns hs" and i: "i < length ns"
  shows "index_loop c hc_prev (-1) (ns ! i) (int i) p =
    Some (case find (\<lambda>j. c (hs ! j)) (rev [0..<Suc i]) of Some j \<Rightarrow> int j | None \<Rightarrow> -1)"
  using i
proof (induction i)
  case 0
  with reprD(7,8) [OF r 0] show ?case by (subst index_loop.simps) simp
next
  case (Suc i)
  with reprD(7,8) [OF r Suc.prems] show ?case by (subst index_loop.simps) simp
qed

text \<open>From node \<open>i\<close>, the walk visits the nodes after it, or before it, in order.\<close>

lemma seek_next:
  assumes r: "repr p ns hs" and i: "i < length ns"
  shows "seek hc_next ok p (ns ! i) =
    Some (map_option (nth ns) (find (\<lambda>j. ok (hs ! j)) [Suc i..<length ns]))"
  using i
proof (induction "length ns - i" arbitrary: i)
  case (Suc n)
  show ?case
  proof (cases "Suc i < length ns")
    case True
    then have e: "[Suc i..<length ns] = Suc i # [Suc (Suc i)..<length ns]" by (simp add: upt_conv_Cons)
    from True Suc.hyps(1) [of "Suc i"] Suc.hyps(2) reprD(9) [OF r Suc.prems] reprD(7) [OF r True] e
    show ?thesis by (subst seek.simps) simp
  qed (use reprD(9) [OF r Suc.prems] in \<open>subst seek.simps, simp\<close>)
qed simp

lemma seek_prev:
  assumes r: "repr p ns hs" and i: "i < length ns"
  shows "seek hc_prev ok p (ns ! i) = Some (map_option (nth ns) (find (\<lambda>j. ok (hs ! j)) (rev [0..<i])))"
  using i
proof (induction i)
  case 0
  with reprD(8) [OF r 0] show ?case by (subst seek.simps) simp
next
  case (Suc i)
  with reprD(8) [OF r Suc.prems] reprD(7) [OF r, of i] show ?case by (subst seek.simps) simp
qed

lemma find_upt:
  assumes "find P [i..<n] = Some j"
  shows "i \<le> j \<and> j < n \<and> P j \<and> filter P [i..<n] = j # filter P [Suc j..<n]"
  using assms
proof (induction "n - i" arbitrary: i)
  case (Suc m)
  then have e: "[i..<n] = i # [Suc i..<n]" by (simp add: upt_conv_Cons)
  show ?case
  proof (cases "P i")
    case False
    with Suc.prems e have "find P [Suc i..<n] = Some j" by simp
    moreover have "m = n - Suc i" using Suc.hyps(2) by linarith
    ultimately show ?thesis using Suc.hyps(1) [of "Suc i"] False e by simp
  qed (use Suc e in \<open>auto simp: Suc_diff_Suc\<close>)
qed simp

lemma find_rev_upt:
  assumes "find P (rev [0..<n]) = Some j"
  shows "j < n \<and> P j \<and> filter P (rev [0..<n]) = j # filter P (rev [0..<j])"
  using assms by (induction n) (auto split: if_splits)

lemma find_None_filter: "find P xs = None \<Longrightarrow> filter P xs = []"
  by (simp add: find_None_iff filter_empty_conv)

lemma chain_next:
  assumes r: "repr p ns hs" and i: "i < length ns"
  shows "chain (seek hc_next ok) p (ns ! i) = Some (map (nth ns) (filter (\<lambda>j. ok (hs ! j)) [Suc i..<length ns]))"
  using i
proof (induction "length ns - i" arbitrary: i rule: less_induct)
  case less
  show ?case
  proof (cases "find (\<lambda>j. ok (hs ! j)) [Suc i..<length ns]")
    case None
    with seek_next [OF r less.prems, of ok] find_None_filter [OF None] show ?thesis
      by (subst chain.simps) simp
  next
    case (Some j)
    note f = find_upt [OF Some]
    then have "length ns - j < length ns - i" "j < length ns" using less.prems by auto
    with less.hyps [of j] f seek_next [OF r less.prems, of ok] Some show ?thesis
      by (subst chain.simps) simp
  qed
qed

lemma chain_prev:
  assumes r: "repr p ns hs" and i: "i < length ns"
  shows "chain (seek hc_prev ok) p (ns ! i) = Some (map (nth ns) (filter (\<lambda>j. ok (hs ! j)) (rev [0..<i])))"
  using i
proof (induction i rule: less_induct)
  case (less i)
  show ?case
  proof (cases "find (\<lambda>j. ok (hs ! j)) (rev [0..<i])")
    case None
    with seek_prev [OF r less.prems, of ok] find_None_filter [OF None] show ?thesis
      by (subst chain.simps) simp
  next
    case (Some j)
    note f = find_rev_upt [OF Some]
    with less.IH [of j] less.prems seek_prev [OF r less.prems, of ok] Some show ?thesis
      by (subst chain.simps) simp
  qed
qed

section \<open>Properties\<close>

lemma repr_new: "repr NewPipelineWith [0, 1] [headHandler, tailHandler]"
  by (simp add: repr_def NewPipelineWith_def node_at_def less_Suc_eq_0_disj)

text \<open>(C15) The linked pipeline implements a sequence of handlers: a new pipeline is head and tail;
  \<open>AddLast\<close> puts its handlers, in order, before the tail, \<open>AddFirst\<close> puts them after the head (the last one
  first), and \<open>AddHandler\<close> puts them after the handler at the given position, in order; the links in
  both directions stay consistent and the size is the length.\<close>

theorem pipeline_is_sequence:
  assumes "pipeline_wf p hs" "\<forall>h\<in>set xs. known_handler h"
  shows "pipeline_wf NewPipelineWith [headHandler, tailHandler] \<and>
    (\<exists>q. AddLast xs p = Done q \<and> pipeline_wf q (butlast hs @ xs @ [last hs])) \<and>
    (\<exists>q. AddFirst xs p = Done q \<and> pipeline_wf q (hd hs # rev xs @ tl hs)) \<and>
    (\<forall>k. Suc k < length hs \<longrightarrow>
      (\<exists>q. AddHandler (int k) xs p = Done q \<and> pipeline_wf q (take (Suc k) hs @ xs @ drop (Suc k) hs))) \<and>
    pl_size p = int (length hs)"
proof -
  obtain ns where r: "repr p ns hs" using assms(1) by (auto simp: pipeline_wf_def)
  note d = reprD [OF r]
  have new: "pipeline_wf NewPipelineWith [headHandler, tailHandler]"
    using repr_new by (auto simp: pipeline_wf_def)
  have ins: "\<exists>q. AddHandler (int k) xs p = Done q \<and> pipeline_wf q (take (Suc k) hs @ xs @ drop (Suc k) hs)"
    if k: "Suc k < length hs" for k
  proof -
    obtain q where "insert_loop xs (ns ! k) p = Done q" "pipeline_wf q (take (Suc k) hs @ xs @ drop (Suc k) hs)"
      using insert_loop_repr [OF r, of k xs] k d(1) by (auto simp: pipeline_wf_def)
    with k d(1,4,6) assms(2) walk_repr [OF r, of 0 k] show ?thesis
      by (simp add: AddHandler_def checkHandler_def)
  qed
  from new ins pl.add_lasts [OF assms] pl.add_firsts [OF assms] d(1,6) show ?thesis
    by (simp add: AddLast_def AddFirst_def)
qed

definition sample_codec :: handler where
  "sample_codec = \<lparr>hd_name = 2, is_active = False, is_inbound = True, is_outbound = True,
     is_exception = False, is_inactive = False, is_event = False, is_codec = True\<rparr>"

theorem pipeline_is_sequence_witness:
  "\<exists>q. AddLast [sample_codec] NewPipelineWith = Done q \<and> pipeline_wf q [headHandler, sample_codec, tailHandler]"
  using pipeline_is_sequence [of NewPipelineWith "[headHandler, tailHandler]" "[sample_codec]"] repr_new
  by (auto simp: pipeline_wf_def known_handler_def sample_codec_def)

text \<open>Events visit the right handlers in the right order: what is read travels from the head through every
  inbound handler in pipeline order, what is written at the tail travels through every outbound
  handler in reverse order down to the head, exceptions travel forward, a closed channel backward;
  every walk ends, none is skipped or visited twice.\<close>

lemma dispatch_order:
  assumes "repr p ns hs"
  shows "chain hc_HandleRead p (pl_head p) = Some (map (nth ns) (filter (\<lambda>j. is_inbound (hs ! j)) [1..<length ns])) \<and>
    chain hc_HandleWrite p (pl_tail p) = Some (map (nth ns) (filter (\<lambda>j. is_outbound (hs ! j)) (rev [0..<length ns - 1]))) \<and>
    chain hc_HandleException p (pl_head p) = Some (map (nth ns) (filter (\<lambda>j. is_exception (hs ! j)) [1..<length ns])) \<and>
    chain hc_HandleInactive p (pl_tail p) = Some (map (nth ns) (filter (\<lambda>j. is_inactive (hs ! j)) (rev [0..<length ns - 1])))"
proof -
  note d = reprD [OF assms]
  have l: "0 < length ns" "length ns - 1 < length ns" using d(2) by linarith+
  show ?thesis
    using chain_next [OF assms l(1)] chain_prev [OF assms l(2)] d(4,5)
    by (simp add: hc_HandleRead_def hc_HandleWrite_def hc_HandleException_def hc_HandleInactive_def)
qed

text \<open>The executor goes right behind the last codec: when the pipeline has a codec before its tail,
  \<open>serveChannel\<close> finds the last one and inserts the executor immediately after it, and without a
  codec it panics.\<close>

lemma executor_after_last_codec:
  assumes "pipeline_wf p hs" "known_handler ex" "\<not> is_codec (last hs)"
  shows "if \<exists>h\<in>set hs. is_codec h
    then \<exists>k q. insert_executor ex p = Some (Done q) \<and> k < length hs \<and> is_codec (hs ! k) \<and>
      (\<forall>j. k < j \<and> j < length hs \<longrightarrow> \<not> is_codec (hs ! j)) \<and>
      pipeline_wf q (take (Suc k) hs @ ex # drop (Suc k) hs)
    else insert_executor ex p = Some (Panicked AssertFailed)"
proof -
  obtain ns where r: "repr p ns hs" using assms(1) by (auto simp: pipeline_wf_def)
  note d = reprD [OF r]
  have l: "length ns - 1 < length ns" "hs \<noteq> []" using d(1,2) by auto
  define f where "f = find (\<lambda>j. is_codec (hs ! j)) (rev [0..<length ns])"
  have ix: "LastIndexOf is_codec p = Some (case f of Some j \<Rightarrow> int j | None \<Rightarrow> -1)"
  proof -
    obtain m where m: "length ns = Suc m" using d(2) by (cases "length ns") auto
    with index_loop_prev [OF r, of m is_codec] d(5,6) show ?thesis by (simp add: LastIndexOf_def f_def)
  qed
  show ?thesis
  proof (cases f)
    case None
    then have "\<forall>j<length hs. \<not> is_codec (hs ! j)" using d(1) by (auto simp: f_def find_None_iff)
    then have "\<not> (\<exists>h\<in>set hs. is_codec h)" by (auto simp: in_set_conv_nth)
    with ix None show ?thesis by (simp add: insert_executor_def)
  next
    case (Some k)
    note fk = find_rev_upt [OF Some [unfolded f_def]]
    have later: "\<not> is_codec (hs ! j)" if "k < j" "j < length hs" for j
    proof
      assume "is_codec (hs ! j)"
      with that d(1) have "j \<in> set (filter (\<lambda>j. is_codec (hs ! j)) (rev [0..<length ns]))" by simp
      with fk that show False by auto
    qed
    have "k \<noteq> length hs - 1" using fk assms(3) l(2) by (auto simp: last_conv_nth)
    with fk d(1) have k: "Suc k < length hs" by auto
    obtain q where "AddHandler (int k) [ex] p = Done q" "pipeline_wf q (take (Suc k) hs @ ex # drop (Suc k) hs)"
      using insert_loop_repr [OF r, of k "[ex]"] k d(1,4,6) assms(2) walk_repr [OF r, of 0 k]
      by (auto simp: AddHandler_def checkHandler_def pipeline_wf_def)
    moreover have "\<exists>h\<in>set hs. is_codec h" using fk d(1) by (metis nth_mem)
    ultimately show ?thesis using ix Some fk later d(1) by (auto simp: insert_executor_def)
  qed
qed

end
