(* ===== verification/Proto_Codec.thy ===== *)
theory Proto_Codec
  imports Varint Runtime_Core
begin

text \<open>
  The framing codec of every connection, \<open>netty/codec/format/protobuf.go\<close>: a frame is its length as a
  varint followed by a protobuf message. Over UDP a datagram holds one frame; over TCP frames are
  reassembled from arbitrary chunks. The protobuf library, the cipher and the handler that follows
  in the pipeline are the record \<open>proto_env\<close>. Because \<open>readAndDeal\<close> recovers from panics and keeps the
  effects made before them, its computations carry the state of a panic.
\<close>

datatype 's run = Ret 's | Pan 's

primrec run_bind :: "'s run \<Rightarrow> ('s \<Rightarrow> 't run) \<Rightarrow> ('s \<Rightarrow> 't) \<Rightarrow> 't run" where
  "run_bind (Ret s) f g = f s"
| "run_bind (Pan s) f g = Pan (g s)"

section \<open>Codec state and environment\<close>

record protobufCodec =
  cd_scheme :: u32
  cd_packetBuffer :: bytes
  cd_rxBuffer :: bytes
  cd_frameLength :: u32
  cd_maxFrameLength :: u32

record proto_env =
  pe_data :: "bytes \<Rightarrow> MsgDataFrame option"        \<comment> \<open>\<open>proto.Unmarshal\<close>\<close>
  pe_server :: "bytes \<Rightarrow> MsgServerFrame option"
  pe_size_server :: "MsgServerFrame \<Rightarrow> u64"
  pe_size_data :: "MsgDataFrame \<Rightarrow> u64"
  pe_size_peer :: "MsgPeerFrame \<Rightarrow> u64"
  pe_marshal_data :: "MsgDataFrame \<Rightarrow> bytes option"
  pe_marshal_peer :: "MsgPeerFrame \<Rightarrow> bytes option"
  pe_decrypt :: "MsgDataFrame \<Rightarrow> app \<Rightarrow> bytes option go"  \<comment> \<open>\<open>txBuffer[:l]\<close> when there is no error\<close>
  pe_encrypt :: "MsgDataFrame \<Rightarrow> app \<Rightarrow> bytes option go"
  pe_next :: "frame \<Rightarrow> app \<Rightarrow> app run"              \<comment> \<open>\<open>ctx.HandleRead\<close>\<close>

definition PackLength :: nat where "PackLength = 2048"
definition ExSize :: nat where "ExSize = 30"

definition MaxTcpFrame :: u32 where "MaxTcpFrame = 2 * 1024 * 1024"

definition ProtobufCodec :: "u32 \<Rightarrow> u32 \<Rightarrow> protobufCodec go" where
  "ProtobufCodec scheme maxFrameLength =
     (if maxFrameLength \<le> 0 then Panicked AssertFailed
      else Done \<lparr>cd_scheme = scheme, cd_packetBuffer = [], cd_rxBuffer = replicate PackLength 0,
                 cd_frameLength = 0, cd_maxFrameLength = maxFrameLength\<rparr>)"

section \<open>One message\<close>

definition data_message :: "proto_env \<Rightarrow> bytes \<Rightarrow> app \<Rightarrow> app run" where
  "data_message env data a =
     (case pe_data env data of
        None \<Rightarrow> Ret a
      | Some msg \<Rightarrow>
          (let a1 = SetStats (of_nat (ExSize + length (df_Data msg))) True (df_Token msg = 0) a in
           if df_Data msg \<noteq> [] then
             (case pe_decrypt env msg a1 of
                Done (Some d) \<Rightarrow> pe_next env (DataFrame (msg\<lparr>df_Data := d\<rparr>)) a1
              | Done None \<Rightarrow> pe_next env (DataFrame msg) a1
              | Panicked _ \<Rightarrow> Pan a1)
           else pe_next env (DataFrame msg) a1))"

definition server_message :: "proto_env \<Rightarrow> bytes \<Rightarrow> app \<Rightarrow> app run" where
  "server_message env data a =
     (case pe_server env data of
        None \<Rightarrow> Ret a
      | Some msg \<Rightarrow> pe_next env (ServerFrame msg) (SetStats (pe_size_server env msg) True False a))"

text \<open>\<open>data[0] == 144 && data[1] == 3\<close>: the tag of field 50 tells data frames from server frames. Indexing
  a frame that is too short panics.\<close>

definition packet_message :: "proto_env \<Rightarrow> bytes \<Rightarrow> app \<Rightarrow> app run" where
  "packet_message env data a =
     (case data of
        [] \<Rightarrow> Pan a
      | b0 # rest \<Rightarrow>
          (if b0 = 144 then
             (case rest of [] \<Rightarrow> Pan a
              | b1 # _ \<Rightarrow> if b1 = 3 then data_message env data a else server_message env data a)
           else server_message env data a))"

section \<open>Datagrams\<close>

definition udp_read :: "proto_env \<Rightarrow> bytes \<Rightarrow> protobufCodec \<Rightarrow> app \<Rightarrow> (protobufCodec \<times> app) run" where
  "udp_read env packet c a =
     (let rx = go_copy (cd_rxBuffer c) 0 packet; rn = int (min (length packet) (length (cd_rxBuffer c)));
          c1 = c\<lparr>cd_rxBuffer := rx\<rparr>; (frameLength, num) = Uvarint32 rx
      in if num = 0 \<and> rn < 5 \<or> frameLength > cd_maxFrameLength c then Ret (c1, a)
         else if num \<ge> rn - 2 then Ret (c1, a)
         else if num < 0 then Pan (c1, a)
         else let body = take (nat rn - nat num) (drop (nat num) rx) in
           (if rx ! nat num = 144 \<and> rx ! (nat num + 1) = 3
            then run_bind (data_message env body a) (\<lambda>b. Ret (c1, b)) (\<lambda>b. (c1, b))
            else run_bind (server_message env body a) (\<lambda>b. Ret (c1, b)) (\<lambda>b. (c1, b))))"

section \<open>Streams\<close>

text \<open>Reading a header from the packet buffer: incomplete or too large, an overlong varint (which panics),
  or the length and the bytes after it.\<close>

datatype header = HeadWait | HeadPanic | HeadOk u32 bytes

definition read_header :: "bytes \<Rightarrow> header" where
  "read_header buf =
     (let (frameLength, num) = Uvarint32 buf in
      if num = 0 \<and> length buf < 5 \<or> frameLength > MaxTcpFrame then HeadWait
      else if num < 0 then HeadPanic
      else HeadOk frameLength (drop (nat num) buf))"

text \<open>The loop of \<open>readAndDeal\<close> and the test after it; \<open>disp\<close> handles one message. The frame length is
  positive whenever the loop goes round: an empty frame panics in \<open>disp\<close>.\<close>

function deal_loop :: "(bytes \<Rightarrow> 's \<Rightarrow> 's run) \<Rightarrow> u32 \<Rightarrow> protobufCodec \<Rightarrow> 's \<Rightarrow> (protobufCodec \<times> 's) run" where
  "deal_loop disp frameLength c a =
     (if length (cd_packetBuffer c) > unat frameLength then
        (let data = take (unat frameLength) (cd_packetBuffer c);
             c1 = c\<lparr>cd_packetBuffer := drop (unat frameLength) (cd_packetBuffer c)\<rparr>
         in if data = [] then Pan (c1, a)
            else case disp data a of
              Pan a1 \<Rightarrow> Pan (c1, a1)
            | Ret a1 \<Rightarrow>
                (case read_header (cd_packetBuffer c1) of
                   HeadWait \<Rightarrow> Ret (c1\<lparr>cd_frameLength := 0\<rparr>, a1)
                 | HeadPanic \<Rightarrow> Pan (c1, a1)
                 | HeadOk fl rest \<Rightarrow> deal_loop disp fl (c1\<lparr>cd_frameLength := fl, cd_packetBuffer := rest\<rparr>) a1))
      else if length (cd_packetBuffer c) = unat frameLength then
        run_bind (disp (cd_packetBuffer c) a)
          (\<lambda>a1. Ret (c\<lparr>cd_packetBuffer := [], cd_frameLength := 0\<rparr>, a1))
          (\<lambda>a1. (c\<lparr>cd_packetBuffer := [], cd_frameLength := 0\<rparr>, a1))
      else Ret (c, a))"
  by pat_completeness auto

lemma read_header_shorter: "read_header buf = HeadOk fl rest \<Longrightarrow> length rest \<le> length buf"
  by (auto simp: read_header_def split: prod.splits if_splits)

termination deal_loop
  by (relation "measure (\<lambda>(disp, fl, c, a). length (cd_packetBuffer c))")
    (auto dest!: read_header_shorter simp: unat_gt_0 [symmetric])

declare deal_loop.simps [simp del]

definition deal_body :: "(bytes \<Rightarrow> 's \<Rightarrow> 's run) \<Rightarrow> protobufCodec \<Rightarrow> 's \<Rightarrow> (protobufCodec \<times> 's) run" where
  "deal_body disp c a =
     (if cd_frameLength c = 0 then
        (case read_header (cd_packetBuffer c) of
           HeadWait \<Rightarrow> Ret (c\<lparr>cd_frameLength := 0\<rparr>, a)
         | HeadPanic \<Rightarrow> Pan (c, a)
         | HeadOk fl rest \<Rightarrow> deal_loop disp fl (c\<lparr>cd_frameLength := fl, cd_packetBuffer := rest\<rparr>) a)
      else deal_loop disp (cd_frameLength c) c a)"

definition readAndDeal :: "(bytes \<Rightarrow> 's \<Rightarrow> 's run) \<Rightarrow> protobufCodec \<Rightarrow> 's \<Rightarrow> protobufCodec \<times> 's" where
  "readAndDeal disp c a =
     (case deal_body disp c a of
        Ret s \<Rightarrow> s
      | Pan (c1, a1) \<Rightarrow> (c1\<lparr>cd_frameLength := 0, cd_packetBuffer := []\<rparr>, a1))"

definition tcp_read :: "(bytes \<Rightarrow> 's \<Rightarrow> 's run) \<Rightarrow> bytes \<Rightarrow> protobufCodec \<Rightarrow> 's \<Rightarrow> protobufCodec \<times> 's" where
  "tcp_read disp chunk c a =
     (let rn = min (length chunk) (length (cd_rxBuffer c));
          c1 = c\<lparr>cd_rxBuffer := go_copy (cd_rxBuffer c) 0 chunk\<rparr>
      in readAndDeal disp (c1\<lparr>cd_packetBuffer := cd_packetBuffer c1 @ take rn chunk\<rparr>) a)"

text \<open>\<open>HandleRead\<close>: one read of the transport; \<open>err\<close> says that the read returned an error.\<close>

definition codec_HandleRead :: "proto_env \<Rightarrow> bytes \<Rightarrow> bool \<Rightarrow> protobufCodec \<Rightarrow> app \<Rightarrow> (protobufCodec \<times> app) run" where
  "codec_HandleRead env chunk err c a =
     (if chunk = [] \<and> err then Ret (c, a)
      else if cd_scheme c \<noteq> 0 then udp_read env chunk c a
      else Ret (tcp_read (packet_message env) chunk c a))"

section \<open>Writing\<close>

definition put_header :: "nat \<Rightarrow> bytes go" where
  "put_header n = go_map (\<lambda>(buf, k). take k buf) (PutUvarint32 (replicate 5 0) (of_nat n))"

text \<open>\<open>HandleWrite\<close>: the statistics and the marshalled message, with the payload of a packet frame
  encrypted first when the cipher accepts it. A panic of the cipher ends the call.\<close>

definition codec_payload :: "proto_env \<Rightarrow> frame \<Rightarrow> app \<Rightarrow> app \<times> bytes option" where
  "codec_payload env m a = (case m of
     DataFrame d \<Rightarrow>
       (if df_MsgType d = Msg_Packet then
          (let send = (\<lambda>d1. (SetStats (of_nat (ExSize + length (df_Data d1))) False (df_Token d1 = 0) a,
                              pe_marshal_data env d1)) in
           if df_Data d \<noteq> [] then
             (case pe_encrypt env d a of
                Done (Some e) \<Rightarrow> send (d\<lparr>df_Data := e\<rparr>)
              | Done None \<Rightarrow> send d
              | Panicked _ \<Rightarrow> (a, None))
           else send d)
        else (SetStats (pe_size_data env d) False (df_Token d = 0) a, pe_marshal_data env d))
   | PeerFrame p \<Rightarrow> (SetStats (pe_size_peer env p) False (pf_Token p = 0) a, pe_marshal_peer env p)
   | ServerFrame _ \<Rightarrow> (a, None))"

text \<open>The byte slices handed to the next outbound handler, if any; a panic is recovered and nothing is
  written. A server frame, which a peer never writes, is not convertible to bytes and panics.\<close>

definition codec_HandleWrite :: "proto_env \<Rightarrow> frame \<Rightarrow> app \<Rightarrow> app \<times> bytes list option" where
  "codec_HandleWrite env m a =
     (let (a1, payload) = codec_payload env m a
      in (a1, case payload of
           None \<Rightarrow> None
         | Some data \<Rightarrow>
             (case put_header (length data) of
                Done head \<Rightarrow> Some [head, data]
              | Panicked _ \<Rightarrow> None)))"

section \<open>Reassembly\<close>

text \<open>The wire format of a frame, the frames that can be sent, and the bytes a codec has taken from the
  stream and not yet delivered.\<close>

definition enc :: "bytes \<Rightarrow> bytes" where
  "enc f = uvarint_bytes (of_nat (length f)) @ f"

definition sendable :: "bytes \<Rightarrow> bool" where
  "sendable f \<longleftrightarrow> 0 < length f \<and> length f \<le> unat MaxTcpFrame"

definition pending :: "protobufCodec \<Rightarrow> bytes" where
  "pending c = (if cd_frameLength c = 0 then cd_packetBuffer c
                else uvarint_bytes (cd_frameLength c) @ cd_packetBuffer c)"

lemma enc_nonempty [simp]: "enc f \<noteq> []"
  by (simp add: enc_def)

lemma sendable_length:
  assumes "sendable f"
  shows "unat (of_nat (length f) :: u32) = length f" "(of_nat (length f) :: u32) \<noteq> 0"
    "(of_nat (length f) :: u32) \<le> MaxTcpFrame"
proof -
  have "length f < 2 ^ 32" using assms by (simp add: sendable_def MaxTcpFrame_def)
  then show e: "unat (of_nat (length f) :: u32) = length f"
    by (simp add: unsigned_of_nat take_bit_eq_mod)
  show "(of_nat (length f) :: u32) \<noteq> 0"
    using e assms by (auto simp: sendable_def)
  show "(of_nat (length f) :: u32) \<le> MaxTcpFrame"
    using assms by (simp add: word_le_nat_alt e sendable_def)
qed

lemma append_prefix_cases:
  assumes "xs @ ys = us @ vs"
  shows "(length xs < length us \<and> xs = take (length xs) us) \<or> (\<exists>zs. xs = us @ zs \<and> zs @ ys = vs)"
  using assms by (auto simp: append_eq_append_conv2)

text \<open>Reading a header at a frame boundary of a stream, of which \<open>buf\<close> has arrived.\<close>

lemma read_header_stream:
  assumes "buf @ R = concat (map enc fs)" "\<forall>f \<in> set fs. sendable f"
  shows "(read_header buf = HeadWait \<and> (fs \<noteq> [] \<longrightarrow> length buf < length (enc (hd fs)))) \<or>
    (\<exists>g gs rest. fs = g # gs \<and> read_header buf = HeadOk (of_nat (length g)) rest \<and>
       rest @ R = g @ concat (map enc gs))"
proof (cases fs)
  case Nil
  then show ?thesis using assms by (simp add: read_header_def Uvarint32_def)
next
  case (Cons g gs)
  let ?h = "uvarint_bytes (of_nat (length g))"
  have g: "sendable g" using assms Cons by simp
  have "buf @ R = ?h @ (g @ concat (map enc gs))" using assms Cons by (simp add: enc_def)
  from append_prefix_cases [OF this] show ?thesis
  proof
    assume p: "length buf < length ?h \<and> buf = take (length buf) ?h"
    then have "Uvarint32 buf = (0, 0)" using Uvarint32_prefix by metis
    moreover have "length buf < 5" using p length_uvarint_bytes_max [of "of_nat (length g)"] by linarith
    ultimately show ?thesis using p Cons by (simp add: read_header_def enc_def)
  next
    assume "\<exists>zs. buf = ?h @ zs \<and> zs @ R = g @ concat (map enc gs)"
    then obtain zs where z: "buf = ?h @ zs" "zs @ R = g @ concat (map enc gs)" by auto
    have "read_header buf = HeadOk (of_nat (length g)) zs"
      using sendable_length [OF g] by (auto simp: read_header_def z(1) Uvarint32_encoded not_less)
    with z Cons show ?thesis by blast
  qed
qed

text \<open>What one round of dealing leaves: a split of the frames into delivered ones and the rest, the
  first of which is incomplete.\<close>

definition dealt :: "(bytes \<Rightarrow> 's \<Rightarrow> 's) \<Rightarrow> bytes list \<Rightarrow> bytes \<Rightarrow> protobufCodec \<Rightarrow> 's \<Rightarrow> protobufCodec \<times> 's \<Rightarrow> bool" where
  "dealt deliver fs R c a r \<longleftrightarrow>
     (\<exists>gs hs. fs = gs @ hs \<and> snd r = fold deliver gs a \<and> pending (fst r) @ R = concat (map enc hs) \<and>
        (hs \<noteq> [] \<longrightarrow> length (pending (fst r)) < length (enc (hd hs))) \<and>
        cd_rxBuffer (fst r) = cd_rxBuffer c \<and> cd_scheme (fst r) = cd_scheme c)"

lemma dealt_Cons:
  assumes "dealt deliver fs R c1 (deliver f a) r" "cd_rxBuffer c1 = cd_rxBuffer c" "cd_scheme c1 = cd_scheme c"
  shows "dealt deliver (f # fs) R c a r"
proof -
  obtain gs hs where "fs = gs @ hs" "snd r = fold deliver gs (deliver f a)"
    "pending (fst r) @ R = concat (map enc hs)"
    "hs \<noteq> [] \<longrightarrow> length (pending (fst r)) < length (enc (hd hs))"
    "cd_rxBuffer (fst r) = cd_rxBuffer c1" "cd_scheme (fst r) = cd_scheme c1"
    using assms(1) by (auto simp: dealt_def)
  then show ?thesis
    unfolding dealt_def using assms(2,3) by (intro exI [of _ "f # gs"] exI [of _ hs]) simp
qed

lemma dealt_nothing:
  assumes "pending c' @ R = concat (map enc fs)" "fs \<noteq> [] \<longrightarrow> length (pending c') < length (enc (hd fs))"
    "cd_rxBuffer c' = cd_rxBuffer c" "cd_scheme c' = cd_scheme c"
  shows "dealt deliver fs R c a (c', a)"
  unfolding dealt_def using assms by (intro exI [of _ "[]"] exI [of _ fs]) simp

lemma deal_loop_stream:
  assumes "\<forall>f \<in> set (f # fs). sendable f \<and> (\<forall>a. disp f a = Ret (deliver f a))"
    "cd_packetBuffer c @ R = f @ concat (map enc fs)" "cd_frameLength c = of_nat (length f)"
  shows "\<exists>r. deal_loop disp (of_nat (length f)) c a = Ret r \<and> dealt deliver (f # fs) R c a r"
  using assms
proof (induction fs arbitrary: f c a rule: length_induct)
  case (1 fs f c a)
  let ?n = "of_nat (length f) :: u32" and ?buf = "cd_packetBuffer c"
  have f: "unat ?n = length f" "?n \<noteq> 0" "f \<noteq> []" and d: "disp f a = Ret (deliver f a)"
    using 1(2) sendable_length [of f] by (auto simp: sendable_def)
  have h: "pending c = uvarint_bytes ?n @ ?buf" using f(2) 1(4) by (simp add: pending_def)
  from append_prefix_cases [OF 1(3)] show ?case
  proof
    assume p: "length ?buf < length f \<and> ?buf = take (length ?buf) f"
    have "dealt deliver (f # fs) R c a (c, a)"
      by (rule dealt_nothing) (use p 1(3) in \<open>simp_all add: h enc_def [of f]\<close>)
    moreover have "deal_loop disp ?n c a = Ret (c, a)"
      using p f by (subst deal_loop.simps) simp
    ultimately show ?thesis by blast
  next
    assume "\<exists>zs. ?buf = f @ zs \<and> zs @ R = concat (map enc fs)"
    then obtain zs where z: "?buf = f @ zs" "zs @ R = concat (map enc fs)" by auto
    show ?thesis
    proof (cases "zs = []")
      case True
      let ?c = "c\<lparr>cd_packetBuffer := [], cd_frameLength := 0\<rparr>"
      have "dealt deliver fs R ?c (deliver f a) (?c, deliver f a)"
        by (rule dealt_nothing) (use z True in \<open>simp_all add: pending_def\<close>)
      then have "dealt deliver (f # fs) R c a (?c, deliver f a)" by (rule dealt_Cons) simp_all
      moreover have "deal_loop disp ?n c a = Ret (?c, deliver f a)"
        using z True f d by (subst deal_loop.simps) simp
      ultimately show ?thesis by blast
    next
      case False
      let ?c = "c\<lparr>cd_packetBuffer := zs\<rparr>"
      have e: "deal_loop disp ?n c a = (case read_header zs of
            HeadWait \<Rightarrow> Ret (?c\<lparr>cd_frameLength := 0\<rparr>, deliver f a)
          | HeadPanic \<Rightarrow> Pan (?c, deliver f a)
          | HeadOk fl rest \<Rightarrow>
              deal_loop disp fl (?c\<lparr>cd_frameLength := fl, cd_packetBuffer := rest\<rparr>) (deliver f a))"
        using z False f d by (subst deal_loop.simps) (simp add: Let_def)
      have "\<forall>f \<in> set fs. sendable f" using 1(2) by simp
      from read_header_stream [OF z(2) this] show ?thesis
      proof
        assume w: "read_header zs = HeadWait \<and> (fs \<noteq> [] \<longrightarrow> length zs < length (enc (hd fs)))"
        have "dealt deliver fs R ?c (deliver f a) (?c\<lparr>cd_frameLength := 0\<rparr>, deliver f a)"
          by (rule dealt_nothing) (use z w in \<open>simp_all add: pending_def\<close>)
        then have "dealt deliver (f # fs) R c a (?c\<lparr>cd_frameLength := 0\<rparr>, deliver f a)"
          by (rule dealt_Cons) simp_all
        then show ?thesis using e w by simp
      next
        assume "\<exists>g gs rest. fs = g # gs \<and> read_header zs = HeadOk (of_nat (length g)) rest \<and>
            rest @ R = g @ concat (map enc gs)"
        then obtain g gs rest where g: "fs = g # gs" "read_header zs = HeadOk (of_nat (length g)) rest"
          "rest @ R = g @ concat (map enc gs)" by blast
        let ?c' = "?c\<lparr>cd_frameLength := of_nat (length g), cd_packetBuffer := rest\<rparr>"
        obtain r where r: "deal_loop disp (of_nat (length g)) ?c' (deliver f a) = Ret r"
            "dealt deliver (g # gs) R ?c' (deliver f a) r"
          using 1(1) [rule_format, of gs g ?c' "deliver f a"] 1(2) g by auto
        have "dealt deliver (f # g # gs) R c a r" by (rule dealt_Cons [OF r(2)]) simp_all
        then show ?thesis using e g r(1) by simp
      qed
    qed
  qed
qed

lemma readAndDeal_stream:
  assumes "\<forall>f \<in> set fs. sendable f \<and> (\<forall>a. disp f a = Ret (deliver f a))"
    "pending c @ R = concat (map enc fs)"
  shows "dealt deliver fs R c a (readAndDeal disp c a)"
proof -
  have v: "\<forall>f \<in> set fs. sendable f" using assms(1) by simp
  have "\<exists>r. deal_body disp c a = Ret r \<and> dealt deliver fs R c a r"
  proof (cases "cd_frameLength c = 0")
    case True
    then have b: "cd_packetBuffer c @ R = concat (map enc fs)" using assms(2) by (simp add: pending_def)
    from read_header_stream [OF b v] show ?thesis
    proof
      assume w: "read_header (cd_packetBuffer c) = HeadWait \<and>
        (fs \<noteq> [] \<longrightarrow> length (cd_packetBuffer c) < length (enc (hd fs)))"
      have "dealt deliver fs R c a (c\<lparr>cd_frameLength := 0\<rparr>, a)"
        by (rule dealt_nothing) (use b w in \<open>simp_all add: pending_def\<close>)
      then show ?thesis using True w by (simp add: deal_body_def)
    next
      assume "\<exists>g gs rest. fs = g # gs \<and> read_header (cd_packetBuffer c) = HeadOk (of_nat (length g)) rest \<and>
            rest @ R = g @ concat (map enc gs)"
      then obtain g gs rest where g: "fs = g # gs"
        "read_header (cd_packetBuffer c) = HeadOk (of_nat (length g)) rest"
        "rest @ R = g @ concat (map enc gs)" by blast
      let ?c = "c\<lparr>cd_frameLength := of_nat (length g), cd_packetBuffer := rest\<rparr>"
      have "\<exists>r. deal_loop disp (of_nat (length g)) ?c a = Ret r \<and> dealt deliver (g # gs) R ?c a r"
        by (rule deal_loop_stream) (use assms(1) g in simp_all)
      then show ?thesis using True g by (simp add: deal_body_def dealt_def)
    qed
  next
    case False
    then have b: "uvarint_bytes (cd_frameLength c) @ cd_packetBuffer c @ R = concat (map enc fs)"
      using assms(2) by (simp add: pending_def)
    then obtain g gs where g: "fs = g # gs" by (cases fs) auto
    have s: "sendable g" using v g by simp
    have "Uvarint32 (uvarint_bytes (cd_frameLength c) @ cd_packetBuffer c @ R) =
        Uvarint32 (uvarint_bytes (of_nat (length g)) @ g @ concat (map enc gs))"
      using b g by (simp add: enc_def)
    then have fl: "cd_frameLength c = of_nat (length g)" by (simp add: Uvarint32_encoded)
    then have "cd_packetBuffer c @ R = g @ concat (map enc gs)" using b g by (simp add: enc_def)
    with fl assms(1) g have "\<exists>r. deal_loop disp (of_nat (length g)) c a = Ret r \<and> dealt deliver (g # gs) R c a r"
      by (intro deal_loop_stream) simp_all
    then show ?thesis using False g fl by (simp add: deal_body_def)
  qed
  then show ?thesis by (auto simp: readAndDeal_def)
qed

text \<open>Any number of reads.\<close>

fun tcp_reads :: "(bytes \<Rightarrow> 's \<Rightarrow> 's run) \<Rightarrow> bytes list \<Rightarrow> protobufCodec \<times> 's \<Rightarrow> protobufCodec \<times> 's" where
  "tcp_reads disp [] s = s"
| "tcp_reads disp (chunk # chunks) s = tcp_reads disp chunks (tcp_read disp chunk (fst s) (snd s))"

lemma tcp_read_stream:
  assumes "\<forall>f \<in> set fs. sendable f \<and> (\<forall>a. disp f a = Ret (deliver f a))"
    "pending c @ chunk @ R = concat (map enc fs)" "length chunk \<le> length (cd_rxBuffer c)"
  shows "\<exists>gs hs. fs = gs @ hs \<and> snd (tcp_read disp chunk c a) = fold deliver gs a \<and>
    pending (fst (tcp_read disp chunk c a)) @ R = concat (map enc hs) \<and>
    (hs \<noteq> [] \<longrightarrow> length (pending (fst (tcp_read disp chunk c a))) < length (enc (hd hs))) \<and>
    length (cd_rxBuffer (fst (tcp_read disp chunk c a))) = length (cd_rxBuffer c)"
proof -
  define c1 where "c1 = c\<lparr>cd_rxBuffer := go_copy (cd_rxBuffer c) 0 chunk, cd_packetBuffer := cd_packetBuffer c @ chunk\<rparr>"
  have e: "tcp_read disp chunk c a = readAndDeal disp c1 a"
    using assms(3) by (simp add: tcp_read_def c1_def Let_def min_absorb1)
  have "pending c1 @ R = concat (map enc fs)"
    using assms(2) by (simp add: pending_def c1_def split: if_splits)
  from readAndDeal_stream [OF assms(1) this, of a]
  obtain gs hs where "fs = gs @ hs" "snd (readAndDeal disp c1 a) = fold deliver gs a"
    "pending (fst (readAndDeal disp c1 a)) @ R = concat (map enc hs)"
    "hs \<noteq> [] \<longrightarrow> length (pending (fst (readAndDeal disp c1 a))) < length (enc (hd hs))"
    "cd_rxBuffer (fst (readAndDeal disp c1 a)) = cd_rxBuffer c1"
    by (auto simp: dealt_def)
  moreover have "length (cd_rxBuffer c1) = length (cd_rxBuffer c)" by (simp add: c1_def)
  ultimately show ?thesis by (intro exI [of _ gs] exI [of _ hs]) (simp add: e)
qed

lemma tcp_reads_stream:
  assumes "\<forall>f \<in> set fs. sendable f \<and> (\<forall>a. disp f a = Ret (deliver f a))"
    "pending c @ concat chunks @ R = concat (map enc fs)"
    "\<forall>k \<in> set chunks. length k \<le> length (cd_rxBuffer c)" "chunks \<noteq> []"
  shows "\<exists>gs hs. fs = gs @ hs \<and> snd (tcp_reads disp chunks (c, a)) = fold deliver gs a \<and>
    pending (fst (tcp_reads disp chunks (c, a))) @ R = concat (map enc hs) \<and>
    (hs \<noteq> [] \<longrightarrow> length (pending (fst (tcp_reads disp chunks (c, a)))) < length (enc (hd hs)))"
  using assms
proof (induction chunks arbitrary: fs c a)
  case Nil
  then show ?case by simp
next
  case (Cons k ks fs c a)
  obtain c1 a1 where r: "tcp_read disp k c a = (c1, a1)" by force
  have "pending c @ k @ (concat ks @ R) = concat (map enc fs)" using Cons.prems(2) by simp
  from tcp_read_stream [OF Cons.prems(1) this, of a] Cons.prems(3) r
  obtain gs hs where g: "fs = gs @ hs" "a1 = fold deliver gs a" "pending c1 @ concat ks @ R = concat (map enc hs)"
    "hs \<noteq> [] \<longrightarrow> length (pending c1) < length (enc (hd hs))" "length (cd_rxBuffer c1) = length (cd_rxBuffer c)"
    by auto
  show ?case
  proof (cases "ks = []")
    case True
    then show ?thesis using g r by auto
  next
    case False
    have "\<exists>gs' hs'. hs = gs' @ hs' \<and> snd (tcp_reads disp ks (c1, a1)) = fold deliver gs' a1 \<and>
        pending (fst (tcp_reads disp ks (c1, a1))) @ R = concat (map enc hs') \<and>
        (hs' \<noteq> [] \<longrightarrow> length (pending (fst (tcp_reads disp ks (c1, a1)))) < length (enc (hd hs')))"
      by (rule Cons.IH) (use Cons.prems g False in auto)
    then obtain gs' hs' where g': "hs = gs' @ hs'" "snd (tcp_reads disp ks (c1, a1)) = fold deliver gs' a1"
        "pending (fst (tcp_reads disp ks (c1, a1))) @ R = concat (map enc hs')"
        "hs' \<noteq> [] \<longrightarrow> length (pending (fst (tcp_reads disp ks (c1, a1)))) < length (enc (hd hs'))"
      by blast
    then show ?thesis
      using g r by (intro exI [of _ "gs @ gs'"] exI [of _ hs']) simp
  qed
qed

section \<open>Delivery\<close>

primrec run_state :: "'s run \<Rightarrow> 's" where
  "run_state (Ret s) = s"
| "run_state (Pan s) = s"

definition deliver :: "proto_env \<Rightarrow> bytes \<Rightarrow> app \<Rightarrow> app" where
  "deliver env f a = run_state (packet_message env f a)"

definition next_returns :: "proto_env \<Rightarrow> bool" where
  "next_returns env \<longleftrightarrow> (\<forall>m a. \<exists>b. pe_next env m a = Ret b)"

text \<open>The cipher does not panic on the payload of this frame.\<close>

definition decrypts :: "proto_env \<Rightarrow> bytes \<Rightarrow> bool" where
  "decrypts env f \<longleftrightarrow> (\<forall>msg a. pe_data env f = Some msg \<longrightarrow> is_done (pe_decrypt env msg a))"

fun codec_reads :: "proto_env \<Rightarrow> bytes list \<Rightarrow> protobufCodec \<times> app \<Rightarrow> (protobufCodec \<times> app) run" where
  "codec_reads env [] s = Ret s"
| "codec_reads env (k # ks) s =
     run_bind (codec_HandleRead env k False (fst s) (snd s)) (codec_reads env ks) (\<lambda>t. t)"

lemma packet_message_Ret:
  assumes "next_returns env" "decrypts env f" "2 \<le> length f"
  shows "packet_message env f a = Ret (deliver env f a)"
proof -
  obtain b0 b1 r where f: "f = b0 # b1 # r"
    using assms(3) by (cases f; cases "tl f") auto
  have "\<exists>b. data_message env f a = Ret b"
    using assms(1,2) by (auto simp: data_message_def next_returns_def decrypts_def Let_def split: option.split go.split)
      (metis is_done.simps(2))
  moreover have "\<exists>b. server_message env f a = Ret b"
    using assms(1) by (simp add: server_message_def next_returns_def split: option.split)
  ultimately have "\<exists>b. packet_message env f a = Ret b" by (auto simp: f packet_message_def)
  then show ?thesis by (auto simp: deliver_def)
qed

lemma deal_loop_scheme: "cd_scheme (fst (run_state (deal_loop disp fl c a))) = cd_scheme c"
proof (induction disp fl c a rule: deal_loop.induct)
  case (1 disp fl c a)
  show ?case
    by (subst deal_loop.simps, cases "disp (cd_packetBuffer c) a")
      (use 1 in \<open>simp_all add: Let_def split: run.split header.split\<close>)
qed

lemma deal_body_scheme: "cd_scheme (fst (run_state (deal_body disp c a))) = cd_scheme c"
  by (simp add: deal_body_def deal_loop_scheme split: header.split)

lemma tcp_read_scheme [simp]: "cd_scheme (fst (tcp_read disp k c a)) = cd_scheme c"
proof -
  have "cd_scheme (fst (readAndDeal disp d b)) = cd_scheme d" for d b
    using deal_body_scheme [of disp d b] by (cases "deal_body disp d b") (auto simp: readAndDeal_def)
  then show ?thesis by (simp add: tcp_read_def Let_def)
qed

lemma codec_reads_tcp:
  "cd_scheme (fst s) = 0 \<Longrightarrow> codec_reads env ks s = Ret (tcp_reads (packet_message env) ks s)"
  by (induction ks arbitrary: s) (simp_all add: codec_HandleRead_def)

lemma put_header_Done: "put_header n = Done (uvarint_bytes (of_nat n))"
  using put_uvarint_loop_eq [of 0 "of_nat n" "replicate 5 0"] length_uvarint_bytes_max [of "of_nat n"]
  by (simp add: put_header_def PutUvarint32_def)

lemma packet_message_long:
  "2 \<le> length f \<Longrightarrow> packet_message env f a =
     (if f ! 0 = 144 \<and> f ! 1 = 3 then data_message env f a else server_message env f a)"
  by (cases f; cases "tl f") (auto simp: packet_message_def)

lemma udp_read_enc:
  assumes "3 \<le> length f" "length (enc f) \<le> length (cd_rxBuffer c)" "length f \<le> unat (cd_maxFrameLength c)"
  shows "udp_read env (enc f) c a =
    (let c1 = c\<lparr>cd_rxBuffer := go_copy (cd_rxBuffer c) 0 (enc f)\<rparr>
     in run_bind (packet_message env f a) (\<lambda>b. Ret (c1, b)) (\<lambda>b. (c1, b)))"
proof -
  let ?h = "uvarint_bytes (of_nat (length f))" and ?rest = "drop (length (enc f)) (cd_rxBuffer c)"
  let ?rx = "?h @ f @ ?rest"
  have rx: "go_copy (cd_rxBuffer c) 0 (enc f) = ?rx"
    using assms(2) by (simp add: go_copy_0 enc_def)
  have l: "unat (of_nat (length f) :: u32) = length f"
    using assms(3) unsigned_less [of "cd_maxFrameLength c", where 'a = nat]
    by (simp add: unsigned_of_nat take_bit_eq_mod)
  have m: "\<not> cd_maxFrameLength c < (of_nat (length f) :: u32)"
    using assms(3) by (simp add: word_less_nat_alt l)
  have u: "Uvarint32 ?rx = (of_nat (length f), int (length ?h))"
    by (rule Uvarint32_encoded)
  have n: "length (enc f) = length ?h + length f" by (simp add: enc_def)
  have i: "?rx ! length ?h = f ! 0" "?rx ! (length ?h + 1) = f ! 1"
    using assms(1) by (auto simp: nth_append)
  have b: "take (nat (int (length (enc f))) - nat (int (length ?h))) (drop (nat (int (length ?h))) ?rx) = f"
    by (simp add: n)
  have g: "\<not> (int (length ?h) = 0 \<and> int (length (enc f)) < 5 \<or> cd_maxFrameLength c < (of_nat (length f) :: u32))"
    "\<not> int (length ?h) \<ge> int (length (enc f)) - 2" "\<not> int (length ?h) < 0"
    using m assms(1) by (simp_all add: n)
  show ?thesis
    unfolding udp_read_def Let_def rx u prod.case min_absorb1 [OF assms(2)] if_not_P [OF g(1)]
      if_not_P [OF g(2)] if_not_P [OF g(3)] b
    using assms(1) i by (simp add: packet_message_long)
qed

text \<open>An unreadable header stays unreadable when more bytes follow.\<close>

lemma uvarint_loop_append:
  "snd (uvarint_loop bs i x s) \<noteq> 0 \<Longrightarrow> uvarint_loop (bs @ cs) i x s = uvarint_loop bs i x s"
  by (induction bs i x s rule: uvarint_loop.induct) auto

lemma oversized_stays:
  assumes "MaxTcpFrame < fst (Uvarint32 buf)"
  shows "Uvarint32 (buf @ cs) = Uvarint32 buf"
proof -
  have "snd (Uvarint32 buf) \<noteq> 0"
    using Uvarint32_bounds(2) [of buf "fst (Uvarint32 buf)" "snd (Uvarint32 buf)"] assms by auto
  then show ?thesis by (simp add: Uvarint32_def uvarint_loop_append)
qed

lemma tcp_reads_oversized:
  assumes "MaxTcpFrame < fst (Uvarint32 (cd_packetBuffer c))" "cd_frameLength c = 0"
    "\<forall>k \<in> set ks. length k \<le> length (cd_rxBuffer c)"
  shows "\<exists>rx. tcp_reads disp ks (c, a) =
    (c\<lparr>cd_rxBuffer := rx, cd_packetBuffer := cd_packetBuffer c @ concat ks\<rparr>, a)"
  using assms
proof (induction ks arbitrary: c)
  case Nil
  then show ?case by (intro exI [of _ "cd_rxBuffer c"]) simp
next
  case (Cons k ks c)
  let ?c = "c\<lparr>cd_rxBuffer := go_copy (cd_rxBuffer c) 0 k, cd_packetBuffer := cd_packetBuffer c @ k\<rparr>"
  have h: "read_header (cd_packetBuffer c @ k) = HeadWait"
    using Cons.prems(1) by (cases "Uvarint32 (cd_packetBuffer c)") (simp add: read_header_def oversized_stays)
  have "tcp_read disp k c a = (?c, a)"
    using Cons.prems h by (simp add: tcp_read_def readAndDeal_def deal_body_def Let_def min_absorb1)
  moreover have "\<exists>rx. tcp_reads disp ks (?c, a) =
      (?c\<lparr>cd_rxBuffer := rx, cd_packetBuffer := cd_packetBuffer ?c @ concat ks\<rparr>, a)"
    by (rule Cons.IH) (use Cons.prems in \<open>simp_all add: oversized_stays\<close>)
  ultimately show ?case by auto
qed

section \<open>Properties\<close>

text \<open>(C2) Stream reassembly. A fresh stream codec fed the wire form of frames of two bytes up to 2 MB
  on which the cipher does not panic,
  of which \<open>R\<close> has not arrived yet, cut into reads of any size, never panics; it has handed on exactly
  the frames that arrived completely, in order and once each, and holds a proper part of the next one.
  When everything has arrived, everything has been handed on.\<close>

theorem tcp_reassembly:
  assumes "ProtobufCodec 0 mx = Done c" "next_returns env"
    and "\<forall>f \<in> set fs. 2 \<le> length f \<and> length f \<le> 2 * 1024 * 1024 \<and> decrypts env f"
    and "concat chunks @ R = concat (map enc fs)"
    and "\<forall>k \<in> set chunks. length k \<le> PackLength" "chunks \<noteq> []"
  shows "\<exists>c' gs hs. codec_reads env chunks (c, a) = Ret (c', fold (deliver env) gs a) \<and> fs = gs @ hs \<and>
    pending c' @ R = concat (map enc hs) \<and> (hs \<noteq> [] \<longrightarrow> length (pending c') < length (enc (hd hs))) \<and>
    (R = [] \<longrightarrow> gs = fs \<and> cd_packetBuffer c' = [] \<and> cd_frameLength c' = 0)"
proof -
  have c: "cd_scheme c = 0" "pending c = []" "length (cd_rxBuffer c) = PackLength"
    using assms(1) by (auto simp: ProtobufCodec_def pending_def split: if_splits)
  have f: "\<forall>f \<in> set fs. sendable f \<and> (\<forall>a. packet_message env f a = Ret (deliver env f a))"
    using assms(2,3) by (auto simp: sendable_def MaxTcpFrame_def packet_message_Ret)
  have s: "pending c @ concat chunks @ R = concat (map enc fs)"
    "\<forall>k \<in> set chunks. length k \<le> length (cd_rxBuffer c)"
    using assms(4,5) c by simp_all
  obtain c' a' where r: "tcp_reads (packet_message env) chunks (c, a) = (c', a')" by force
  from tcp_reads_stream [OF f s assms(6), of a] obtain gs hs where g: "fs = gs @ hs"
    "a' = fold (deliver env) gs a" "pending c' @ R = concat (map enc hs)"
    "hs \<noteq> [] \<longrightarrow> length (pending c') < length (enc (hd hs))" by (auto simp: r)
  have "hs = [] \<and> pending c' = []" if "R = []"
    using g that by (cases hs) auto
  then have "R = [] \<longrightarrow> gs = fs \<and> cd_packetBuffer c' = [] \<and> cd_frameLength c' = 0"
    using g(1) by (auto simp: pending_def split: if_splits)
  then show ?thesis using g r c by (auto simp: codec_reads_tcp)
qed

text \<open>An environment whose decoders accept nothing.\<close>

definition silent_env :: proto_env where
  "silent_env = \<lparr>pe_data = (\<lambda>_. None), pe_server = (\<lambda>_. None), pe_size_server = (\<lambda>_. 0),
     pe_size_data = (\<lambda>_. 0), pe_size_peer = (\<lambda>_. 0), pe_marshal_data = (\<lambda>_. Some [144, 3, 7]),
     pe_marshal_peer = (\<lambda>_. Some [8, 1, 2, 3]), pe_decrypt = (\<lambda>_ _. Done None), pe_encrypt = (\<lambda>_ _. Done None),
     pe_next = (\<lambda>_ a. Ret a)\<rparr>"

definition fresh_codec :: "u32 \<Rightarrow> protobufCodec" where
  "fresh_codec scheme = \<lparr>cd_scheme = scheme, cd_packetBuffer = [], cd_rxBuffer = replicate PackLength 0,
     cd_frameLength = 0, cd_maxFrameLength = 2048\<rparr>"

lemma silent_env_returns: "next_returns silent_env" "decrypts silent_env f"
  by (simp_all add: next_returns_def decrypts_def silent_env_def)

lemma fresh_codec_made: "ProtobufCodec s 2048 = Done (fresh_codec s)"
  by (simp add: ProtobufCodec_def fresh_codec_def)

theorem tcp_reassembly_witness:
  "\<exists>c' gs hs. codec_reads silent_env [[3], [8, 1], [2, 2, 9]] (fresh_codec 0, new_app sample_config) =
      Ret (c', fold (deliver silent_env) gs (new_app sample_config)) \<and> [[8, 1, 2], [9, 9]] = gs @ hs \<and>
    pending c' @ [9] = concat (map enc hs) \<and> (hs \<noteq> [] \<longrightarrow> length (pending c') < length (enc (hd hs))) \<and>
    ([9::u8] = [] \<longrightarrow> gs = [[8, 1, 2], [9, 9]] \<and> cd_packetBuffer c' = [] \<and> cd_frameLength c' = 0)"
  by (rule tcp_reassembly [of 2048 "fresh_codec 0" silent_env "[[8, 1, 2], [9, 9]]" "[[3], [8, 1], [2, 2, 9]]" "[9]"])
    (simp_all add: fresh_codec_made silent_env_returns enc_def uvarint_bytes_small PackLength_def)

text \<open>(C25) Write and read over datagrams: whatever \<open>HandleWrite\<close> sends is the varint length followed by
  the marshalled message, and a receiving codec that gets it as one datagram hands on exactly that
  message: the header and the rest of the receive buffer never reach the decoder.\<close>

theorem udp_write_read:
  assumes "codec_HandleWrite env m a = (a1, Some parts)" "ProtobufCodec scheme mx = Done c" "scheme \<noteq> 0"
    and "length (concat parts) \<le> PackLength" "length (concat parts) \<le> unat mx"
  shows "\<exists>payload. codec_payload env m a = (a1, Some payload) \<and> concat parts = enc payload \<and>
    (3 \<le> length payload \<longrightarrow>
      (\<exists>c1. codec_HandleRead env' (concat parts) err c b =
        run_bind (packet_message env' payload b) (\<lambda>b'. Ret (c1, b')) (\<lambda>b'. (c1, b'))))"
proof -
  obtain payload where p: "codec_payload env m a = (a1, Some payload)" "concat parts = enc payload"
    using assms(1) by (auto simp: codec_HandleWrite_def put_header_Done enc_def split: prod.splits option.splits)
  have c: "cd_scheme c = scheme" "cd_maxFrameLength c = mx" "length (cd_rxBuffer c) = PackLength"
    using assms(2) by (auto simp: ProtobufCodec_def split: if_splits)
  have l: "length payload \<le> length (enc payload)" by (simp add: enc_def)
  have "codec_HandleRead env' (concat parts) err c b = udp_read env' (enc payload) c b"
    using assms(3) c p by (simp add: codec_HandleRead_def)
  moreover have "3 \<le> length payload \<Longrightarrow> \<exists>c1. udp_read env' (enc payload) c b =
        run_bind (packet_message env' payload b) (\<lambda>b'. Ret (c1, b')) (\<lambda>b'. (c1, b'))"
    by (subst udp_read_enc) (use assms(4,5) c p l in \<open>auto simp: Let_def\<close>)
  ultimately show ?thesis using p by auto
qed

theorem udp_write_read_witness:
  "\<exists>payload. codec_payload silent_env (PeerFrame (peer_frame Msg_Ping 1 2)) (new_app sample_config) =
      (new_app sample_config, Some payload) \<and> concat [[4], [8, 1, 2, 3]] = enc payload \<and>
    (3 \<le> length payload \<longrightarrow>
      (\<exists>c1. codec_HandleRead silent_env (concat [[4], [8, 1, 2, 3]]) False (fresh_codec 1) (new_app sample_config) =
        run_bind (packet_message silent_env payload (new_app sample_config)) (\<lambda>b'. Ret (c1, b')) (\<lambda>b'. (c1, b'))))"
  by (rule udp_write_read [of _ _ _ _ _ 1 2048])
    (simp_all add: fresh_codec_made PackLength_def codec_HandleWrite_def codec_payload_def silent_env_def
      put_header_Done uvarint_bytes_small SetStats_def new_app_def NewRuntimeService_def)

text \<open>A datagram that starts with seven continuation bytes and a final byte makes the codec panic:
  the negative count of \<open>Uvarint32\<close> passes both guards and indexes the receive buffer.\<close>

lemma udp_overlong_header_panics:
  assumes "ProtobufCodec scheme mx = Done c" "scheme \<noteq> 0" "length rest \<le> 2040"
  shows "\<exists>c1. codec_HandleRead env ([0x80, 0x80, 0x80, 0x80, 0x80, 0x80, 0x80, 0] @ rest) err c a = Pan (c1, a)"
proof -
  let ?p = "[0x80, 0x80, 0x80, 0x80, 0x80, 0x80, 0x80, 0] @ rest"
  have c: "cd_scheme c = scheme" "length (cd_rxBuffer c) = 2048"
    using assms(1) by (auto simp: ProtobufCodec_def PackLength_def split: if_splits)
  have u: "Uvarint32 (?p @ ys) = (0, - 8)" for ys
    by (simp add: Uvarint32_def)
  have r: "go_copy (cd_rxBuffer c) 0 ?p = ?p @ drop (length ?p) (cd_rxBuffer c)"
    using c assms(3) by (intro go_copy_0) simp
  have n: "min (length ?p) (length (cd_rxBuffer c)) = 8 + length rest"
    using c assms(3) by simp
  show ?thesis
    using c assms(2) unfolding codec_HandleRead_def udp_read_def Let_def r u n by simp
qed

text \<open>A stream header that announces more than 2 MB stops the connection for good: nothing that
  arrives later is handed on, no error is raised, and every byte received is kept in the buffer.\<close>

lemma tcp_oversized_stalls:
  assumes "ProtobufCodec 0 mx = Done c" "2 * 1024 * 1024 < n" "\<forall>k \<in> set ks. length k \<le> PackLength"
  shows "\<exists>c'. codec_reads env (uvarint_bytes n # ks) (c, a) = Ret (c', a) \<and>
    cd_frameLength c' = 0 \<and> cd_packetBuffer c' = uvarint_bytes n @ concat ks"
proof -
  have c: "cd_scheme c = 0" "cd_packetBuffer c = []" "cd_frameLength c = 0" "length (cd_rxBuffer c) = PackLength"
    using assms(1) by (auto simp: ProtobufCodec_def split: if_splits)
  have u: "Uvarint32 (uvarint_bytes n) = (n, int (length (uvarint_bytes n)))"
    using Uvarint32_encoded [of n "[]"] by simp
  have k: "length (uvarint_bytes n) \<le> length (cd_rxBuffer c)"
    using length_uvarint_bytes_max [of n] c by (simp add: PackLength_def)
  let ?c = "c\<lparr>cd_rxBuffer := go_copy (cd_rxBuffer c) 0 (uvarint_bytes n), cd_packetBuffer := uvarint_bytes n\<rparr>"
  have "read_header (uvarint_bytes n) = HeadWait"
    using assms(2) by (simp add: read_header_def u MaxTcpFrame_def)
  then have "tcp_read disp (uvarint_bytes n) c a = (?c, a)" for disp :: "bytes \<Rightarrow> app \<Rightarrow> app run"
    using c k by (simp add: tcp_read_def readAndDeal_def deal_body_def Let_def min_absorb1)
  moreover have "\<exists>rx. tcp_reads (packet_message env) ks (?c, a) =
      (?c\<lparr>cd_rxBuffer := rx, cd_packetBuffer := cd_packetBuffer ?c @ concat ks\<rparr>, a)"
    by (rule tcp_reads_oversized) (use assms(2,3) c u in \<open>simp_all add: MaxTcpFrame_def\<close>)
  ultimately show ?thesis using c by (auto simp: codec_reads_tcp simp del: codec_reads.simps)
qed

end
