(* ===== verification/Frame_Codecs.thy ===== *)
theory Frame_Codecs
  imports Byte_Order "HOL-Library.Sublist"
begin

text \<open>
  The general-purpose frame codecs of \<open>netty/codec/frame\<close>: length field, varint length, delimiter, fixed length, variable
  length and packet. A stream is the list of bytes that will arrive; a codec takes the bytes of one frame from it and
  leaves the rest. A failed \<open>utils.Assert\<close> panics. The frame is what a handler gets that reads it to its end.
\<close>

section \<open>Length field\<close>

datatype byteOrder = LittleEndian | BigEndian

definition order_put :: "byteOrder \<Rightarrow> nat \<Rightarrow> nat \<Rightarrow> bytes" where
  "order_put o1 = (case o1 of LittleEndian \<Rightarrow> le_put | BigEndian \<Rightarrow> be_put)"

definition order_get :: "byteOrder \<Rightarrow> bytes \<Rightarrow> nat" where
  "order_get o1 = (case o1 of LittleEndian \<Rightarrow> le_get | BigEndian \<Rightarrow> be_get)"

text \<open>Conversion to \<open>int64\<close> and its wrap-around.\<close>

definition int64 :: "int \<Rightarrow> int" where
  "int64 x = (x + 2 ^ 63) mod 2 ^ 64 - 2 ^ 63"

record lengthFieldPrepender =
  lp_byteOrder :: byteOrder
  lp_lengthFieldLength :: int
  lp_lengthAdjustment :: int
  lp_lengthIncludesLengthFieldLength :: bool

record lengthFieldCodec =
  lf_byteOrder :: byteOrder
  lf_maxFrameLength :: int
  lf_lengthFieldOffset :: int
  lf_lengthFieldLength :: int
  lf_lengthAdjustment :: int
  lf_initialBytesToStrip :: int
  lf_outbound :: lengthFieldPrepender

definition LengthFieldPrepender :: "byteOrder \<Rightarrow> int \<Rightarrow> int \<Rightarrow> bool \<Rightarrow> lengthFieldPrepender go" where
  "LengthFieldPrepender order lengthFieldLength lengthAdjustment includes =
     (if lengthFieldLength \<notin> {1, 2, 4, 8} then Panicked AssertFailed
      else Done \<lparr>lp_byteOrder = order, lp_lengthFieldLength = lengthFieldLength, lp_lengthAdjustment = lengthAdjustment,
                 lp_lengthIncludesLengthFieldLength = includes\<rparr>)"

definition LengthFieldCodec :: "byteOrder \<Rightarrow> int \<Rightarrow> int \<Rightarrow> int \<Rightarrow> int \<Rightarrow> int \<Rightarrow> lengthFieldCodec go" where
  "LengthFieldCodec order maxFrameLength offset fieldLength adjustment strip =
     (if maxFrameLength \<le> 0 \<or> offset < 0 \<or> strip < 0 \<or> fieldLength \<notin> {1, 2, 4, 8} \<or>
         offset > maxFrameLength - fieldLength then Panicked AssertFailed
      else go_map (\<lambda>out. \<lparr>lf_byteOrder = order, lf_maxFrameLength = maxFrameLength, lf_lengthFieldOffset = offset,
             lf_lengthFieldLength = fieldLength, lf_lengthAdjustment = adjustment, lf_initialBytesToStrip = strip,
             lf_outbound = out\<rparr>) (LengthFieldPrepender order fieldLength 0 False))"

definition unpackFieldLength :: "byteOrder \<Rightarrow> int \<Rightarrow> bytes \<Rightarrow> int go" where
  "unpackFieldLength order fieldLen buff =
     (if fieldLen = 1 then go_map (\<lambda>b. int (unat b)) (go_nth buff 0)
      else if fieldLen \<in> {2, 4, 8} then
        (if int (length buff) < fieldLen then Panicked IndexOutOfRange
         else Done (int64 (int (order_get order (take (nat fieldLen) buff)))))
      else Panicked AssertFailed)"

definition packFieldLength :: "byteOrder \<Rightarrow> int \<Rightarrow> int \<Rightarrow> bytes go" where
  "packFieldLength order fieldLen dataLen =
     (if fieldLen \<in> {1, 2, 4, 8} then Done (order_put order (nat fieldLen) (nat (dataLen mod 2 ^ 64)))
      else Panicked AssertFailed)"

definition prepender_HandleWrite :: "lengthFieldPrepender \<Rightarrow> bytes \<Rightarrow> bytes list go" where
  "prepender_HandleWrite l bodyBytes =
     (let len = int (length bodyBytes) + lp_lengthAdjustment l;
          len1 = (if lp_lengthIncludesLengthFieldLength l then len + lp_lengthFieldLength l else len)
      in go_map (\<lambda>lengthBuff. [lengthBuff, bodyBytes]) (packFieldLength (lp_byteOrder l) (lp_lengthFieldLength l) len1))"

definition lengthField_HandleRead :: "lengthFieldCodec \<Rightarrow> bytes \<Rightarrow> (bytes \<times> bytes) go" where
  "lengthField_HandleRead l stream =
     (let endOffset = lf_lengthFieldOffset l + lf_lengthFieldLength l in
      if int (length stream) < endOffset then Panicked AssertFailed
      else let header = take (nat endOffset) stream; rest = drop (nat endOffset) stream in
        go_bind (go_slice header (lf_lengthFieldOffset l) endOffset) (\<lambda>field.
        go_bind (unpackFieldLength (lf_byteOrder l) (lf_lengthFieldLength l) field) (\<lambda>fl.
          if fl < 0 then Panicked AssertFailed
          else let frameLength = int64 (fl + int64 (lf_lengthAdjustment l + endOffset)) in
            if frameLength < endOffset \<or> frameLength > lf_maxFrameLength l \<or> lf_initialBytesToStrip l > frameLength
            then Panicked AssertFailed
            else let n = nat (frameLength - endOffset); frame = header @ take n rest in
              if int (length frame) < lf_initialBytesToStrip l then Panicked AssertFailed
              else Done (drop (nat (lf_initialBytesToStrip l)) frame, drop n rest))))"

section \<open>Varint length\<close>

text \<open>\<open>binary.PutUvarint\<close> and \<open>binary.ReadUvarint\<close>, which reads at most ten bytes; a \<open>None\<close> is an error.\<close>

fun put_uvarint :: "nat \<Rightarrow> bytes" where
  "put_uvarint n = (if n < 128 then [of_nat n] else of_nat (n mod 128 + 128) # put_uvarint (n div 128))"

declare put_uvarint.simps [simp del]

fun read_uvarint :: "nat \<Rightarrow> nat \<Rightarrow> bytes \<Rightarrow> (nat \<times> bytes) option" where
  "read_uvarint i x [] = None"
| "read_uvarint i x (b # bs) =
     (if i \<ge> 10 then None
      else if unat b < 128 then (if i = 9 \<and> unat b > 1 then None else Some (x + unat b * 128 ^ i, bs))
      else read_uvarint (Suc i) (x + (unat b - 128) * 128 ^ i) bs)"

definition VarintLengthFieldCodec :: "int \<Rightarrow> int go" where
  "VarintLengthFieldCodec maxFrameLength =
     (if maxFrameLength \<le> 0 then Panicked AssertFailed else Done maxFrameLength)"

definition varint_HandleRead :: "int \<Rightarrow> bytes \<Rightarrow> (bytes \<times> bytes) go" where
  "varint_HandleRead maxFrameLength stream =
     (case read_uvarint 0 0 stream of
        None \<Rightarrow> Panicked AssertFailed
      | Some (frameLength, rest) \<Rightarrow>
          if int frameLength > maxFrameLength then Panicked AssertFailed
          else Done (take frameLength rest, drop frameLength rest))"

definition varint_HandleWrite :: "int \<Rightarrow> bytes \<Rightarrow> bytes list go" where
  "varint_HandleWrite maxFrameLength bodyBytes =
     (if int (length bodyBytes) > maxFrameLength then Panicked AssertFailed
      else Done [put_uvarint (length bodyBytes), bodyBytes])"

section \<open>Delimiter\<close>

record delimiterCodec =
  dl_maxFrameLength :: int
  dl_delimiter :: bytes
  dl_stripDelimiter :: bool

definition DelimiterCodec :: "int \<Rightarrow> bytes \<Rightarrow> bool \<Rightarrow> delimiterCodec go" where
  "DelimiterCodec maxFrameLength delimiter strip =
     (if maxFrameLength \<le> 0 \<or> delimiter = [] then Panicked AssertFailed
      else Done \<lparr>dl_maxFrameLength = maxFrameLength, dl_delimiter = delimiter, dl_stripDelimiter = strip\<rparr>)"

text \<open>The loop of \<open>HandleRead\<close>: one byte at a time until the delimiter is at the end of the buffer.\<close>

fun delimiter_loop :: "delimiterCodec \<Rightarrow> bytes \<Rightarrow> bytes \<Rightarrow> (bytes \<times> bytes) go" where
  "delimiter_loop d readBuff [] = Panicked (if int (length readBuff) < dl_maxFrameLength d then StdlibPanic else AssertFailed)"
| "delimiter_loop d readBuff (b # stream) =
     (if int (length readBuff) < dl_maxFrameLength d then
        let buf = readBuff @ [b] in
        if length buf \<ge> length (dl_delimiter d) \<and> drop (length buf - length (dl_delimiter d)) buf = dl_delimiter d
        then Done (if dl_stripDelimiter d then take (length buf - length (dl_delimiter d)) buf else buf, stream)
        else delimiter_loop d buf stream
      else Panicked AssertFailed)"

definition delimiter_HandleRead :: "delimiterCodec \<Rightarrow> bytes \<Rightarrow> (bytes \<times> bytes) go" where
  "delimiter_HandleRead d stream = delimiter_loop d [] stream"

definition delimiter_HandleWrite :: "delimiterCodec \<Rightarrow> bytes \<Rightarrow> bytes list" where
  "delimiter_HandleWrite d r = [r, dl_delimiter d]"

section \<open>Fixed, variable and packet\<close>

definition FixedLengthCodec :: "int \<Rightarrow> int go" where
  "FixedLengthCodec len = (if len \<le> 0 then Panicked AssertFailed else Done len)"

definition fixed_HandleRead :: "int \<Rightarrow> bytes \<Rightarrow> bytes \<times> bytes" where
  "fixed_HandleRead len stream = (take (nat len) stream, drop (nat len) stream)"

text \<open>One call of \<open>reader.Read\<close> returns some bytes and perhaps an error.\<close>

datatype read_error = EOF | OtherError

definition VariableLengthCodec :: "int \<Rightarrow> int go" where
  "VariableLengthCodec maxReadLength = (if maxReadLength \<le> 0 then Panicked AssertFailed else Done maxReadLength)"

definition variable_HandleRead :: "int \<Rightarrow> bytes \<times> read_error option \<Rightarrow> bytes go" where
  "variable_HandleRead maxReadLength r =
     (if snd r \<noteq> None then Panicked StdlibPanic else Done (take (nat maxReadLength) (fst r)))"

definition PacketCodec :: "int \<Rightarrow> int go" where
  "PacketCodec maxFrameLength = (if maxFrameLength \<le> 0 then Panicked AssertFailed else Done maxFrameLength)"

definition packet_HandleRead :: "int \<Rightarrow> bytes \<times> read_error option \<Rightarrow> bytes go" where
  "packet_HandleRead maxFrameLength r =
     (if snd r \<noteq> None \<and> snd r \<noteq> Some EOF then Panicked AssertFailed else Done (take (nat maxFrameLength) (fst r)))"

section \<open>The contract of a frame codec\<close>

text \<open>What a pipeline relies on: reading takes back exactly what was written for a body the codec can carry, and leaves
  the rest of the stream.\<close>

locale framing =
  fixes encode :: "bytes \<Rightarrow> bytes" and decode :: "bytes \<Rightarrow> (bytes \<times> bytes) go" and carries :: "bytes \<Rightarrow> bool"
  assumes decode_encode: "carries body \<Longrightarrow> decode (encode body @ rest) = Done (body, rest)"
begin

primrec decode_frames :: "nat \<Rightarrow> bytes \<Rightarrow> (bytes list \<times> bytes) go" where
  "decode_frames 0 = (\<lambda>stream. Done ([], stream))"
| "decode_frames (Suc n) = (\<lambda>stream. go_bind (decode stream) (\<lambda>(body, rest).
     go_map (\<lambda>(bodies, rest'). (body # bodies, rest')) (decode_frames n rest)))"

lemma decode_stream:
  "\<forall>body \<in> set bodies. carries body \<Longrightarrow>
    decode_frames (length bodies) (concat (map encode bodies) @ rest) = Done (bodies, rest)"
proof (induction bodies)
  case (Cons b bs)
  then show ?case using decode_encode [of b "concat (map encode bs) @ rest"] by simp
qed simp

lemma encode_inj:
  assumes "carries b" "carries c" "encode b @ xs = encode c @ ys"
  shows "b = c \<and> xs = ys"
  using decode_encode [OF assms(1), of xs] decode_encode [OF assms(2), of ys] unfolding assms(3) by simp

end

section \<open>The codecs keep it\<close>

text \<open>Length field, in its usual configuration: the field comes first and is stripped.\<close>

definition lf_encode :: "lengthFieldCodec \<Rightarrow> bytes \<Rightarrow> bytes" where
  "lf_encode c body = concat (go_recover (prepender_HandleWrite (lf_outbound c) body) [])"

definition lf_carries :: "lengthFieldCodec \<Rightarrow> bytes \<Rightarrow> bool" where
  "lf_carries c body \<longleftrightarrow>
     LengthFieldCodec (lf_byteOrder c) (lf_maxFrameLength c) 0 (lf_lengthFieldLength c) 0 (lf_lengthFieldLength c) = Done c \<and>
     lf_maxFrameLength c < 2 ^ 63 \<and> int (length body) + lf_lengthFieldLength c \<le> lf_maxFrameLength c \<and>
     length body < 256 ^ nat (lf_lengthFieldLength c)"

lemma order_put_get: "length (order_put o1 n v) = n" "order_get o1 (order_put o1 n v) = v mod 256 ^ n"
  by (cases o1; simp add: order_put_def order_get_def little.length_put little.get_put big.length_put big.get_put)+

lemma int64_id: "- (2 ^ 63) \<le> x \<Longrightarrow> x < 2 ^ 63 \<Longrightarrow> int64 x = x"
  by (simp add: int64_def)

lemma order_put_1: "order_put o1 (Suc 0) v = [of_nat v]"
  by (cases o1) (simp_all add: order_put_def be_put_def)

text \<open>Reading what was written by a codec of this configuration, whether or not the length fits the field.\<close>

lemma lengthField_read_written:
  assumes "LengthFieldCodec order mx 0 n 0 n = Done c" "mx < 2 ^ 63"
    and "int (length body) + n \<le> mx"
  shows "lengthField_HandleRead c (lf_encode c body @ rest) =
    Done (take (length body mod 256 ^ nat n) body, drop (length body mod 256 ^ nat n) body @ rest)"
proof -
  define m where "m = length body mod 256 ^ nat n"
  have n: "n \<in> {1, 2, 4, 8}" and c: "c = \<lparr>lf_byteOrder = order, lf_maxFrameLength = mx, lf_lengthFieldOffset = 0,
      lf_lengthFieldLength = n, lf_lengthAdjustment = 0, lf_initialBytesToStrip = n, lf_outbound =
      \<lparr>lp_byteOrder = order, lp_lengthFieldLength = n, lp_lengthAdjustment = 0, lp_lengthIncludesLengthFieldLength = False\<rparr>\<rparr>"
    using assms(1) by (auto simp: LengthFieldCodec_def LengthFieldPrepender_def split: if_splits)
  define h where "h = order_put order (nat n) (length body)"
  have "int (length body) < 2 ^ 64" using assms(2,3) n by auto
  then have "nat (int (length body) mod 2 ^ 64) = length body" by simp
  then have e: "lf_encode c body = h @ body"
    using n by (simp add: lf_encode_def prepender_HandleWrite_def packFieldLength_def c h_def)
  have h: "length h = nat n" "order_get order h = m" by (simp_all add: h_def order_put_get m_def)
  have m: "m \<le> length body" by (simp add: m_def)
  have mx: "int m + n \<le> mx" "int m < 2 ^ 63" using m assms(2,3) n by auto
  have u: "unpackFieldLength order n h = Done (int m)"
  proof (cases "n = 1")
    case True
    then show ?thesis by (simp add: unpackFieldLength_def h_def order_put_1 m_def go_nth_def unsigned_of_nat take_bit_eq_mod zmod_int)
  next
    case False
    then show ?thesis using n h mx(2) by (auto simp: unpackFieldLength_def int64_id)
  qed
  have i: "int64 n = n" "int64 (int m + n) = int m + n" using n mx assms(2) by (auto intro!: int64_id)
  have s: "go_slice h 0 n = Done h" using n h by (auto simp: go_slice_def)
  have "lengthField_HandleRead c (h @ body @ rest) = Done (take m body, drop m body @ rest)"
    using n mx m unfolding c lengthField_HandleRead_def by (auto simp: Let_def h s u i)
  then show ?thesis by (simp add: e m_def)
qed

interpretation length_field: framing "lf_encode c" "lengthField_HandleRead c" "lf_carries c" for c
proof
  fix body rest :: bytes
  assume a: "lf_carries c body"
  show "lengthField_HandleRead c (lf_encode c body @ rest) = Done (body, rest)"
    using a lengthField_read_written [of "lf_byteOrder c" "lf_maxFrameLength c" "lf_lengthFieldLength c" c body rest]
    by (simp add: lf_carries_def)
qed

text \<open>Varint length.\<close>

definition varint_encode :: "int \<Rightarrow> bytes \<Rightarrow> bytes" where
  "varint_encode mx body = concat (go_recover (varint_HandleWrite mx body) [])"

lemma read_put_uvarint:
  "n < 2 ^ (64 - 7 * i) \<Longrightarrow> i \<le> 9 \<Longrightarrow> read_uvarint i x (put_uvarint n @ rest) = Some (x + n * 128 ^ i, rest)"
proof (induction n arbitrary: i x rule: put_uvarint.induct)
  case (1 n)
  show ?case
  proof (cases "n < 128")
    case True
    then have u: "unat (of_nat n :: u8) = n" by simp
    have "i = 9 \<Longrightarrow> n < 2" using 1(2) by simp
    then show ?thesis using True u 1(3) by (auto simp: put_uvarint.simps [of n])
  next
    case False
    have i: "i \<le> 8"
    proof (rule ccontr)
      assume "\<not> i \<le> 8"
      then have "i = 9" using 1(3) by simp
      then show False using 1(2) False by simp
    qed
    then have e: "64 - 7 * i = 7 + (64 - 7 * Suc i)" by simp
    have "n < 128 * 2 ^ (64 - 7 * Suc i)" using 1(2) unfolding e power_add by simp
    then have "n div 128 < 2 ^ (64 - 7 * Suc i)" by (simp add: less_mult_imp_div_less mult.commute)
    from 1(1) [OF False this, of "x + n mod 128 * 128 ^ i"] i
    have "read_uvarint (Suc i) (x + n mod 128 * 128 ^ i) (put_uvarint (n div 128) @ rest) =
        Some (x + n mod 128 * 128 ^ i + n div 128 * 128 ^ Suc i, rest)" by simp
    moreover have "n mod 128 * 128 ^ i + n div 128 * 128 ^ Suc i = n * 128 ^ i"
      by (metis (no_types) add.commute div_mult_mod_eq distrib_right mult.assoc power_Suc)
    moreover have "unat (of_nat (n mod 128 + 128) :: u8) = n mod 128 + 128" by (simp del: of_nat_add)
    ultimately show ?thesis using False i by (simp add: put_uvarint.simps [of n] del: of_nat_add)
  qed
qed

interpretation varint_length: framing "varint_encode mx" "varint_HandleRead mx"
  "\<lambda>body. int (length body) \<le> mx \<and> length body < 2 ^ 64" for mx
proof
  fix body rest :: bytes
  assume a: "int (length body) \<le> mx \<and> length body < 2 ^ 64"
  then show "varint_HandleRead mx (varint_encode mx body @ rest) = Done (body, rest)"
    using read_put_uvarint [of "length body" 0 0 "body @ rest"]
    by (simp add: varint_HandleRead_def varint_encode_def varint_HandleWrite_def)
qed

text \<open>Delimiter: the delimiter must not be completed before the end.\<close>

definition delimiter_encode :: "delimiterCodec \<Rightarrow> bytes \<Rightarrow> bytes" where
  "delimiter_encode d body = concat (delimiter_HandleWrite d body)"

definition delimiter_carries :: "delimiterCodec \<Rightarrow> bytes \<Rightarrow> bool" where
  "delimiter_carries d body \<longleftrightarrow> dl_delimiter d \<noteq> [] \<and> dl_stripDelimiter d \<and>
     int (length body + length (dl_delimiter d)) \<le> dl_maxFrameLength d \<and>
     (\<forall>k < length body + length (dl_delimiter d). \<not> suffix (dl_delimiter d) (take k (body @ dl_delimiter d)))"

lemma suffix_test: "length d \<le> length xs \<and> drop (length xs - length d) xs = d \<longleftrightarrow> suffix d xs"
  by (metis append_take_drop_id diff_le_self suffix_def suffix_length_le suffix_take append_eq_conv_conj length_append
      add_diff_cancel_right')

lemma delimiter_loop_reads:
  assumes "delimiter_carries d body" "buf @ todo = body @ dl_delimiter d" "todo \<noteq> []"
  shows "delimiter_loop d buf (todo @ rest) = Done (body, rest)"
  using assms(2,3)
proof (induction todo arbitrary: buf)
  case Nil
  then show ?case by simp
next
  case (Cons b todo)
  have l: "length buf + Suc (length todo) = length body + length (dl_delimiter d)"
    using arg_cong [OF Cons.prems(1), of length] by simp
  have less: "int (length buf) < dl_maxFrameLength d" using assms(1) l by (simp add: delimiter_carries_def)
  show ?case
  proof (cases "todo = []")
    case True
    then have "buf @ [b] = body @ dl_delimiter d" using Cons.prems(1) by simp
    then show ?thesis using less assms(1) True by (simp add: Let_def delimiter_carries_def del: append_assoc)
  next
    case False
    have "take (length buf + 1) (body @ dl_delimiter d) = buf @ [b]"
      unfolding Cons.prems(1) [symmetric] by simp
    moreover have "length buf + 1 < length body + length (dl_delimiter d)" using l False by (cases todo) simp_all
    ultimately have "\<not> suffix (dl_delimiter d) (buf @ [b])" using assms(1) unfolding delimiter_carries_def by metis
    then have "\<not> (length (dl_delimiter d) \<le> length (buf @ [b]) \<and>
        drop (length (buf @ [b]) - length (dl_delimiter d)) (buf @ [b]) = dl_delimiter d)" using suffix_test by blast
    then show ?thesis using Cons.IH [of "buf @ [b]"] Cons.prems(1) False less by (simp add: Let_def)
  qed
qed

interpretation delimited: framing "delimiter_encode d" "delimiter_HandleRead d" "delimiter_carries d" for d
proof
  fix body rest :: bytes
  assume a: "delimiter_carries d body"
  then have "dl_delimiter d \<noteq> []" by (simp add: delimiter_carries_def)
  then show "delimiter_HandleRead d (delimiter_encode d body @ rest) = Done (body, rest)"
    using delimiter_loop_reads [OF a, of "[]" "body @ dl_delimiter d" rest]
    by (simp add: delimiter_HandleRead_def delimiter_encode_def delimiter_HandleWrite_def)
qed

section \<open>Properties\<close>

text \<open>(C39) Streams of frames. For the length-field codec (field first and stripped), the varint codec and the delimiter codec:
  the bodies written one after the other are read back in order, one per call of \<open>HandleRead\<close>, and what follows them in the
  stream is left untouched, for every list of bodies the codec can carry.\<close>

theorem frame_streams:
  assumes "\<forall>body \<in> set bodies. lf_carries c body" "\<forall>body \<in> set bodies. int (length body) \<le> mx \<and> length body < 2 ^ 64"
    and "\<forall>body \<in> set bodies. delimiter_carries d body"
  shows "length_field.decode_frames c (length bodies) (concat (map (lf_encode c) bodies) @ rest) = Done (bodies, rest) \<and>
    varint_length.decode_frames mx (length bodies) (concat (map (varint_encode mx) bodies) @ rest) = Done (bodies, rest) \<and>
    delimited.decode_frames d (length bodies) (concat (map (delimiter_encode d) bodies) @ rest) = Done (bodies, rest)"
  using length_field.decode_stream [OF assms(1)] varint_length.decode_stream [OF assms(2)]
    delimited.decode_stream [OF assms(3)] by simp

text \<open>The length-field encoder does not check that the length fits the field: a body of at least 256, 65536 or
  \<open>2 ^ 32\<close> bytes is announced by its length modulo that number, so the reader hands on only the beginning and takes the rest of
  the body for the next frame.\<close>

lemma length_field_truncates:
  assumes "LengthFieldCodec order mx 0 n 0 n = Done c" "mx < 2 ^ 63" "int (length body) + n \<le> mx"
    and "256 ^ nat n \<le> length body"
  shows "\<exists>k. k < 256 ^ nat n \<and> k < length body \<and>
    lengthField_HandleRead c (lf_encode c body @ rest) = Done (take k body, drop k body @ rest)"
proof -
  have "length body mod 256 ^ nat n < 256 ^ nat n" by simp
  moreover from this assms(4) have "length body mod 256 ^ nat n < length body" by (rule less_le_trans)
  ultimately show ?thesis using lengthField_read_written [OF assms(1-3)]
    by (intro exI [of _ "length body mod 256 ^ nat n"]) simp
qed

section \<open>Instances\<close>

definition sample_lf :: lengthFieldCodec where
  "sample_lf = \<lparr>lf_byteOrder = BigEndian, lf_maxFrameLength = 1024, lf_lengthFieldOffset = 0, lf_lengthFieldLength = 1,
     lf_lengthAdjustment = 0, lf_initialBytesToStrip = 1, lf_outbound = \<lparr>lp_byteOrder = BigEndian, lp_lengthFieldLength = 1,
       lp_lengthAdjustment = 0, lp_lengthIncludesLengthFieldLength = False\<rparr>\<rparr>"

lemma sample_lf_made: "LengthFieldCodec BigEndian 1024 0 1 0 1 = Done sample_lf"
  by (simp add: LengthFieldCodec_def LengthFieldPrepender_def sample_lf_def)

definition sample_delimiter :: delimiterCodec where
  "sample_delimiter = \<lparr>dl_maxFrameLength = 64, dl_delimiter = [10], dl_stripDelimiter = True\<rparr>"

lemma suffix_single: "suffix [x] ys \<longleftrightarrow> ys \<noteq> [] \<and> last ys = x"
  by (auto simp: suffix_def) (metis append_butlast_last_id)

definition sample_bodies :: "bytes list" where
  "sample_bodies = [[1, 2], [3]]"

theorem frame_streams_witness:
  "length_field.decode_frames sample_lf (length sample_bodies) (concat (map (lf_encode sample_lf) sample_bodies) @ [9]) =
      Done (sample_bodies, [9]) \<and>
    varint_length.decode_frames 64 (length sample_bodies) (concat (map (varint_encode 64) sample_bodies) @ [9]) =
      Done (sample_bodies, [9]) \<and>
    delimited.decode_frames sample_delimiter (length sample_bodies)
      (concat (map (delimiter_encode sample_delimiter) sample_bodies) @ [9]) = Done (sample_bodies, [9])"
proof (rule frame_streams)
  show "\<forall>body \<in> set sample_bodies. lf_carries sample_lf body"
    using sample_lf_made by (simp add: lf_carries_def sample_lf_def sample_bodies_def)
  show "\<forall>body \<in> set sample_bodies. delimiter_carries sample_delimiter body"
    by (simp add: delimiter_carries_def sample_delimiter_def All_less_Suc suffix_single sample_bodies_def)
qed (simp add: sample_bodies_def)

end
