(* ===== verification/Idle_Handler.thy ===== *)
theory Idle_Handler
  imports VPrelude
begin

text \<open>
  The read and write idle handlers of \<open>netty/handler.go\<close>, which every pipeline of the peer uses for its heartbeat. The
  two handlers are the same machine over a timer of package \<open>time\<close>; they differ in whether a message is passed on
  before or after it is noted. The timer's callback runs in a goroutine of its own and takes the lock twice, with the
  event in between, so its three parts are separate steps and several callbacks may be under way.
\<close>

section \<open>State\<close>

text \<open>A timer is armed for a time or not. A callback has just started, has read the clock and the context, or has
  triggered the event it had to.\<close>

datatype callback = Fired | Checked "nat option" | Triggered

datatype idle_event =
    Forwarded            \<comment> \<open>\<open>ctx.HandleRead\<close>, \<open>ctx.HandleWrite\<close>\<close>
  | Noted nat            \<comment> \<open>the time of a message, as stored\<close>
  | Expired nat nat      \<comment> \<open>a check at a time found the context idle\<close>
  | Trigger nat          \<comment> \<open>the idle event was raised on a context\<close>
  | PassedActive | PassedInactive

record idleHandler =
  ih_idleTime :: nat
  ih_last :: nat                      \<comment> \<open>\<open>lastReadTime\<close>, \<open>lastWriteTime\<close>\<close>
  ih_timer :: "nat option option"     \<comment> \<open>nil, or the deadline if armed\<close>
  ih_ctx :: "nat option"
  ih_now :: nat
  ih_callbacks :: "callback list"
  ih_trace :: "idle_event list"

definition IdleHandler :: "nat \<Rightarrow> nat \<Rightarrow> idleHandler" where
  "IdleHandler idleTime now = \<lparr>ih_idleTime = idleTime, ih_last = 0, ih_timer = None, ih_ctx = None, ih_now = now,
     ih_callbacks = [], ih_trace = []\<rparr>"

definition ih_emit :: "idle_event \<Rightarrow> idleHandler \<Rightarrow> idleHandler" where
  "ih_emit e h = h\<lparr>ih_trace := ih_trace h @ [e]\<rparr>"

section \<open>Handlers\<close>

definition idle_HandleActive :: "nat \<Rightarrow> idleHandler \<Rightarrow> idleHandler" where
  "idle_HandleActive ctx h = ih_emit PassedActive (ih_emit (Noted (ih_now h))
     (h\<lparr>ih_ctx := Some ctx, ih_last := ih_now h, ih_timer := Some (Some (ih_now h + ih_idleTime h))\<rparr>))"

text \<open>Noting a message under the lock: the time, and \<open>Reset\<close> of the timer if there is one.\<close>

definition note_message :: "idleHandler \<Rightarrow> idleHandler" where
  "note_message h = ih_emit (Noted (ih_now h)) (h\<lparr>ih_last := ih_now h,
     ih_timer := map_option (\<lambda>_. Some (ih_now h + ih_idleTime h)) (ih_timer h)\<rparr>)"

definition idle_HandleRead :: "idleHandler \<Rightarrow> idleHandler" where
  "idle_HandleRead h = note_message (ih_emit Forwarded h)"

definition idle_HandleWrite :: "idleHandler \<Rightarrow> idleHandler" where
  "idle_HandleWrite h = ih_emit Forwarded (note_message h)"

definition idle_HandleInactive :: "idleHandler \<Rightarrow> idleHandler" where
  "idle_HandleInactive h = ih_emit PassedInactive (h\<lparr>ih_ctx := None, ih_timer := None\<rparr>)"

text \<open>The parts of \<open>onReadTimeout\<close> and \<open>onWriteTimeout\<close>.\<close>

definition on_timeout_check :: "idleHandler \<Rightarrow> callback \<times> idleHandler" where
  "on_timeout_check h =
     (if ih_now h - ih_last h \<ge> ih_idleTime h then
        (case ih_ctx h of
           None \<Rightarrow> (Checked None, h)
         | Some c \<Rightarrow> (Checked (Some c), ih_emit (Expired (ih_now h) c) h))
      else (Checked None, h))"

definition on_timeout_trigger :: "nat option \<Rightarrow> idleHandler \<Rightarrow> idleHandler" where
  "on_timeout_trigger ctx h = (case ctx of None \<Rightarrow> h | Some c \<Rightarrow> ih_emit (Trigger c) h)"

definition on_timeout_reset :: "idleHandler \<Rightarrow> idleHandler" where
  "on_timeout_reset h = h\<lparr>ih_timer := map_option (\<lambda>_. Some (ih_now h + ih_idleTime h)) (ih_timer h)\<rparr>"

section \<open>Runs\<close>

text \<open>Time passes; the timer fires at its deadline or later, once; callbacks proceed in any order.\<close>

inductive idle_step :: "idleHandler \<Rightarrow> idleHandler \<Rightarrow> bool" where
  wait: "idle_step h (h\<lparr>ih_now := ih_now h + d\<rparr>)"
| active: "idle_step h (idle_HandleActive c h)"
| on_read: "idle_step h (idle_HandleRead h)"
| on_write: "idle_step h (idle_HandleWrite h)"
| inactive: "idle_step h (idle_HandleInactive h)"
| fire: "ih_timer h = Some (Some d) \<Longrightarrow> d \<le> ih_now h \<Longrightarrow>
     idle_step h (h\<lparr>ih_timer := Some None, ih_callbacks := Fired # ih_callbacks h\<rparr>)"
| check: "ih_callbacks h = xs @ Fired # ys \<Longrightarrow> on_timeout_check h = (cb, h') \<Longrightarrow>
     idle_step h (h'\<lparr>ih_callbacks := xs @ cb # ys\<rparr>)"
| trigger: "ih_callbacks h = xs @ Checked c # ys \<Longrightarrow>
     idle_step h ((on_timeout_trigger c h)\<lparr>ih_callbacks := xs @ Triggered # ys\<rparr>)"
| reset: "ih_callbacks h = xs @ Triggered # ys \<Longrightarrow> idle_step h ((on_timeout_reset h)\<lparr>ih_callbacks := xs @ ys\<rparr>)"

inductive idle_reachable :: "nat \<Rightarrow> idleHandler \<Rightarrow> bool" for idle where
  start: "idle_reachable idle (IdleHandler idle now)"
| step: "idle_reachable idle h \<Longrightarrow> idle_step h h' \<Longrightarrow> idle_reachable idle h'"

section \<open>Invariant\<close>

text \<open>The times noted before a point of the trace.\<close>

definition quiet :: "nat \<Rightarrow> idle_event list \<Rightarrow> bool" where
  "quiet idle tr \<longleftrightarrow> (\<forall>xs t c ys. tr = xs @ Expired t c # ys \<longrightarrow> (\<forall>r. Noted r \<in> set xs \<longrightarrow> r + idle \<le> t))"

definition expired_of :: "callback \<Rightarrow> nat list" where
  "expired_of cb = (case cb of Checked (Some c) \<Rightarrow> [c] | _ \<Rightarrow> [])"

text \<open>How often the idle event was raised, and how often a check allowed it.\<close>

definition raised :: "idle_event list \<Rightarrow> nat" where
  "raised tr = length (filter (\<lambda>e. case e of Trigger _ \<Rightarrow> True | _ \<Rightarrow> False) tr)"

definition allowed :: "idle_event list \<Rightarrow> nat" where
  "allowed tr = length (filter (\<lambda>e. case e of Expired _ _ \<Rightarrow> True | _ \<Rightarrow> False) tr)"

definition clock_inv :: "idleHandler \<Rightarrow> bool" where
  "clock_inv h \<longleftrightarrow> quiet (ih_idleTime h) (ih_trace h) \<and> (\<forall>r. Noted r \<in> set (ih_trace h) \<longrightarrow> r \<le> ih_last h) \<and>
     ih_last h \<le> ih_now h"

definition timer_inv :: "idleHandler \<Rightarrow> bool" where
  "timer_inv h \<longleftrightarrow> ih_last h \<le> ih_now h \<and>
     (case ih_timer h of
        None \<Rightarrow> ih_ctx h = None
      | Some None \<Rightarrow> ih_ctx h \<noteq> None \<and> ih_callbacks h \<noteq> []
      | Some (Some d) \<Rightarrow> ih_ctx h \<noteq> None \<and> ih_last h + ih_idleTime h \<le> d \<and> d \<le> ih_now h + ih_idleTime h)"

definition count_inv :: "idleHandler \<Rightarrow> bool" where
  "count_inv h \<longleftrightarrow>
     raised (ih_trace h) + length (concat (map expired_of (ih_callbacks h))) = allowed (ih_trace h)"

lemma quiet_snoc:
  "quiet idle (tr @ [e]) \<longleftrightarrow> quiet idle tr \<and> (\<forall>t c r. e = Expired t c \<longrightarrow> Noted r \<in> set tr \<longrightarrow> r + idle \<le> t)"
  (is "?l = ?r")
proof
  assume ?l
  then have "quiet idle tr" unfolding quiet_def by (metis append.assoc append_Cons)
  moreover have "r + idle \<le> t" if "e = Expired t c" "Noted r \<in> set tr" for t c r
    using \<open>?l\<close> that unfolding quiet_def by blast
  ultimately show ?r by blast
next
  assume r: ?r
  show ?l
    unfolding quiet_def
  proof (intro allI impI)
    fix xs t c ys n
    assume a: "tr @ [e] = xs @ Expired t c # ys" "Noted n \<in> set xs"
    show "n + idle \<le> t"
    proof (cases ys rule: rev_cases)
      case Nil
      then show ?thesis using a r by auto
    next
      case (snoc zs z)
      then have "tr = xs @ Expired t c # zs" using a(1) by (metis append.assoc append_Cons butlast_snoc)
      then show ?thesis using r a(2) unfolding quiet_def by blast
    qed
  qed
qed

lemma idle_trace_simps [simp]:
  "raised [] = 0" "allowed [] = 0" "quiet idle []"
  "raised (xs @ ys) = raised xs + raised ys" "allowed (xs @ ys) = allowed xs + allowed ys"
  "raised (e # es) = (case e of Trigger _ \<Rightarrow> 1 | _ \<Rightarrow> 0) + raised es"
  "allowed (e # es) = (case e of Expired _ _ \<Rightarrow> 1 | _ \<Rightarrow> 0) + allowed es"
  by (auto simp: raised_def allowed_def quiet_def split: idle_event.split)

lemma quiet_snoc2: "quiet idle (tr @ [a, b]) \<longleftrightarrow> quiet idle ((tr @ [a]) @ [b])"
  by simp

lemmas idle_defs = ih_emit_def idle_HandleActive_def note_message_def idle_HandleRead_def idle_HandleWrite_def
  idle_HandleInactive_def on_timeout_trigger_def on_timeout_reset_def

lemma clock_inv_step: "idle_step h h' \<Longrightarrow> clock_inv h \<Longrightarrow> clock_inv h'"
proof (induction rule: idle_step.induct)
  case (check h xs ys cb h')
  have "r + ih_idleTime h \<le> ih_now h" if "ih_idleTime h \<le> ih_now h - ih_last h" "Noted r \<in> set (ih_trace h)" for r
    using check.prems that by (fastforce simp: clock_inv_def)
  then show ?case using check
    by (auto simp: clock_inv_def on_timeout_check_def ih_emit_def quiet_snoc split: if_splits option.splits)
next
  case (trigger h xs c ys)
  then show ?case by (cases c) (auto simp: clock_inv_def idle_defs quiet_snoc)
qed (auto simp: clock_inv_def idle_defs quiet_snoc quiet_snoc2 simp del: append_assoc intro: le_trans trans_le_add1)

lemma timer_inv_step: "idle_step h h' \<Longrightarrow> timer_inv h \<Longrightarrow> timer_inv h'"
proof (induction rule: idle_step.induct)
  case (check h xs ys cb h')
  then have "h'\<lparr>ih_callbacks := xs @ cb # ys\<rparr> = h\<lparr>ih_trace := ih_trace h', ih_callbacks := xs @ cb # ys\<rparr>"
    by (auto simp: on_timeout_check_def ih_emit_def split: if_splits option.splits)
  then show ?case using check by (simp add: timer_inv_def split: option.splits)
next
  case (trigger h xs c ys)
  then show ?case by (cases c) (simp_all add: timer_inv_def idle_defs split: option.splits)
qed (simp_all add: timer_inv_def idle_defs split: option.splits)

lemma count_inv_step: "idle_step h h' \<Longrightarrow> count_inv h \<Longrightarrow> count_inv h'"
proof (induction rule: idle_step.induct)
  case (check h xs ys cb h')
  then show ?case
    by (auto simp: count_inv_def on_timeout_check_def ih_emit_def expired_of_def split: if_splits option.splits)
next
  case (trigger h xs c ys)
  then show ?case by (cases c) (simp_all add: count_inv_def idle_defs expired_of_def)
qed (simp_all add: count_inv_def idle_defs expired_of_def)

lemma ih_idleTime_step: "idle_step h h' \<Longrightarrow> ih_idleTime h' = ih_idleTime h"
proof (induction rule: idle_step.induct)
  case (check h xs ys cb h')
  then show ?case by (auto simp: on_timeout_check_def ih_emit_def split: if_splits option.splits)
qed (simp_all add: idle_defs split: option.splits)

lemma idle_reachable_inv:
  "idle_reachable idle h \<Longrightarrow> clock_inv h \<and> timer_inv h \<and> count_inv h \<and> ih_idleTime h = idle"
proof (induction rule: idle_reachable.induct)
  case (start now)
  then show ?case by (simp add: clock_inv_def timer_inv_def count_inv_def IdleHandler_def)
qed (simp add: clock_inv_step timer_inv_step count_inv_step ih_idleTime_step)

section \<open>Properties\<close>

text \<open>(C20) Idle events are honest. In every interleaving of messages, activation, closing and timer callbacks: whenever a
  callback finds the connection idle, every message noted before lies at least the idle time back; events are raised at
  most as often as that was found; the timer exists exactly while the handler is active; and an active handler always has
  the timer armed within the idle time or a callback under way that arms it again.\<close>

theorem idle_events_honest:
  assumes "idle_reachable idle h"
  shows "(\<forall>xs t c ys r. ih_trace h = xs @ Expired t c # ys \<longrightarrow> Noted r \<in> set xs \<longrightarrow> r + idle \<le> t) \<and>
    raised (ih_trace h) \<le> allowed (ih_trace h) \<and> (ih_ctx h = None \<longleftrightarrow> ih_timer h = None) \<and>
    (\<forall>c. ih_ctx h = Some c \<longrightarrow> ih_callbacks h \<noteq> [] \<or> (\<exists>d. ih_timer h = Some (Some d) \<and> d \<le> ih_now h + idle))"
proof -
  have inv: "clock_inv h" "timer_inv h" "count_inv h" "ih_idleTime h = idle" using idle_reachable_inv [OF assms] by simp_all
  have "\<exists>d. ih_timer h = Some (Some d) \<and> d \<le> ih_now h + idle" if "ih_ctx h = Some c" "ih_callbacks h = []" for c
    using inv(2,4) that by (auto simp: timer_inv_def split: option.splits)
  moreover have "ih_ctx h = None \<longleftrightarrow> ih_timer h = None" using inv(2) by (auto simp: timer_inv_def split: option.splits)
  moreover have "raised (ih_trace h) \<le> allowed (ih_trace h)" using inv(3) by (simp add: count_inv_def)
  moreover have "quiet idle (ih_trace h)" using inv(1,4) by (simp add: clock_inv_def)
  then have "\<forall>xs t c ys r. ih_trace h = xs @ Expired t c # ys \<longrightarrow> Noted r \<in> set xs \<longrightarrow> r + idle \<le> t"
    unfolding quiet_def by blast
  ultimately show ?thesis by blast
qed

text \<open>Silence is reported. An active handler with no callback under way has its timer armed within the idle time; if no
  message comes until it fires, the callback raises the event on the handler's context and arms the timer for the next
  period.\<close>

lemma idle_silence_reported:
  assumes "idle_reachable idle h" "ih_ctx h = Some c" "ih_callbacks h = []"
  shows "\<exists>d \<le> ih_now h + idle. ih_timer h = Some (Some d) \<and> (\<forall>late. d \<le> ih_now h + late \<longrightarrow>
    idle_step\<^sup>*\<^sup>* h (h\<lparr>ih_now := ih_now h + late, ih_timer := Some (Some (ih_now h + late + idle)),
      ih_trace := ih_trace h @ [Expired (ih_now h + late) c, Trigger c]\<rparr>))"
proof -
  have inv: "timer_inv h" "ih_idleTime h = idle" using idle_reachable_inv [OF assms(1)] by simp_all
  then obtain d where d: "ih_timer h = Some (Some d)" "ih_last h + idle \<le> d" "d \<le> ih_now h + idle" "ih_idleTime h = idle"
    using assms(2,3) by (auto simp: timer_inv_def split: option.splits)
  have "idle_step\<^sup>*\<^sup>* h (h\<lparr>ih_now := t, ih_timer := Some (Some (t + idle)), ih_trace := ih_trace h @ [Expired t c, Trigger c]\<rparr>)"
    if t: "t = ih_now h + late" "d \<le> t" for t late
  proof -
    let ?t1 = "ih_trace h @ [Expired t c]"
    define h1 where "h1 = h\<lparr>ih_now := t\<rparr>"
    define h2 where "h2 = h1\<lparr>ih_timer := Some None, ih_callbacks := [Fired]\<rparr>"
    define h3 where "h3 = h2\<lparr>ih_trace := ?t1, ih_callbacks := [Checked (Some c)]\<rparr>"
    define h4 where "h4 = h3\<lparr>ih_trace := ?t1 @ [Trigger c], ih_callbacks := [Triggered]\<rparr>"
    have 1: "idle_step h h1" unfolding h1_def t(1) by (rule wait)
    have 2: "idle_step h1 h2" using fire [of h1 d] d(1) t(2) assms(3) by (simp add: h1_def h2_def)
    have "idle \<le> t - ih_last h" using d(2) t(2) by linarith
    then have "on_timeout_check h2 = (Checked (Some c), h2\<lparr>ih_trace := ?t1\<rparr>)"
      using assms(2) d(4) by (simp add: on_timeout_check_def h1_def h2_def ih_emit_def)
    from check [OF _ this, of "[]" "[]"] have 3: "idle_step h2 h3" by (simp add: h2_def h3_def)
    have 4: "idle_step h3 h4"
      using trigger [of h3 "[]" "Some c" "[]"] by (simp add: h3_def h4_def on_timeout_trigger_def ih_emit_def)
    have 5: "idle_step h4 (h4\<lparr>ih_timer := Some (Some (t + idle)), ih_callbacks := []\<rparr>)"
      using reset [of h4 "[]" "[]"] d(4) by (simp add: h1_def h2_def h3_def h4_def on_timeout_reset_def)
    have "h4\<lparr>ih_timer := Some (Some (t + idle)), ih_callbacks := []\<rparr> =
        h\<lparr>ih_now := t, ih_timer := Some (Some (t + idle)), ih_trace := ih_trace h @ [Expired t c, Trigger c]\<rparr>"
      using assms(3) by (simp add: h1_def h2_def h3_def h4_def)
    moreover note into = rtranclp.rtrancl_into_rtrancl [of idle_step]
    have "idle_step\<^sup>*\<^sup>* h (h4\<lparr>ih_timer := Some (Some (t + idle)), ih_callbacks := []\<rparr>)"
      by (rule into [OF into [OF into [OF into [OF r_into_rtranclp [of idle_step, OF 1] 2] 3] 4] 5])
    ultimately show ?thesis by simp
  qed
  then show ?thesis using d(1,3) by blast
qed

section \<open>Instances\<close>

definition active_idle :: idleHandler where
  "active_idle = idle_HandleActive 7 (IdleHandler 30 100)"

lemma active_idle_reachable: "idle_reachable 30 active_idle"
  unfolding active_idle_def by (rule idle_reachable.step [OF idle_reachable.start active])

theorem idle_events_honest_witness:
  "raised (ih_trace active_idle) \<le> allowed (ih_trace active_idle) \<and> (ih_ctx active_idle = None \<longleftrightarrow> ih_timer active_idle = None) \<and>
    (\<exists>d. ih_timer active_idle = Some (Some d) \<and> d \<le> ih_now active_idle + 30)"
proof -
  have "ih_ctx active_idle = Some 7" "ih_callbacks active_idle = []"
    by (simp_all add: active_idle_def idle_HandleActive_def IdleHandler_def ih_emit_def)
  then show ?thesis using idle_events_honest [OF active_idle_reachable] by blast
qed

end
