(* ===== verification/Worker_Pool.thy ===== *)
theory Worker_Pool
  imports VPrelude "HOL-Library.Multiset"
begin

text \<open>
  The goroutine pool behind the channel executor (\<open>netty/utils/worker_pool.go\<close>, \<open>netty/executor.go\<close>): the
  dispatcher, the workers and the callers of \<open>AddTask\<close> and \<open>Stop\<close> as one step relation, a step per channel
  operation. Tasks are named by numbers. A worker's own channel has capacity one and is empty whenever the worker
  is in \<open>readyWorkers\<close>, so taking a worker from there and sending to it is one step.
\<close>

section \<open>State\<close>

text \<open>A worker is about to enter \<open>readyWorkers\<close>, waits there, has a task or \<open>nil\<close> in its channel, runs a task, or
  has returned.\<close>

datatype worker = WReadying | WIdle | WTask nat | WQuit | WRun nat | WExited

text \<open>Where the dispatcher stands: in its \<open>select\<close>, holding a task for which it waits for a worker, retiring idle
  workers, emptying the queue after \<open>Stop\<close>, holding one of those tasks, dismissing the workers, gone.\<close>

datatype dispatch = DSelect | DHave nat | DShrink nat | DDrain | DDrainHave nat | DRetire | DExited

record workerPool =
  wp_maxWorkers :: nat
  wp_idleWorkers :: nat
  wp_taskCap :: nat
  wp_taskQueue :: "nat list"
  wp_readyWorkers :: "nat list"
  wp_workers :: "worker list"
  wp_workerCount :: nat
  wp_dispatch :: dispatch
  wp_cancelled :: bool
  wp_adding :: "nat list"    \<comment> \<open>calls of \<open>AddTask\<close> between the test and the send\<close>
  wp_accepted :: "nat list"  \<comment> \<open>tasks sent to the queue, in order\<close>
  wp_handed :: "nat list"    \<comment> \<open>tasks given to a worker, in order\<close>
  wp_done :: "nat list"      \<comment> \<open>tasks finished, in order\<close>
  wp_panics :: "nat list"    \<comment> \<open>sends to the closed queue\<close>

definition NewWorkerPool :: "nat \<Rightarrow> nat \<Rightarrow> nat \<Rightarrow> workerPool" where
  "NewWorkerPool taskCap idleWorker maxWorker =
     (let idle = (if idleWorker < 1 then 1 else idleWorker); mx = (if maxWorker < idle then idle else maxWorker)
      in \<lparr>wp_maxWorkers = mx, wp_idleWorkers = idle, wp_taskCap = taskCap, wp_taskQueue = [], wp_readyWorkers = [],
          wp_workers = [], wp_workerCount = 0, wp_dispatch = DSelect, wp_cancelled = False, wp_adding = [],
          wp_accepted = [], wp_handed = [], wp_done = [], wp_panics = []\<rparr>)"

section \<open>Steps\<close>

definition startWorker :: "workerPool \<Rightarrow> workerPool" where
  "startWorker p = p\<lparr>wp_workers := wp_workers p @ [WReadying], wp_workerCount := wp_workerCount p + 1\<rparr>"

text \<open>\<open>worker := <-wp.readyWorkers; worker <- x\<close>.\<close>

definition send_worker :: "worker \<Rightarrow> workerPool \<Rightarrow> workerPool" where
  "send_worker x p = p\<lparr>wp_readyWorkers := tl (wp_readyWorkers p),
     wp_workers := (wp_workers p)[hd (wp_readyWorkers p) := x]\<rparr>"

definition hand_task :: "nat \<Rightarrow> workerPool \<Rightarrow> workerPool" where
  "hand_task t p = (send_worker (WTask t) p)\<lparr>wp_handed := wp_handed p @ [t]\<rparr>"

definition dismiss_worker :: "workerPool \<Rightarrow> workerPool" where
  "dismiss_worker p = (send_worker WQuit p)\<lparr>wp_workerCount := wp_workerCount p - 1\<rparr>"

text \<open>The dispatcher's own steps.\<close>

inductive dispatch_step :: "workerPool \<Rightarrow> workerPool \<Rightarrow> bool" where
  take_ready: "wp_dispatch p = DSelect \<Longrightarrow> wp_taskQueue p = t # q \<Longrightarrow> wp_readyWorkers p \<noteq> [] \<Longrightarrow>
     dispatch_step p (hand_task t (p\<lparr>wp_taskQueue := q\<rparr>))"
| take_start: "wp_dispatch p = DSelect \<Longrightarrow> wp_taskQueue p = t # q \<Longrightarrow> wp_readyWorkers p = [] \<Longrightarrow>
     wp_workerCount p < wp_maxWorkers p \<Longrightarrow>
     dispatch_step p ((startWorker p)\<lparr>wp_taskQueue := q, wp_dispatch := DHave t\<rparr>)"
| take_wait: "wp_dispatch p = DSelect \<Longrightarrow> wp_taskQueue p = t # q \<Longrightarrow> wp_readyWorkers p = [] \<Longrightarrow>
     \<not> wp_workerCount p < wp_maxWorkers p \<Longrightarrow>
     dispatch_step p (p\<lparr>wp_taskQueue := q, wp_dispatch := DHave t\<rparr>)"
| give: "wp_dispatch p = DHave t \<Longrightarrow> wp_readyWorkers p \<noteq> [] \<Longrightarrow>
     dispatch_step p ((hand_task t p)\<lparr>wp_dispatch := DSelect\<rparr>)"
| retire_one: "wp_dispatch p = DShrink (Suc i) \<Longrightarrow> wp_readyWorkers p \<noteq> [] \<Longrightarrow>
     dispatch_step p ((dismiss_worker p)\<lparr>wp_dispatch := DShrink i\<rparr>)"
| retire_none: "wp_dispatch p = DShrink (Suc i) \<Longrightarrow> wp_readyWorkers p = [] \<Longrightarrow>
     dispatch_step p (p\<lparr>wp_dispatch := DSelect\<rparr>)"
| retire_end: "wp_dispatch p = DShrink 0 \<Longrightarrow> dispatch_step p (p\<lparr>wp_dispatch := DSelect\<rparr>)"
| see_stop: "wp_dispatch p = DSelect \<Longrightarrow> wp_cancelled p \<Longrightarrow> dispatch_step p (p\<lparr>wp_dispatch := DDrain\<rparr>)"
| drain_take: "wp_dispatch p = DDrain \<Longrightarrow> wp_taskQueue p = t # q \<Longrightarrow>
     dispatch_step p (p\<lparr>wp_taskQueue := q, wp_dispatch := DDrainHave t\<rparr>)"
| drain_give: "wp_dispatch p = DDrainHave t \<Longrightarrow> wp_readyWorkers p \<noteq> [] \<Longrightarrow>
     dispatch_step p ((hand_task t p)\<lparr>wp_dispatch := DDrain\<rparr>)"
| drain_end: "wp_dispatch p = DDrain \<Longrightarrow> wp_taskQueue p = [] \<Longrightarrow> dispatch_step p (p\<lparr>wp_dispatch := DRetire\<rparr>)"
| dismiss: "wp_dispatch p = DRetire \<Longrightarrow> wp_workerCount p > 0 \<Longrightarrow> wp_readyWorkers p \<noteq> [] \<Longrightarrow>
     dispatch_step p (dismiss_worker p)"
| close_pool: "wp_dispatch p = DRetire \<Longrightarrow> wp_workerCount p = 0 \<Longrightarrow> dispatch_step p (p\<lparr>wp_dispatch := DExited\<rparr>)"

text \<open>The tick that starts a round of retirement.\<close>

inductive timer_step :: "workerPool \<Rightarrow> workerPool \<Rightarrow> bool" where
  tick: "wp_dispatch p = DSelect \<Longrightarrow> wp_workerCount p > wp_idleWorkers p \<Longrightarrow>
     timer_step p (p\<lparr>wp_dispatch := DShrink (wp_workerCount p - wp_idleWorkers p)\<rparr>)"

inductive worker_step :: "workerPool \<Rightarrow> workerPool \<Rightarrow> bool" where
  ready: "w < length (wp_workers p) \<Longrightarrow> wp_workers p ! w = WReadying \<Longrightarrow>
     length (wp_readyWorkers p) < wp_idleWorkers p \<Longrightarrow>
     worker_step p (p\<lparr>wp_workers := (wp_workers p)[w := WIdle], wp_readyWorkers := wp_readyWorkers p @ [w]\<rparr>)"
| receive: "w < length (wp_workers p) \<Longrightarrow> wp_workers p ! w = WTask t \<Longrightarrow>
     worker_step p (p\<lparr>wp_workers := (wp_workers p)[w := WRun t]\<rparr>)"
| finish: "w < length (wp_workers p) \<Longrightarrow> wp_workers p ! w = WRun t \<Longrightarrow>
     worker_step p (p\<lparr>wp_workers := (wp_workers p)[w := WReadying], wp_done := wp_done p @ [t]\<rparr>)"
| quit: "w < length (wp_workers p) \<Longrightarrow> wp_workers p ! w = WQuit \<Longrightarrow>
     worker_step p (p\<lparr>wp_workers := (wp_workers p)[w := WExited]\<rparr>)"

text \<open>\<open>AddTask\<close> tests for cancellation and then sends; \<open>Stop\<close> cancels.\<close>

inductive caller_step :: "workerPool \<Rightarrow> workerPool \<Rightarrow> bool" where
  add_test: "\<not> wp_cancelled p \<Longrightarrow> caller_step p (p\<lparr>wp_adding := t # wp_adding p\<rparr>)"
| stop: "caller_step p (p\<lparr>wp_cancelled := True\<rparr>)"

inductive adding_step :: "workerPool \<Rightarrow> workerPool \<Rightarrow> bool" where
  add_send: "wp_adding p = xs @ t # ys \<Longrightarrow> wp_dispatch p \<noteq> DExited \<Longrightarrow> length (wp_taskQueue p) < wp_taskCap p \<Longrightarrow>
     adding_step p (p\<lparr>wp_adding := xs @ ys, wp_taskQueue := wp_taskQueue p @ [t], wp_accepted := wp_accepted p @ [t]\<rparr>)"
| add_panic: "wp_adding p = xs @ t # ys \<Longrightarrow> wp_dispatch p = DExited \<Longrightarrow>
     adding_step p (p\<lparr>wp_adding := xs @ ys, wp_panics := wp_panics p @ [t]\<rparr>)"

text \<open>The steps the pool takes by itself, and all steps.\<close>

definition pool_step :: "workerPool \<Rightarrow> workerPool \<Rightarrow> bool" where
  "pool_step p p' \<longleftrightarrow> dispatch_step p p' \<or> worker_step p p' \<or> adding_step p p'"

definition any_step :: "workerPool \<Rightarrow> workerPool \<Rightarrow> bool" where
  "any_step p p' \<longleftrightarrow> pool_step p p' \<or> timer_step p p' \<or> caller_step p p'"

inductive pool_reachable :: "nat \<Rightarrow> nat \<Rightarrow> nat \<Rightarrow> workerPool \<Rightarrow> bool" for taskCap idle mx where
  start: "pool_reachable taskCap idle mx (NewWorkerPool taskCap idle mx)"
| step: "pool_reachable taskCap idle mx p \<Longrightarrow> any_step p p' \<Longrightarrow> pool_reachable taskCap idle mx p'"

section \<open>Invariant\<close>

fun held :: "dispatch \<Rightarrow> nat list" where
  "held (DHave t) = [t]"
| "held (DDrainHave t) = [t]"
| "held _ = []"

fun tasks_of :: "worker \<Rightarrow> nat list" where
  "tasks_of (WTask t) = [t]"
| "tasks_of (WRun t) = [t]"
| "tasks_of _ = []"

definition live :: "worker \<Rightarrow> bool" where
  "live w \<longleftrightarrow> w \<noteq> WQuit \<and> w \<noteq> WExited"

definition busy_tasks :: "worker list \<Rightarrow> nat multiset" where
  "busy_tasks ws = mset (concat (map tasks_of ws))"

definition lives :: "worker list \<Rightarrow> nat" where
  "lives ws = length (filter live ws)"

text \<open>Every accepted task is in the queue, in the dispatcher's hand, with a worker or done.\<close>

definition conserved :: "workerPool \<Rightarrow> bool" where
  "conserved p \<longleftrightarrow> wp_accepted p = wp_handed p @ held (wp_dispatch p) @ wp_taskQueue p \<and>
     mset (wp_handed p) = mset (wp_done p) + busy_tasks (wp_workers p)"

text \<open>The channel of ready workers holds exactly the idle ones.\<close>

definition staffed :: "workerPool \<Rightarrow> bool" where
  "staffed p \<longleftrightarrow> distinct (wp_readyWorkers p) \<and>
     set (wp_readyWorkers p) = {w. w < length (wp_workers p) \<and> wp_workers p ! w = WIdle} \<and>
     length (wp_readyWorkers p) \<le> wp_idleWorkers p \<and>
     wp_workerCount p = lives (wp_workers p) \<and> wp_workerCount p \<le> wp_maxWorkers p \<and>
     1 \<le> wp_idleWorkers p \<and> wp_idleWorkers p \<le> wp_maxWorkers p"

definition staged :: "workerPool \<Rightarrow> bool" where
  "staged p \<longleftrightarrow> length (wp_taskQueue p) \<le> wp_taskCap p \<and>
     (case wp_dispatch p of
        DHave t \<Rightarrow> 1 \<le> wp_workerCount p
      | DShrink i \<Rightarrow> wp_workerCount p = wp_idleWorkers p + i
      | DExited \<Rightarrow> wp_workerCount p = 0 \<and> wp_cancelled p
      | DDrain \<Rightarrow> wp_cancelled p | DDrainHave _ \<Rightarrow> wp_cancelled p | DRetire \<Rightarrow> wp_cancelled p
      | _ \<Rightarrow> True)"

lemma worker_update:
  assumes "w < length ws"
  shows "busy_tasks (ws[w := x]) + mset (tasks_of (ws ! w)) = busy_tasks ws + mset (tasks_of x)"
    "lives (ws[w := x]) + (if live (ws ! w) then 1 else 0) = lives ws + (if live x then 1 else 0)"
proof -
  define a b where "a = take w ws" and "b = drop (Suc w) ws"
  obtain y where y: "y = ws ! w" by blast
  have ws: "ws = a @ y # b" and u: "ws[w := x] = a @ x # b"
    using id_take_nth_drop [OF assms] upd_conv_take_nth_drop [OF assms] by (simp_all add: a_def b_def y)
  show "busy_tasks (ws[w := x]) + mset (tasks_of (ws ! w)) = busy_tasks ws + mset (tasks_of x)"
    unfolding y [symmetric] u by (subst ws) (simp add: busy_tasks_def)
  show "lives (ws[w := x]) + (if live (ws ! w) then 1 else 0) = lives ws + (if live x then 1 else 0)"
    unfolding y [symmetric] u by (subst ws) (simp add: lives_def)
qed

lemma busy_lives_simps [simp]:
  "busy_tasks [] = {#}" "lives [] = 0" "busy_tasks (ws @ [x]) = busy_tasks ws + mset (tasks_of x)"
  "lives (ws @ [x]) = lives ws + (if live x then 1 else 0)"
  by (simp_all add: busy_tasks_def lives_def)

lemma live_simps [simp]:
  "live WReadying" "live WIdle" "live (WTask t)" "live (WRun t)" "\<not> live WQuit" "\<not> live WExited"
  by (simp_all add: live_def)

text \<open>Taking a worker from the channel and sending to it.\<close>

lemma send_worker_workers:
  assumes "staffed p" "wp_readyWorkers p \<noteq> []" "x \<noteq> WIdle"
  shows "busy_tasks (wp_workers (send_worker x p)) = busy_tasks (wp_workers p) + mset (tasks_of x)"
    "lives (wp_workers (send_worker x p)) + (if live x then 0 else 1) = lives (wp_workers p)"
    "distinct (wp_readyWorkers (send_worker x p))"
    "set (wp_readyWorkers (send_worker x p)) =
      {w. w < length (wp_workers (send_worker x p)) \<and> wp_workers (send_worker x p) ! w = WIdle}"
    "length (wp_readyWorkers (send_worker x p)) \<le> wp_idleWorkers p"
proof -
  obtain w r where r: "wp_readyWorkers p = w # r" using assms(2) by (cases "wp_readyWorkers p") auto
  have w: "w < length (wp_workers p)" "wp_workers p ! w = WIdle" using assms(1) r by (auto simp: staffed_def)
  from worker_update [OF w(1), of x] w(2)
  show "busy_tasks (wp_workers (send_worker x p)) = busy_tasks (wp_workers p) + mset (tasks_of x)"
    "lives (wp_workers (send_worker x p)) + (if live x then 0 else 1) = lives (wp_workers p)"
    by (cases "live x"; simp add: send_worker_def r)+
  show "distinct (wp_readyWorkers (send_worker x p))" "length (wp_readyWorkers (send_worker x p)) \<le> wp_idleWorkers p"
    using assms(1) r by (auto simp: staffed_def send_worker_def)
  have "set r = set (wp_readyWorkers p) - {w}" using assms(1) r by (auto simp: staffed_def)
  also have "\<dots> = {v. v < length (wp_workers p) \<and> (wp_workers p)[w := x] ! v = WIdle}"
    using assms(1,3) w by (auto simp: staffed_def nth_list_update)
  finally show "set (wp_readyWorkers (send_worker x p)) =
      {w. w < length (wp_workers (send_worker x p)) \<and> wp_workers (send_worker x p) ! w = WIdle}"
    by (simp add: send_worker_def r)
qed

lemma send_worker_frame [simp]:
  "wp_dispatch (send_worker x p) = wp_dispatch p" "wp_taskQueue (send_worker x p) = wp_taskQueue p"
  "wp_accepted (send_worker x p) = wp_accepted p" "wp_handed (send_worker x p) = wp_handed p"
  "wp_done (send_worker x p) = wp_done p" "wp_workerCount (send_worker x p) = wp_workerCount p"
  "wp_idleWorkers (send_worker x p) = wp_idleWorkers p" "wp_maxWorkers (send_worker x p) = wp_maxWorkers p"
  "wp_taskCap (send_worker x p) = wp_taskCap p" "wp_cancelled (send_worker x p) = wp_cancelled p"
  "wp_adding (send_worker x p) = wp_adding p"
  by (simp_all add: send_worker_def)

lemma staffed_hand:
  assumes "staffed p" "wp_readyWorkers p \<noteq> []"
  shows "staffed (hand_task t p)"
  using send_worker_workers [OF assms, of "WTask t"] assms(1) by (simp add: staffed_def hand_task_def)

lemma staffed_dismiss:
  assumes "staffed p" "wp_readyWorkers p \<noteq> []"
  shows "staffed (dismiss_worker p)"
  using send_worker_workers [OF assms, of WQuit] assms(1) by (simp add: staffed_def dismiss_worker_def) linarith

lemma staffed_frame:
  "staffed (p\<lparr>wp_taskQueue := q\<rparr>) = staffed p" "staffed (p\<lparr>wp_dispatch := d\<rparr>) = staffed p"
  "staffed (p\<lparr>wp_cancelled := c\<rparr>) = staffed p" "staffed (p\<lparr>wp_adding := xs\<rparr>) = staffed p"
  "staffed (p\<lparr>wp_accepted := xs\<rparr>) = staffed p" "staffed (p\<lparr>wp_panics := xs\<rparr>) = staffed p"
  "staffed (p\<lparr>wp_done := xs\<rparr>) = staffed p"
  by (simp_all add: staffed_def)

lemma staffed_start: "staffed p \<Longrightarrow> wp_workerCount p < wp_maxWorkers p \<Longrightarrow> staffed (startWorker p)"
proof -
  assume a: "staffed p" "wp_workerCount p < wp_maxWorkers p"
  have "{w. w < Suc (length (wp_workers p)) \<and> (wp_workers p @ [WReadying]) ! w = WIdle} =
      {w. w < length (wp_workers p) \<and> wp_workers p ! w = WIdle}"
    by (auto simp: nth_append less_Suc_eq)
  then show ?thesis using a by (simp add: staffed_def startWorker_def)
qed

text \<open>A worker that changes its own state, not in the channel before or after.\<close>

lemma staffed_worker:
  assumes "staffed p" "w < length (wp_workers p)" "wp_workers p ! w \<noteq> WIdle" "x \<noteq> WIdle"
    "live (wp_workers p ! w) = live x"
  shows "staffed (p\<lparr>wp_workers := (wp_workers p)[w := x]\<rparr>)"
proof -
  have "lives ((wp_workers p)[w := x]) = lives (wp_workers p)"
    using worker_update(2) [OF assms(2), of x] assms(5) by (simp split: if_splits)
  moreover have "{v. v < length (wp_workers p) \<and> (wp_workers p)[w := x] ! v = WIdle} =
      {v. v < length (wp_workers p) \<and> wp_workers p ! v = WIdle}"
    using assms(2-4) by (auto simp: nth_list_update)
  ultimately show ?thesis using assms(1) by (simp add: staffed_def)
qed

lemma staffed_ready:
  assumes "staffed p" "w < length (wp_workers p)" "wp_workers p ! w = WReadying"
    "length (wp_readyWorkers p) < wp_idleWorkers p"
  shows "staffed (p\<lparr>wp_workers := (wp_workers p)[w := WIdle], wp_readyWorkers := wp_readyWorkers p @ [w]\<rparr>)"
proof -
  have "lives ((wp_workers p)[w := WIdle]) = lives (wp_workers p)"
    using worker_update(2) [OF assms(2), of WIdle] assms(3) by simp
  moreover have "{v. v < length (wp_workers p) \<and> (wp_workers p)[w := WIdle] ! v = WIdle} =
      insert w {v. v < length (wp_workers p) \<and> wp_workers p ! v = WIdle}"
    using assms(2) by (auto simp: nth_list_update)
  moreover have "w \<notin> set (wp_readyWorkers p)" using assms(1,3) by (auto simp: staffed_def)
  ultimately show ?thesis using assms(1,4) by (simp add: staffed_def)
qed

lemma dispatch_staffed: "dispatch_step p p' \<Longrightarrow> staffed p \<Longrightarrow> staffed p'"
proof (induction rule: dispatch_step.induct)
  case (take_start p t q)
  then have "staffed (startWorker p)" by (intro staffed_start) simp_all
  then show ?case by (simp add: staffed_frame)
qed (simp_all add: staffed_frame staffed_hand staffed_dismiss)

lemma worker_staffed: "worker_step p p' \<Longrightarrow> staffed p \<Longrightarrow> staffed p'"
proof (induction rule: worker_step.induct)
  case (finish w p t)
  then have "staffed (p\<lparr>wp_workers := (wp_workers p)[w := WReadying]\<rparr>)" by (intro staffed_worker) simp_all
  then show ?case by (simp add: staffed_def)
qed (simp_all add: staffed_worker staffed_ready)

lemma dispatch_conserved:
  assumes "dispatch_step p p'" "staffed p" "conserved p"
  shows "conserved p'"
proof -
  have h: "conserved ((hand_task t (p\<lparr>wp_taskQueue := q\<rparr>))\<lparr>wp_dispatch := d\<rparr>)"
    if "wp_readyWorkers p \<noteq> []" "wp_accepted p = wp_handed p @ t # q" "held d = []" for t q d
  proof -
    have "wp_workers (send_worker x (p\<lparr>wp_taskQueue := q\<rparr>)) = wp_workers (send_worker x p)" for x
      by (simp add: send_worker_def)
    then show ?thesis using send_worker_workers(1) [OF assms(2) that(1), of "WTask t"] assms(3) that(2,3)
      by (simp add: conserved_def hand_task_def)
  qed
  have r: "conserved ((dismiss_worker p)\<lparr>wp_dispatch := d\<rparr>)"
    if "wp_readyWorkers p \<noteq> []" "held d = held (wp_dispatch p)" for d
    using send_worker_workers(1) [OF assms(2) that(1), of WQuit] assms(3) that(2)
    by (simp add: conserved_def dismiss_worker_def)
  from assms(1) show ?thesis
  proof cases
    case (take_ready t q)
    then show ?thesis using h [of t q DSelect] assms(3) by (simp add: conserved_def hand_task_def)
  next
    case (take_start t q)
    then show ?thesis using assms(3) by (simp add: conserved_def startWorker_def)
  next
    case (give t)
    then show ?thesis using h [of t "wp_taskQueue p" DSelect] assms(3) by (simp add: conserved_def hand_task_def)
  next
    case (drain_give t)
    then show ?thesis using h [of t "wp_taskQueue p" DDrain] assms(3) by (simp add: conserved_def hand_task_def)
  next
    case (retire_one i)
    then show ?thesis using r [of "DShrink i"] by simp
  next
    case dismiss
    then show ?thesis using r [of DRetire] by (simp add: conserved_def dismiss_worker_def)
  qed (use assms(3) in \<open>simp_all add: conserved_def\<close>)
qed

lemma worker_conserved: "worker_step p p' \<Longrightarrow> conserved p \<Longrightarrow> conserved p'"
proof (induction rule: worker_step.induct)
  case (ready w p)
  then show ?case using worker_update(1) [of w "wp_workers p" WIdle] by (simp add: conserved_def)
next
  case (receive w p t)
  then show ?case using worker_update(1) [of w "wp_workers p" "WRun t"] by (simp add: conserved_def)
next
  case (finish w p t)
  then show ?case using worker_update(1) [of w "wp_workers p" WReadying] by (simp add: conserved_def)
next
  case (quit w p)
  then show ?case using worker_update(1) [of w "wp_workers p" WExited] by (simp add: conserved_def)
qed

lemma dispatch_staged: "dispatch_step p p' \<Longrightarrow> staffed p \<Longrightarrow> staged p \<Longrightarrow> staged p'"
  by (induction rule: dispatch_step.induct)
    (auto simp: staged_def staffed_def startWorker_def hand_task_def dismiss_worker_def not_less)

lemma worker_staged: "worker_step p p' \<Longrightarrow> staged p \<Longrightarrow> staged p'"
  by (cases rule: worker_step.cases, assumption; cases "wp_dispatch p"; simp add: staged_def)

definition pool_inv :: "workerPool \<Rightarrow> bool" where
  "pool_inv p \<longleftrightarrow> staffed p \<and> conserved p \<and> staged p"

lemma pool_inv_step: "any_step p p' \<Longrightarrow> pool_inv p \<Longrightarrow> pool_inv p'"
  unfolding any_step_def pool_step_def pool_inv_def
proof (elim disjE conjE)
  assume "adding_step p p'" "staffed p" "conserved p" "staged p"
  then show "staffed p' \<and> conserved p' \<and> staged p'"
    by cases (simp_all add: staffed_frame, auto simp: conserved_def staged_def split: dispatch.splits)
next
  assume "timer_step p p'" "staffed p" "conserved p" "staged p"
  then show "staffed p' \<and> conserved p' \<and> staged p'"
    by cases (simp add: staffed_frame conserved_def staged_def)
next
  assume "caller_step p p'" "staffed p" "conserved p" "staged p"
  then show "staffed p' \<and> conserved p' \<and> staged p'"
    by cases (simp_all add: staffed_frame, auto simp: conserved_def staged_def split: dispatch.splits)
qed (simp_all add: dispatch_staffed dispatch_conserved dispatch_staged worker_staffed worker_conserved worker_staged)

lemma pool_inv_new: "pool_inv (NewWorkerPool taskCap idle mx)"
  by (simp add: pool_inv_def staffed_def conserved_def staged_def NewWorkerPool_def Let_def)

lemma reachable_inv: "pool_reachable taskCap idle mx p \<Longrightarrow> pool_inv p"
  by (induction rule: pool_reachable.induct) (simp_all add: pool_inv_new pool_inv_step)

lemma distinct_submultiset:
  assumes "mset xs \<subseteq># mset ys" "distinct ys"
  shows "distinct xs"
proof -
  have "count (mset xs) a \<le> 1" for a
  proof -
    have "count (mset xs) a \<le> count (mset ys) a" using assms(1) by (rule mset_subset_eq_count)
    also have "\<dots> \<le> 1" using assms(2) by (simp add: distinct_count_atmost_1)
    finally show ?thesis .
  qed
  moreover have "a \<in> set xs \<longleftrightarrow> count (mset xs) a \<noteq> 0" for a by (simp add: count_mset_0_iff)
  ultimately show ?thesis unfolding distinct_count_atmost_1 by (metis le_antisym less_one not_less)
qed

section \<open>Progress\<close>

text \<open>A live worker outside the empty channel can move.\<close>

lemma busy_worker_moves:
  assumes "staffed p" "wp_readyWorkers p = []" "0 < wp_workerCount p"
  shows "\<exists>p'. worker_step p p'"
proof -
  have "0 < lives (wp_workers p)" using assms by (simp add: staffed_def)
  then obtain w where w: "w < length (wp_workers p)" "live (wp_workers p ! w)"
    by (metis in_set_conv_nth length_greater_0_conv lives_def filter_False)
  have "wp_workers p ! w \<noteq> WIdle" using assms(1,2) w(1) by (auto simp: staffed_def)
  moreover have "length (wp_readyWorkers p) < wp_idleWorkers p" using assms(1,2) by (simp add: staffed_def)
  ultimately show ?thesis using w by (cases "wp_workers p ! w") (auto intro: worker_step.intros)
qed

lemma task_worker_moves:
  assumes "busy_tasks (wp_workers p) \<noteq> {#}"
  shows "\<exists>p'. worker_step p p'"
proof -
  obtain x where "x \<in> set (wp_workers p)" "tasks_of x \<noteq> []"
    using assms by (auto simp: busy_tasks_def)
  then obtain w where "w < length (wp_workers p)" "tasks_of (wp_workers p ! w) \<noteq> []" by (auto simp: in_set_conv_nth)
  then show ?thesis by (cases "wp_workers p ! w") (auto intro: worker_step.intros)
qed

lemma dispatcher_moves:
  assumes "pool_inv p" "\<not> wp_cancelled p \<or> 0 < wp_workerCount p" "wp_dispatch p \<noteq> DSelect \<or> wp_taskQueue p \<noteq> []"
  shows "\<exists>p'. dispatch_step p p' \<or> worker_step p p'"
proof -
  note inv = assms(1) [unfolded pool_inv_def]
  have b: "\<exists>p'. worker_step p p'" if "wp_readyWorkers p = []" "0 < wp_workerCount p"
    using busy_worker_moves inv that by blast
  show ?thesis
  proof (cases "wp_dispatch p")
    case DSelect
    then obtain t q where "wp_taskQueue p = t # q" using assms(3) by (cases "wp_taskQueue p") auto
    then show ?thesis using DSelect by (blast intro: dispatch_step.intros)
  next
    case (DHave t)
    then have "0 < wp_workerCount p" using inv by (simp add: staged_def)
    then show ?thesis using b DHave by (blast intro: dispatch_step.intros)
  next
    case (DShrink i)
    then show ?thesis by (cases i) (blast intro: dispatch_step.intros)+
  next
    case DDrain
    then show ?thesis by (cases "wp_taskQueue p") (blast intro: dispatch_step.intros)+
  next
    case (DDrainHave t)
    then have "0 < wp_workerCount p" using assms(2) inv by (auto simp: staged_def)
    then show ?thesis using b DDrainHave by (blast intro: dispatch_step.intros)
  next
    case DRetire
    then show ?thesis using b by (cases "wp_workerCount p = 0") (blast intro: dispatch_step.intros)+
  next
    case DExited
    then show ?thesis using assms(2) inv by (auto simp: staged_def)
  qed
qed

section \<open>Properties\<close>

text \<open>(C9) Tasks are neither lost nor run twice, in every interleaving of callers, dispatcher and workers: the tasks
  accepted are those finished, those with a worker, the one in the dispatcher's hand and those in the queue;
  they are given to workers in the order they were accepted; and at no time are there more live workers than the
  limit.\<close>

theorem pool_tasks_conserved:
  assumes "pool_reachable taskCap idle mx p"
  shows "mset (wp_accepted p) = mset (wp_done p) + busy_tasks (wp_workers p) + mset (held (wp_dispatch p)) +
      mset (wp_taskQueue p) \<and>
    wp_handed p = take (length (wp_handed p)) (wp_accepted p) \<and>
    (distinct (wp_accepted p) \<longrightarrow> distinct (wp_done p)) \<and>
    lives (wp_workers p) \<le> max (max idle 1) mx"
proof -
  have inv: "staffed p" "conserved p" using reachable_inv [OF assms] by (simp_all add: pool_inv_def)
  have "wp_maxWorkers p = max (max idle 1) mx"
    using assms
  proof induction
    case (step p p')
    then show ?case
      by (auto simp: any_step_def pool_step_def hand_task_def dismiss_worker_def startWorker_def
          elim!: dispatch_step.cases worker_step.cases adding_step.cases timer_step.cases caller_step.cases)
  qed (simp add: NewWorkerPool_def Let_def)
  then have m: "lives (wp_workers p) \<le> max (max idle 1) mx" using inv(1) by (simp add: staffed_def)
  have c: "mset (wp_accepted p) = mset (wp_done p) + busy_tasks (wp_workers p) + mset (held (wp_dispatch p)) +
      mset (wp_taskQueue p)" and t: "wp_handed p = take (length (wp_handed p)) (wp_accepted p)"
    using inv(2) by (auto simp: conserved_def)
  have "distinct (wp_done p)" if "distinct (wp_accepted p)"
    by (rule distinct_submultiset [OF _ that]) (simp add: c add.assoc)
  then show ?thesis using c t m by blast
qed

text \<open>(C19) The pool never hangs while it is in service: as long as an accepted task is not finished, and \<open>Stop\<close> has not
  been called or a worker is left, the dispatcher or a worker can take a step.\<close>

theorem pool_never_stuck:
  assumes "pool_reachable taskCap idle mx p" "length (wp_done p) < length (wp_accepted p)"
    and "\<not> wp_cancelled p \<or> 0 < wp_workerCount p"
  shows "\<exists>p'. dispatch_step p p' \<or> worker_step p p'"
proof (cases "wp_dispatch p \<noteq> DSelect \<or> wp_taskQueue p \<noteq> []")
  case True
  then show ?thesis using dispatcher_moves [OF reachable_inv [OF assms(1)] assms(3)] by blast
next
  case False
  then have "wp_accepted p = wp_handed p" "mset (wp_handed p) = mset (wp_done p) + busy_tasks (wp_workers p)"
    using reachable_inv [OF assms(1)] by (simp_all add: pool_inv_def conserved_def)
  then have "busy_tasks (wp_workers p) \<noteq> {#}" using assms(2) by (metis add.right_neutral less_irrefl size_mset)
  then show ?thesis using task_worker_moves by blast
qed

section \<open>Order\<close>

text \<open>One worker: its task follows the finished ones.\<close>

lemma single_live:
  assumes "lives ws \<le> 1" "w < length ws" "live (ws ! w)"
  shows "concat (map tasks_of ws) = tasks_of (ws ! w)"
proof -
  define a b where "a = take w ws" and "b = drop (Suc w) ws"
  obtain y where y: "y = ws ! w" by blast
  have ws: "ws = a @ y # b" using id_take_nth_drop [OF assms(2)] by (simp add: a_def b_def y)
  have "filter live a = []" "filter live b = []" using assms(1,3) unfolding y [symmetric] by (subst (asm) ws, simp add: lives_def)+
  then have "\<forall>x \<in> set a \<union> set b. \<not> live x" by (auto simp: filter_empty_conv)
  then have "\<forall>x \<in> set a \<union> set b. tasks_of x = []" by (metis live_simps(3,4) tasks_of.elims)
  then have "concat (map tasks_of a) = []" "concat (map tasks_of b) = []" by auto
  then show ?thesis unfolding y [symmetric] by (subst ws) (simp del: concat_eq_Nil_conv)
qed

lemma tasks_update_same:
  "w < length ws \<Longrightarrow> tasks_of x = tasks_of (ws ! w) \<Longrightarrow> concat (map tasks_of (ws[w := x])) = concat (map tasks_of ws)"
  by (metis list_update_id map_update nth_map)

definition in_order :: "workerPool \<Rightarrow> bool" where
  "in_order p \<longleftrightarrow> wp_handed p = wp_done p @ concat (map tasks_of (wp_workers p))"

lemma in_order_send:
  assumes "staffed p" "wp_readyWorkers p \<noteq> []" "wp_maxWorkers p = 1" "in_order p"
  shows "wp_handed p @ tasks_of x = wp_done p @ concat (map tasks_of (wp_workers (send_worker x p)))"
proof -
  obtain w r where r: "wp_readyWorkers p = w # r" using assms(2) by (cases "wp_readyWorkers p") auto
  have w: "w < length (wp_workers p)" "wp_workers p ! w = WIdle" using assms(1) r by (auto simp: staffed_def)
  have l: "lives (wp_workers p) \<le> 1" using assms(1,3) by (simp add: staffed_def)
  have o: "wp_handed p = wp_done p" using single_live [OF l w(1)] w(2) assms(4) by (simp add: in_order_def)
  show ?thesis
  proof (cases "live x")
    case True
    then have "lives ((wp_workers p)[w := x]) \<le> 1" using worker_update(2) [OF w(1), of x] w(2) l by simp
    then show ?thesis using single_live [of "(wp_workers p)[w := x]" w] True w o by (simp add: send_worker_def r)
  next
    case False
    then have "tasks_of x = []" by (cases x) simp_all
    then show ?thesis using tasks_update_same [OF w(1), of x] w(2) assms(4) by (simp add: send_worker_def r in_order_def)
  qed
qed

lemma in_order_step:
  assumes "any_step p p'" "pool_inv p" "wp_maxWorkers p = 1" "in_order p"
  shows "in_order p'"
proof -
  have st: "staffed p" "lives (wp_workers p) \<le> 1" using assms(2,3) by (auto simp: pool_inv_def staffed_def)
  have h: "in_order ((hand_task t (p\<lparr>wp_taskQueue := q\<rparr>))\<lparr>wp_dispatch := d\<rparr>)" "in_order (dismiss_worker p)"
    if "wp_readyWorkers p \<noteq> []" for t q d
    using in_order_send [OF st(1) that assms(3,4), of "WTask t"] in_order_send [OF st(1) that assms(3,4), of WQuit]
    by (simp_all add: in_order_def hand_task_def dismiss_worker_def send_worker_def)
  have d: "in_order p'" if "dispatch_step p p'"
    using that
  proof cases
    case (take_ready t q)
    then show ?thesis using h(1) [where t = t and q = q and d = DSelect] by (simp add: in_order_def hand_task_def)
  next
    case (give t)
    then show ?thesis using h(1) [where t = t and q = "wp_taskQueue p" and d = DSelect] by (simp add: in_order_def hand_task_def)
  next
    case (drain_give t)
    then show ?thesis using h(1) [where t = t and q = "wp_taskQueue p" and d = DDrain] by (simp add: in_order_def hand_task_def)
  qed (use h(2) assms(4) in \<open>simp_all add: in_order_def startWorker_def\<close>)
  have w: "in_order p'" if "worker_step p p'"
    using that
  proof cases
    case (finish w t)
    have "concat (map tasks_of (wp_workers p)) = [t]" using single_live [OF st(2) finish(2)] finish(3) by simp
    moreover have "lives ((wp_workers p)[w := WReadying]) \<le> 1"
      using worker_update(2) [OF finish(2), of WReadying] finish(3) st(2) by simp
    then have "concat (map tasks_of ((wp_workers p)[w := WReadying])) = []"
      using single_live [of "(wp_workers p)[w := WReadying]" w] finish(2) by simp
    ultimately show ?thesis using finish(1) assms(4) by (simp add: in_order_def)
  qed (use assms(4) tasks_update_same in \<open>simp_all add: in_order_def\<close>)
  show ?thesis using assms(1,4) d w
    by (auto simp: any_step_def pool_step_def in_order_def elim!: adding_step.cases timer_step.cases caller_step.cases)
qed

lemma wp_maxWorkers_step: "any_step p p' \<Longrightarrow> wp_maxWorkers p' = wp_maxWorkers p"
  by (auto simp: any_step_def pool_step_def hand_task_def dismiss_worker_def startWorker_def
      elim!: dispatch_step.cases worker_step.cases adding_step.cases timer_step.cases caller_step.cases)

text \<open>A run of a pool: the states reached by a list of named steps.\<close>

lemma pool_steps:
  assumes "pool_reachable c i m p"
  shows "\<not> wp_cancelled p \<Longrightarrow> pool_reachable c i m (p\<lparr>wp_adding := t # wp_adding p\<rparr>)"
    "pool_reachable c i m (p\<lparr>wp_cancelled := True\<rparr>)"
    "wp_adding p = t # ys \<Longrightarrow> wp_dispatch p \<noteq> DExited \<Longrightarrow> length (wp_taskQueue p) < wp_taskCap p \<Longrightarrow>
      pool_reachable c i m (p\<lparr>wp_adding := ys, wp_taskQueue := wp_taskQueue p @ [t], wp_accepted := wp_accepted p @ [t]\<rparr>)"
    "dispatch_step p p' \<Longrightarrow> pool_reachable c i m p'" "worker_step p p' \<Longrightarrow> pool_reachable c i m p'"
  using pool_reachable.step [OF assms] caller_step.intros adding_step.add_send [of p "[]" t ys]
  by (simp_all add: any_step_def pool_step_def)

definition pool_at :: "nat list \<Rightarrow> nat list \<Rightarrow> worker list \<Rightarrow> dispatch \<Rightarrow> nat list \<Rightarrow> nat list \<Rightarrow> nat list \<Rightarrow> workerPool" where
  "pool_at q r ws d acc h dn = \<lparr>wp_maxWorkers = 5, wp_idleWorkers = 1, wp_taskCap = 2, wp_taskQueue = q,
     wp_readyWorkers = r, wp_workers = ws, wp_workerCount = length ws, wp_dispatch = d, wp_cancelled = False,
     wp_adding = [], wp_accepted = acc, wp_handed = h, wp_done = dn, wp_panics = []\<rparr>"

lemma pool_run_submit:
  assumes "pool_reachable 2 1 5 (pool_at q r ws d acc h dn)" "length q < 2" "d \<noteq> DExited"
  shows "pool_reachable 2 1 5 (pool_at (q @ [t]) r ws d (acc @ [t]) h dn)"
proof -
  have "pool_reachable 2 1 5 ((pool_at q r ws d acc h dn)\<lparr>wp_adding := [t]\<rparr>)"
    using pool_steps(1) [OF assms(1), of t] by (simp add: pool_at_def)
  from pool_steps(3) [OF this, of t "[]"] show ?thesis using assms(2,3) by (simp add: pool_at_def)
qed

lemma pool_run_start:
  assumes "pool_reachable 2 1 5 (pool_at (t # q) [] ws DSelect acc h dn)" "length ws < 5"
  shows "pool_reachable 2 1 5 (pool_at q [] (ws @ [WTask t]) DSelect acc (h @ [t]) dn)"
proof -
  let ?ws = "ws @ [WReadying]"
  have "dispatch_step (pool_at (t # q) [] ws DSelect acc h dn) (pool_at q [] ?ws (DHave t) acc h dn)"
    using take_start [of "pool_at (t # q) [] ws DSelect acc h dn" t q] assms(2) by (simp add: pool_at_def startWorker_def)
  then have 1: "pool_reachable 2 1 5 (pool_at q [] ?ws (DHave t) acc h dn)" by (rule pool_steps(4) [OF assms(1)])
  have "worker_step (pool_at q [] ?ws (DHave t) acc h dn) (pool_at q [length ws] (ws @ [WIdle]) (DHave t) acc h dn)"
    using ready [of "length ws" "pool_at q [] ?ws (DHave t) acc h dn"] by (simp add: pool_at_def)
  then have 2: "pool_reachable 2 1 5 (pool_at q [length ws] (ws @ [WIdle]) (DHave t) acc h dn)" by (rule pool_steps(5) [OF 1])
  have "dispatch_step (pool_at q [length ws] (ws @ [WIdle]) (DHave t) acc h dn)
      (pool_at q [] (ws @ [WTask t]) DSelect acc (h @ [t]) dn)"
    using give [of "pool_at q [length ws] (ws @ [WIdle]) (DHave t) acc h dn" t]
    by (simp add: pool_at_def hand_task_def send_worker_def)
  then show ?thesis by (rule pool_steps(4) [OF 2])
qed

text \<open>An executor keeps the order of the tasks only with one worker: then what is finished is what was accepted
  first.\<close>

lemma one_worker_in_order:
  assumes "pool_reachable taskCap idle mx p" "idle \<le> 1" "mx \<le> 1"
  shows "wp_done p = take (length (wp_done p)) (wp_accepted p)"
proof -
  have "wp_maxWorkers p = 1 \<and> in_order p"
    using assms
  proof induction
    case start
    then show ?case by (simp add: NewWorkerPool_def in_order_def Let_def)
  next
    case (step p p')
    then show ?case using in_order_step reachable_inv wp_maxWorkers_step by metis
  qed
  moreover have "conserved p" using reachable_inv [OF assms(1)] by (simp add: pool_inv_def)
  ultimately show ?thesis by (simp add: in_order_def conserved_def)
qed

lemma pool_run_first: "pool_reachable 2 1 5 (pool_at [] [] [WTask 1] DSelect [1] [1] [])"
  "pool_reachable 2 1 5 (pool_at [] [] [] DSelect [] [] [])"
proof -
  show s: "pool_reachable 2 1 5 (pool_at [] [] [] DSelect [] [] [])"
    using pool_reachable.start [of 2 1 5] by (simp add: NewWorkerPool_def pool_at_def)
  from pool_run_submit [OF s, of 1] have "pool_reachable 2 1 5 (pool_at [1] [] [] DSelect [1] [] [])" by simp
  from pool_run_start [OF this] show "pool_reachable 2 1 5 (pool_at [] [] [WTask 1] DSelect [1] [1] [])" by simp
qed

text \<open>More than one worker means no order: in the pool of \<open>NewFlexibleChannelExecutor(2, 1, 5)\<close> a second task can
  finish while the first one, accepted before it, still runs, so an executor may handle the messages of one connection
  out of order.\<close>

lemma executor_reorders:
  "\<exists>p. pool_reachable 2 1 5 p \<and> wp_accepted p = [1, 2] \<and> wp_done p = [2] \<and> WRun 1 \<in> set (wp_workers p)"
proof -
  from pool_run_submit [OF pool_run_first(2), of 1] have "pool_reachable 2 1 5 (pool_at [1] [] [] DSelect [1] [] [])" by simp
  from pool_run_submit [OF this, of 2] have "pool_reachable 2 1 5 (pool_at [1, 2] [] [] DSelect [1, 2] [] [])" by simp
  from pool_run_start [OF this] have "pool_reachable 2 1 5 (pool_at [2] [] [WTask 1] DSelect [1, 2] [1] [])" by simp
  from pool_run_start [OF this] have r: "pool_reachable 2 1 5 (pool_at [] [] [WTask 1, WTask 2] DSelect [1, 2] [1, 2] [])" by simp
  have "worker_step (pool_at [] [] [WTask 1, WTask 2] DSelect [1, 2] [1, 2] []) (pool_at [] [] [WRun 1, WTask 2] DSelect [1, 2] [1, 2] [])"
    using receive [of 0 "pool_at [] [] [WTask 1, WTask 2] DSelect [1, 2] [1, 2] []" 1] by (simp add: pool_at_def)
  note r = pool_steps(5) [OF r this]
  have "worker_step (pool_at [] [] [WRun 1, WTask 2] DSelect [1, 2] [1, 2] []) (pool_at [] [] [WRun 1, WRun 2] DSelect [1, 2] [1, 2] [])"
    using receive [of 1 "pool_at [] [] [WRun 1, WTask 2] DSelect [1, 2] [1, 2] []" 2] by (simp add: pool_at_def)
  note r = pool_steps(5) [OF r this]
  have "worker_step (pool_at [] [] [WRun 1, WRun 2] DSelect [1, 2] [1, 2] []) (pool_at [] [] [WRun 1, WReadying] DSelect [1, 2] [1, 2] [2])"
    using finish [of 1 "pool_at [] [] [WRun 1, WRun 2] DSelect [1, 2] [1, 2] []" 2] by (simp add: pool_at_def)
  note r = pool_steps(5) [OF r this]
  then show ?thesis by (intro exI [of _ "pool_at [] [] [WRun 1, WReadying] DSelect [1, 2] [1, 2] [2]"]) (simp add: pool_at_def)
qed

section \<open>Shutdown\<close>

fun draining :: "dispatch \<Rightarrow> bool" where
  "draining DDrain = True" | "draining (DDrainHave t) = True" | "draining DRetire = True" | "draining DExited = True"
| "draining _ = False"

fun worker_weight :: "worker \<Rightarrow> nat" where
  "worker_weight (WTask t) = 5" | "worker_weight (WRun t) = 4" | "worker_weight WReadying = 3"
| "worker_weight WIdle = 2" | "worker_weight WQuit = 1" | "worker_weight WExited = 0"

fun dispatch_weight :: "dispatch \<Rightarrow> nat" where
  "dispatch_weight (DDrainHave t) = 9" | "dispatch_weight DDrain = 2" | "dispatch_weight DRetire = 1"
| "dispatch_weight _ = 0"

text \<open>What is left to do.\<close>

definition pool_weight :: "workerPool \<Rightarrow> nat" where
  "pool_weight p = 10 * length (wp_adding p) + 8 * length (wp_taskQueue p) + dispatch_weight (wp_dispatch p) +
     sum_list (map worker_weight (wp_workers p))"

lemma weight_update:
  assumes "w < length ws"
  shows "sum_list (map worker_weight (ws[w := x])) + worker_weight (ws ! w) =
    sum_list (map worker_weight ws) + worker_weight x"
proof -
  define a b where "a = take w ws" and "b = drop (Suc w) ws"
  obtain y where y: "y = ws ! w" by blast
  have ws: "ws = a @ y # b" and u: "ws[w := x] = a @ x # b"
    using id_take_nth_drop [OF assms] upd_conv_take_nth_drop [OF assms] by (simp_all add: a_def b_def y)
  show ?thesis unfolding y [symmetric] u by (subst ws) simp
qed

lemma send_worker_weight:
  assumes "staffed p" "wp_readyWorkers p \<noteq> []"
  shows "sum_list (map worker_weight (wp_workers (send_worker x p))) + 2 =
    sum_list (map worker_weight (wp_workers p)) + worker_weight x"
proof -
  obtain w r where r: "wp_readyWorkers p = w # r" using assms(2) by (cases "wp_readyWorkers p") auto
  have "w < length (wp_workers p)" "wp_workers p ! w = WIdle" using assms(1) r by (auto simp: staffed_def)
  from weight_update [OF this(1), of x] this(2) show ?thesis by (simp add: send_worker_def r)
qed

lemma pool_step_weight:
  assumes "pool_step p p'" "staffed p" "draining (wp_dispatch p)"
  shows "pool_weight p' < pool_weight p \<and> draining (wp_dispatch p')"
proof -
  have s: "sum_list (map worker_weight (wp_workers (send_worker x p))) + 2 =
      sum_list (map worker_weight (wp_workers p)) + worker_weight x" if "wp_readyWorkers p \<noteq> []" for x
    using send_worker_weight [OF assms(2) that] .
  have d: ?thesis if "dispatch_step p p'"
    using that
  proof cases
    case (drain_give t)
    then show ?thesis using s [of "WTask t"] by (simp add: pool_weight_def hand_task_def)
  next
    case dismiss
    then show ?thesis using s [of WQuit] by (simp add: pool_weight_def dismiss_worker_def)
  qed (use assms(3) in \<open>simp_all add: pool_weight_def\<close>)
  have w: ?thesis if "worker_step p p'"
    using that
  proof cases
    case (ready w)
    then show ?thesis using weight_update [of w "wp_workers p" WIdle] assms(3) by (simp add: pool_weight_def)
  next
    case (receive w t)
    then show ?thesis using weight_update [of w "wp_workers p" "WRun t"] assms(3) by (simp add: pool_weight_def)
  next
    case (finish w t)
    then show ?thesis using weight_update [of w "wp_workers p" WReadying] assms(3) by (simp add: pool_weight_def)
  next
    case (quit w)
    then show ?thesis using weight_update [of w "wp_workers p" WExited] assms(3) by (simp add: pool_weight_def)
  qed
  have a: ?thesis if "adding_step p p'"
    using that by cases (use assms(3) in \<open>simp_all add: pool_weight_def\<close>)
  show ?thesis using assms(1) d w a by (auto simp: pool_step_def)
qed

text \<open>Workers are dismissed only after the queue was found empty.\<close>

definition staffed_drain :: "workerPool \<Rightarrow> bool" where
  "staffed_drain p \<longleftrightarrow> pool_inv p \<and> draining (wp_dispatch p) \<and>
     (wp_dispatch p = DDrain \<or> (\<exists>t. wp_dispatch p = DDrainHave t) \<longrightarrow> 0 < wp_workerCount p)"

lemma staffed_drain_step:
  assumes "pool_step p p'" "staffed_drain p"
  shows "staffed_drain p'"
proof -
  have "pool_inv p'" "draining (wp_dispatch p')"
    using assms pool_inv_step pool_step_weight by (auto simp: staffed_drain_def any_step_def pool_inv_def)
  moreover have "wp_dispatch p' = DDrain \<or> (\<exists>t. wp_dispatch p' = DDrainHave t) \<longrightarrow> 0 < wp_workerCount p'"
    using assms by (auto simp: pool_step_def staffed_drain_def hand_task_def dismiss_worker_def
        elim!: dispatch_step.cases worker_step.cases adding_step.cases)
  ultimately show ?thesis by (simp add: staffed_drain_def)
qed

lemma staffed_drain_end:
  assumes "staffed_drain p" "\<And>p'. \<not> pool_step p p'"
  shows "wp_dispatch p = DExited \<and> wp_adding p = [] \<and> set (wp_workers p) \<subseteq> {WExited} \<and>
    mset (wp_accepted p) = mset (wp_done p) + mset (wp_taskQueue p)"
proof -
  have inv: "pool_inv p" and n: "\<nexists>p'. dispatch_step p p'" "\<nexists>p'. worker_step p p'" "\<nexists>p'. adding_step p p'"
    using assms by (auto simp: staffed_drain_def pool_step_def)
  have e: "wp_dispatch p = DExited"
  proof (rule ccontr)
    assume ne: "wp_dispatch p \<noteq> DExited"
    have "wp_dispatch p \<noteq> DSelect" using assms(1) by (auto simp: staffed_drain_def)
    moreover have "0 < wp_workerCount p"
      using assms(1) ne n(1) close_pool [of p] by (cases "wp_dispatch p") (auto simp: staffed_drain_def)
    ultimately show False using dispatcher_moves [OF inv] n by blast
  qed
  have "wp_workerCount p = 0" using inv e by (simp add: pool_inv_def staged_def)
  then have "lives (wp_workers p) = 0" using inv by (simp add: pool_inv_def staffed_def)
  then have "\<forall>x \<in> set (wp_workers p). \<not> live x" by (simp add: lives_def filter_empty_conv)
  moreover have "WQuit \<notin> set (wp_workers p)" using n(2) quit by (metis in_set_conv_nth)
  ultimately have w: "set (wp_workers p) \<subseteq> {WExited}" by (auto simp: live_def)
  then have "busy_tasks (wp_workers p) = {#}" by (auto simp: busy_tasks_def)
  moreover have "wp_adding p = []" using n(3) e adding_step.add_panic [of p "[]"] by (cases "wp_adding p") auto
  ultimately show ?thesis using inv e w by (simp add: pool_inv_def conserved_def)
qed


text \<open>Stopping a pool before its first worker exists hangs it: if a task was accepted and the dispatcher sees the
  stop first, it waits for a worker that nobody starts. Whatever happens afterwards, the task is never run and the pool
  is never closed.\<close>

lemma early_stop_hangs:
  assumes "1 \<le> taskCap"
  shows "\<exists>p. pool_reachable taskCap idle mx p \<and> wp_accepted p = [1] \<and>
    (\<forall>q. any_step\<^sup>*\<^sup>* p q \<longrightarrow> wp_done q = [] \<and> wp_dispatch q = DDrainHave 1)"
proof -
  define p where "p = (NewWorkerPool taskCap idle mx)\<lparr>wp_cancelled := True, wp_dispatch := DDrainHave 1, wp_accepted := [1]\<rparr>"
  note new = NewWorkerPool_def Let_def
  let ?n = "NewWorkerPool taskCap idle mx"
  have "pool_reachable taskCap idle mx (?n\<lparr>wp_adding := [1]\<rparr>)"
    using pool_steps(1) [OF pool_reachable.start, where t = 1] by (simp add: new)
  from pool_steps(3) [OF this, of 1 "[]"] assms
  have "pool_reachable taskCap idle mx (?n\<lparr>wp_taskQueue := [1], wp_accepted := [1]\<rparr>)" by (simp add: new)
  note r = pool_steps(2) [OF this]
  note r = pool_steps(4) [OF r see_stop]
  have "pool_reachable taskCap idle mx (?n\<lparr>wp_taskQueue := [1], wp_accepted := [1], wp_cancelled := True, wp_dispatch := DDrain\<rparr>)"
    using r by (simp add: new)
  from pool_steps(4) [OF this drain_take, of 1 "[]"] have "pool_reachable taskCap idle mx p" by (simp add: new p_def)
  moreover have "wp_done q = [] \<and> wp_dispatch q = DDrainHave 1 \<and> wp_workers q = [] \<and> wp_readyWorkers q = []"
    if "any_step\<^sup>*\<^sup>* p q" for q
    using that
  proof (induction rule: rtranclp_induct)
    case base
    then show ?case by (simp add: p_def new)
  next
    case (step q r)
    then show ?case
      by (auto simp: any_step_def pool_step_def elim!: dispatch_step.cases worker_step.cases adding_step.cases
          timer_step.cases caller_step.cases)
  qed
  ultimately show ?thesis by (intro exI [of _ p]) (auto simp: p_def)
qed

section \<open>Instances\<close>

definition sample_pool :: workerPool where
  "sample_pool = pool_at [] [] [WTask 1] DSelect [1] [1] []"

lemma sample_pool_reachable: "pool_reachable 2 1 5 sample_pool"
  unfolding sample_pool_def by (rule pool_run_first(1))

theorem pool_tasks_conserved_witness:
  "mset (wp_accepted sample_pool) = mset (wp_done sample_pool) + busy_tasks (wp_workers sample_pool) +
      mset (held (wp_dispatch sample_pool)) + mset (wp_taskQueue sample_pool) \<and>
    wp_handed sample_pool = take (length (wp_handed sample_pool)) (wp_accepted sample_pool) \<and>
    distinct (wp_done sample_pool) \<and> lives (wp_workers sample_pool) \<le> 5"
proof -
  have "distinct (wp_accepted sample_pool)" by (simp add: sample_pool_def pool_at_def)
  then show ?thesis using pool_tasks_conserved [OF sample_pool_reachable] by simp
qed

theorem pool_never_stuck_witness: "\<exists>p'. dispatch_step sample_pool p' \<or> worker_step sample_pool p'"
  by (rule pool_never_stuck [OF sample_pool_reachable]) (simp_all add: sample_pool_def pool_at_def)

definition stopping_pool :: workerPool where
  "stopping_pool = sample_pool\<lparr>wp_cancelled := True, wp_dispatch := DDrain\<rparr>"


end
