(* ===== verification/Channel.thy ===== *)
theory Channel
  imports VPrelude "HOL-Library.Sublist"
begin

text \<open>
  \<open>netty/channel.go\<close> and \<open>netty/transport/udp/transport.go\<close>: the send queue of a connection, the write loop
  that merges queued messages into one vectored write, the UDP transports that cut it into datagrams
  again, and the protocol by which the reader, the writer and any goroutine that calls \<open>Close\<close> shut a
  connection down. The goroutines are interleaved by a step relation; each step is one atomic action of
  the source.
\<close>

section \<open>Vectored writes\<close>

record Buffers =
  bf_Buffers :: "bytes list"
  bf_Indexes :: "nat list"

definition add_packet :: "bytes list \<Rightarrow> Buffers \<Rightarrow> Buffers" where
  "add_packet data b = \<lparr>bf_Buffers = bf_Buffers b @ data,
     bf_Indexes = bf_Indexes b @ [length (bf_Buffers b @ data)]\<rparr>"

text \<open>\<open>sendWithWritev\<close>: the first message, then what the queue holds, until it is empty or the number of
  merged messages reaches the capacity; the result is the batch and the rest of the queue.\<close>

fun merge_loop :: "nat \<Rightarrow> bytes list list \<Rightarrow> Buffers \<Rightarrow> Buffers \<times> bytes list list" where
  "merge_loop bufferCap [] b = (b, [])"
| "merge_loop bufferCap (data # queue) b =
     (let b1 = add_packet data b in
      if length (bf_Indexes b1) \<ge> bufferCap then (b1, queue) else merge_loop bufferCap queue b1)"

definition sendWithWritev :: "nat \<Rightarrow> bytes list \<Rightarrow> bytes list list \<Rightarrow> Buffers \<times> bytes list list" where
  "sendWithWritev bufferCap data queue = merge_loop bufferCap queue (add_packet data \<lparr>bf_Buffers = [], bf_Indexes = []\<rparr>)"

text \<open>The two UDP \<open>Writev\<close>: the datagrams handed to the socket, the bytes counted and whether an error ended
  the loop. \<open>send\<close> is the socket: bytes sent and error. A packet of a connected socket without any slice
  causes no system call; the unconnected one indexes its first slice.\<close>

fun udp_client_Writev :: "(bytes \<Rightarrow> int \<times> bool) \<Rightarrow> bytes list \<Rightarrow> int \<Rightarrow> nat list \<Rightarrow> (bytes list \<times> int \<times> bool) go" where
  "udp_client_Writev send buffers i [] = Done ([], 0, False)"
| "udp_client_Writev send buffers i (j # js) =
     go_bind (go_slice buffers i (int j)) (\<lambda>pkt.
       let (sent, err) = (if pkt = [] then (0, False) else send (concat pkt));
           out = (if pkt = [] then [] else [concat pkt]); n = (if sent > 0 then sent else 0)
       in if err then Done (out, n, True)
          else go_map (\<lambda>(ds, m, e). (out @ ds, n + m, e)) (udp_client_Writev send buffers (int j) js))"

fun udp_server_Writev :: "(bytes \<Rightarrow> int \<times> bool) \<Rightarrow> bytes list \<Rightarrow> int \<Rightarrow> nat list \<Rightarrow> (bytes list \<times> int \<times> bool) go" where
  "udp_server_Writev send buffers i [] = Done ([], 0, False)"
| "udp_server_Writev send buffers i (j # js) =
     go_bind (go_slice buffers i (int j)) (\<lambda>pkt.
     go_bind (go_nth pkt 0) (\<lambda>p0.
       let packet = (if length pkt > 1 then concat pkt else p0); (sent, err) = send packet;
           n = (if sent > 0 then sent else 0)
       in if err then Done ([packet], n, True)
          else go_map (\<lambda>(ds, m, e). (packet # ds, n + m, e)) (udp_server_Writev send buffers (int j) js)))"

section \<open>The channel\<close>

text \<open>Where a loop of the channel stands. \<open>Serving\<close> is the top of the loop, \<open>Firing\<close> the call into the
  pipeline; the other positions are those of \<open>postCloseEvent\<close>.\<close>

datatype pc = Serving | Firing | Posting | Testing | Raising | Finished

datatype close_phase = NotClosed | CasWon | Cancelled | TransportDown | InactiveFired | PipelineNil

datatype chan_event = TransportClosed | FiredInactive | FiredException

record chan =
  ch_closed :: bool
  ch_posted :: bool
  ch_done :: bool                \<comment> \<open>\<open>ctx.Done()\<close>\<close>
  ch_pipeline :: bool            \<comment> \<open>\<open>pipeline != nil\<close>\<close>
  ch_phase :: close_phase        \<comment> \<open>of the \<open>Close\<close> call that won\<close>
  ch_reader :: pc
  ch_writer :: pc
  ch_queue :: "bytes list list"
  ch_cap :: nat
  ch_events :: "chan_event list"
  ch_crashed :: bool             \<comment> \<open>a panic nobody recovers\<close>
  ch_accepted :: "bytes list list" \<comment> \<open>messages \<open>Write\<close> accepted\<close>
  ch_out :: "bytes list list"    \<comment> \<open>messages given to the transport\<close>

definition newChannelWith :: "nat \<Rightarrow> chan" where
  "newChannelWith capacity = \<lparr>ch_closed = False, ch_posted = False, ch_done = False, ch_pipeline = True,
     ch_phase = NotClosed, ch_reader = Serving, ch_writer = Serving, ch_queue = [], ch_cap = capacity,
     ch_events = [], ch_crashed = False, ch_accepted = [], ch_out = []\<rparr>"

text \<open>\<open>Writev\<close> and \<open>Write\<close>: the outcomes the \<open>select\<close> allows, \<open>None\<close> for the error; none at all when it blocks.\<close>

definition channel_Writev :: "bytes list \<Rightarrow> chan \<Rightarrow> (chan \<times> nat option) list" where
  "channel_Writev p c =
     (if ch_done c then [(c, None)] else []) @
     (if length (ch_queue c) < ch_cap c
      then [(c\<lparr>ch_queue := ch_queue c @ [p], ch_accepted := ch_accepted c @ [p]\<rparr>, Some (sum_list (map length p)))] else [])"

definition channel_Write :: "bytes \<Rightarrow> chan \<Rightarrow> (chan \<times> nat option) list" where
  "channel_Write p c = channel_Writev [p] c"

text \<open>The compare-and-swap of \<open>Close\<close>, and the body the winner runs, one action at a time.\<close>

definition close_cas :: "chan \<Rightarrow> chan" where
  "close_cas c = (if ch_closed c then c else c\<lparr>ch_closed := True, ch_phase := CasWon\<rparr>)"

definition ch_emit :: "chan_event \<Rightarrow> chan \<Rightarrow> chan" where
  "ch_emit e c = c\<lparr>ch_events := ch_events c @ [e]\<rparr>"

definition close_body :: "chan \<Rightarrow> chan option" where
  "close_body c = (case ch_phase c of
       CasWon \<Rightarrow> Some (c\<lparr>ch_done := True, ch_phase := Cancelled\<rparr>)
     | Cancelled \<Rightarrow> Some (ch_emit TransportClosed (c\<lparr>ch_phase := TransportDown\<rparr>))
     | TransportDown \<Rightarrow> Some ((if ch_pipeline c then ch_emit FiredInactive c else c)\<lparr>ch_phase := InactiveFired\<rparr>)
     | InactiveFired \<Rightarrow> Some (c\<lparr>ch_pipeline := False, ch_phase := PipelineNil\<rparr>)
     | _ \<Rightarrow> None)"

text \<open>\<open>postCloseEvent\<close>: the compare-and-swap, the test of \<open>closed\<close>, the call into the pipeline.\<close>

definition post_step :: "pc \<Rightarrow> chan \<Rightarrow> (pc \<times> chan) option" where
  "post_step p c = (case p of
       Posting \<Rightarrow> Some (if ch_posted c then (Finished, c) else (Testing, c\<lparr>ch_posted := True\<rparr>))
     | Testing \<Rightarrow> Some (if ch_closed c then (Finished, c) else (Raising, c))
     | Raising \<Rightarrow> Some (if ch_pipeline c then (Finished, ch_emit FiredException c) else (Finished, c\<lparr>ch_crashed := True\<rparr>))
     | _ \<Rightarrow> None)"

inductive ch_step :: "chan \<Rightarrow> chan \<Rightarrow> bool" where
  st_write: "(c', r) \<in> set (channel_Writev p c) \<Longrightarrow> ch_step c c'"
| st_close: "ch_step c (close_cas c)"
| st_close_body: "close_body c = Some c' \<Longrightarrow> ch_step c c'"
| st_parent_cancel: "ch_step c (c\<lparr>ch_done := True\<rparr>)"
| st_read_check: "ch_reader c = Serving \<Longrightarrow> ch_step c (c\<lparr>ch_reader := (if ch_closed c then Posting else Firing)\<rparr>)"
| st_read_fire: "ch_reader c = Firing \<Longrightarrow> ch_pipeline c \<Longrightarrow> ch_step c (c\<lparr>ch_reader := Serving\<rparr>)"
| st_read_panic: "ch_reader c = Firing \<Longrightarrow> ch_step c (c\<lparr>ch_reader := Posting\<rparr>)"
| st_read_post: "post_step (ch_reader c) c = Some (p, c') \<Longrightarrow> ch_step c (c'\<lparr>ch_reader := p\<rparr>)"
| st_send: "ch_writer c = Serving \<Longrightarrow> ch_queue c = m # ms @ rest \<Longrightarrow>
    sendWithWritev (ch_cap c) m (ms @ rest) = (b, rest) \<Longrightarrow>
    ch_step c (c\<lparr>ch_queue := rest, ch_out := ch_out c @ m # ms\<rparr>)"
| st_send_error: "ch_writer c = Serving \<Longrightarrow> ch_queue c = m # ms @ rest \<Longrightarrow>
    sendWithWritev (ch_cap c) m (ms @ rest) = (b, rest) \<Longrightarrow> prefix sent (m # ms) \<Longrightarrow>
    ch_step c (c\<lparr>ch_queue := rest, ch_out := ch_out c @ sent, ch_writer := Posting\<rparr>)"
| st_write_done: "ch_writer c = Serving \<Longrightarrow> ch_done c \<Longrightarrow> ch_step c ((close_cas c)\<lparr>ch_writer := Finished\<rparr>)"
| st_write_post: "post_step (ch_writer c) c = Some (p, c') \<Longrightarrow> ch_step c (c'\<lparr>ch_writer := p\<rparr>)"

inductive ch_reachable :: "nat \<Rightarrow> chan \<Rightarrow> bool" for capacity where
  ch_init: "ch_reachable capacity (newChannelWith capacity)"
| ch_next: "ch_reachable capacity c \<Longrightarrow> ch_step c c' \<Longrightarrow> ch_reachable capacity c'"

section \<open>Batches\<close>

text \<open>The batch that represents a list of messages: their slices, and the end of each message.\<close>

fun ends :: "nat \<Rightarrow> bytes list list \<Rightarrow> nat list" where
  "ends i [] = []"
| "ends i (m # ms) = (i + length m) # ends (i + length m) ms"

definition batch :: "bytes list list \<Rightarrow> Buffers" where
  "batch ms = \<lparr>bf_Buffers = concat ms, bf_Indexes = ends 0 ms\<rparr>"

lemma ends_append: "ends i (xs @ ys) = ends i xs @ ends (i + length (concat xs)) ys"
  by (induction xs arbitrary: i) (simp_all add: add.assoc)

lemma length_ends [simp]: "length (ends i ms) = length ms"
  by (induction ms arbitrary: i) simp_all

lemma add_packet_batch: "add_packet m (batch ms) = batch (ms @ [m])"
  by (simp add: add_packet_def batch_def ends_append)

lemma merge_loop_batch:
  "merge_loop n queue (batch ms) = (b, rest) \<Longrightarrow>
     \<exists>taken. queue = taken @ rest \<and> b = batch (ms @ taken) \<and> (rest \<noteq> [] \<longrightarrow> n \<le> length (ms @ taken)) \<and>
       length (ms @ taken) \<le> max n (Suc (length ms))"
proof (induction queue arbitrary: ms)
  case Nil
  then show ?case by simp
next
  case (Cons m queue)
  show ?case
  proof (cases "n \<le> Suc (length ms)")
    case True
    then have "b = batch (ms @ [m])" "rest = queue"
      using Cons.prems by (simp_all add: add_packet_batch) (simp_all add: batch_def)
    then show ?thesis using True by (intro exI [of _ "[m]"]) simp
  next
    case False
    then have "merge_loop n queue (batch (ms @ [m])) = (b, rest)"
      using Cons.prems by (simp add: add_packet_batch) (simp add: batch_def)
    from Cons.IH [OF this] obtain taken where t: "queue = taken @ rest" "b = batch ((ms @ [m]) @ taken)"
        "rest \<noteq> [] \<longrightarrow> n \<le> length ((ms @ [m]) @ taken)" "length ((ms @ [m]) @ taken) \<le> max n (Suc (length (ms @ [m])))" by blast
    then show ?thesis using False by (intro exI [of _ "m # taken"]) auto
  qed
qed

lemma sendWithWritev_batch:
  assumes "sendWithWritev n m queue = (b, rest)"
  shows "\<exists>taken. queue = taken @ rest \<and> b = batch (m # taken) \<and> (rest \<noteq> [] \<longrightarrow> n \<le> Suc (length taken)) \<and>
    Suc (length taken) \<le> max n 2"
proof -
  have "add_packet m \<lparr>bf_Buffers = [], bf_Indexes = []\<rparr> = batch [m]" by (simp add: add_packet_def batch_def)
  then show ?thesis using merge_loop_batch [of n queue "[m]" b rest] assms
    by (auto simp: sendWithWritev_def numeral_2_eq_2)
qed

lemma slice_message:
  "go_slice (pre @ m @ post) (int (length pre)) (int (length pre + length m)) = Done m"
  by (simp add: go_slice_def)

lemma udp_client_Writev_batch:
  assumes "\<forall>m \<in> set ms. m \<noteq> []"
  shows "udp_client_Writev (\<lambda>d. (int (length d), False)) (pre @ concat ms) (int (length pre)) (ends (length pre) ms) =
    Done (map concat ms, int (length (concat (concat ms))), False)"
  using assms
proof (induction ms arbitrary: pre)
  case (Cons m ms)
  have "udp_client_Writev (\<lambda>d. (int (length d), False)) ((pre @ m) @ concat ms) (int (length (pre @ m)))
      (ends (length (pre @ m)) ms) = Done (map concat ms, int (length (concat (concat ms))), False)"
    by (rule Cons.IH) (use Cons.prems in simp)
  then show ?case
    using Cons.prems slice_message [of pre m "concat ms"] by (simp add: Let_def)
qed simp

lemma udp_server_Writev_batch:
  assumes "\<forall>m \<in> set ms. m \<noteq> []"
  shows "udp_server_Writev (\<lambda>d. (int (length d), False)) (pre @ concat ms) (int (length pre)) (ends (length pre) ms) =
    Done (map concat ms, int (length (concat (concat ms))), False)"
  using assms
proof (induction ms arbitrary: pre)
  case (Cons m ms)
  have "udp_server_Writev (\<lambda>d. (int (length d), False)) ((pre @ m) @ concat ms) (int (length (pre @ m)))
      (ends (length (pre @ m)) ms) = Done (map concat ms, int (length (concat (concat ms))), False)"
    by (rule Cons.IH) (use Cons.prems in simp)
  moreover have "(if length m > 1 then concat m else hd m) = concat m"
    using Cons.prems by (cases m; cases "tl m") auto
  moreover have "go_nth m 0 = Done (hd m)" using Cons.prems by (simp add: hd_conv_nth)
  ultimately show ?case
    using slice_message [of pre m "concat ms"] by (simp add: Let_def del: go_nth_Done)
qed simp

section \<open>Invariant of the channel\<close>

definition count_ev :: "chan_event \<Rightarrow> chan \<Rightarrow> nat" where
  "count_ev e c = count_list (ch_events c) e"

definition raising :: "pc \<Rightarrow> nat" where
  "raising p = (if p = Testing \<or> p = Raising then 1 else 0)"

primrec phase_num :: "close_phase \<Rightarrow> nat" where
  "phase_num NotClosed = 0"
| "phase_num CasWon = 1"
| "phase_num Cancelled = 2"
| "phase_num TransportDown = 3"
| "phase_num InactiveFired = 4"
| "phase_num PipelineNil = 5"

definition close_inv :: "chan \<Rightarrow> bool" where
  "close_inv c \<longleftrightarrow>
     ch_closed c = (phase_num (ch_phase c) \<ge> 1) \<and> ch_pipeline c = (phase_num (ch_phase c) < 5) \<and>
     count_ev TransportClosed c = of_bool (phase_num (ch_phase c) \<ge> 3) \<and>
     count_ev FiredInactive c = of_bool (phase_num (ch_phase c) \<ge> 4)"

definition post_inv :: "chan \<Rightarrow> bool" where
  "post_inv c \<longleftrightarrow>
     count_ev FiredException c + raising (ch_reader c) + raising (ch_writer c) \<le> of_bool (ch_posted c)"

definition fifo_inv :: "chan \<Rightarrow> bool" where
  "fifo_inv c \<longleftrightarrow> prefix (ch_out c) (ch_accepted c) \<and>
     (ch_writer c = Serving \<longrightarrow> ch_accepted c = ch_out c @ ch_queue c) \<and> length (ch_queue c) \<le> ch_cap c"

definition ch_inv :: "chan \<Rightarrow> bool" where
  "ch_inv c \<longleftrightarrow> close_inv c \<and> post_inv c \<and> fifo_inv c"

lemma count_ev_emit [simp]: "count_ev e (ch_emit e' c) = count_ev e c + (if e = e' then 1 else 0)"
  by (simp add: count_ev_def ch_emit_def)

lemma ch_emit_simps [simp]:
  "ch_closed (ch_emit e c) = ch_closed c" "ch_posted (ch_emit e c) = ch_posted c" "ch_done (ch_emit e c) = ch_done c"
  "ch_pipeline (ch_emit e c) = ch_pipeline c" "ch_phase (ch_emit e c) = ch_phase c" "ch_reader (ch_emit e c) = ch_reader c"
  "ch_writer (ch_emit e c) = ch_writer c" "ch_queue (ch_emit e c) = ch_queue c" "ch_cap (ch_emit e c) = ch_cap c"
  "ch_accepted (ch_emit e c) = ch_accepted c" "ch_out (ch_emit e c) = ch_out c"
  by (simp_all add: ch_emit_def)

lemma count_ev_upd [simp]:
  "count_ev e (c\<lparr>ch_closed := a\<rparr>) = count_ev e c" "count_ev e (c\<lparr>ch_posted := a\<rparr>) = count_ev e c"
  "count_ev e (c\<lparr>ch_done := a\<rparr>) = count_ev e c" "count_ev e (c\<lparr>ch_pipeline := a\<rparr>) = count_ev e c"
  "count_ev e (c\<lparr>ch_phase := ph\<rparr>) = count_ev e c" "count_ev e (c\<lparr>ch_reader := p\<rparr>) = count_ev e c"
  "count_ev e (c\<lparr>ch_writer := p\<rparr>) = count_ev e c" "count_ev e (c\<lparr>ch_queue := q\<rparr>) = count_ev e c"
  "count_ev e (c\<lparr>ch_accepted := q\<rparr>) = count_ev e c" "count_ev e (c\<lparr>ch_out := q\<rparr>) = count_ev e c"
  "count_ev e (c\<lparr>ch_crashed := a\<rparr>) = count_ev e c"
  by (simp_all add: count_ev_def)

lemmas inv_defs = ch_inv_def close_inv_def post_inv_def fifo_inv_def

lemma ch_inv_close_body:
  assumes "ch_inv c" "close_body c = Some c'"
  shows "ch_inv c'"
proof (cases "ch_phase c")
  case CasWon
  then have "c' = c\<lparr>ch_done := True, ch_phase := Cancelled\<rparr>" using assms(2) by (simp add: close_body_def)
  with assms(1) CasWon show ?thesis by (simp add: inv_defs)
next
  case Cancelled
  then have "c' = ch_emit TransportClosed (c\<lparr>ch_phase := TransportDown\<rparr>)" using assms(2) by (simp add: close_body_def)
  with assms(1) Cancelled show ?thesis by (simp add: inv_defs)
next
  case TransportDown
  then have "c' = (ch_emit FiredInactive c)\<lparr>ch_phase := InactiveFired\<rparr>"
    using assms by (simp add: close_body_def inv_defs)
  with assms(1) TransportDown show ?thesis by (simp add: inv_defs)
next
  case InactiveFired
  then have "c' = c\<lparr>ch_pipeline := False, ch_phase := PipelineNil\<rparr>" using assms(2) by (simp add: close_body_def)
  with assms(1) InactiveFired show ?thesis by (simp add: inv_defs)
qed (use assms(2) in \<open>simp_all add: close_body_def\<close>)

lemma ch_inv_close_cas: "ch_inv c \<Longrightarrow> ch_inv (close_cas c)"
  by (cases "ch_phase c") (simp_all add: inv_defs close_cas_def)

text \<open>\<open>postCloseEvent\<close> at one of its three positions; the other goroutine is anywhere.\<close>

lemma post_step_cases [consumes 1, case_names posted post closed test fire crash]:
  assumes "post_step p c = Some (q, c')"
    and "p = Posting \<Longrightarrow> ch_posted c \<Longrightarrow> (q, c') = (Finished, c) \<Longrightarrow> thesis"
    and "p = Posting \<Longrightarrow> \<not> ch_posted c \<Longrightarrow> (q, c') = (Testing, c\<lparr>ch_posted := True\<rparr>) \<Longrightarrow> thesis"
    and "p = Testing \<Longrightarrow> ch_closed c \<Longrightarrow> (q, c') = (Finished, c) \<Longrightarrow> thesis"
    and "p = Testing \<Longrightarrow> \<not> ch_closed c \<Longrightarrow> (q, c') = (Raising, c) \<Longrightarrow> thesis"
    and "p = Raising \<Longrightarrow> ch_pipeline c \<Longrightarrow> (q, c') = (Finished, ch_emit FiredException c) \<Longrightarrow> thesis"
    and "p = Raising \<Longrightarrow> \<not> ch_pipeline c \<Longrightarrow> (q, c') = (Finished, c\<lparr>ch_crashed := True\<rparr>) \<Longrightarrow> thesis"
  shows thesis
proof (cases p)
  case Posting
  show ?thesis
  proof (cases "ch_posted c")
    case True
    then show ?thesis using assms(1) Posting by (intro assms(2)) (simp_all add: post_step_def)
  next
    case False
    then show ?thesis using assms(1) Posting by (intro assms(3)) (simp_all add: post_step_def)
  qed
next
  case Testing
  show ?thesis
  proof (cases "ch_closed c")
    case True
    then show ?thesis using assms(1) Testing by (intro assms(4)) (simp_all add: post_step_def)
  next
    case False
    then show ?thesis using assms(1) Testing by (intro assms(5)) (simp_all add: post_step_def)
  qed
next
  case Raising
  show ?thesis
  proof (cases "ch_pipeline c")
    case True
    then show ?thesis using assms(1) Raising by (intro assms(6)) (simp_all add: post_step_def)
  next
    case False
    then show ?thesis using assms(1) Raising by (intro assms(7)) (simp_all add: post_step_def)
  qed
qed (use assms(1) in \<open>simp_all add: post_step_def\<close>)

lemma ch_inv_read_post:
  assumes "ch_inv c" "post_step (ch_reader c) c = Some (p, c')"
  shows "ch_inv (c'\<lparr>ch_reader := p\<rparr>)"
  using assms(2) by (cases rule: post_step_cases) (use assms(1) in \<open>simp_all add: inv_defs raising_def\<close>)

lemma ch_inv_write_post:
  assumes "ch_inv c" "post_step (ch_writer c) c = Some (p, c')"
  shows "ch_inv (c'\<lparr>ch_writer := p\<rparr>)"
  using assms(2) by (cases rule: post_step_cases) (use assms(1) in \<open>simp_all add: inv_defs raising_def\<close>)

lemma ch_inv_step: "ch_step c c' \<Longrightarrow> ch_inv c \<Longrightarrow> ch_inv c'"
proof (induction rule: ch_step.induct)
  case (st_write c' r p c)
  then consider "c' = c" | "length (ch_queue c) < ch_cap c"
      "c' = c\<lparr>ch_queue := ch_queue c @ [p], ch_accepted := ch_accepted c @ [p]\<rparr>"
    by (auto simp: channel_Writev_def split: if_splits)
  then show ?case by cases (use st_write in \<open>simp_all add: inv_defs\<close>)
next
  case (st_send_error c m ms rest b sent)
  have "prefix sent ((m # ms) @ rest)" by (rule prefix_prefix [OF st_send_error(4)])
  with st_send_error show ?case by (simp add: inv_defs raising_def)
next
  case (st_write_done c)
  then show ?case using ch_inv_close_cas [of c] by (simp add: inv_defs raising_def)
qed (simp_all add: ch_inv_close_body ch_inv_close_cas ch_inv_read_post ch_inv_write_post, simp_all add: inv_defs raising_def)

lemma ch_reachable_inv: "ch_reachable n c \<Longrightarrow> ch_inv c"
  by (induction rule: ch_reachable.induct)
    (simp_all add: ch_inv_step, simp add: inv_defs newChannelWith_def count_ev_def raising_def)

section \<open>Properties\<close>

text \<open>(C16) One datagram for each message. However the write loop merges queued messages, the two UDP
  transports cut the batch at the message boundaries again: each message taken from the queue becomes
  exactly one datagram with all its slices, in the order of the queue, the rest of the queue is left
  alone, and the byte count is right. A batch never exceeds the capacity of the queue (or two).\<close>

theorem datagram_per_message:
  assumes "sendWithWritev bufferCap m queue = (b, rest)" "\<forall>x \<in> set (m # queue). x \<noteq> []"
  shows "\<exists>taken. queue = taken @ rest \<and> Suc (length taken) \<le> max bufferCap 2 \<and>
    udp_client_Writev (\<lambda>d. (int (length d), False)) (bf_Buffers b) 0 (bf_Indexes b) =
      Done (map concat (m # taken), int (length (concat (concat (m # taken)))), False) \<and>
    udp_server_Writev (\<lambda>d. (int (length d), False)) (bf_Buffers b) 0 (bf_Indexes b) =
      Done (map concat (m # taken), int (length (concat (concat (m # taken)))), False)"
proof -
  obtain taken where t: "queue = taken @ rest" "b = batch (m # taken)" "Suc (length taken) \<le> max bufferCap 2"
    using sendWithWritev_batch [OF assms(1)] by blast
  have "\<forall>x \<in> set (m # taken). x \<noteq> []" using assms(2) t(1) by auto
  from udp_client_Writev_batch [OF this, of "[]"] udp_server_Writev_batch [OF this, of "[]"] show ?thesis
    using t by (intro exI [of _ taken]) (simp add: batch_def)
qed

theorem datagram_per_message_witness:
  "\<exists>taken. [[[3]], [[4, 5], [6]]] = taken @ [[[4, 5], [6]]] \<and> Suc (length taken) \<le> max 2 2 \<and>
    udp_client_Writev (\<lambda>d. (int (length d), False)) [[1], [2], [3]] 0 [2, 3] =
      Done (map concat ([[1], [2]] # taken), int (length (concat (concat ([[1], [2]] # taken)))), False) \<and>
    udp_server_Writev (\<lambda>d. (int (length d), False)) [[1], [2], [3]] 0 [2, 3] =
      Done (map concat ([[1], [2]] # taken), int (length (concat (concat ([[1], [2]] # taken)))), False)"
  using datagram_per_message [of 2 "[[1], [2]]" "[[[3]], [[4, 5], [6]]]" "\<lparr>bf_Buffers = [[1], [2], [3]], bf_Indexes = [2, 3]\<rparr>"
      "[[[4, 5], [6]]]"]
  by (simp add: sendWithWritev_def add_packet_def)

text \<open>(C8) Life of a connection under every interleaving of writers, closers, the read loop and the write
  loop: the transport is closed at most once and the inactive event fired at most once, an exception
  event at most once, the transport sees the accepted messages in order without gaps, everything accepted
  and not yet sent is in the queue while the write loop serves, and the queue keeps its capacity.\<close>

theorem channel_life:
  assumes "ch_reachable capacity c"
  shows "count_ev TransportClosed c \<le> 1 \<and> count_ev FiredInactive c \<le> 1 \<and> count_ev FiredException c \<le> 1 \<and>
    prefix (ch_out c) (ch_accepted c) \<and> (ch_writer c = Serving \<longrightarrow> ch_accepted c = ch_out c @ ch_queue c) \<and>
    length (ch_queue c) \<le> ch_cap c \<and> (count_ev TransportClosed c = 1 \<longrightarrow> ch_closed c)"
  using ch_reachable_inv [OF assms] by (cases "ch_phase c"; cases "ch_posted c") (simp_all add: inv_defs)

theorem channel_life_witness:
  "let c = newChannelWith 4 in
    count_ev TransportClosed c \<le> 1 \<and> count_ev FiredInactive c \<le> 1 \<and> count_ev FiredException c \<le> 1 \<and>
    prefix (ch_out c) (ch_accepted c) \<and> (ch_writer c = Serving \<longrightarrow> ch_accepted c = ch_out c @ ch_queue c) \<and>
    length (ch_queue c) \<le> ch_cap c \<and> (count_ev TransportClosed c = 1 \<longrightarrow> ch_closed c)"
  unfolding Let_def by (rule channel_life [OF ch_init])

text \<open>The deferred \<open>postCloseEvent\<close> can crash the program: when another goroutine runs the whole of
  \<open>Close\<close> between its test of \<open>closed\<close> and its use of \<open>pipeline\<close>, the pipeline is nil and the panic is outside
  of every \<open>recover\<close>.\<close>

lemma post_close_race:
  "\<exists>c. ch_reachable capacity c \<and> ch_crashed c"
proof -
  let ?c0 = "newChannelWith capacity"
  have "ch_reachable capacity (?c0\<lparr>ch_reader := Firing\<rparr>)" (is "ch_reachable _ ?c1")
    using ch_next [OF ch_init st_read_check] by (simp add: newChannelWith_def)
  from ch_next [OF this st_read_panic] have "ch_reachable capacity (?c0\<lparr>ch_reader := Posting\<rparr>)" (is "ch_reachable _ ?c2") by simp
  from ch_next [OF this st_read_post] have "ch_reachable capacity (?c0\<lparr>ch_reader := Testing, ch_posted := True\<rparr>)" (is "ch_reachable _ ?c3")
    by (simp add: post_step_def newChannelWith_def)
  from ch_next [OF this st_read_post] have 4: "ch_reachable capacity (?c0\<lparr>ch_reader := Raising, ch_posted := True\<rparr>)" (is "ch_reachable _ ?c4")
    by (simp add: post_step_def newChannelWith_def)
  from ch_next [OF 4 st_close]
  have 5: "ch_reachable capacity (?c4\<lparr>ch_closed := True, ch_phase := CasWon\<rparr>)" (is "ch_reachable _ ?c5")
    by (simp add: close_cas_def newChannelWith_def)
  from ch_next [OF 5 st_close_body]
  have 6: "ch_reachable capacity (?c5\<lparr>ch_done := True, ch_phase := Cancelled\<rparr>)" (is "ch_reachable _ ?c6")
    by (simp add: close_body_def newChannelWith_def)
  from ch_next [OF 6 st_close_body]
  have 7: "ch_reachable capacity (?c6\<lparr>ch_phase := TransportDown, ch_events := [TransportClosed]\<rparr>)" (is "ch_reachable _ ?c7")
    by (simp add: close_body_def ch_emit_def newChannelWith_def)
  from ch_next [OF 7 st_close_body]
  have 8: "ch_reachable capacity (?c7\<lparr>ch_phase := InactiveFired, ch_events := [TransportClosed, FiredInactive]\<rparr>)" (is "ch_reachable _ ?c8")
    by (simp add: close_body_def ch_emit_def newChannelWith_def)
  from ch_next [OF 8 st_close_body]
  have 9: "ch_reachable capacity (?c8\<lparr>ch_pipeline := False, ch_phase := PipelineNil\<rparr>)" (is "ch_reachable _ ?c9")
    by (simp add: close_body_def newChannelWith_def)
  from ch_next [OF 9 st_read_post]
  have "ch_reachable capacity (?c9\<lparr>ch_crashed := True, ch_reader := Finished\<rparr>)"
    by (simp add: post_step_def newChannelWith_def)
  then show ?thesis by (intro exI conjI) (assumption, simp)
qed

end
