(* ===== verification/Msg_Crypt.thy ===== *)
theory Msg_Crypt
  imports Proto_Codec Runtime_Service
begin

text \<open>
  Encryption of the data path: \<open>EncryptMsg\<close> and \<open>DecryptMsg\<close> of the runtime service, the codec with its cipher
  and transmit buffer in place, and the way a packet takes from one peer's codec to the other's. Ends with
  the ciphers that \<open>initCrypt\<close> installs for unusable passwords.
\<close>

section \<open>Guards\<close>

datatype seal_error = NotConnected | DataNil | CryptNil | CryptError crypt_error

definition EncryptMsg :: "MsgDataFrame \<Rightarrow> bytes \<Rightarrow> app \<Rightarrow> (seal_error + int \<times> bytes) go" where
  "EncryptMsg msg out a =
     (if rt_peerState (runtime a) < StateConnOk then Done (Inl NotConnected)
      else if df_Data msg = [] then Done (Inl DataNil)
      else case rt_crypt (runtime a) of
        None \<Rightarrow> Done (Inl CryptNil)
      | Some c \<Rightarrow> go_map (map_sum CryptError (\<lambda>r. r)) (crypt_Encode c (df_Data msg) out))"

definition DecryptMsg :: "MsgDataFrame \<Rightarrow> bytes \<Rightarrow> app \<Rightarrow> (seal_error + int \<times> bytes) go" where
  "DecryptMsg msg out a =
     (if rt_peerState (runtime a) < StateConnOk then Done (Inl NotConnected)
      else if df_Data msg = [] then Done (Inl DataNil)
      else case rt_crypt (runtime a) of
        None \<Rightarrow> Done (Inl CryptNil)
      | Some c \<Rightarrow> go_map (map_sum CryptError (\<lambda>r. r)) (crypt_Decode c (df_Data msg) out))"

text \<open>\<open>if l, e := EncryptMsg(m, v.txBuffer[:]); e == nil \{ m.Data = v.txBuffer[:l] \}\<close>: on an error the
  message is left as it is; a length outside the buffer panics.\<close>

definition sliced :: "(seal_error + int \<times> bytes) go \<Rightarrow> bytes option go" where
  "sliced r = go_bind r (case_sum (\<lambda>e. Done None) (\<lambda>(l, buf). go_map Some (go_slice buf 0 l)))"

definition with_crypt :: "bytes \<Rightarrow> proto_env \<Rightarrow> proto_env" where
  "with_crypt txBuffer env = env\<lparr>pe_encrypt := \<lambda>m a. sliced (EncryptMsg m txBuffer a),
     pe_decrypt := \<lambda>m a. sliced (DecryptMsg m txBuffer a)\<rparr>"

section \<open>Sealed packets\<close>

lemma SetStats_keeps [simp]:
  "rt_crypt (runtime (SetStats n rx p a)) = rt_crypt (runtime a)"
  "rt_peerState (runtime (SetStats n rx p a)) = rt_peerState (runtime a)"
  by (simp_all add: SetStats_def upd_rt_def split: option.split)

lemma seal_open:
  assumes "seals c m" "rt_crypt (runtime a) = Some c" "rt_crypt (runtime b) = Some c"
    and "StateConnOk \<le> rt_peerState (runtime a)" "StateConnOk \<le> rt_peerState (runtime b)"
    and "df_Data d \<noteq> []" "length (df_Data d) + m \<le> length tx" "length (df_Data d) + m \<le> length tx'"
  shows "\<exists>e. sliced (EncryptMsg d tx a) = Done (Some e) \<and> length (df_Data d) < length e \<and>
    length e \<le> length (df_Data d) + m \<and>
    sliced (DecryptMsg (d\<lparr>df_Data := e\<rparr>) tx' b) = Done (Some (df_Data d))"
proof -
  obtain n w p where e: "crypt_Encode c (df_Data d) tx = Done (Inr (int n, w))" "length (df_Data d) < n"
    "n \<le> length (df_Data d) + m" "length w = length tx"
    and p: "crypt_Decode c (take n w) tx' = Done (Inr (int (length (df_Data d)), p))"
    "take (length (df_Data d)) p = df_Data d" "length p = length tx'"
    using assms(1,7,8) unfolding seals_def by blast
  have n: "n \<le> length w" using e(3,4) assms(7) by simp
  have "sliced (EncryptMsg d tx a) = Done (Some (take n w))"
    using assms(2,4,6) e(1) n by (simp add: sliced_def EncryptMsg_def go_slice_def not_less [symmetric])
  moreover have "take n w \<noteq> []" using e(2) n by auto
  then have "sliced (DecryptMsg (d\<lparr>df_Data := take n w\<rparr>) tx' b) = Done (Some (df_Data d))"
    using assms(3,5,8) p by (simp add: sliced_def DecryptMsg_def go_slice_def not_less [symmetric])
  ultimately show ?thesis using e(2,3) n by (intro exI [of _ "take n w"]) simp
qed

text \<open>The laws of the protobuf library the codec relies on: decoding inverts encoding, and an encoded data frame
  starts with the tag of its first field.\<close>

definition marshals :: "(MsgDataFrame \<Rightarrow> bytes option) \<Rightarrow> (bytes \<Rightarrow> MsgDataFrame option) \<Rightarrow> bool" where
  "marshals M U \<longleftrightarrow> (\<forall>m bs. M m = Some bs \<longrightarrow> U bs = Some m \<and> 3 \<le> length bs \<and> bs ! 0 = 144 \<and> bs ! 1 = 3)"


text \<open>A connected peer with an AES cipher, a packet and a decoder for the instances.\<close>

definition with_cipher :: "Crypt \<Rightarrow> app" where
  "with_cipher c = upd_rt (\<lambda>r. r\<lparr>rt_crypt := Some c, rt_peerState := StateConnOk\<rparr>) (new_app sample_config)"

definition mirror_aes :: Crypt where
  "mirror_aes = AesRef (Some \<lparr>ac_keyByte = aes_key [1], ac_block = mirror 16\<rparr>)"

definition tagged_env :: proto_env where
  "tagged_env = silent_env\<lparr>
     pe_marshal_data := \<lambda>m. if m = (data_frame Msg_Packet 1 2)\<lparr>df_Data := df_Data m\<rparr> \<and> df_Data m \<noteq> []
       then Some (144 # 3 # df_Data m) else None,
     pe_data := \<lambda>bs. Some ((data_frame Msg_Packet 1 2)\<lparr>df_Data := drop 2 bs\<rparr>)\<rparr>"

lemma with_cipher_state [simp]:
  "rt_crypt (runtime (with_cipher c)) = Some c" "rt_peerState (runtime (with_cipher c)) = StateConnOk"
  by (simp_all add: with_cipher_def upd_rt_def)

lemma tagged_env_marshals: "marshals (pe_marshal_data tagged_env) (pe_data tagged_env)"
proof -
  have "3 \<le> length (144 # 3 # (xs :: bytes))" if "xs \<noteq> []" for xs using that by (cases xs) auto
  then show ?thesis by (auto simp: marshals_def tagged_env_def split: if_splits)
qed

lemma mirror_aes_seals: "seals mirror_aes 16"
  unfolding mirror_aes_def by (rule aes_seals [of "mirror 16" "[1]"]) (simp_all add: NewAesCrypt_def lawful_mirror)


section \<open>Unusable passwords and forged packets\<close>

text \<open>AES with an empty password or one of more than 16 bytes. \<open>initCrypt\<close> reports no error, yet from then on
  every packet with a payload the peer writes is lost inside the codec, uncounted, and every one it receives is
  handed on with an empty payload.
\<close>

lemma unusable_password_silences:
  assumes "pc_CryptType (rtPeer a) = CryptAES" "pc_PeerPwd (rtPeer a) = [] \<or> 16 < length (pc_PeerPwd (rtPeer a))"
    and "bc_size (cl_aes lib) = 16" "initCrypt lib a = (a1, err)" "StateConnOk \<le> rt_peerState (runtime a)"
    and "length tx = PackLength" "df_MsgType d = Msg_Packet" "df_Data d \<noteq> []" "length (df_Data d) + 16 \<le> PackLength"
    and "pe_data env bs = Some m" "df_Data m \<noteq> []"
  shows "err = None \<and> codec_HandleWrite (with_crypt tx env) (DataFrame d) a1 = (a1, None) \<and>
    data_message (with_crypt tx env) bs a1 =
      pe_next env (DataFrame (m\<lparr>df_Data := []\<rparr>)) (SetStats (of_nat (ExSize + length (df_Data m))) True (df_Token m = 0) a1)"
proof -
  define key :: bytes where "key = map of_char (pc_PeerPwd (rtPeer a))"
  define c where "c = AesRef (NewAesCrypt (cl_aes lib) key)"
  have a1: "err = None" "rt_crypt (runtime a1) = Some c" "StateConnOk \<le> rt_peerState (runtime a1)"
    using assms(1,4,5) by (auto simp: initCrypt_def Let_def c_def key_def upd_rt_def)
  have l: "\<not> length tx < length (padded 16 (df_Data d))"
    using assms(6,9) by (simp add: padded_def padding_def Let_def)
  have c: "(\<exists>p. crypt_Encode c (df_Data d) tx = Panicked p) \<and> (\<forall>src. crypt_Decode c src tx = Done (Inr (0, tx)))"
  proof (cases "key = []")
    case True
    then show ?thesis by (simp add: c_def NewAesCrypt_def crypt_Encode_def crypt_Decode_def)
  next
    case False
    then obtain x where x: "NewAesCrypt (cl_aes lib) key = Some x" by (simp add: NewAesCrypt_def)
    have "16 < length key" using assms(2) False by (auto simp: key_def)
    from aes_long_password_unusable [OF x assms(3) this] show ?thesis
      using l by (simp add: c_def x crypt_Encode_def crypt_Decode_def)
  qed
  then obtain p where "sliced (EncryptMsg d tx a1) = Panicked p"
    using a1 assms(8) by (auto simp: sliced_def EncryptMsg_def not_less [symmetric])
  then have "codec_HandleWrite (with_crypt tx env) (DataFrame d) a1 = (a1, None)"
    using assms(7,8) by (simp add: codec_HandleWrite_def codec_payload_def with_crypt_def Let_def)
  moreover have "sliced (DecryptMsg m tx b) = Done (Some [])"
    if "rt_crypt (runtime b) = Some c" "StateConnOk \<le> rt_peerState (runtime b)" for b
    using c that assms(11) by (simp add: sliced_def DecryptMsg_def go_slice_def not_less [symmetric])
  ultimately show ?thesis using a1 assms(10,11) by (simp add: data_message_def with_crypt_def Let_def)
qed

definition aes_config :: AppConfig where
  "aes_config = sample_config\<lparr>ac_PeerConfig := (ac_PeerConfig sample_config)\<lparr>pc_CryptType := CryptAES\<rparr>\<rparr>"

text \<open>(C36) One forged block stops a reader. For every usable AES password there is a 16-byte payload for which the
  decoder reports a negative length; the codec slices its buffer with it and panics, whatever frame the payload
  arrives in.
\<close>

theorem forged_payload_panics:
  assumes "NewAesCrypt aes key = Some x" "lawful aes (aes_key key)" "bc_size aes = 16" "length key \<le> 16"
    and "rt_crypt (runtime a) = Some (AesRef (Some x))" "StateConnOk \<le> rt_peerState (runtime a)" "length tx = PackLength"
  shows "\<exists>src. length src = 16 \<and> (\<forall>env bs m. pe_data env bs = Some m \<longrightarrow> df_Data m = src \<longrightarrow>
    (\<exists>b. data_message (with_crypt tx env) bs a = Pan b))"
proof -
  obtain src p where src: "length src = 16" "aes_Decode x src tx = Inr (- 239, p)"
    using aes_decode_negative [OF assms(1-4), of tx] assms(7) by (auto simp: PackLength_def)
  have "sliced (DecryptMsg m tx b) = Panicked SliceOutOfRange"
    if "df_Data m = src" "rt_crypt (runtime b) = Some (AesRef (Some x))" "StateConnOk \<le> rt_peerState (runtime b)" for m b
    using that src by (auto simp: sliced_def DecryptMsg_def crypt_Decode_def go_slice_def not_less [symmetric])
  then have "\<exists>b. data_message (with_crypt tx env) bs a = Pan b" if "pe_data env bs = Some m" "df_Data m = src" for env bs m
    using that src(1) assms(5,6) by (auto simp: data_message_def with_crypt_def Let_def)
  with src(1) show ?thesis by blast
qed

theorem forged_payload_panics_witness:
  "\<exists>src. length src = 16 \<and> (\<forall>env bs m. pe_data env bs = Some m \<longrightarrow> df_Data m = src \<longrightarrow>
    (\<exists>b. data_message (with_crypt (replicate 2048 0) env) bs (with_cipher mirror_aes) = Pan b))"
  by (rule forged_payload_panics [of "mirror 16" "[1]" "\<lparr>ac_keyByte = aes_key [1], ac_block = mirror 16\<rparr>"])
    (simp_all add: NewAesCrypt_def lawful_mirror mirror_aes_def PackLength_def)

end
