(* ===== verification/Icmp.thy ===== *)
theory Icmp
  imports VPrelude
begin

text \<open>
  The ping of \<open>common/ping.go\<close>, with which the runtime service tests whether its server can be reached: ICMP messages, their
  Internet checksum, and the loop that waits for an answer. The packets the socket delivers are an input.
\<close>

section \<open>Messages\<close>

definition icmpv4EchoRequest :: int where "icmpv4EchoRequest = 8"
definition icmpv4EchoReply :: int where "icmpv4EchoReply = 0"
definition icmpv6EchoRequest :: int where "icmpv6EchoRequest = 128"
definition icmpv6EchoReply :: int where "icmpv6EchoReply = 129"

lemmas icmp_types = icmpv4EchoRequest_def icmpv4EchoReply_def icmpv6EchoRequest_def icmpv6EchoReply_def

record icmpEcho =
  ie_ID :: int
  ie_Seq :: int
  ie_Data :: bytes

record icmpMessage =
  im_Type :: int
  im_Code :: int
  im_Checksum :: int
  im_Body :: "icmpEcho option"

text \<open>\<open>byte(x >> 8)\<close> and \<open>byte(x & 0xff)\<close>; conversion of an \<open>int\<close> to a byte keeps the low eight bits.\<close>

definition echo_Marshal :: "icmpEcho \<Rightarrow> bytes" where
  "echo_Marshal p = [of_int (ie_ID p div 256), of_int (ie_ID p mod 256), of_int (ie_Seq p div 256), of_int (ie_Seq p mod 256)] @
     ie_Data p"

text \<open>The sum of the little-endian 16-bit words, with an odd last byte as the low half of a word.\<close>

fun icmp_sum :: "bytes \<Rightarrow> u32" where
  "icmp_sum [] = 0"
| "icmp_sum [b] = ucast b"
| "icmp_sum (b0 # b1 # bs) = (push_bit 8 (ucast b1) OR ucast b0) + icmp_sum bs"

definition icmp_fold :: "u32 \<Rightarrow> u32" where
  "icmp_fold s = (let s1 = drop_bit 16 s + (s AND 0xffff) in s1 + drop_bit 16 s1)"

definition place_checksum :: "bytes \<Rightarrow> bytes" where
  "place_checksum b = (let s = icmp_fold (icmp_sum b) in
     b[2 := b ! 2 XOR ucast (NOT s AND 0xff), 3 := b ! 3 XOR ucast (drop_bit 8 (NOT s))])"

definition icmp_Marshal :: "icmpMessage \<Rightarrow> bytes" where
  "icmp_Marshal m =
     (let b = [of_int (im_Type m), of_int (im_Code m), 0, 0] @ (case im_Body m of None \<Rightarrow> [] | Some e \<Rightarrow> echo_Marshal e)
      in if im_Type m = icmpv6EchoRequest \<or> im_Type m = icmpv6EchoReply then b else place_checksum b)"

definition parseICMPEcho :: "bytes \<Rightarrow> icmpEcho go" where
  "parseICMPEcho b =
     (if length b < 4 then Panicked IndexOutOfRange
      else Done \<lparr>ie_ID = int (unat (b ! 0)) * 256 + int (unat (b ! 1)), ie_Seq = int (unat (b ! 2)) * 256 + int (unat (b ! 3)),
                 ie_Data = drop 4 b\<rparr>)"

text \<open>An error for a message of less than four bytes is \<open>None\<close>.\<close>

definition parseICMPMessage :: "bytes \<Rightarrow> icmpMessage option go" where
  "parseICMPMessage b =
     (if length b < 4 then Done None
      else let ty = int (unat (b ! 0));
               m = \<lparr>im_Type = ty, im_Code = int (unat (b ! 1)), im_Checksum = int (unat (b ! 2)) * 256 + int (unat (b ! 3)),
                    im_Body = None\<rparr>
        in if length b > 4 \<and> ty \<in> {icmpv4EchoRequest, icmpv4EchoReply, icmpv6EchoRequest, icmpv6EchoReply}
           then go_map (\<lambda>e. Some (m\<lparr>im_Body := Some e\<rparr>)) (parseICMPEcho (drop 4 b))
           else Done (Some m))"

definition ipv4Payload :: "bytes \<Rightarrow> bytes go" where
  "ipv4Payload b =
     (if length b < 20 then Done b
      else go_from b (int (unat (b ! 0 AND 0x0f)) * 4))"

section \<open>Waiting for an answer\<close>

definition ping_message :: icmpMessage where
  "ping_message = \<lparr>im_Type = icmpv4EchoRequest, im_Code = 0, im_Checksum = 0,
     im_Body = Some \<lparr>ie_ID = 1, ie_Seq = 1, ie_Data = concat (replicate 3 (map of_char ''Go Go Gadget Ping!!!''))\<rparr>\<rparr>"

datatype ping_error = DialFailed | WriteFailed | ReadFailed | TooShort

text \<open>The loop: the packets the socket delivers, then an error (the deadline). The buffer shrinks by the header each time; the
  number of bytes read is not used.\<close>

fun pinger_loop :: "bytes \<Rightarrow> bytes list \<Rightarrow> ping_error option go" where
  "pinger_loop rb [] = Done (Some ReadFailed)"
| "pinger_loop rb (packet # packets) =
     go_bind (ipv4Payload (go_copy rb 0 (take (length rb) packet))) (\<lambda>rb1.
     go_bind (parseICMPMessage rb1) (\<lambda>m. case m of
       None \<Rightarrow> Done (Some TooShort)
     | Some msg \<Rightarrow>
         if im_Type msg = icmpv4EchoRequest \<or> im_Type msg = icmpv6EchoRequest then pinger_loop rb1 packets
         else Done None))"

definition Pinger :: "bool \<Rightarrow> bool \<Rightarrow> bytes list \<Rightarrow> ping_error option go" where
  "Pinger dialled written packets =
     (if \<not> dialled then Done (Some DialFailed)
      else let wb = icmp_Marshal ping_message in
        if \<not> written then Done (Some WriteFailed)
        else pinger_loop (replicate (20 + length wb) 0) packets)"

definition Ping :: "bool \<Rightarrow> bool \<Rightarrow> bytes list \<Rightarrow> bool go" where
  "Ping dialled written packets = go_map (\<lambda>e. e = None) (Pinger dialled written packets)"

section \<open>Checksum\<close>

text \<open>The Internet checksum over natural numbers.\<close>

fun sum16 :: "bytes \<Rightarrow> nat" where
  "sum16 [] = 0"
| "sum16 [b] = unat b"
| "sum16 (b0 # b1 # bs) = unat b0 + 256 * unat b1 + sum16 bs"

lemma u8_less: "unat (b :: u8) < 256"
  using unsigned_less [of b, where 'a = nat] by simp

lemma sum16_bound: "sum16 bs \<le> 65535 * length bs"
proof (induction bs rule: sum16.induct)
  case (2 b)
  then show ?case using u8_less [of b] by simp
next
  case (3 b0 b1 bs)
  then show ?case using u8_less [of b0] u8_less [of b1] by simp
qed simp

lemma pair_word: "unat (push_bit 8 (ucast (b1 :: u8)) OR ucast (b0 :: u8) :: u32) = unat b0 + 256 * unat b1"
proof -
  have "take_bit 8 (ucast b0 :: u32) = ucast b0" by (rule bit_word_eqI) (auto simp: bit_simps dest: bit_imp_le_length)
  then have "(ucast b0 :: u32) OR push_bit 8 (ucast b1) = ucast b0 + push_bit 8 (ucast b1)" by (rule or_push_bit_disjoint)
  then have "push_bit 8 (ucast b1) OR ucast b0 = (of_nat (unat b0 + 256 * unat b1) :: u32)"
    by (simp add: or.commute push_bit_eq_mult ac_simps)
  moreover have "unat b0 + 256 * unat b1 < 2 ^ 32" using u8_less [of b0] u8_less [of b1] by simp
  ultimately show ?thesis by (simp add: unsigned_of_nat take_bit_eq_mod del: of_nat_add)
qed

lemma icmp_sum_nat: "unat (icmp_sum bs) = sum16 bs mod 2 ^ 32"
proof (induction bs rule: icmp_sum.induct)
  case (2 b)
  then show ?case using u8_less [of b] by (simp add: unsigned_ucast_eq take_bit_eq_mod)
next
  case (3 b0 b1 bs)
  show ?case using 3 by (simp add: unat_word_ariths pair_word mod_add_right_eq)
qed simp

text \<open>Folding keeps the residue modulo 65535 and distinguishes zero.\<close>

lemma fold_residue:
  fixes n :: nat
  assumes "n < 2 ^ 32"
  defines "s \<equiv> n div 65536 + n mod 65536"
  defines "l \<equiv> (s + s div 65536) mod 65536"
  shows "l mod 65535 = n mod 65535" "l = 0 \<longleftrightarrow> n = 0"
proof -
  have q: "n div 65536 \<le> 65535" using assms(1) by (simp add: less_mult_imp_div_less [of _ 65536 65536, simplified] less_Suc_eq_le [symmetric])
  have r: "n mod 65536 \<le> 65535" by (simp add: less_Suc_eq_le [symmetric])
  have n: "n = 65535 * (n div 65536) + s" unfolding s_def using div_mult_mod_eq [of n 65536] by linarith
  then have s: "s mod 65535 = n mod 65535" by (metis mod_mult_self4)
  have b: "s \<le> 131070" using q r by (simp add: s_def)
  show "l mod 65535 = n mod 65535"
  proof (cases "s < 65536")
    case True
    then show ?thesis using s by (simp add: l_def)
  next
    case False
    then have "s div 65536 = 1" using b by simp
    moreover have "(s + 1) mod 65536 = s + 1 - 65536" using False b by (simp add: mod_if)
    ultimately have "s = l + 65535" using False by (simp add: l_def)
    then show ?thesis using s by simp
  qed
  have z: "s = 0 \<longleftrightarrow> n = 0" using n by (auto simp: s_def)
  show "l = 0 \<longleftrightarrow> n = 0"
  proof (cases "s < 65536")
    case True
    then show ?thesis using z by (simp add: l_def)
  next
    case False
    then have "s div 65536 = 1" using b by simp
    moreover have "(s + 1) mod 65536 = s + 1 - 65536" using False b by (simp add: mod_if)
    ultimately show ?thesis using False z by (simp add: l_def)
  qed
qed

lemma icmp_fold_nat:
  "unat (icmp_fold x) = (let n = unat x; s = n div 65536 + n mod 65536 in s + s div 65536)"
proof -
  define n where "n = unat x"
  define s where "s = n div 65536 + n mod 65536"
  have n: "n < 2 ^ 32" using unsigned_less [of x, where 'a = nat] by (simp add: n_def)
  then have q: "n div 65536 \<le> 65535" by (simp add: less_mult_imp_div_less [of _ 65536 65536, simplified] less_Suc_eq_le [symmetric])
  have r: "n mod 65536 \<le> 65535" by (simp add: less_Suc_eq_le [symmetric])
  have lo: "unat (x AND 0xffff) = n mod 65536"
  proof -
    have "x AND 0xffff = take_bit 16 x" by (simp add: take_bit_eq_mask mask_eq_exp_minus_1)
    then show ?thesis by (simp add: n_def take_bit_eq_mod unat_mod)
  qed
  have hi: "unat (drop_bit 16 x) = n div 65536" by (simp add: unat_drop_bit_div n_def)
  define w where "w = drop_bit 16 x + (x AND 0xffff)"
  have w: "unat w = s" using q r by (simp add: w_def unat_word_ariths lo hi s_def)
  have f: "icmp_fold x = w + drop_bit 16 w" by (simp add: icmp_fold_def Let_def w_def)
  have "s + s div 65536 < 2 ^ 32" using q r by (simp add: s_def)
  then have "unat (w + drop_bit 16 w) = s + s div 65536" by (simp add: unat_word_ariths w unat_drop_bit_div)
  then show ?thesis by (simp add: f Let_def n_def [symmetric] s_def [symmetric])
qed

text \<open>Placing the checksum adds its complement to the sum.\<close>

lemma sum16_checksum:
  assumes "4 \<le> length b" "b ! 2 = 0" "b ! 3 = 0"
  shows "sum16 (b[2 := x, 3 := y]) = sum16 b + unat x + 256 * unat y"
proof -
  obtain b0 b1 b2 b3 r where b: "b = b0 # b1 # b2 # b3 # r"
  proof -
    have "Suc (Suc (Suc (Suc 0))) \<le> length b" using assms(1) by simp
    then show thesis using that by (auto simp: Suc_le_length_iff)
  qed
  have "b2 = 0" "b3 = 0" using assms(2,3) by (simp_all add: b)
  then show ?thesis by (simp add: b)
qed

lemma complement_bytes:
  "unat (ucast (NOT s AND 0xff) :: u8) + 256 * unat (ucast (drop_bit 8 (NOT s)) :: u8) = 65535 - unat (s :: u32) mod 65536"
proof -
  define t where "t = NOT s"
  have "NOT s AND 0xff = take_bit 8 t" by (simp add: t_def take_bit_eq_mask mask_eq_exp_minus_1)
  then have lo: "unat (ucast (NOT s AND 0xff) :: u8) = unat t mod 256"
    by (simp add: unsigned_ucast_eq take_bit_eq_mod unat_mod)
  have hi: "unat (ucast (drop_bit 8 (NOT s)) :: u8) = unat t div 256 mod 256"
    by (simp add: unsigned_ucast_eq take_bit_eq_mod unat_drop_bit_div t_def)
  have "unat t mod 256 + 256 * (unat t div 256 mod 256) = unat t mod 65536"
    using mod_mult2_eq [of "unat t" 256 256] by simp
  moreover have "unat t = 2 ^ 32 - 1 - unat s"
  proof -
    have "take_bit 32 (uint s) = uint s" using unsigned_less [of s, where 'a = int] by (simp add: take_bit_int_eq_self)
    then have "uint t = mask 32 - uint s" by (simp add: t_def unsigned_not_eq take_bit_not_eq_mask_diff)
    then have "int (unat t) = int (2 ^ 32 - 1 - unat s)"
      using unsigned_less [of s, where 'a = nat] by (simp add: mask_eq_exp_minus_1 of_nat_diff)
    then show ?thesis by (simp only: of_nat_eq_iff)
  qed
  moreover have "(2 ^ 32 - 1 - k) mod 65536 = 65535 - k mod 65536" if "k < 2 ^ 32" for k :: nat
  proof -
    have "2 ^ 32 - 1 - k = (65535 - k div 65536) * 65536 + (65535 - k mod 65536)"
      using that div_mult_mod_eq [of k 65536] by (simp add: diff_mult_distrib)
    moreover have "65535 - k mod 65536 < (65536 :: nat)" by simp
    ultimately show ?thesis by (metis mod_less mod_mult_self3)
  qed
  ultimately show ?thesis using lo hi unsigned_less [of s, where 'a = nat] by simp
qed

lemma place_checksum_valid:
  assumes "4 \<le> length b" "b ! 2 = 0" "b ! 3 = 0" "length b \<le> 65535"
  shows "unat (icmp_fold (icmp_sum (place_checksum b))) mod 65536 = 65535"
proof -
  define n where "n = sum16 b"
  define w where "w = icmp_fold (icmp_sum b)"
  define l where "l = unat w mod 65536"
  define n' where "n' = sum16 (place_checksum b)"
  have n: "n < 2 ^ 32" using sum16_bound [of b] assms(4) by (simp add: n_def)
  have "length (place_checksum b) = length b" by (simp add: place_checksum_def Let_def)
  then have n'32: "n' < 2 ^ 32" using sum16_bound [of "place_checksum b"] assms(4) by (simp add: n'_def)
  have "unat (icmp_sum b) = n" using n by (simp add: icmp_sum_nat n_def)
  then have l: "l mod 65535 = n mod 65535" "l = 0 \<longleftrightarrow> n = 0"
    using fold_residue [OF n] by (simp_all add: l_def w_def icmp_fold_nat Let_def)
  have "l \<le> 65535" by (simp add: l_def less_Suc_eq_le [symmetric])
  moreover have "n' = n + (65535 - l)"
    using sum16_checksum [OF assms(1-3)] complement_bytes [of w] assms(2,3)
    by (simp add: n'_def n_def l_def place_checksum_def Let_def w_def [symmetric])
  ultimately have e: "n' + l = n + 65535" by simp
  have z: "n' mod 65535 = 0"
  proof -
    have "(n' + l) mod 65535 = l mod 65535" using e l(1) by simp
    then have "65535 dvd n' + l - l" using mod_eq_dvd_iff_nat [of l "n' + l" 65535] by simp
    then show ?thesis by simp
  qed
  have "n' \<noteq> 0" using e l(2) \<open>l \<le> 65535\<close> by auto
  define l' where "l' = unat (icmp_fold (icmp_sum (place_checksum b))) mod 65536"
  have "unat (icmp_sum (place_checksum b)) = n'" using n'32 by (simp add: icmp_sum_nat n'_def)
  then have l': "l' mod 65535 = 0" "l' \<noteq> 0"
    using fold_residue [OF n'32] z \<open>n' \<noteq> 0\<close> by (simp_all add: l'_def icmp_fold_nat Let_def)
  have "l' < 65536" by (simp add: l'_def)
  moreover have "\<not> l' < 65535" using l' by (metis mod_less)
  ultimately have "l' = 65535" by simp
  then show ?thesis by (simp add: l'_def)
qed

section \<open>Properties\<close>


lemma byte_of_int: "0 \<le> x \<Longrightarrow> x < 256 \<Longrightarrow> int (unat (of_int x :: u8)) = x"
  by (simp add: unsigned_of_int take_bit_int_eq_self)

text \<open>Marshalling and parsing an echo message gives it back, with the checksum that was sent.\<close>

lemma icmp_roundtrip:
  assumes "im_Type m \<in> {icmpv4EchoRequest, icmpv4EchoReply, icmpv6EchoRequest, icmpv6EchoReply}"
    and "0 \<le> im_Code m" "im_Code m < 256" "im_Body m = Some e"
    and "0 \<le> ie_ID e" "ie_ID e < 65536" "0 \<le> ie_Seq e" "ie_Seq e < 65536"
  shows "\<exists>c. parseICMPMessage (icmp_Marshal m) = Done (Some (m\<lparr>im_Checksum := c\<rparr>))"
proof -
  obtain x y where b: "icmp_Marshal m = of_int (im_Type m) # of_int (im_Code m) # x # y # echo_Marshal e"
  proof (cases "im_Type m = icmpv6EchoRequest \<or> im_Type m = icmpv6EchoReply")
    case True
    then show thesis using that [of 0 0] assms(4) by (simp add: icmp_Marshal_def)
  next
    case False
    then have "icmp_Marshal m = place_checksum (of_int (im_Type m) # of_int (im_Code m) # 0 # 0 # echo_Marshal e)"
      using assms(4) by (simp add: icmp_Marshal_def)
    then show thesis using that by (simp add: place_checksum_def Let_def)
  qed
  have t: "int (unat (of_int (im_Type m) :: u8)) = im_Type m" using assms(1) by (auto simp: icmp_types)
  have i: "int (unat (of_int (k div 256) :: u8)) = k div 256" "int (unat (of_int (k mod 256) :: u8)) = k mod 256"
    if "0 \<le> k" "k < 65536" for k
    by (rule byte_of_int; use that in simp)+
  have p: "parseICMPEcho (echo_Marshal e) = Done e"
    using i [OF assms(5,6)] i [OF assms(7,8)] by (simp add: parseICMPEcho_def echo_Marshal_def)
  have "int (unat (of_int (im_Code m) :: u8)) = im_Code m" using assms(2,3) by (rule byte_of_int)
  then show ?thesis using assms(1,4) t p
    by (intro exI [of _ "int (unat x) * 256 + int (unat y)"]) (simp add: parseICMPMessage_def b Let_def echo_Marshal_def)
qed

text \<open>A ping counts any answer. After the socket is open and the request sent, the first packet that is not an echo request
  decides: \<open>Ping\<close> reports success for every such packet with an ordinary header, a \<open>destination unreachable\<close> included, and
  neither the identifier nor the sequence number of the answer is compared.\<close>

lemma ping_accepts_any_answer:
  assumes "length packet = 88" "packet ! 0 = 0x45" "packet ! 20 \<noteq> 8" "packet ! 20 \<noteq> 128"
  shows "Ping True True (packet # packets) = Done True"
proof -
  have l: "length (icmp_Marshal ping_message) = 68"
    by (simp add: icmp_Marshal_def ping_message_def icmp_types place_checksum_def Let_def echo_Marshal_def numeral_3_eq_3)
  have "go_copy (replicate 88 0) 0 (take 88 packet) = packet" using assms(1) by (simp add: go_copy_def)
  moreover have "ipv4Payload packet = Done (drop 20 packet)" using assms(1,2) by (simp add: ipv4Payload_def)
  moreover have "uint (packet ! 20) \<noteq> 8" "uint (packet ! 20) \<noteq> 128"
    using assms(3,4) by (simp_all add: word_uint_eq_iff)
  then have "\<exists>m. parseICMPMessage (drop 20 packet) = Done (Some m) \<and> im_Type m \<noteq> icmpv4EchoRequest \<and> im_Type m \<noteq> icmpv6EchoRequest"
    using assms(1) by (auto simp: parseICMPMessage_def parseICMPEcho_def Let_def icmp_types)
  ultimately show ?thesis using l by (auto simp: Ping_def Pinger_def Let_def)
qed

section \<open>Instances\<close>


end
