(* ===== verification/Serial_Port.thy ===== *)
theory Serial_Port
  imports Sync_Map
begin

text \<open>
  Serial ports, \<open>sys/serial/serial.go\<close> and \<open>sys/serial/serial_linux.go\<close>: the configuration record, its
  defaults, the validation and line settings of \<open>openPort\<close>, the POSIX timeout conversion and the
  configuration file. The operating system is a parameter: whether a device can be opened and
  configured.
\<close>

section \<open>Configuration\<close>

record Config =
  sc_Name :: string
  sc_Baud :: int
  sc_Size :: u8
  sc_Parity :: u8
  sc_StopBits :: u8
  sc_ReadTimeout :: u32
  sc_RemoteName :: string
  sc_UserPortName :: string

definition DefaultSize :: u8 where "DefaultSize = 8"
definition Stop1 :: u8 where "Stop1 = 1"
definition Stop1Half :: u8 where "Stop1Half = 15"
definition Stop2 :: u8 where "Stop2 = 2"
definition ParityNone :: u8 where "ParityNone = 78"
definition ParityOdd :: u8 where "ParityOdd = 79"
definition ParityEven :: u8 where "ParityEven = 69"
definition ParityMark :: u8 where "ParityMark = 77"
definition ParitySpace :: u8 where "ParitySpace = 83"

datatype port_error = BadBaud | OpenFailed | ErrBadSize | ErrBadStopBits | ErrBadParity | IoctlFailed
  | InvalidConfig | FileError

section \<open>Timeouts\<close>

text \<open>\<open>posixTimeoutValues\<close>: milliseconds to the pair of \<open>VMIN\<close> and \<open>VTIME\<close>; the duration is in nanoseconds.\<close>

definition posixTimeoutValues :: "u32 \<Rightarrow> u8 \<times> u8" where
  "posixTimeoutValues readTimeout =
     (let timeout = int (unat readTimeout) * 1000000 in
      if timeout > 0 then
        (let deci = timeout div 1000000 div 100;
             deci1 = (if deci < 1 then 1 else if deci > 255 then 255 else deci)
         in (0, of_int deci1))
      else (1, 0))"

section \<open>Opening\<close>

text \<open>What \<open>openPort\<close> writes into the terminal settings; the numeric flags are the operating system's.\<close>

record termios =
  tm_rate :: int
  tm_bits :: u8          \<comment> \<open>\<open>CS5\<close> to \<open>CS8\<close>\<close>
  tm_CSTOPB :: bool
  tm_PARENB :: bool
  tm_PARODD :: bool
  tm_VMIN :: u8
  tm_VTIME :: u8

definition bauds :: "int list" where
  "bauds = [50, 75, 110, 134, 150, 200, 300, 600, 1200, 1800, 2400, 4800, 9600, 19200, 38400, 57600,
     115200, 230400, 460800, 500000, 576000, 921600, 1000000, 1152000, 1500000, 2000000, 2500000,
     3000000, 3500000, 4000000]"

record port_os =
  os_open :: "string \<Rightarrow> bool"                 \<comment> \<open>\<open>os.OpenFile\<close>\<close>
  os_set :: "string \<Rightarrow> termios \<Rightarrow> bool"      \<comment> \<open>the \<open>TCSETS\<close> ioctl and \<open>SetNonblock\<close>\<close>

text \<open>\<open>openPort\<close>: the settings applied to the device, and whether a device that was opened is closed again.\<close>

definition openPort ::
  "port_os \<Rightarrow> string \<Rightarrow> int \<Rightarrow> u8 \<Rightarrow> u8 \<Rightarrow> u8 \<Rightarrow> u32 \<Rightarrow> port_error + termios" where
  "openPort os name baud databits parity stopbits readTimeoutMs =
     (if baud \<notin> set bauds then Inl BadBaud
      else if \<not> os_open os name then Inl OpenFailed
      else if databits \<notin> {5, 6, 7, 8} then Inl ErrBadSize
      else if stopbits \<noteq> Stop1 \<and> stopbits \<noteq> Stop2 then Inl ErrBadStopBits
      else if parity \<noteq> ParityNone \<and> parity \<noteq> ParityOdd \<and> parity \<noteq> ParityEven then Inl ErrBadParity
      else let (vmin, vtime) = posixTimeoutValues readTimeoutMs;
               t = \<lparr>tm_rate = baud, tm_bits = databits, tm_CSTOPB = (stopbits = Stop2),
                    tm_PARENB = (parity = ParityOdd \<or> parity = ParityEven), tm_PARODD = (parity = ParityOdd),
                    tm_VMIN = vmin, tm_VTIME = vtime\<rparr>
           in if os_set os name t then Inr t else Inl IoctlFailed)"

definition OpenPort :: "port_os \<Rightarrow> Config \<Rightarrow> port_error + termios" where
  "OpenPort os c =
     (let sz = (if sc_Size c = 0 then DefaultSize else sc_Size c);
          par = (if sc_Parity c = 0 then ParityNone else sc_Parity c);
          stop = (if sc_StopBits c = 0 then Stop1 else sc_StopBits c)
      in openPort os (sc_Name c) (sc_Baud c) sz par stop (sc_ReadTimeout c))"

section \<open>The configuration file\<close>

text \<open>The file holds a JSON object from names to configurations; the read timeout is not stored
  (\<open>json:"-"\<close>). \<open>None\<close> stands for a file that cannot be read or parsed.\<close>

type_synonym config_file = "(string, Config) smap option"

definition stored :: "Config \<Rightarrow> Config" where
  "stored c = c\<lparr>sc_ReadTimeout := 0\<rparr>"

definition LoadConfig :: "config_file \<Rightarrow> (string, Config) smap option" where
  "LoadConfig file = file"

text \<open>\<open>SaveConfig\<close>: the new content of the file when it can be written, and the error; the argument's
  \<open>RemoteName\<close> is cleared in place.\<close>

definition SaveConfig :: "bool \<Rightarrow> Config option \<Rightarrow> config_file \<Rightarrow> config_file \<times> port_error option" where
  "SaveConfig writable conf file =
     (case conf of None \<Rightarrow> (file, Some InvalidConfig) | Some c \<Rightarrow>
        if sc_Name c = [] then (file, Some InvalidConfig)
        else let configs = (case LoadConfig file of None \<Rightarrow> sm_empty | Some m \<Rightarrow> m);
                 c1 = c\<lparr>sc_RemoteName := []\<rparr>
             in if writable then (Some (sm_store (sc_Name c1) (stored c1) configs), None)
                else (file, Some FileError))"

definition GetLocalPortConfig :: "string \<Rightarrow> config_file \<Rightarrow> port_error + Config option" where
  "GetLocalPortConfig name file =
     (case LoadConfig file of None \<Rightarrow> Inl FileError | Some m \<Rightarrow> Inr (sm_load m name))"

section \<open>Facts\<close>

lemma posixTimeoutValues_cases:
  "fst (posixTimeoutValues n) = (if n = 0 then 1 else 0)"
  "unat (snd (posixTimeoutValues n)) = (if n = 0 then 0 else min 255 (max 1 (unat n div 100)))"
proof -
  let ?d = "int (unat n) * 1000000 div 1000000 div 100"
  have d: "?d = int (unat n div 100)" by (simp add: zdiv_int)
  have "int k * 1000000 > 0 \<longleftrightarrow> k \<noteq> 0" for k by simp
  from this [of "unat n"] have z: "int (unat n) * 1000000 > 0 \<longleftrightarrow> n \<noteq> 0"
    by (simp only: unat_eq_0)
  show "fst (posixTimeoutValues n) = (if n = 0 then 1 else 0)"
    unfolding posixTimeoutValues_def Let_def using z by auto
  have "unat (of_int (int k) :: u8) = k" if "k \<le> 255" for k
    using that by (simp add: unsigned_of_nat take_bit_eq_mod)
  from this [of "min 255 (max 1 (unat n div 100))"]
  show "unat (snd (posixTimeoutValues n)) = (if n = 0 then 0 else min 255 (max 1 (unat n div 100)))"
    unfolding posixTimeoutValues_def Let_def d using z by (auto simp: min_def max_def split: if_splits)
qed

end
