(* ===== verification/Serial_Context.thy ===== *)
theory Serial_Context
  imports Serial_Port Runtime_Core
begin

text \<open>
  The two ends of a remote serial port: \<open>serial/server_context.go\<close>, which opens the real port and
  answers a connected client, and \<open>serial/client_context.go\<close>, which pairs a remote port with a local
  virtual one. The state of the whole port service is one record \<open>ser\<close>; contexts and port contexts are
  heap objects named by addresses, because maps, goroutines and callers share them. Messages are those
  of \<open>serial/protocol/msg.proto\<close>. A reader goroutine starts at once where the code says \<open>go\<close>.
\<close>

section \<open>Messages\<close>

datatype SMsgType = SMsg_Auth | SMsg_AuthAck | SMsg_UnAuth | SMsg_Ping | SMsg_Pong | SMsg_OpenPort
  | SMsg_OpenPortAck | SMsg_ClosePort | SMsg_ClosePortAck | SMsg_Data | SMsg_DataAck | SMsg_GetConfig
  | SMsg_GetConfigAck | SMsg_GetPortList | SMsg_GetPortListAck | SMsg_State

record SMsgConfig =
  smc_Name :: string
  smc_Baud :: u32
  smc_DataBit :: u32
  smc_DataParity :: u32
  smc_StopBit :: u32

record SMsgOpenPort = so_Name :: string
  so_Config :: "SMsgConfig option"

record SMsgOpenPortAck = soa_Result :: bool
  soa_Name :: string
  soa_Config :: "SMsgConfig option"

record SMsgClosePortAck = sca_Result :: bool
  sca_Name :: string

record SMsgData = sd_Sn :: u32
  sd_Name :: string
  sd_NeedAck :: bool
  sd_Data :: bytes

record SMsgDataAck = sda_Sn :: u32
  sda_Name :: string
  sda_Result :: bool

record SMsgGetConfigAck = sga_Result :: bool
  sga_Name :: string
  sga_Config :: "SMsgConfig option"

record SMsgGetPortListAck = sla_Result :: bool
  sla_PortList :: "string list"

record SMsgClientFrame =
  scf_MsgType :: SMsgType
  scf_SrcId :: u64
  scf_MsgAuth :: "u64 option"
  scf_MsgOpenCom :: "SMsgOpenPort option"
  scf_MsgCloseCom :: "string option"
  scf_MsgData :: "SMsgData option"
  scf_MsgGetConfig :: "string option"

record SMsgServerFrame =
  ssf_MsgType :: SMsgType
  ssf_SrcId :: u64
  ssf_MsgAuthAck :: "bool option"
  ssf_MsgOpenPortAck :: "SMsgOpenPortAck option"
  ssf_MsgClosePortAck :: "SMsgClosePortAck option"
  ssf_MsgData :: "SMsgData option"
  ssf_MsgDataAck :: "SMsgDataAck option"
  ssf_MsgGetConfigAck :: "SMsgGetConfigAck option"
  ssf_MsgPortListAck :: "SMsgGetPortListAck option"
  ssf_MsgState :: "(string \<times> bool) option"

definition client_msg :: "SMsgType \<Rightarrow> u64 \<Rightarrow> SMsgClientFrame" where
  "client_msg ty src = \<lparr>scf_MsgType = ty, scf_SrcId = src, scf_MsgAuth = None, scf_MsgOpenCom = None,
     scf_MsgCloseCom = None, scf_MsgData = None, scf_MsgGetConfig = None\<rparr>"

definition server_msg :: "SMsgType \<Rightarrow> u64 \<Rightarrow> SMsgServerFrame" where
  "server_msg ty src = \<lparr>ssf_MsgType = ty, ssf_SrcId = src, ssf_MsgAuthAck = None, ssf_MsgOpenPortAck = None,
     ssf_MsgClosePortAck = None, ssf_MsgData = None, ssf_MsgDataAck = None, ssf_MsgGetConfigAck = None,
     ssf_MsgPortListAck = None, ssf_MsgState = None\<rparr>"

section \<open>State\<close>

record PortContext =
  pc_Running :: bool
  pc_Port :: nat
  pc_Config :: Config

record ServerContext =
  sv_handler :: "nat option"
  sv_portCtx :: "(string, nat) smap"
  sv_LastReceive :: int

record ClientContext =
  cl_url :: string
  cl_channel :: "nat option"
  cl_handler :: "nat option"
  cl_portList :: "string list"
  cl_portCtx :: "(string, nat) smap"
  cl_LastReceive :: int
  cl_msgResult :: "string list"       \<comment> \<open>keys that have a channel\<close>

datatype ser_event =
    WriteClient nat SMsgClientFrame   \<comment> \<open>\<open>handler.Write\<close> of a client frame\<close>
  | WriteServer nat SMsgServerFrame
  | CloseHandler nat
  | CloseChannel nat
  | WritePort nat bytes
  | StopListening

record ser =
  sp_isRunning :: bool
  sp_bootstrap :: bool
  sp_serverCtx :: "(u64, nat) smap option"
  sp_clientCtx :: "(u64, nat) smap option"
  sp_localId :: u64
  sp_servers :: "nat \<Rightarrow> ServerContext"
  sp_clients :: "nat \<Rightarrow> ClientContext"
  sp_ports :: "nat \<Rightarrow> PortContext"
  sp_auth :: "nat \<Rightarrow> bool"             \<comment> \<open>the \<open>auth\<close> flag of the handler of a connection\<close>
  sp_open :: "nat list"                \<comment> \<open>open port handles\<close>
  sp_configs :: config_file
  sp_fresh :: nat
  sp_trace :: "ser_event list"

record serial_env =
  se_os :: port_os
  se_portWrite :: "nat \<Rightarrow> bytes \<Rightarrow> bool"  \<comment> \<open>\<open>Port.Write\<close> without an error\<close>
  se_ports :: "string list option"        \<comment> \<open>\<open>GetPortsList\<close>\<close>
  se_writable :: bool                     \<comment> \<open>the configuration file can be written\<close>
  se_connect :: "string \<Rightarrow> bool"          \<comment> \<open>\<open>bootstrap.Connect\<close> succeeds\<close>

datatype ser_error = MsgNil | SubMsgNil | WriteFailed | HandlerNil | UnknownMsg

definition ser_emit :: "ser_event \<Rightarrow> ser \<Rightarrow> ser" where
  "ser_emit e s = s\<lparr>sp_trace := sp_trace s @ [e]\<rparr>"

definition upd_server_ctx :: "nat \<Rightarrow> (ServerContext \<Rightarrow> ServerContext) \<Rightarrow> ser \<Rightarrow> ser" where
  "upd_server_ctx sa f s = s\<lparr>sp_servers := (sp_servers s)(sa := f (sp_servers s sa))\<rparr>"

definition upd_client_ctx :: "nat \<Rightarrow> (ClientContext \<Rightarrow> ClientContext) \<Rightarrow> ser \<Rightarrow> ser" where
  "upd_client_ctx ca f s = s\<lparr>sp_clients := (sp_clients s)(ca := f (sp_clients s ca))\<rparr>"

definition upd_port :: "nat \<Rightarrow> (PortContext \<Rightarrow> PortContext) \<Rightarrow> ser \<Rightarrow> ser" where
  "upd_port pa f s = s\<lparr>sp_ports := (sp_ports s)(pa := f (sp_ports s pa))\<rparr>"

text \<open>Opening a port that the operating system accepts gives a new handle and a new port context, whose
  reader runs from then on; closing releases the handle.\<close>

definition new_port_ctx :: "Config \<Rightarrow> ser \<Rightarrow> nat \<times> ser" where
  "new_port_ctx conf s = (let n = sp_fresh s in
     (n, s\<lparr>sp_fresh := n + 1, sp_open := n # sp_open s,
          sp_ports := (sp_ports s)(n := \<lparr>pc_Running = True, pc_Port = n, pc_Config = conf\<rparr>)\<rparr>))"

definition close_port :: "nat \<Rightarrow> ser \<Rightarrow> ser" where
  "close_port pa s = s\<lparr>sp_open := removeAll (pc_Port (sp_ports s pa)) (sp_open s)\<rparr>"

definition stop_port :: "nat \<Rightarrow> ser \<Rightarrow> ser" where
  "stop_port pa s = close_port pa (upd_port pa (\<lambda>p. p\<lparr>pc_Running := False\<rparr>) s)"

text \<open>Conversions between the configuration and its message.\<close>

definition to_msg_config :: "string \<Rightarrow> Config \<Rightarrow> SMsgConfig" where
  "to_msg_config name c = \<lparr>smc_Name = name, smc_Baud = of_int (sc_Baud c), smc_DataBit = ucast (sc_Size c),
     smc_DataParity = ucast (sc_Parity c), smc_StopBit = ucast (sc_StopBits c)\<rparr>"

definition of_msg_config :: "string \<Rightarrow> SMsgConfig \<Rightarrow> Config" where
  "of_msg_config name m = \<lparr>sc_Name = name, sc_Baud = int (unat (smc_Baud m)), sc_Size = ucast (smc_DataBit m),
     sc_Parity = ucast (smc_DataParity m), sc_StopBits = ucast (smc_StopBit m), sc_ReadTimeout = 0,
     sc_RemoteName = [], sc_UserPortName = []\<rparr>"

section \<open>Server context\<close>

definition server_write2Net :: "nat \<Rightarrow> SMsgServerFrame \<Rightarrow> ser \<Rightarrow> ser \<times> ser_error option" where
  "server_write2Net sa msg s =
     (case sv_handler (sp_servers s sa) of
        None \<Rightarrow> (s, Some WriteFailed)
      | Some h \<Rightarrow> (ser_emit (WriteServer h msg) s, None))"

definition NewServerContext :: "nat \<Rightarrow> int \<Rightarrow> ser \<Rightarrow> nat \<times> ser" where
  "NewServerContext h now s = (let n = sp_fresh s in
     (n, s\<lparr>sp_fresh := n + 1, sp_servers := (sp_servers s)(n := \<lparr>sv_handler = Some h, sv_portCtx = sm_empty,
          sv_LastReceive = now\<rparr>)\<rparr>))"

definition state_closed :: "string \<Rightarrow> u64 \<Rightarrow> SMsgServerFrame" where
  "state_closed name src = (server_msg SMsg_State src)\<lparr>ssf_MsgState := Some (name, True)\<rparr>"

definition server_Stop :: "nat \<Rightarrow> ser \<Rightarrow> ser" where
  "server_Stop sa s =
     (let m = sv_portCtx (sp_servers s sa);
          s1 = fold (\<lambda>(key, pa) t. fst (server_write2Net sa (state_closed key (sp_localId t)) (stop_port pa t))) m s;
          s2 = upd_server_ctx sa (\<lambda>c. c\<lparr>sv_portCtx := fold sm_delete (sm_keys m) (sv_portCtx c)\<rparr>) s1
      in case sv_handler (sp_servers s2 sa) of None \<Rightarrow> s2 | Some h \<Rightarrow> ser_emit (CloseHandler h) s2)"

definition default_port_config :: "string \<Rightarrow> Config" where
  "default_port_config name = \<lparr>sc_Name = name, sc_Baud = 9600, sc_Size = 8, sc_Parity = ParityNone,
     sc_StopBits = Stop1, sc_ReadTimeout = 25, sc_RemoteName = [], sc_UserPortName = []\<rparr>"

text \<open>The configuration of an open request, and whether it is written back.\<close>

definition requested_config :: "SMsgOpenPort \<Rightarrow> config_file \<Rightarrow> Config \<times> bool" where
  "requested_config msg file =
     (case so_Config msg of
        Some m \<Rightarrow> (of_msg_config (so_Name msg) m, True)
      | None \<Rightarrow> (case GetLocalPortConfig (so_Name msg) file of
            Inr (Some c) \<Rightarrow> (c, False)
          | _ \<Rightarrow> (default_port_config (so_Name msg), True)))"

definition server_open :: "serial_env \<Rightarrow> nat \<Rightarrow> SMsgOpenPort \<Rightarrow> ser \<Rightarrow> ser" where
  "server_open env sa msg s =
     (let name = so_Name msg; (conf, needSave) = requested_config msg (sp_configs s);
          s1 = (case sm_load (sv_portCtx (sp_servers s sa)) name of None \<Rightarrow> s | Some pa \<Rightarrow> close_port pa s);
          s2 = upd_server_ctx sa (\<lambda>c. c\<lparr>sv_portCtx := sm_delete name (sv_portCtx c)\<rparr>) s1;
          ack = \<lparr>soa_Result = False, soa_Name = name, soa_Config = None\<rparr>;
          frame = (\<lambda>k. (server_msg SMsg_OpenPortAck (sp_localId s))\<lparr>ssf_MsgOpenPortAck := Some k\<rparr>);
          s3 = (case OpenPort (se_os env) conf of
             Inl _ \<Rightarrow> fst (server_write2Net sa (frame ack) s2)
           | Inr _ \<Rightarrow> let (pa, t) = new_port_ctx conf s2;
                          t1 = upd_server_ctx sa (\<lambda>c. c\<lparr>sv_portCtx := sm_store name pa (sv_portCtx c)\<rparr>) t
                      in fst (server_write2Net sa (frame (ack\<lparr>soa_Result := True,
                            soa_Config := Some (to_msg_config (sc_Name conf) conf)\<rparr>)) t1))
      in if needSave then s3\<lparr>sp_configs := fst (SaveConfig (se_writable env) (Some conf) (sp_configs s3))\<rparr> else s3)"

definition server_close :: "nat \<Rightarrow> string \<Rightarrow> ser \<Rightarrow> ser \<times> ser_error option" where
  "server_close sa name s =
     (let s1 = (case sm_load (sv_portCtx (sp_servers s sa)) name of None \<Rightarrow> s | Some pa \<Rightarrow> stop_port pa s);
          s2 = upd_server_ctx sa (\<lambda>c. c\<lparr>sv_portCtx := sm_delete name (sv_portCtx c)\<rparr>) s1
      in server_write2Net sa ((server_msg SMsg_ClosePortAck (sp_localId s))\<lparr>ssf_MsgClosePortAck :=
           Some \<lparr>sca_Result = True, sca_Name = name\<rparr>\<rparr>) s2)"

text \<open>The configuration of a port: that of the open port, else that of the file. The acknowledgement reads
  the configuration before testing it, so a missing one panics; the deferred \<open>recover\<close> swallows that.\<close>

definition server_get_config :: "nat \<Rightarrow> string \<Rightarrow> ser \<Rightarrow> ser \<times> ser_error option" where
  "server_get_config sa name s =
     (let conf0 = map_option (\<lambda>pa. pc_Config (sp_ports s pa)) (sm_load (sv_portCtx (sp_servers s sa)) name);
          conf = (case conf0 of Some c \<Rightarrow> Some c
                  | None \<Rightarrow> (case GetLocalPortConfig name (sp_configs s) of Inr c \<Rightarrow> c | Inl _ \<Rightarrow> None))
      in case conf of
           None \<Rightarrow> (s, None)
         | Some c \<Rightarrow> server_write2Net sa ((server_msg SMsg_GetConfigAck (sp_localId s))\<lparr>ssf_MsgGetConfigAck :=
             Some \<lparr>sga_Result = True, sga_Name = name, sga_Config = Some (to_msg_config (sc_Name c) c)\<rparr>\<rparr>) s)"

definition server_data :: "serial_env \<Rightarrow> nat \<Rightarrow> SMsgData \<Rightarrow> ser \<Rightarrow> ser \<times> ser_error option" where
  "server_data env sa msg s =
     (case sm_load (sv_portCtx (sp_servers s sa)) (sd_Name msg) of
        None \<Rightarrow> (s, None)
      | Some pa \<Rightarrow>
          (let s1 = ser_emit (WritePort (pc_Port (sp_ports s pa)) (sd_Data msg)) s in
           if sd_NeedAck msg then
             server_write2Net sa ((server_msg SMsg_DataAck (sp_localId s))\<lparr>ssf_MsgDataAck := Some \<lparr>sda_Sn = sd_Sn msg,
               sda_Name = sd_Name msg, sda_Result = se_portWrite env (pc_Port (sp_ports s pa)) (sd_Data msg)\<rparr>\<rparr>) s1
           else (s1, None)))"

definition server_port_list :: "serial_env \<Rightarrow> nat \<Rightarrow> ser \<Rightarrow> ser \<times> ser_error option" where
  "server_port_list env sa s =
     server_write2Net sa ((server_msg SMsg_GetPortListAck (sp_localId s))\<lparr>ssf_MsgPortListAck := Some
       (case se_ports env of None \<Rightarrow> \<lparr>sla_Result = False, sla_PortList = []\<rparr>
        | Some l \<Rightarrow> \<lparr>sla_Result = True, sla_PortList = l\<rparr>)\<rparr>) s"

definition server_processMsg :: "serial_env \<Rightarrow> nat \<Rightarrow> SMsgClientFrame \<Rightarrow> ser \<Rightarrow> ser \<times> ser_error option" where
  "server_processMsg env sa m s = (case scf_MsgType m of
       SMsg_Data \<Rightarrow> (case scf_MsgData m of None \<Rightarrow> (s, Some SubMsgNil) | Some d \<Rightarrow> server_data env sa d s)
     | SMsg_OpenPort \<Rightarrow> (case scf_MsgOpenCom m of None \<Rightarrow> (s, Some SubMsgNil) | Some d \<Rightarrow> (server_open env sa d s, None))
     | SMsg_ClosePort \<Rightarrow> (case scf_MsgCloseCom m of None \<Rightarrow> (s, Some SubMsgNil) | Some n \<Rightarrow> server_close sa n s)
     | SMsg_GetConfig \<Rightarrow> (case scf_MsgGetConfig m of None \<Rightarrow> (s, Some SubMsgNil) | Some n \<Rightarrow> server_get_config sa n s)
     | SMsg_GetPortList \<Rightarrow> server_port_list env sa s
     | _ \<Rightarrow> (s, Some UnknownMsg))"

text \<open>\<open>readSerial\<close>: the loop over what the port yields; \<open>None\<close> is a failed or empty read.\<close>

fun server_readSerial :: "nat \<Rightarrow> nat \<Rightarrow> u32 \<Rightarrow> bytes option list \<Rightarrow> ser \<Rightarrow> ser" where
  "server_readSerial sa pa sn [] s = s"
| "server_readSerial sa pa sn (r # rs) s =
     (if \<not> pc_Running (sp_ports s pa) then s
      else case r of
        None \<Rightarrow> server_readSerial sa pa sn rs s
      | Some d \<Rightarrow> server_readSerial sa pa (sn + 1) rs (fst (server_write2Net sa
          ((server_msg SMsg_Data (sp_localId s))\<lparr>ssf_MsgData := Some \<lparr>sd_Sn = sn + 1,
             sd_Name = sc_Name (pc_Config (sp_ports s pa)), sd_NeedAck = False, sd_Data = d\<rparr>\<rparr>) s)))"

end
