(* ===== verification/Serial_Service.thy ===== *)
theory Serial_Service
  imports Serial_Context Addr_Utils
begin

text \<open>
  \<open>serial/client_context.go\<close>, \<open>serial/serial_service.go\<close> and the two connection handlers. A client operation
  sends a request and waits for its answer: what the connection delivers meanwhile is an argument, in
  two parts, the messages handled before the operation has registered its reply channel
  (\<open>io_early\<close>) and those handled while it waits (\<open>io_wait\<close>). No answer among the latter is the timeout.
\<close>

section \<open>Results\<close>

datatype reply = ReAuth bool | ReOpen bool "SMsgConfig option" | ReClose bool
  | ReConfig bool "Config option" | ReList bool "string list"

datatype tip = TipNone | TipNoPeer | TipConnectFailed | TipAuthOk | TipAuthBad | TipBusy | TipSendFailed
  | TipNoParams | TipLocalFailed | TipOk | TipRefused | TipTimeout | TipNotConnected

record op_result =
  or_result :: bool
  or_timeout :: bool
  or_tip :: tip
  or_config :: "Config option"
  or_list :: "string list"
  or_ports :: "Config list"

definition op_res :: "bool \<Rightarrow> tip \<Rightarrow> op_result" where
  "op_res b t = \<lparr>or_result = b, or_timeout = False, or_tip = t, or_config = None, or_list = [], or_ports = []\<rparr>"

definition timed_out :: op_result where
  "timed_out = (op_res False TipTimeout)\<lparr>or_timeout := True\<rparr>"

record arrival =
  ar_time :: int
  ar_handler :: nat
  ar_msg :: SMsgServerFrame

record client_io =
  io_early :: "arrival list"
  io_wait :: "arrival list"

definition ResultAuthAck :: string where "ResultAuthAck = ''AuthAck''"
definition ResultOpenPort :: string where "ResultOpenPort = ''OpenPort''"
definition ResultClosePort :: string where "ResultClosePort = ''ClosePort''"
definition ResultGetPortConfig :: string where "ResultGetPortConfig = ''GetPortConfig''"
definition ResultGetPortList :: string where "ResultGetPortList = ''GetPortList''"

section \<open>Client context: messages\<close>

definition client_write2Net :: "nat \<Rightarrow> SMsgClientFrame \<Rightarrow> ser \<Rightarrow> ser \<times> ser_error option" where
  "client_write2Net ca msg s =
     (case cl_handler (sp_clients s ca) of
        None \<Rightarrow> (s, Some HandlerNil)
      | Some h \<Rightarrow> (ser_emit (WriteClient h msg) s, None))"

text \<open>\<open>NewClientContext\<close> and \<open>Start\<close>: a connection whose handler announces the peer as soon as it is active.\<close>

definition NewClientContext :: "string \<Rightarrow> ser \<Rightarrow> nat \<times> ser" where
  "NewClientContext url s = (let n = sp_fresh s in
     (n, s\<lparr>sp_fresh := n + 1, sp_clients := (sp_clients s)(n := \<lparr>cl_url = url, cl_channel = None,
          cl_handler = None, cl_portList = [], cl_portCtx = sm_empty, cl_LastReceive = 0, cl_msgResult = []\<rparr>)\<rparr>))"

definition client_HandleActive :: "nat \<Rightarrow> ser \<Rightarrow> ser" where
  "client_HandleActive h s =
     ser_emit (WriteClient h ((client_msg SMsg_Auth (sp_localId s))\<lparr>scf_MsgAuth := Some (sp_localId s)\<rparr>)) s"

definition client_Start :: "serial_env \<Rightarrow> nat \<Rightarrow> int \<Rightarrow> ser \<Rightarrow> ser \<times> bool" where
  "client_Start env ca now s =
     (if se_connect env (cl_url (sp_clients s ca)) then
        (let h = sp_fresh s; s1 = s\<lparr>sp_fresh := h + 1, sp_auth := (sp_auth s)(h := False)\<rparr>
         in (upd_client_ctx ca (\<lambda>c. c\<lparr>cl_channel := Some h, cl_LastReceive := now\<rparr>) (client_HandleActive h s1), True))
      else (s, False))"

definition client_Stop :: "nat \<Rightarrow> ser \<Rightarrow> ser" where
  "client_Stop ca s =
     (let s1 = fst (client_write2Net ca (client_msg SMsg_UnAuth (sp_localId s)) s);
          m = cl_portCtx (sp_clients s1 ca);
          s2 = fold (\<lambda>(key, pa) t. stop_port pa t) m s1;
          s3 = upd_client_ctx ca (\<lambda>c. c\<lparr>cl_portCtx := fold sm_delete (sm_keys m) (cl_portCtx c)\<rparr>) s2;
          s4 = (case cl_channel (sp_clients s3 ca) of None \<Rightarrow> s3
                | Some ch \<Rightarrow> upd_client_ctx ca (\<lambda>c. c\<lparr>cl_channel := None\<rparr>) (ser_emit (CloseChannel ch) s3))
      in case cl_handler (sp_clients s4 ca) of None \<Rightarrow> s4 | Some h \<Rightarrow> ser_emit (CloseHandler h) s4)"

text \<open>\<open>processMsg\<close>: the new state, the error, and the reply sent on a registered channel.\<close>

definition client_processMsg ::
  "nat \<Rightarrow> SMsgServerFrame \<Rightarrow> ser \<Rightarrow> ser \<times> ser_error option \<times> (string \<times> reply) option" where
  "client_processMsg ca m s =
     (let c = sp_clients s ca; send = (\<lambda>k r. if k \<in> set (cl_msgResult c) then Some (k, r) else None) in
      case ssf_MsgType m of
        SMsg_Data \<Rightarrow> (case ssf_MsgData m of None \<Rightarrow> (s, Some SubMsgNil, None) | Some d \<Rightarrow>
            (case sm_load (cl_portCtx c) (sd_Name d) of None \<Rightarrow> (s, None, None)
             | Some pa \<Rightarrow> (ser_emit (WritePort (pc_Port (sp_ports s pa)) (sd_Data d)) s, None, None)))
      | SMsg_DataAck \<Rightarrow> (s, (if ssf_MsgDataAck m = None then Some SubMsgNil else None), None)
      | SMsg_AuthAck \<Rightarrow> (case ssf_MsgAuthAck m of
            None \<Rightarrow> (s, Some SubMsgNil, send ResultAuthAck (ReAuth False))
          | Some _ \<Rightarrow> (s, None, send ResultAuthAck (ReAuth True)))
      | SMsg_OpenPortAck \<Rightarrow> (case ssf_MsgOpenPortAck m of None \<Rightarrow> (s, Some SubMsgNil, None) | Some k \<Rightarrow>
            (s, None, send (soa_Name k @ ResultOpenPort) (ReOpen (soa_Result k) (soa_Config k))))
      | SMsg_ClosePortAck \<Rightarrow> (case ssf_MsgClosePortAck m of None \<Rightarrow> (s, Some SubMsgNil, None) | Some k \<Rightarrow>
            (s, None, send (sca_Name k @ ResultClosePort) (ReClose (sca_Result k))))
      | SMsg_GetConfigAck \<Rightarrow> (case ssf_MsgGetConfigAck m of None \<Rightarrow> (s, Some SubMsgNil, None) | Some k \<Rightarrow>
            (s, None, send (sga_Name k @ ResultGetPortConfig)
               (case sga_Config k of
                  Some cf \<Rightarrow> if sga_Result k then ReConfig True (Some (of_msg_config (sga_Name k) cf)) else ReConfig False None
                | None \<Rightarrow> ReConfig False None)))
      | SMsg_GetPortListAck \<Rightarrow> (case ssf_MsgPortListAck m of None \<Rightarrow> (s, Some SubMsgNil, None) | Some k \<Rightarrow>
            (if ResultGetPortList \<in> set (cl_msgResult c) then
               (upd_client_ctx ca (\<lambda>c. c\<lparr>cl_portList := (if sla_Result k then sla_PortList k else [])\<rparr>) s, None,
                Some (ResultGetPortList, ReList (sla_Result k) (if sla_Result k then sla_PortList k else [])))
             else (s, None, None)))
      | _ \<Rightarrow> (s, Some UnknownMsg, None))"

section \<open>Service: incoming messages\<close>

text \<open>The maps exist once \<open>Start\<close> has created them; using them before is a nil dereference.\<close>

definition need :: "'a option \<Rightarrow> ('a \<Rightarrow> 'b go) \<Rightarrow> 'b go" where
  "need m f = (case m of None \<Rightarrow> Panicked NilDeref | Some x \<Rightarrow> f x)"

definition ProcessServerMessage ::
  "u64 \<Rightarrow> SMsgServerFrame \<Rightarrow> nat \<Rightarrow> int \<Rightarrow> ser \<Rightarrow> (ser \<times> (nat \<times> string \<times> reply) option) go" where
  "ProcessServerMessage dstId m h now s = need (sp_clientCtx s) (\<lambda>mp.
     let found = sm_load mp dstId;
         seen = (\<lambda>ca t. upd_client_ctx ca (\<lambda>c. c\<lparr>cl_LastReceive := now\<rparr>) t);
         reply_of = (\<lambda>ca (t, e, d). (t, map_option (\<lambda>(k, r). (ca, k, r)) d))
     in Done (case ssf_MsgType m of
        SMsg_AuthAck \<Rightarrow> (case found of None \<Rightarrow> (s, None) | Some ca \<Rightarrow>
            reply_of ca (client_processMsg ca m (upd_client_ctx ca (\<lambda>c. c\<lparr>cl_handler := Some h\<rparr>) (seen ca s))))
      | SMsg_Ping \<Rightarrow> (ser_emit (WriteClient h (client_msg SMsg_Pong (sp_localId s)))
            (case found of None \<Rightarrow> s | Some ca \<Rightarrow> seen ca s), None)
      | _ \<Rightarrow> (case found of None \<Rightarrow> (s, None) | Some ca \<Rightarrow> reply_of ca (client_processMsg ca m (seen ca s)))))"

text \<open>\<open>ClientHandler.HandleRead\<close>; \<open>h\<close> is the handler context, whose flag \<open>auth\<close> the handler keeps.\<close>

definition client_HandleRead ::
  "nat \<Rightarrow> SMsgServerFrame \<Rightarrow> int \<Rightarrow> ser \<Rightarrow> (ser \<times> (nat \<times> string \<times> reply) option) go" where
  "client_HandleRead h m now s =
     (if ssf_MsgType m = SMsg_AuthAck
      then ProcessServerMessage (ssf_SrcId m) m h now (s\<lparr>sp_auth := (sp_auth s)(h := True)\<rparr>)
      else if \<not> sp_auth s h then Done (s, None)
      else ProcessServerMessage (ssf_SrcId m) m h now s)"

fun handle_arrivals :: "arrival list \<Rightarrow> ser \<Rightarrow> ser go" where
  "handle_arrivals [] s = Done s"
| "handle_arrivals (a # as) s =
     go_bind (client_HandleRead (ar_handler a) (ar_msg a) (ar_time a) s) (\<lambda>(t, d). handle_arrivals as t)"

text \<open>The \<open>select\<close> on the reply channel and the timer.\<close>

fun wait_reply :: "nat \<Rightarrow> string \<Rightarrow> arrival list \<Rightarrow> ser \<Rightarrow> (ser \<times> reply option) go" where
  "wait_reply ca key [] s = Done (s, None)"
| "wait_reply ca key (a # as) s =
     go_bind (client_HandleRead (ar_handler a) (ar_msg a) (ar_time a) s) (\<lambda>(t, d).
       case d of
         Some (ca', k, r) \<Rightarrow> if ca' = ca \<and> k = key then Done (t, Some r) else wait_reply ca key as t
       | None \<Rightarrow> wait_reply ca key as t)"

definition register_key :: "nat \<Rightarrow> string \<Rightarrow> ser \<Rightarrow> ser" where
  "register_key ca key = upd_client_ctx ca (\<lambda>c. c\<lparr>cl_msgResult := List.insert key (cl_msgResult c)\<rparr>)"

definition unregister_key :: "nat \<Rightarrow> string \<Rightarrow> ser \<Rightarrow> ser" where
  "unregister_key ca key = upd_client_ctx ca (\<lambda>c. c\<lparr>cl_msgResult := removeAll key (cl_msgResult c)\<rparr>)"

text \<open>The part every request shares: what arrives early, the registration, the wait, the deferred
  deletion of the channel. \<open>pre\<close> runs between the registration and the wait.\<close>

definition await :: "client_io \<Rightarrow> nat \<Rightarrow> string \<Rightarrow> (ser \<Rightarrow> ser) \<Rightarrow> ser \<Rightarrow> (ser \<times> reply option) go" where
  "await io ca key pre s =
     go_bind (handle_arrivals (io_early io) s) (\<lambda>s1.
     go_map (\<lambda>(t, r). (unregister_key ca key t, r)) (wait_reply ca key (io_wait io) (pre (register_key ca key s1))))"

section \<open>Client context: requests\<close>

definition client_WaitAuth :: "client_io \<Rightarrow> nat \<Rightarrow> ser \<Rightarrow> (ser \<times> op_result) go" where
  "client_WaitAuth io ca s = go_map (\<lambda>(t, r). (t, case r of
        None \<Rightarrow> timed_out
      | Some (ReAuth True) \<Rightarrow> op_res True TipAuthOk
      | Some _ \<Rightarrow> op_res False TipAuthBad)) (await io ca ResultAuthAck (\<lambda>t. t) s)"

definition port_conflict :: "nat \<Rightarrow> string \<Rightarrow> string \<Rightarrow> ser \<Rightarrow> bool" where
  "port_conflict ca remote local s \<longleftrightarrow>
     (\<exists>(key, pa) \<in> set (cl_portCtx (sp_clients s ca)). key = remote \<or> sc_Name (pc_Config (sp_ports s pa)) = local)"

definition open_request :: "u64 \<Rightarrow> string \<Rightarrow> Config option \<Rightarrow> SMsgClientFrame" where
  "open_request src remote cfg = (client_msg SMsg_OpenPort src)\<lparr>scf_MsgOpenCom := Some
     \<lparr>so_Name = remote, so_Config = map_option (to_msg_config remote) cfg\<rparr>\<rparr>"

text \<open>The local configuration of an opened port: the caller's, or the remote one, with the names set.\<close>

definition local_config :: "string \<Rightarrow> string \<Rightarrow> string \<Rightarrow> Config option \<Rightarrow> SMsgConfig \<Rightarrow> Config" where
  "local_config remote local user cfg rc =
     (case cfg of Some c \<Rightarrow> c | None \<Rightarrow> of_msg_config [] rc)
       \<lparr>sc_RemoteName := remote, sc_Name := local, sc_UserPortName := user\<rparr>"

text \<open>What \<open>OpenPort\<close> does with the answer, or without one.\<close>

definition opened_port ::
  "serial_env \<Rightarrow> nat \<Rightarrow> string \<Rightarrow> string \<Rightarrow> string \<Rightarrow> Config option \<Rightarrow> ser \<Rightarrow> reply option \<Rightarrow> ser \<times> op_result" where
  "opened_port env ca remote local user cfg t r = (case r of
      None \<Rightarrow> (t, timed_out)
    | Some (ReOpen True None) \<Rightarrow> (t, op_res False TipNoParams)
    | Some (ReOpen True (Some rc)) \<Rightarrow>
        (let conf = local_config remote local user cfg rc in
         case OpenPort (se_os env) conf of
           Inl _ \<Rightarrow> (t, op_res False TipLocalFailed)
         | Inr _ \<Rightarrow> let (pa, t1) = new_port_ctx conf t
                    in (upd_client_ctx ca (\<lambda>c. c\<lparr>cl_portCtx := sm_store remote pa (cl_portCtx c)\<rparr>) t1, op_res True TipOk))
    | Some _ \<Rightarrow> (t, op_res False TipRefused))"

definition client_OpenPort ::
  "serial_env \<Rightarrow> client_io \<Rightarrow> nat \<Rightarrow> string \<Rightarrow> string \<Rightarrow> string \<Rightarrow> Config option \<Rightarrow> ser \<Rightarrow> (ser \<times> op_result) go" where
  "client_OpenPort env io ca remote local user cfg s =
     (if port_conflict ca remote local s then Done (s, op_res False TipBusy)
      else case client_write2Net ca (open_request (sp_localId s) remote cfg) s of
        (s1, Some _) \<Rightarrow> Done (s1, op_res False TipSendFailed)
      | (s1, None) \<Rightarrow>
          go_map (\<lambda>(t, r). opened_port env ca remote local user cfg t r)
            (await io ca (remote @ ResultOpenPort) (\<lambda>t. t) s1))"

definition client_drop_port :: "nat \<Rightarrow> string \<Rightarrow> ser \<Rightarrow> ser" where
  "client_drop_port ca name s =
     (let s1 = (case sm_load (cl_portCtx (sp_clients s ca)) name of None \<Rightarrow> s | Some pa \<Rightarrow> stop_port pa s)
      in upd_client_ctx ca (\<lambda>c. c\<lparr>cl_portCtx := sm_delete name (cl_portCtx c)\<rparr>) s1)"

definition client_ClosePort :: "client_io \<Rightarrow> nat \<Rightarrow> string \<Rightarrow> ser \<Rightarrow> (ser \<times> op_result) go" where
  "client_ClosePort io ca name s =
     (case client_write2Net ca ((client_msg SMsg_ClosePort (sp_localId s))\<lparr>scf_MsgCloseCom := Some name\<rparr>) s of
        (s1, Some _) \<Rightarrow> Done (s1, op_res False TipSendFailed)
      | (s1, None) \<Rightarrow>
          go_map (\<lambda>(t, r). (t, case r of
              None \<Rightarrow> timed_out
            | Some (ReClose True) \<Rightarrow> op_res True TipOk
            | Some _ \<Rightarrow> op_res False TipRefused))
          (await io ca (name @ ResultClosePort) (client_drop_port ca name) s1))"

definition client_GetPortConfig :: "client_io \<Rightarrow> nat \<Rightarrow> string \<Rightarrow> ser \<Rightarrow> (ser \<times> op_result) go" where
  "client_GetPortConfig io ca name s =
     (case client_write2Net ca ((client_msg SMsg_GetConfig (sp_localId s))\<lparr>scf_MsgGetConfig := Some name\<rparr>) s of
        (s1, Some _) \<Rightarrow> Done (s1, op_res False TipSendFailed)
      | (s1, None) \<Rightarrow>
          go_map (\<lambda>(t, r). (t, case r of
              None \<Rightarrow> timed_out
            | Some (ReConfig True (Some c)) \<Rightarrow> (op_res True TipOk)\<lparr>or_config := Some c\<rparr>
            | Some _ \<Rightarrow> op_res False TipRefused))
          (await io ca (name @ ResultGetPortConfig) (\<lambda>t. t) s1))"

definition client_SetPortConfig :: "client_io \<Rightarrow> nat \<Rightarrow> string \<Rightarrow> Config option \<Rightarrow> ser \<Rightarrow> (ser \<times> op_result) go" where
  "client_SetPortConfig io ca remote cfg s =
     (if sm_load (cl_portCtx (sp_clients s ca)) remote \<noteq> None then Done (s, op_res False TipBusy)
      else case client_write2Net ca (open_request (sp_localId s) remote cfg) s of
        (s1, Some _) \<Rightarrow> Done (s1, op_res False TipSendFailed)
      | (s1, None) \<Rightarrow>
          go_map (\<lambda>(t, r). (t, case r of
              None \<Rightarrow> timed_out
            | Some (ReOpen True None) \<Rightarrow> op_res False TipNoParams
            | Some (ReOpen True (Some _)) \<Rightarrow> op_res True TipOk
            | Some _ \<Rightarrow> op_res False TipRefused))
          (await io ca (remote @ ResultOpenPort) (\<lambda>t. t) s1))"

definition client_GetPortList :: "client_io \<Rightarrow> nat \<Rightarrow> ser \<Rightarrow> (ser \<times> op_result) go" where
  "client_GetPortList io ca s =
     (case client_write2Net ca (client_msg SMsg_GetPortList (sp_localId s)) s of
        (s1, Some _) \<Rightarrow> Done (s1, op_res False TipSendFailed)
      | (s1, None) \<Rightarrow>
          go_map (\<lambda>(t, r). (t, case r of
              None \<Rightarrow> timed_out
            | Some (ReList True l) \<Rightarrow> (op_res True TipOk)\<lparr>or_list := l\<rparr>
            | Some _ \<Rightarrow> op_res False TipRefused))
          (await io ca ResultGetPortList (\<lambda>t. t) s1))"

definition client_GetConnectedPorts :: "nat \<Rightarrow> ser \<Rightarrow> (ser \<times> op_result) go" where
  "client_GetConnectedPorts ca s = Done (s, (op_res True TipNone)\<lparr>or_ports :=
     map (\<lambda>(key, pa). pc_Config (sp_ports s pa)) (cl_portCtx (sp_clients s ca))\<rparr>)"

fun client_readSerial :: "nat \<Rightarrow> string \<Rightarrow> nat \<Rightarrow> u32 \<Rightarrow> bytes option list \<Rightarrow> ser \<Rightarrow> ser" where
  "client_readSerial ca name pa sn [] s = s"
| "client_readSerial ca name pa sn (r # rs) s =
     (if \<not> pc_Running (sp_ports s pa) then s
      else case r of
        None \<Rightarrow> client_readSerial ca name pa sn rs s
      | Some d \<Rightarrow> client_readSerial ca name pa (sn + 1) rs (fst (client_write2Net ca
          ((client_msg SMsg_Data (sp_localId s))\<lparr>scf_MsgData := Some \<lparr>sd_Sn = sn + 1,
             sd_Name = name, sd_NeedAck = False, sd_Data = d\<rparr>\<rparr>) s)))"

section \<open>Service: life cycle\<close>

definition NewPortService :: "u64 \<Rightarrow> config_file \<Rightarrow> ser" where
  "NewPortService hwMac file = \<lparr>sp_isRunning = False, sp_bootstrap = False, sp_serverCtx = None, sp_clientCtx = None,
     sp_localId = hwMac,
     sp_servers = (\<lambda>_. \<lparr>sv_handler = None, sv_portCtx = [], sv_LastReceive = 0\<rparr>),
     sp_clients = (\<lambda>_. \<lparr>cl_url = [], cl_channel = None, cl_handler = None, cl_portList = [], cl_portCtx = [],
                       cl_LastReceive = 0, cl_msgResult = []\<rparr>),
     sp_ports = (\<lambda>_. \<lparr>pc_Running = False, pc_Port = 0, pc_Config = default_port_config []\<rparr>),
     sp_auth = (\<lambda>_. False), sp_open = [], sp_configs = file, sp_fresh = 0, sp_trace = []\<rparr>"

definition service_Stop :: "ser \<Rightarrow> ser go" where
  "service_Stop s = need (sp_serverCtx s) (\<lambda>sm.
     let s1 = fold (\<lambda>(k, sa) t. server_Stop sa t) sm s;
         s2 = s1\<lparr>sp_serverCtx := ClearMap (sp_serverCtx s1)\<rparr>
     in need (sp_clientCtx s2) (\<lambda>cm.
     let s3 = fold (\<lambda>(k, ca) t. client_Stop ca t) cm s2;
         s4 = s3\<lparr>sp_clientCtx := ClearMap (sp_clientCtx s3)\<rparr>
     in if sp_bootstrap s4 then Done (ser_emit StopListening (s4\<lparr>sp_bootstrap := False\<rparr>)) else Panicked NilDeref))"

text \<open>\<open>Start\<close>: \<open>listens\<close> says that the TCP port could be bound; when it could not, \<open>Listen\<close> panics and the
  deferred \<open>recover\<close> makes \<open>Start\<close> return without an error, with the bootstrap set and no maps. The
  call of \<open>Stop\<close> comes before the deferred function is installed.\<close>

definition service_Start :: "bool \<Rightarrow> ser \<Rightarrow> ser go" where
  "service_Start listens s = go_map (\<lambda>s1.
     let s2 = s1\<lparr>sp_bootstrap := True\<rparr>
     in if listens then s2\<lparr>sp_serverCtx := Some sm_empty, sp_clientCtx := Some sm_empty, sp_isRunning := True\<rparr> else s2)
     (if sp_bootstrap s then service_Stop s else Done s)"

text \<open>One round of \<open>stateCheck\<close>.\<close>

definition silent_for :: "int \<Rightarrow> int \<Rightarrow> bool" where
  "silent_for now last_receive \<longleftrightarrow> now - last_receive > 65"

definition check_server_ctx :: "int \<Rightarrow> u64 \<times> nat \<Rightarrow> ser \<times> u64 list \<Rightarrow> ser \<times> u64 list" where
  "check_server_ctx now = (\<lambda>(k, sa) (t, ks).
     if silent_for now (sv_LastReceive (sp_servers t sa)) then (server_Stop sa t, ks @ [k]) else (t, ks))"

definition check_client_ctx :: "int \<Rightarrow> u64 \<times> nat \<Rightarrow> ser \<times> u64 list \<Rightarrow> ser \<times> u64 list" where
  "check_client_ctx now = (\<lambda>(k, ca) (t, ks).
     if silent_for now (cl_LastReceive (sp_clients t ca)) then (client_Stop ca t, ks @ [k]) else (t, ks))"

definition service_tick :: "int \<Rightarrow> ser \<Rightarrow> ser go" where
  "service_tick now s = need (sp_serverCtx s) (\<lambda>sm.
     let (s1, dead) = fold (check_server_ctx now) sm (s, []);
         s2 = s1\<lparr>sp_serverCtx := map_option (fold sm_delete dead) (sp_serverCtx s1)\<rparr>
     in need (sp_clientCtx s2) (\<lambda>cm.
     let (s3, gone) = fold (check_client_ctx now) cm (s2, [])
     in Done (s3\<lparr>sp_clientCtx := map_option (fold sm_delete gone) (sp_clientCtx s3)\<rparr>)))"

section \<open>Service: clients that connect to this peer\<close>

definition SetServerHandle :: "u64 \<Rightarrow> nat \<Rightarrow> int \<Rightarrow> ser \<Rightarrow> ser" where
  "SetServerHandle cid h now s =
     (let (sa, s1) = NewServerContext h now s
      in s1\<lparr>sp_serverCtx := map_option (sm_store cid sa) (sp_serverCtx s1)\<rparr>)"

definition RemoveServerHandler :: "u64 \<Rightarrow> ser \<Rightarrow> ser" where
  "RemoveServerHandler cid s =
     (case sp_serverCtx s of None \<Rightarrow> s | Some m \<Rightarrow>
       (case sm_load m cid of None \<Rightarrow> s
        | Some sa \<Rightarrow> let s1 = server_Stop sa s in s1\<lparr>sp_serverCtx := map_option (sm_delete cid) (sp_serverCtx s1)\<rparr>))"

definition ProcessClientMessage ::
  "serial_env \<Rightarrow> app \<Rightarrow> u64 \<Rightarrow> SMsgClientFrame \<Rightarrow> nat \<Rightarrow> int \<Rightarrow> ser \<Rightarrow> ser go" where
  "ProcessClientMessage env a dstId m h now s = (case scf_MsgType m of
     SMsg_Auth \<Rightarrow>
       (if scf_MsgAuth m = None \<or> FindPeer dstId a = None then Done s
        else let s1 = ser_emit (WriteServer h ((server_msg SMsg_AuthAck (sp_localId s))\<lparr>ssf_MsgAuthAck := Some False\<rparr>)) s
             in need (sp_serverCtx s1) (\<lambda>_. Done (SetServerHandle dstId h now s1)))
   | SMsg_UnAuth \<Rightarrow> need (sp_serverCtx s) (\<lambda>_. Done (RemoveServerHandler dstId s))
   | SMsg_Ping \<Rightarrow> need (sp_serverCtx s) (\<lambda>mp.
       Done (ser_emit (WriteServer h (server_msg SMsg_Pong (sp_localId s)))
         (case sm_load mp dstId of None \<Rightarrow> s | Some sa \<Rightarrow> upd_server_ctx sa (\<lambda>c. c\<lparr>sv_LastReceive := now\<rparr>) s)))
   | _ \<Rightarrow> need (sp_serverCtx s) (\<lambda>mp. case sm_load mp dstId of None \<Rightarrow> Done s
       | Some sa \<Rightarrow> Done (fst (server_processMsg env sa m (upd_server_ctx sa (\<lambda>c. c\<lparr>sv_LastReceive := now\<rparr>) s)))))"

text \<open>\<open>ServerHandler.HandleRead\<close> and \<open>processMsg\<close>.\<close>

definition server_HandleRead ::
  "serial_env \<Rightarrow> app \<Rightarrow> nat \<Rightarrow> SMsgClientFrame \<Rightarrow> int \<Rightarrow> ser \<Rightarrow> ser go" where
  "server_HandleRead env a h m now s =
     (if scf_MsgType m = SMsg_Auth
      then ProcessClientMessage env a (scf_SrcId m) m h now (s\<lparr>sp_auth := (sp_auth s)(h := True)\<rparr>)
      else if \<not> sp_auth s h then Done s
      else ProcessClientMessage env a (scf_SrcId m) m h now s)"

section \<open>Service: connections to other peers\<close>

definition remote_url :: "PeerInfo \<Rightarrow> string" where
  "remote_url pr = ''//'' @ Uint32toIpV4 (pi_NetAddr pr) @ '':48532''"

definition store_client :: "u64 \<Rightarrow> nat \<Rightarrow> ser \<Rightarrow> ser" where
  "store_client dstId ca s = s\<lparr>sp_clientCtx := map_option (sm_store dstId ca) (sp_clientCtx s)\<rparr>"

definition delete_client :: "u64 \<Rightarrow> ser \<Rightarrow> ser" where
  "delete_client dstId s = s\<lparr>sp_clientCtx := map_option (sm_delete dstId) (sp_clientCtx s)\<rparr>"

definition stop_old_client :: "u64 \<Rightarrow> ser \<Rightarrow> ser" where
  "stop_old_client dstId s =
     (case sp_clientCtx s of None \<Rightarrow> s | Some m \<Rightarrow>
       (case sm_load m dstId of None \<Rightarrow> s | Some ca \<Rightarrow> delete_client dstId (client_Stop ca s)))"

definition ConnectRemote :: "serial_env \<Rightarrow> app \<Rightarrow> client_io \<Rightarrow> u64 \<Rightarrow> int \<Rightarrow> ser \<Rightarrow> (ser \<times> op_result) go" where
  "ConnectRemote env a io dstId now s =
     (case FindPeer dstId a of None \<Rightarrow> Done (s, op_res False TipNoPeer) | Some pr \<Rightarrow>
       (let (ca, s1) = NewClientContext (remote_url pr) s; (s2, ok) = client_Start env ca now s1
        in if \<not> ok then Done (s2, op_res False TipConnectFailed)
           else need (sp_clientCtx s2) (\<lambda>_.
             go_map (\<lambda>(t, r). (if or_result r then t else delete_client dstId t, r))
               (client_WaitAuth io ca (store_client dstId ca (stop_old_client dstId s2))))))"

definition deleteContext :: "u64 \<Rightarrow> ser \<Rightarrow> ser go" where
  "deleteContext mac s = need (sp_clientCtx s) (\<lambda>cm.
     let close = (\<lambda>h t. case h of None \<Rightarrow> t | Some x \<Rightarrow> ser_emit (CloseHandler x) t);
         s1 = (case sm_load cm mac of None \<Rightarrow> s
               | Some ca \<Rightarrow> delete_client mac (client_Stop ca (close (cl_handler (sp_clients s ca)) s)))
     in need (sp_serverCtx s1) (\<lambda>sm. Done (case sm_load sm mac of None \<Rightarrow> s1
          | Some sa \<Rightarrow> let s2 = server_Stop sa (close (sv_handler (sp_servers s1 sa)) s1)
                       in s2\<lparr>sp_serverCtx := map_option (sm_delete mac) (sp_serverCtx s2)\<rparr>)))"

definition DisConnectRemote :: "u64 \<Rightarrow> ser \<Rightarrow> (ser \<times> op_result) go" where
  "DisConnectRemote dstId s = need (sp_clientCtx s) (\<lambda>m. Done (stop_old_client dstId s, op_res True TipOk))"

text \<open>The shape shared by the requests of the service: try the existing connection; after a timeout drop
  it, connect again and try once more. \<open>op\<close> is the request of the client context, \<open>ios\<close> what each of the
  three waits sees.\<close>

definition with_client ::
  "(client_io \<Rightarrow> nat \<Rightarrow> ser \<Rightarrow> (ser \<times> op_result) go) \<Rightarrow> serial_env \<Rightarrow> app \<Rightarrow> (nat \<Rightarrow> client_io) \<Rightarrow> u64 \<Rightarrow> int \<Rightarrow> ser \<Rightarrow>
   (ser \<times> op_result) go" where
  "with_client op env a ios dstId now s = need (sp_clientCtx s) (\<lambda>m.
     let reconnect = (\<lambda>t. go_bind (ConnectRemote env a (ios 1) dstId now t) (\<lambda>(t1, r).
           if \<not> or_result r then Done (t1, op_res False TipConnectFailed)
           else need (sp_clientCtx t1) (\<lambda>m1. case sm_load m1 dstId of
               Some ca \<Rightarrow> op (ios 2) ca t1
             | None \<Rightarrow> Done (t1, op_res False TipConnectFailed))))
     in case sm_load m dstId of
          Some ca \<Rightarrow> go_bind (op (ios 0) ca s) (\<lambda>(t, r).
            if \<not> or_timeout r then Done (t, r) else go_bind (deleteContext dstId t) reconnect)
        | None \<Rightarrow> reconnect s)"

definition service_OpenPort ::
  "serial_env \<Rightarrow> app \<Rightarrow> (nat \<Rightarrow> client_io) \<Rightarrow> u64 \<Rightarrow> string \<Rightarrow> string \<Rightarrow> string \<Rightarrow> Config option \<Rightarrow> int \<Rightarrow> ser \<Rightarrow>
   (ser \<times> op_result) go" where
  "service_OpenPort env a ios dstId remote local user cfg now s =
     with_client (\<lambda>io ca. client_OpenPort env io ca remote local user
       (map_option (\<lambda>c. c\<lparr>sc_ReadTimeout := 0\<rparr>) cfg)) env a ios dstId now s"

definition service_GetPortConfig ::
  "serial_env \<Rightarrow> app \<Rightarrow> (nat \<Rightarrow> client_io) \<Rightarrow> u64 \<Rightarrow> string \<Rightarrow> int \<Rightarrow> ser \<Rightarrow> (ser \<times> op_result) go" where
  "service_GetPortConfig env a ios dstId name = with_client (\<lambda>io ca. client_GetPortConfig io ca name) env a ios dstId"

definition service_SetPortConfig ::
  "serial_env \<Rightarrow> app \<Rightarrow> (nat \<Rightarrow> client_io) \<Rightarrow> u64 \<Rightarrow> string \<Rightarrow> Config option \<Rightarrow> int \<Rightarrow> ser \<Rightarrow> (ser \<times> op_result) go" where
  "service_SetPortConfig env a ios dstId remote cfg =
     with_client (\<lambda>io ca. client_SetPortConfig io ca remote cfg) env a ios dstId"

definition service_GetConnectedPorts ::
  "serial_env \<Rightarrow> app \<Rightarrow> (nat \<Rightarrow> client_io) \<Rightarrow> u64 \<Rightarrow> int \<Rightarrow> ser \<Rightarrow> (ser \<times> op_result) go" where
  "service_GetConnectedPorts env a ios dstId = with_client (\<lambda>io ca. client_GetConnectedPorts ca) env a ios dstId"

definition GetRemotePortList ::
  "serial_env \<Rightarrow> app \<Rightarrow> (nat \<Rightarrow> client_io) \<Rightarrow> u64 \<Rightarrow> int \<Rightarrow> ser \<Rightarrow> (ser \<times> op_result) go" where
  "GetRemotePortList env a ios dstId = with_client (\<lambda>io ca. client_GetPortList io ca) env a ios dstId"

definition service_ClosePort :: "client_io \<Rightarrow> u64 \<Rightarrow> string \<Rightarrow> ser \<Rightarrow> (ser \<times> op_result) go" where
  "service_ClosePort io dstId name s = need (sp_clientCtx s) (\<lambda>m. case sm_load m dstId of
       None \<Rightarrow> Done (s, op_res False TipNotConnected)
     | Some ca \<Rightarrow> go_bind (client_ClosePort io ca name s) (\<lambda>(t, r).
         if MapLength (Some (cl_portCtx (sp_clients t ca))) \<le> 0
         then go_map (\<lambda>(t1, _). (t1, r)) (DisConnectRemote dstId t) else Done (t, r)))"

text \<open>\<open>ReConnectRemote\<close>: the ports to reopen are collected from the old connection's table after its \<open>Stop\<close>.\<close>

fun reopen_ports ::
  "serial_env \<Rightarrow> app \<Rightarrow> (nat \<Rightarrow> client_io) \<Rightarrow> u64 \<Rightarrow> int \<Rightarrow> (string \<times> nat) list \<Rightarrow> ser \<Rightarrow> ser go" where
  "reopen_ports env a ios dstId now [] s = Done s"
| "reopen_ports env a ios dstId now ((key, pa) # ps) s =
     (let conf = pc_Config (sp_ports s pa) in
      go_bind (service_OpenPort env a ios dstId (sc_RemoteName conf) (sc_Name conf) (sc_UserPortName conf) (Some conf) now s)
        (\<lambda>(t, _). reopen_ports env a ios dstId now ps t))"

definition ReConnectRemote ::
  "serial_env \<Rightarrow> app \<Rightarrow> client_io \<Rightarrow> (nat \<Rightarrow> client_io) \<Rightarrow> u64 \<Rightarrow> int \<Rightarrow> ser \<Rightarrow> (ser \<times> op_result) go" where
  "ReConnectRemote env a io ios dstId now s =
     (case FindPeer dstId a of None \<Rightarrow> Done (s, op_res False TipNoPeer) | Some pr \<Rightarrow>
       (let (ca, s1) = NewClientContext (remote_url pr) s; (s2, ok) = client_Start env ca now s1
        in if \<not> ok then Done (s2, op_res False TipConnectFailed)
           else need (sp_clientCtx s2) (\<lambda>m.
             let s3 = stop_old_client dstId s2;
                 ports = (case sm_load m dstId of None \<Rightarrow> [] | Some old \<Rightarrow> cl_portCtx (sp_clients s3 old))
             in go_bind (client_WaitAuth io ca (store_client dstId ca s3)) (\<lambda>(t, r).
                  if \<not> or_result r then Done (delete_client dstId t, r)
                  else go_map (\<lambda>t1. (t1, r)) (reopen_ports env a ios dstId now ports t)))))"

end
