(* ===== verification/Serial_Properties.thy ===== *)
theory Serial_Properties
  imports Serial_Service
begin

text \<open>
  What the port service guarantees: the frame rules of its primitive updates, the life of a remote port
  from the open request to the last byte, the invariant of the port tables, the clean-up of silent
  connections, and the cases in which a request is lost, a port leaks or a check is passed over.
\<close>

section \<open>Frame rules\<close>

lemma ser_emit_simps [simp]:
  "sp_isRunning (ser_emit e s) = sp_isRunning s" "sp_bootstrap (ser_emit e s) = sp_bootstrap s"
  "sp_serverCtx (ser_emit e s) = sp_serverCtx s" "sp_clientCtx (ser_emit e s) = sp_clientCtx s"
  "sp_localId (ser_emit e s) = sp_localId s" "sp_servers (ser_emit e s) = sp_servers s"
  "sp_clients (ser_emit e s) = sp_clients s" "sp_ports (ser_emit e s) = sp_ports s"
  "sp_auth (ser_emit e s) = sp_auth s" "sp_open (ser_emit e s) = sp_open s"
  "sp_configs (ser_emit e s) = sp_configs s" "sp_fresh (ser_emit e s) = sp_fresh s"
  "sp_trace (ser_emit e s) = sp_trace s @ [e]"
  by (simp_all add: ser_emit_def)

lemma upd_server_ctx_simps [simp]:
  "sp_isRunning (upd_server_ctx sa f s) = sp_isRunning s" "sp_bootstrap (upd_server_ctx sa f s) = sp_bootstrap s"
  "sp_serverCtx (upd_server_ctx sa f s) = sp_serverCtx s" "sp_clientCtx (upd_server_ctx sa f s) = sp_clientCtx s"
  "sp_localId (upd_server_ctx sa f s) = sp_localId s"
  "sp_servers (upd_server_ctx sa f s) = (sp_servers s)(sa := f (sp_servers s sa))"
  "sp_clients (upd_server_ctx sa f s) = sp_clients s" "sp_ports (upd_server_ctx sa f s) = sp_ports s"
  "sp_auth (upd_server_ctx sa f s) = sp_auth s" "sp_open (upd_server_ctx sa f s) = sp_open s"
  "sp_configs (upd_server_ctx sa f s) = sp_configs s" "sp_fresh (upd_server_ctx sa f s) = sp_fresh s"
  "sp_trace (upd_server_ctx sa f s) = sp_trace s"
  by (simp_all add: upd_server_ctx_def)

lemma upd_client_ctx_simps [simp]:
  "sp_isRunning (upd_client_ctx ca f s) = sp_isRunning s" "sp_bootstrap (upd_client_ctx ca f s) = sp_bootstrap s"
  "sp_serverCtx (upd_client_ctx ca f s) = sp_serverCtx s" "sp_clientCtx (upd_client_ctx ca f s) = sp_clientCtx s"
  "sp_localId (upd_client_ctx ca f s) = sp_localId s"
  "sp_clients (upd_client_ctx ca f s) = (sp_clients s)(ca := f (sp_clients s ca))"
  "sp_servers (upd_client_ctx ca f s) = sp_servers s" "sp_ports (upd_client_ctx ca f s) = sp_ports s"
  "sp_auth (upd_client_ctx ca f s) = sp_auth s" "sp_open (upd_client_ctx ca f s) = sp_open s"
  "sp_configs (upd_client_ctx ca f s) = sp_configs s" "sp_fresh (upd_client_ctx ca f s) = sp_fresh s"
  "sp_trace (upd_client_ctx ca f s) = sp_trace s"
  by (simp_all add: upd_client_ctx_def)

lemma stop_port_simps [simp]:
  "sp_isRunning (stop_port pa s) = sp_isRunning s" "sp_bootstrap (stop_port pa s) = sp_bootstrap s"
  "sp_serverCtx (stop_port pa s) = sp_serverCtx s" "sp_clientCtx (stop_port pa s) = sp_clientCtx s"
  "sp_localId (stop_port pa s) = sp_localId s" "sp_clients (stop_port pa s) = sp_clients s"
  "sp_servers (stop_port pa s) = sp_servers s"
  "sp_ports (stop_port pa s) = (sp_ports s)(pa := (sp_ports s pa)\<lparr>pc_Running := False\<rparr>)"
  "sp_auth (stop_port pa s) = sp_auth s"
  "sp_open (stop_port pa s) = removeAll (pc_Port (sp_ports s pa)) (sp_open s)"
  "sp_configs (stop_port pa s) = sp_configs s" "sp_fresh (stop_port pa s) = sp_fresh s"
  "sp_trace (stop_port pa s) = sp_trace s"
  by (simp_all add: stop_port_def close_port_def upd_port_def)

lemma close_port_simps [simp]:
  "sp_serverCtx (close_port pa s) = sp_serverCtx s" "sp_clientCtx (close_port pa s) = sp_clientCtx s"
  "sp_localId (close_port pa s) = sp_localId s" "sp_clients (close_port pa s) = sp_clients s"
  "sp_servers (close_port pa s) = sp_servers s" "sp_ports (close_port pa s) = sp_ports s"
  "sp_open (close_port pa s) = removeAll (pc_Port (sp_ports s pa)) (sp_open s)"
  "sp_configs (close_port pa s) = sp_configs s" "sp_fresh (close_port pa s) = sp_fresh s"
  "sp_trace (close_port pa s) = sp_trace s" "sp_auth (close_port pa s) = sp_auth s"
  by (simp_all add: close_port_def)

lemma need_Some [simp]: "need (Some x) f = f x"
  by (simp add: need_def)

lemma need_Done_iff: "need m f = Done y \<longleftrightarrow> (\<exists>x. m = Some x \<and> f x = Done y)"
  by (cases m) (simp_all add: need_def)

lemma delete_all_keys: "fold sm_delete (sm_keys m) m = []"
proof -
  have "ClearMap (Some m) = Some (fold sm_delete (sm_keys m) m)" by (simp add: ClearMap_def del: ClearMap_Some)
  then show ?thesis by simp
qed

text \<open>Writing to the network changes the trace only.\<close>

lemma server_write2Net_eq:
  "fst (server_write2Net sa m s) =
     (case sv_handler (sp_servers s sa) of None \<Rightarrow> s | Some h \<Rightarrow> ser_emit (WriteServer h m) s)"
  by (simp add: server_write2Net_def split: option.split)

lemma client_write2Net_eq:
  "fst (client_write2Net ca m s) =
     (case cl_handler (sp_clients s ca) of None \<Rightarrow> s | Some h \<Rightarrow> ser_emit (WriteClient h m) s)"
  by (simp add: client_write2Net_def split: option.split)

lemma server_write2Net_simps [simp]:
  "sp_serverCtx (fst (server_write2Net sa m s)) = sp_serverCtx s"
  "sp_clientCtx (fst (server_write2Net sa m s)) = sp_clientCtx s"
  "sp_localId (fst (server_write2Net sa m s)) = sp_localId s"
  "sp_servers (fst (server_write2Net sa m s)) = sp_servers s"
  "sp_clients (fst (server_write2Net sa m s)) = sp_clients s"
  "sp_ports (fst (server_write2Net sa m s)) = sp_ports s" "sp_open (fst (server_write2Net sa m s)) = sp_open s"
  "sp_auth (fst (server_write2Net sa m s)) = sp_auth s" "sp_configs (fst (server_write2Net sa m s)) = sp_configs s"
  "sp_fresh (fst (server_write2Net sa m s)) = sp_fresh s"
  by (simp_all add: server_write2Net_eq split: option.split)

lemma client_write2Net_simps [simp]:
  "sp_serverCtx (fst (client_write2Net ca m s)) = sp_serverCtx s"
  "sp_clientCtx (fst (client_write2Net ca m s)) = sp_clientCtx s"
  "sp_localId (fst (client_write2Net ca m s)) = sp_localId s"
  "sp_servers (fst (client_write2Net ca m s)) = sp_servers s"
  "sp_clients (fst (client_write2Net ca m s)) = sp_clients s"
  "sp_ports (fst (client_write2Net ca m s)) = sp_ports s" "sp_open (fst (client_write2Net ca m s)) = sp_open s"
  "sp_auth (fst (client_write2Net ca m s)) = sp_auth s" "sp_configs (fst (client_write2Net ca m s)) = sp_configs s"
  "sp_fresh (fst (client_write2Net ca m s)) = sp_fresh s"
  by (simp_all add: client_write2Net_eq split: option.split)

section \<open>Stopping a context\<close>

text \<open>Stopping the ports of a table, with or without a message for each.\<close>

definition ports_stopped :: "(string, nat) smap \<Rightarrow> ser \<Rightarrow> ser \<Rightarrow> bool" where
  "ports_stopped m s t \<longleftrightarrow>
     sp_serverCtx t = sp_serverCtx s \<and> sp_clientCtx t = sp_clientCtx s \<and> sp_localId t = sp_localId s \<and>
     sp_servers t = sp_servers s \<and> sp_clients t = sp_clients s \<and> sp_fresh t = sp_fresh s \<and> sp_auth t = sp_auth s \<and>
     sp_configs t = sp_configs s \<and>
     sp_ports t = (\<lambda>p. if p \<in> snd ` set m then (sp_ports s p)\<lparr>pc_Running := False\<rparr> else sp_ports s p) \<and>
     set (sp_open t) = set (sp_open s) - (\<lambda>(key, pa). pc_Port (sp_ports s pa)) ` set m"

lemma ports_stopped_Cons:
  assumes "ports_stopped m t u" "t = stop_port pa s \<or> (\<exists>e. t = ser_emit e (stop_port pa s))"
  shows "ports_stopped ((key, pa) # m) s u"
proof -
  have p: "pc_Port (sp_ports t q) = pc_Port (sp_ports s q)" for q using assms(2) by auto
  show ?thesis using assms p unfolding ports_stopped_def by (auto simp: fun_eq_iff)
qed

lemma stop_ports_frame:
  assumes "\<And>key pa t. g key pa t = stop_port pa t \<or> (\<exists>e. g key pa t = ser_emit e (stop_port pa t))"
  shows "ports_stopped m s (fold (\<lambda>(key, pa) t. g key pa t) m s)"
proof (induction m arbitrary: s)
  case Nil
  show ?case by (simp add: ports_stopped_def)
next
  case (Cons x m)
  obtain key pa where "x = (key, pa)" by force
  with Cons [of "g key pa s"] assms [of key pa s] show ?case by (auto intro: ports_stopped_Cons)
qed

lemma server_Stop_effect:
  fixes s sa
  defines "t \<equiv> server_Stop sa s" and "m \<equiv> sv_portCtx (sp_servers s sa)"
  shows "sp_serverCtx t = sp_serverCtx s" "sp_clientCtx t = sp_clientCtx s" "sp_localId t = sp_localId s"
    "sp_clients t = sp_clients s" "sp_fresh t = sp_fresh s" "sp_auth t = sp_auth s" "sp_configs t = sp_configs s"
    "sp_servers t = (sp_servers s)(sa := (sp_servers s sa)\<lparr>sv_portCtx := []\<rparr>)"
    "sp_ports t = (\<lambda>p. if p \<in> snd ` set m then (sp_ports s p)\<lparr>pc_Running := False\<rparr> else sp_ports s p)"
    "set (sp_open t) = set (sp_open s) - (\<lambda>(key, pa). pc_Port (sp_ports s pa)) ` set m"
proof -
  let ?g = "\<lambda>key pa t. fst (server_write2Net sa (state_closed key (sp_localId t)) (stop_port pa t))"
  have "ports_stopped m s (fold (\<lambda>(key, pa) t. ?g key pa t) m s)"
    by (rule stop_ports_frame) (auto simp: server_write2Net_eq split: option.split)
  note f = this [unfolded ports_stopped_def]
  then show "sp_serverCtx t = sp_serverCtx s" "sp_clientCtx t = sp_clientCtx s" "sp_localId t = sp_localId s"
    "sp_clients t = sp_clients s" "sp_fresh t = sp_fresh s" "sp_auth t = sp_auth s" "sp_configs t = sp_configs s"
    "sp_servers t = (sp_servers s)(sa := (sp_servers s sa)\<lparr>sv_portCtx := []\<rparr>)"
    "sp_ports t = (\<lambda>p. if p \<in> snd ` set m then (sp_ports s p)\<lparr>pc_Running := False\<rparr> else sp_ports s p)"
    "set (sp_open t) = set (sp_open s) - (\<lambda>(key, pa). pc_Port (sp_ports s pa)) ` set m"
    by (simp_all add: t_def m_def server_Stop_def Let_def delete_all_keys split: option.split)
qed

lemma client_Stop_effect:
  fixes s ca
  defines "t \<equiv> client_Stop ca s" and "m \<equiv> cl_portCtx (sp_clients s ca)"
  shows "sp_serverCtx t = sp_serverCtx s" "sp_clientCtx t = sp_clientCtx s" "sp_localId t = sp_localId s"
    "sp_servers t = sp_servers s" "sp_fresh t = sp_fresh s" "sp_auth t = sp_auth s" "sp_configs t = sp_configs s"
    "sp_clients t = (sp_clients s)(ca := (sp_clients s ca)\<lparr>cl_portCtx := [], cl_channel := None\<rparr>)"
    "sp_ports t = (\<lambda>p. if p \<in> snd ` set m then (sp_ports s p)\<lparr>pc_Running := False\<rparr> else sp_ports s p)"
    "set (sp_open t) = set (sp_open s) - (\<lambda>(key, pa). pc_Port (sp_ports s pa)) ` set m"
proof -
  let ?s = "fst (client_write2Net ca (client_msg SMsg_UnAuth (sp_localId s)) s)"
  have "ports_stopped m ?s (fold (\<lambda>(key, pa) t. stop_port pa t) m ?s)"
    by (rule stop_ports_frame) simp
  note f = this [unfolded ports_stopped_def]
  then show "sp_serverCtx t = sp_serverCtx s" "sp_clientCtx t = sp_clientCtx s" "sp_localId t = sp_localId s"
    "sp_servers t = sp_servers s" "sp_fresh t = sp_fresh s" "sp_auth t = sp_auth s" "sp_configs t = sp_configs s"
    "sp_clients t = (sp_clients s)(ca := (sp_clients s ca)\<lparr>cl_portCtx := [], cl_channel := None\<rparr>)"
    "sp_ports t = (\<lambda>p. if p \<in> snd ` set m then (sp_ports s p)\<lparr>pc_Running := False\<rparr> else sp_ports s p)"
    "set (sp_open t) = set (sp_open s) - (\<lambda>(key, pa). pc_Port (sp_ports s pa)) ` set m"
    by (simp_all add: t_def m_def client_Stop_def Let_def delete_all_keys fun_eq_iff split: option.split)
qed

section \<open>The invariant of the port tables\<close>

text \<open>All port tables, those of server contexts (\<open>Inl\<close>) and those of client contexts (\<open>Inr\<close>). A table has one
  entry for a name; a listed port belongs to exactly one entry of one table, its handle is open and its
  reader runs; and the open handles are exactly the listed ones: no operation loses a port.\<close>

definition tab :: "ser \<Rightarrow> nat + nat \<Rightarrow> (string, nat) smap" where
  "tab s o' = (case o' of Inl sa \<Rightarrow> sv_portCtx (sp_servers s sa) | Inr ca \<Rightarrow> cl_portCtx (sp_clients s ca))"

definition listed :: "ser \<Rightarrow> nat + nat \<Rightarrow> string \<Rightarrow> nat \<Rightarrow> bool" where
  "listed s w k pa \<longleftrightarrow> (k, pa) \<in> set (tab s w)"

definition lookS :: "ser \<Rightarrow> u64 \<Rightarrow> nat option" where
  "lookS s k = (case sp_serverCtx s of None \<Rightarrow> None | Some m \<Rightarrow> sm_load m k)"

definition lookC :: "ser \<Rightarrow> u64 \<Rightarrow> nat option" where
  "lookC s k = (case sp_clientCtx s of None \<Rightarrow> None | Some m \<Rightarrow> sm_load m k)"

definition ser_inv :: "ser \<Rightarrow> bool" where
  "ser_inv s \<longleftrightarrow>
     (\<forall>w. sm_ok (tab s w)) \<and>
     (\<forall>w k pa. listed s w k pa \<longrightarrow> pa < sp_fresh s \<and> pc_Port (sp_ports s pa) = pa \<and> pc_Running (sp_ports s pa)) \<and>
     (\<forall>w k w' k' pa. listed s w k pa \<longrightarrow> listed s w' k' pa \<longrightarrow> w' = w \<and> k' = k) \<and>
     set (sp_open s) = {pa. \<exists>w k. listed s w k pa} \<and>
     (\<forall>n \<ge> sp_fresh s. tab s (Inl n) = [] \<and> tab s (Inr n) = []) \<and>
     (\<forall>k a. lookS s k = Some a \<or> lookC s k = Some a \<longrightarrow> a < sp_fresh s)"

lemma ser_invD:
  assumes "ser_inv s"
  shows "sm_ok (tab s w)" "listed s w k pa \<Longrightarrow> pa < sp_fresh s" "listed s w k pa \<Longrightarrow> pc_Port (sp_ports s pa) = pa"
    "listed s w k pa \<Longrightarrow> pc_Running (sp_ports s pa)"
    "listed s w k pa \<Longrightarrow> listed s w' k' pa \<Longrightarrow> w' = w \<and> k' = k"
    "set (sp_open s) = {pa. \<exists>w k. listed s w k pa}"
    "sp_fresh s \<le> n \<Longrightarrow> tab s (Inl n) = []" "sp_fresh s \<le> n \<Longrightarrow> tab s (Inr n) = []"
    "lookS s c = Some a \<Longrightarrow> a < sp_fresh s" "lookC s c = Some a \<Longrightarrow> a < sp_fresh s"
  using assms unfolding ser_inv_def by blast+

lemma ser_invI:
  assumes "\<And>w. sm_ok (tab s w)"
    and "\<And>w k pa. listed s w k pa \<Longrightarrow> pa < sp_fresh s \<and> pc_Port (sp_ports s pa) = pa \<and> pc_Running (sp_ports s pa)"
    and "\<And>w k w' k' pa. listed s w k pa \<Longrightarrow> listed s w' k' pa \<Longrightarrow> w' = w \<and> k' = k"
    and "set (sp_open s) = {pa. \<exists>w k. listed s w k pa}"
    and "\<And>n. sp_fresh s \<le> n \<Longrightarrow> tab s (Inl n) = [] \<and> tab s (Inr n) = []"
    and "\<And>k a. lookS s k = Some a \<or> lookC s k = Some a \<Longrightarrow> a < sp_fresh s"
  shows "ser_inv s"
  using assms unfolding ser_inv_def by blast

definition started :: "ser \<Rightarrow> bool" where
  "started s \<longleftrightarrow> sp_serverCtx s \<noteq> None \<and> sp_clientCtx s \<noteq> None"

definition same_ports :: "ser \<Rightarrow> ser \<Rightarrow> bool" where
  "same_ports s t \<longleftrightarrow> tab t = tab s \<and> sp_ports t = sp_ports s \<and> set (sp_open t) = set (sp_open s) \<and>
     sp_fresh s \<le> sp_fresh t \<and> (started s \<longrightarrow> started t) \<and>
     (\<forall>k a. lookS t k = Some a \<longrightarrow> lookS s k = Some a \<or> a < sp_fresh t) \<and>
     (\<forall>k a. lookC t k = Some a \<longrightarrow> lookC s k = Some a \<or> a < sp_fresh t)"

lemma same_ports_refl [simp]: "same_ports s s"
  by (simp add: same_ports_def)

lemma same_ports_trans:
  assumes "same_ports s t" "same_ports t u"
  shows "same_ports s u"
proof -
  have f: "sp_fresh t \<le> sp_fresh u" using assms(2) by (simp add: same_ports_def)
  have "lookS s k = Some a \<or> a < sp_fresh u" if "lookS u k = Some a" for k a
    using assms that f unfolding same_ports_def by (meson order_less_le_trans)
  moreover have "lookC s k = Some a \<or> a < sp_fresh u" if "lookC u k = Some a" for k a
    using assms that f unfolding same_ports_def by (meson order_less_le_trans)
  moreover have "sp_fresh s \<le> sp_fresh u" using assms f by (simp add: same_ports_def)
  ultimately show ?thesis using assms by (simp add: same_ports_def)
qed

lemma ser_inv_same:
  assumes "ser_inv s" "same_ports s t"
  shows "ser_inv t"
proof (rule ser_invI)
  have l: "listed t = listed s" using assms(2) by (simp add: same_ports_def listed_def fun_eq_iff)
  note d = ser_invD [OF assms(1)] and q = assms(2) [unfolded same_ports_def]
  show "sm_ok (tab t w)" for w using d(1) q by simp
  show "pa < sp_fresh t \<and> pc_Port (sp_ports t pa) = pa \<and> pc_Running (sp_ports t pa)" if "listed t w k pa" for w k pa
    using d(2-4) q that l by (metis order_less_le_trans)
  show "w' = w \<and> k' = k" if "listed t w k pa" "listed t w' k' pa" for w k w' k' pa
    using d(5) that l by metis
  show "set (sp_open t) = {pa. \<exists>w k. listed t w k pa}" using d(6) q l by simp
  show "tab t (Inl n) = [] \<and> tab t (Inr n) = []" if "sp_fresh t \<le> n" for n
    using d(7,8) [of n] q that by simp
  show "a < sp_fresh t" if "lookS t k = Some a \<or> lookC t k = Some a" for k a
    using that q d(9,10) by (meson order_less_le_trans)
qed

lemma tab_Inl [simp]: "tab s (Inl sa) = sv_portCtx (sp_servers s sa)"
  and tab_Inr [simp]: "tab s (Inr ca) = cl_portCtx (sp_clients s ca)"
  by (simp_all add: tab_def)

lemma tab_eq_iff: "tab t = tab s \<longleftrightarrow>
    (\<forall>sa. sv_portCtx (sp_servers t sa) = sv_portCtx (sp_servers s sa)) \<and>
    (\<forall>ca. cl_portCtx (sp_clients t ca) = cl_portCtx (sp_clients s ca))"
  by (auto simp: fun_eq_iff tab_def split: sum.split)

lemma same_ports_emit [simp]: "same_ports s (ser_emit e s)"
  by (simp add: same_ports_def tab_eq_iff started_def lookS_def lookC_def)

lemma same_ports_upd_client: "cl_portCtx (f (sp_clients s ca)) = cl_portCtx (sp_clients s ca) \<Longrightarrow>
    same_ports s (upd_client_ctx ca f s)"
  by (simp add: same_ports_def tab_eq_iff started_def lookS_def lookC_def)

lemma same_ports_upd_server: "sv_portCtx (f (sp_servers s sa)) = sv_portCtx (sp_servers s sa) \<Longrightarrow>
    same_ports s (upd_server_ctx sa f s)"
  by (simp add: same_ports_def tab_eq_iff started_def lookS_def lookC_def)

definition same_maps :: "ser \<Rightarrow> ser \<Rightarrow> bool" where
  "same_maps s t \<longleftrightarrow> sp_serverCtx t = sp_serverCtx s \<and> sp_clientCtx t = sp_clientCtx s"

lemma same_maps_look: "same_maps s t \<Longrightarrow> lookS t = lookS s \<and> lookC t = lookC s"
  by (simp add: same_maps_def lookS_def lookC_def fun_eq_iff)

text \<open>The three ways the tables change.\<close>

lemma ser_inv_clear:
  assumes i: "ser_inv s" and t: "tab t = (tab s)(w := [])" "sp_fresh t = sp_fresh s"
    "sp_ports t = (\<lambda>p. if p \<in> snd ` set (tab s w) then (sp_ports s p)\<lparr>pc_Running := False\<rparr> else sp_ports s p)"
    "set (sp_open t) = set (sp_open s) - (\<lambda>(key, pa). pc_Port (sp_ports s pa)) ` set (tab s w)" "same_maps s t"
  shows "ser_inv t"
proof (rule ser_invI)
  note d = ser_invD [OF i]
  have l: "listed t v k pa \<longleftrightarrow> v \<noteq> w \<and> listed s v k pa" for v k pa
    by (simp add: listed_def t(1))
  have p: "sp_ports t pa = sp_ports s pa" if "listed t v k pa" for v k pa
  proof -
    have "pa \<notin> snd ` set (tab s w)"
      using that [unfolded l] d(5) [of v k pa w] by (auto simp: listed_def)
    then show ?thesis by (simp add: t(3))
  qed
  have w: "(\<lambda>(key, pa). pc_Port (sp_ports s pa)) ` set (tab s w) = {pa. \<exists>k. listed s w k pa}"
    using d(3) [of w] by (force simp: listed_def)
  show "set (sp_open t) = {pa. \<exists>v k. listed t v k pa}"
  proof -
    have "\<not> listed s w j pa" if "v \<noteq> w" "listed s v k pa" for v k j pa
      using d(5) [OF that(2), of w j] that(1) by auto
    then show ?thesis unfolding t(4) w d(6) l by auto metis
  qed
  show "sm_ok (tab t v)" for v using d(1) by (simp add: t(1) sm_ok_def)
  show "pa < sp_fresh t \<and> pc_Port (sp_ports t pa) = pa \<and> pc_Running (sp_ports t pa)" if "listed t v k pa" for v k pa
    using that d(2-4) [of v k pa] p [OF that] by (simp add: l t(2))
  show "v' = v \<and> k' = k" if "listed t v k pa" "listed t v' k' pa" for v k v' k' pa
    using d(5) that by (auto simp: l)
  show "tab t (Inl n) = [] \<and> tab t (Inr n) = []" if "sp_fresh t \<le> n" for n
    using d(7,8) [of n] that by (simp add: t(1,2))
  show "a < sp_fresh t" if "lookS t k = Some a \<or> lookC t k = Some a" for k a
    using that d(9,10) same_maps_look [OF t(5)] t(2) by auto
qed

lemma ser_inv_drop:
  assumes i: "ser_inv s" and t: "tab t = (tab s)(w := sm_delete k (tab s w))" "sp_fresh t = sp_fresh s" "same_maps s t"
    and p: "\<And>q. sm_load (tab s w) k \<noteq> Some q \<Longrightarrow> sp_ports t q = sp_ports s q"
    and o: "set (sp_open t) = set (sp_open s) - {pa. sm_load (tab s w) k = Some pa}"
  shows "ser_inv t"
proof (rule ser_invI)
  note d = ser_invD [OF i]
  have k: "sm_load (tab s w) k = Some pa \<longleftrightarrow> listed s w k pa" for pa
    using sm_load_Some_iff [OF d(1)] by (simp add: listed_def)
  show ok: "sm_ok (tab t v)" for v using d(1) by (simp add: t(1))
  have l: "listed t v j pa \<longleftrightarrow> listed s v j pa \<and> \<not> (v = w \<and> j = k)" for v j pa
    using sm_load_Some_iff [OF ok, of v j pa] sm_load_Some_iff [OF d(1), of v j pa]
    by (auto simp: listed_def t(1) split: if_splits)
  have u: "\<not> listed s w k pa" if "listed t v j pa" for v j pa
    using that d(5) by (auto simp: l)
  show "set (sp_open t) = {q. \<exists>v j. listed t v j q}"
  proof -
    have "\<not> listed s w k pa" if "\<not> (v = w \<and> j = k)" "listed s v j pa" for v j pa
      using d(5) [OF that(2), of w k] that(1) by auto
    then show ?thesis unfolding o d(6) k l by auto
  qed
  show "pa < sp_fresh t \<and> pc_Port (sp_ports t pa) = pa \<and> pc_Running (sp_ports t pa)" if "listed t v j pa" for v j pa
    using that d(2-4) [of v j pa] p [of pa] u [OF that] by (simp add: l t(2) k)
  show "v' = v \<and> j' = j" if "listed t v j pa" "listed t v' j' pa" for v j v' j' pa
    using d(5) that by (auto simp: l)
  show "tab t (Inl n) = [] \<and> tab t (Inr n) = []" if "sp_fresh t \<le> n" for n
    using d(7,8) [of n] that by (auto simp: t(1,2) sm_delete_def)
  show "a < sp_fresh t" if "lookS t c = Some a \<or> lookC t c = Some a" for c a
    using that d(9,10) same_maps_look [OF t(3)] t(2) by auto
qed

primrec own :: "nat + nat \<Rightarrow> nat" where
  "own (Inl n) = n"
| "own (Inr n) = n"

lemma ser_inv_add:
  assumes i: "ser_inv s" and n: "n = sp_fresh s" "sm_load (tab s w) k = None" "own w < sp_fresh s"
    and t: "tab t = (tab s)(w := sm_store k n (tab s w))" "sp_fresh t = n + 1"
      "sp_ports t = (sp_ports s)(n := \<lparr>pc_Running = True, pc_Port = n, pc_Config = conf\<rparr>)"
      "set (sp_open t) = insert n (set (sp_open s))" "same_maps s t"
  shows "ser_inv t"
proof (rule ser_invI)
  note d = ser_invD [OF i]
  show ok: "sm_ok (tab t v)" for v using d(1) by (simp add: t(1))
  have l: "listed t v j pa \<longleftrightarrow> listed s v j pa \<or> (v = w \<and> j = k \<and> pa = n)" for v j pa
    using n(2) sm_load_Some_iff [OF ok, of v j pa] sm_load_Some_iff [OF d(1), of v j pa]
    by (auto simp: listed_def t(1) split: if_splits)
  have lt: "pa < n" if "listed s v j pa" for v j pa using d(2) that n(1) by simp
  show "set (sp_open t) = {pa. \<exists>v j. listed t v j pa}" unfolding t(4) d(6) l by blast
  show "pa < sp_fresh t \<and> pc_Port (sp_ports t pa) = pa \<and> pc_Running (sp_ports t pa)"
    if "listed t v j pa" for v j pa
    using that lt [of v j pa] d(2-4) [of v j pa] n(1) by (auto simp: l t(2,3))
  show "v' = v \<and> j' = j" if "listed t v j pa" "listed t v' j' pa" for v j v' j' pa
    using that lt [of v j pa] lt [of v' j' pa] d(5) by (auto simp: l)
  show "tab t (Inl m) = [] \<and> tab t (Inr m) = []" if "sp_fresh t \<le> m" for m
  proof -
    have "w \<noteq> Inl m" "w \<noteq> Inr m" using n(1,3) that by (auto simp: t(2))
    then show ?thesis using d(7,8) [of m] that n(1) by (simp add: t(1,2))
  qed
  show "a < sp_fresh t" if "lookS t c = Some a \<or> lookC t c = Some a" for c a
    using that d(9,10) [of c a] same_maps_look [OF t(5)] t(2) n(1) by auto
qed

section \<open>Operations keep the invariant\<close>

text \<open>\<open>good\<close>: the invariant holds and the maps exist. \<open>keeps m\<close>: the computation returns, in a good state.\<close>

definition good :: "ser \<Rightarrow> bool" where
  "good s \<longleftrightarrow> ser_inv s \<and> started s"

definition keeps :: "(ser \<times> 'r) go \<Rightarrow> bool" where
  "keeps m \<longleftrightarrow> (\<exists>t r. m = Done (t, r) \<and> good t)"

lemma good_same: "good s \<Longrightarrow> same_ports s t \<Longrightarrow> good t"
  by (auto simp: good_def same_ports_def intro: ser_inv_same [unfolded same_ports_def])

lemma good_started: "good s \<Longrightarrow> started s"
  by (simp add: good_def)

lemma good_maps: "good s \<Longrightarrow> \<exists>sm cm. sp_serverCtx s = Some sm \<and> sp_clientCtx s = Some cm"
  by (auto simp: good_def started_def)

lemma keepsI [intro]: "good t \<Longrightarrow> keeps (Done (t, r))"
  by (simp add: keeps_def)

lemma keepsD: "keeps m \<Longrightarrow> m = Done (t, r) \<Longrightarrow> good t"
  by (simp add: keeps_def)

lemma keeps_map: "keeps m \<Longrightarrow> (\<And>t r. good t \<Longrightarrow> \<exists>t' r'. f (t, r) = (t', r') \<and> good t') \<Longrightarrow> keeps (go_map f m)"
  by (fastforce simp: keeps_def)

lemma keeps_bind: "keeps m \<Longrightarrow> (\<And>t r. good t \<Longrightarrow> keeps (f (t, r))) \<Longrightarrow> keeps (go_bind m f)"
  by (fastforce simp: keeps_def)

lemma server_Stop_inv: "good s \<Longrightarrow> good (server_Stop sa s)"
proof -
  assume g: "good s"
  have "ser_inv (server_Stop sa s)"
    by (rule ser_inv_clear [of s _ "Inl sa"])
      (use g in \<open>simp_all add: good_def server_Stop_effect same_maps_def fun_eq_iff tab_def split: sum.split\<close>)
  with g show ?thesis by (simp add: good_def started_def server_Stop_effect)
qed

lemma client_Stop_inv: "good s \<Longrightarrow> good (client_Stop ca s)"
proof -
  assume g: "good s"
  have "ser_inv (client_Stop ca s)"
    by (rule ser_inv_clear [of s _ "Inr ca"])
      (use g in \<open>simp_all add: good_def client_Stop_effect same_maps_def fun_eq_iff tab_def split: sum.split\<close>)
  with g show ?thesis by (simp add: good_def started_def client_Stop_effect)
qed

text \<open>Replacing or forgetting connections in the maps.\<close>

lemma started_upd [simp]:
  "started (s\<lparr>sp_serverCtx := map_option f (sp_serverCtx s)\<rparr>) = started s"
  "started (s\<lparr>sp_clientCtx := map_option g (sp_clientCtx s)\<rparr>) = started s"
  by (simp_all add: started_def)

lemma same_ports_shrink:
  "same_ports s (s\<lparr>sp_serverCtx := map_option (fold sm_delete ks) (sp_serverCtx s)\<rparr>)"
  "same_ports s (s\<lparr>sp_clientCtx := map_option (fold sm_delete ks) (sp_clientCtx s)\<rparr>)"
  by (auto simp: same_ports_def tab_eq_iff lookS_def lookC_def sm.load_delete_all split: option.splits if_splits)

lemma same_ports_delete:
  "same_ports s (delete_client k s)"
  "same_ports s (s\<lparr>sp_serverCtx := map_option (sm_delete k) (sp_serverCtx s)\<rparr>)"
  using same_ports_shrink [of s "[k]"] by (simp_all add: delete_client_def)

lemma same_ports_store:
  "ca < sp_fresh s \<Longrightarrow> same_ports s (store_client k ca s)"
  by (auto simp: same_ports_def tab_eq_iff lookS_def lookC_def store_client_def split: option.splits if_splits)

lemma stop_old_client_inv: "good s \<Longrightarrow> good (stop_old_client k s)"
  by (auto simp: stop_old_client_def intro: client_Stop_inv good_same [OF _ same_ports_delete(1)] split: option.split)

section \<open>Server side\<close>

lemma same_ports_write_server [simp]: "same_ports s (fst (server_write2Net sa m s))"
  by (simp add: server_write2Net_eq split: option.split)

lemma same_ports_write_client [simp]: "same_ports s (fst (client_write2Net ca m s))"
  by (simp add: client_write2Net_eq split: option.split)

lemma good_drop_server:
  assumes g: "good s" and t: "t = s \<and> sm_load (sv_portCtx (sp_servers s sa)) k = None \<or>
    (\<exists>pa. sm_load (sv_portCtx (sp_servers s sa)) k = Some pa \<and> (t = close_port pa s \<or> t = stop_port pa s))"
  shows "good (upd_server_ctx sa (\<lambda>c. c\<lparr>sv_portCtx := sm_delete k (sv_portCtx c)\<rparr>) t)"
proof -
  have p: "pc_Port (sp_ports s pa) = pa" if "sm_load (sv_portCtx (sp_servers s sa)) k = Some pa" for pa
    using ser_invD(3) [of s "Inl sa" k pa] ser_invD(1) [of s "Inl sa"] g that
    by (simp add: good_def listed_def sm_load_Some_iff)
  have "ser_inv (upd_server_ctx sa (\<lambda>c. c\<lparr>sv_portCtx := sm_delete k (sv_portCtx c)\<rparr>) t)"
    by (rule ser_inv_drop [of s _ "Inl sa" k])
      (use g t p in \<open>auto simp: good_def same_maps_def fun_eq_iff tab_def split: sum.split\<close>)
  with g t show ?thesis by (auto simp: good_def started_def)
qed

lemma server_close_inv: "good s \<Longrightarrow> good (fst (server_close sa name s))"
  unfolding server_close_def Let_def
  by (rule good_same [OF good_drop_server same_ports_write_server]) (auto split: option.split)

lemma same_ports_configs: "same_ports s (s\<lparr>sp_configs := f\<rparr>)"
  by (simp add: same_ports_def tab_eq_iff started_def lookS_def lookC_def)

lemma good_add_server:
  assumes "good s" "sm_load (sv_portCtx (sp_servers s sa)) k = None" "sa < sp_fresh s" "new_port_ctx conf s = (pa, t)"
  shows "good (upd_server_ctx sa (\<lambda>c. c\<lparr>sv_portCtx := sm_store k pa (sv_portCtx c)\<rparr>) t)"
proof -
  have "ser_inv (upd_server_ctx sa (\<lambda>c. c\<lparr>sv_portCtx := sm_store k pa (sv_portCtx c)\<rparr>) t)"
    by (rule ser_inv_add [of s pa "Inl sa" k])
      (use assms in \<open>auto simp: good_def new_port_ctx_def Let_def same_maps_def fun_eq_iff tab_def split: sum.split\<close>)
  then show ?thesis using assms by (auto simp: good_def started_def new_port_ctx_def Let_def)
qed

lemma good_add_client:
  assumes "good s" "sm_load (cl_portCtx (sp_clients s ca)) k = None" "ca < sp_fresh s" "new_port_ctx conf s = (pa, t)"
  shows "good (upd_client_ctx ca (\<lambda>c. c\<lparr>cl_portCtx := sm_store k pa (cl_portCtx c)\<rparr>) t)"
proof -
  have "ser_inv (upd_client_ctx ca (\<lambda>c. c\<lparr>cl_portCtx := sm_store k pa (cl_portCtx c)\<rparr>) t)"
    by (rule ser_inv_add [of s pa "Inr ca" k])
      (use assms in \<open>auto simp: good_def new_port_ctx_def Let_def same_maps_def fun_eq_iff tab_def split: sum.split\<close>)
  then show ?thesis using assms by (auto simp: good_def started_def new_port_ctx_def Let_def)
qed

lemma server_open_inv:
  assumes g: "good s" and sa: "sa < sp_fresh s"
  shows "good (server_open env sa msg s)"
proof -
  obtain conf sv where r: "requested_config msg (sp_configs s) = (conf, sv)" by force
  let ?k = "so_Name msg"
  let ?s1 = "case sm_load (sv_portCtx (sp_servers s sa)) ?k of None \<Rightarrow> s | Some pa \<Rightarrow> close_port pa s"
  let ?s2 = "upd_server_ctx sa (\<lambda>c. c\<lparr>sv_portCtx := sm_delete ?k (sv_portCtx c)\<rparr>) ?s1"
  have g2: "good ?s2" by (rule good_drop_server [OF g]) (auto split: option.split)
  have k2: "sm_load (sv_portCtx (sp_servers ?s2 sa)) ?k = None" "sa < sp_fresh ?s2"
    using sa by (auto split: option.split)
  obtain pa t where n: "new_port_ctx conf ?s2 = (pa, t)" by force
  note g3 = good_add_server [OF g2 k2 n]
  show ?thesis
    unfolding server_open_def Let_def r prod.case n
    by (auto intro!: good_same [OF _ same_ports_configs] good_same [OF g2 same_ports_write_server]
        good_same [OF g3 same_ports_write_server] split: sum.split)
qed

lemma same_ports_server_data: "same_ports s (fst (server_data env sa d s))"
  by (auto simp: server_data_def Let_def intro: same_ports_trans [OF same_ports_emit same_ports_write_server]
      split: option.split)

lemma server_processMsg_inv:
  assumes "good s" "sa < sp_fresh s"
  shows "good (fst (server_processMsg env sa m s))"
  using assms
  by (auto simp: server_processMsg_def server_get_config_def server_port_list_def Let_def
      intro: server_open_inv server_close_inv good_same [OF _ same_ports_server_data]
        good_same [OF _ same_ports_write_server] split: SMsgType.split option.split)

lemma same_ports_new_server:
  assumes "ser_inv s"
  shows "same_ports s (SetServerHandle cid h now s)"
proof -
  have "sv_portCtx (sp_servers s (sp_fresh s)) = []" using ser_invD(7) [OF assms, of "sp_fresh s"] by simp
  then show ?thesis
    using ser_invD(9,10) [OF assms]
    by (auto simp: SetServerHandle_def NewServerContext_def Let_def same_ports_def tab_eq_iff lookS_def lookC_def
        sm_empty_def started_def split: option.splits if_splits)
qed

lemma RemoveServerHandler_inv: "good s \<Longrightarrow> good (RemoveServerHandler cid s)"
  by (auto simp: RemoveServerHandler_def Let_def intro: server_Stop_inv good_same [OF _ same_ports_delete(2)]
      split: option.split)

lemma ProcessClientMessage_inv:
  assumes g: "good s"
  shows "\<exists>t. ProcessClientMessage env a dstId m h now s = Done t \<and> good t"
proof -
  obtain sm where sm: "sp_serverCtx s = Some sm" using good_maps [OF g] by auto
  have seen: "good (upd_server_ctx sa (\<lambda>c. c\<lparr>sv_LastReceive := now\<rparr>) s)" for sa
    by (rule good_same [OF g same_ports_upd_server]) simp
  have auth: "good (SetServerHandle dstId h now (ser_emit e s))" for e
  proof -
    have e: "good (ser_emit e s)" by (rule good_same [OF g same_ports_emit])
    then show ?thesis by (rule good_same [OF _ same_ports_new_server]) (use e in \<open>simp add: good_def\<close>)
  qed
  have lt: "sa < sp_fresh s" if "sm_load sm dstId = Some sa" for sa
    using ser_invD(9) [of s dstId sa] g that by (simp add: good_def lookS_def sm)
  have proc: "good (fst (server_processMsg env sa m (upd_server_ctx sa (\<lambda>c. c\<lparr>sv_LastReceive := now\<rparr>) s)))"
    if "sm_load sm dstId = Some sa" for sa
    by (rule server_processMsg_inv [OF seen]) (simp add: lt [OF that])
  show ?thesis
    using g seen auth proc RemoveServerHandler_inv [OF g, of dstId]
    by (auto simp: ProcessClientMessage_def sm Let_def intro!: good_same [OF _ same_ports_emit]
        split: SMsgType.split option.split)
qed

lemma same_ports_auth [simp]: "same_ports s (s\<lparr>sp_auth := f\<rparr>)"
  by (simp add: same_ports_def tab_eq_iff started_def lookS_def lookC_def)

lemma server_HandleRead_inv:
  "good s \<Longrightarrow> \<exists>t. server_HandleRead env a h m now s = Done t \<and> good t"
  unfolding server_HandleRead_def
  using ProcessClientMessage_inv good_same [OF _ same_ports_auth] by auto

section \<open>Client side\<close>

lemma same_ports_client_processMsg: "same_ports s (fst (client_processMsg ca m s))"
  by (auto simp: client_processMsg_def Let_def intro: same_ports_upd_client split: SMsgType.split option.split)

text \<open>Messages that arrive from a server change no table and never make the client panic.\<close>

lemma ProcessServerMessage_same:
  assumes "started s"
  shows "\<exists>t d. ProcessServerMessage dstId m h now s = Done (t, d) \<and> same_ports s t"
proof -
  obtain cm where cm: "sp_clientCtx s = Some cm" using assms by (auto simp: started_def)
  have seen: "same_ports s (upd_client_ctx ca (\<lambda>c. c\<lparr>cl_LastReceive := now\<rparr>) s)" for ca
    by (rule same_ports_upd_client) simp
  have hand: "same_ports s (upd_client_ctx ca (\<lambda>c. c\<lparr>cl_handler := Some h\<rparr>) (upd_client_ctx ca (\<lambda>c. c\<lparr>cl_LastReceive := now\<rparr>) s))" for ca
    by (rule same_ports_trans [OF seen same_ports_upd_client]) simp
  have p: "same_ports s (fst (client_processMsg ca m t))" if "same_ports s t" for ca t
    using same_ports_trans [OF that same_ports_client_processMsg] .
  show ?thesis
    using seen hand p [OF seen] p [OF hand] same_ports_trans [OF seen same_ports_emit]
    by (auto simp: ProcessServerMessage_def cm Let_def split_beta intro: same_ports_trans
        split: SMsgType.split option.split)
qed

lemma client_HandleRead_same:
  assumes "started s"
  shows "\<exists>t d. client_HandleRead h m now s = Done (t, d) \<and> same_ports s t"
proof (cases "ssf_MsgType m = SMsg_AuthAck")
  case True
  let ?s = "s\<lparr>sp_auth := (sp_auth s)(h := True)\<rparr>"
  have "started ?s" using assms by (simp add: started_def)
  then obtain t d where t: "ProcessServerMessage (ssf_SrcId m) m h now ?s = Done (t, d)" "same_ports ?s t"
    using ProcessServerMessage_same by blast
  have "same_ports s t" by (rule same_ports_trans [OF _ t(2)]) simp
  then show ?thesis using True t(1) by (simp add: client_HandleRead_def)
next
  case False
  then show ?thesis
    using ProcessServerMessage_same [OF assms] by (simp add: client_HandleRead_def)
qed

lemma started_same: "started s \<Longrightarrow> same_ports s t \<Longrightarrow> started t"
  by (simp add: same_ports_def)

lemma handle_arrivals_same:
  "started s \<Longrightarrow> \<exists>t. handle_arrivals as s = Done t \<and> same_ports s t"
proof (induction as arbitrary: s)
  case Nil
  then show ?case by simp
next
  case (Cons a as)
  obtain t d where t: "client_HandleRead (ar_handler a) (ar_msg a) (ar_time a) s = Done (t, d)" "same_ports s t"
    using client_HandleRead_same [OF Cons.prems] by blast
  with Cons.IH [OF started_same [OF Cons.prems t(2)]] show ?case by (auto intro: same_ports_trans)
qed

lemma wait_reply_same:
  "started s \<Longrightarrow> \<exists>t r. wait_reply ca key as s = Done (t, r) \<and> same_ports s t"
proof (induction as arbitrary: s)
  case Nil
  then show ?case by simp
next
  case (Cons a as)
  obtain t d where t: "client_HandleRead (ar_handler a) (ar_msg a) (ar_time a) s = Done (t, d)" "same_ports s t"
    using client_HandleRead_same [OF Cons.prems] by blast
  with Cons.IH [OF started_same [OF Cons.prems t(2)]] show ?case
    by (auto intro: same_ports_trans split: option.split)
qed

lemma same_ports_register: "same_ports s (register_key ca key s)" "same_ports s (unregister_key ca key s)"
  by (simp_all add: register_key_def unregister_key_def same_ports_upd_client)

lemma await_same:
  assumes "started s"
  shows "\<exists>t r. await io ca key (\<lambda>t. t) s = Done (t, r) \<and> same_ports s t"
proof -
  obtain s1 where s1: "handle_arrivals (io_early io) s = Done s1" "same_ports s s1"
    using handle_arrivals_same [OF assms] by blast
  have q: "same_ports s (register_key ca key s1)" by (rule same_ports_trans [OF s1(2) same_ports_register(1)])
  obtain t r where t: "wait_reply ca key (io_wait io) (register_key ca key s1) = Done (t, r)"
      "same_ports (register_key ca key s1) t"
    using wait_reply_same [OF started_same [OF assms q]] by blast
  have "same_ports s (unregister_key ca key t)"
    by (rule same_ports_trans [OF same_ports_trans [OF q t(2)] same_ports_register(2)])
  then show ?thesis using s1(1) t(1) by (simp add: await_def)
qed

lemma await_keeps:
  assumes g: "good s" and pre: "\<And>t. good t \<Longrightarrow> good (pre t)"
  shows "keeps (await io ca key pre s)"
proof -
  obtain s1 where s1: "handle_arrivals (io_early io) s = Done s1" "same_ports s s1"
    using handle_arrivals_same [OF good_started [OF g]] by blast
  have g1: "good (pre (register_key ca key s1))"
    by (intro pre good_same [OF good_same [OF g s1(2)] same_ports_register(1)])
  obtain t r where t: "wait_reply ca key (io_wait io) (pre (register_key ca key s1)) = Done (t, r)"
      "same_ports (pre (register_key ca key s1)) t"
    using wait_reply_same [OF good_started [OF g1]] by blast
  have "good (unregister_key ca key t)"
    by (rule good_same [OF good_same [OF g1 t(2)] same_ports_register(2)])
  then show ?thesis using s1(1) t(1) by (auto simp: await_def)
qed

lemma client_WaitAuth_keeps: "good s \<Longrightarrow> keeps (client_WaitAuth io ca s)"
  unfolding client_WaitAuth_def by (rule keeps_map [OF await_keeps]) auto

text \<open>Requests: the write changes the trace only.\<close>

lemma write2Net_cases:
  obtains e where "client_write2Net ca m s = (s, Some e)" "cl_handler (sp_clients s ca) = None"
  | h where "client_write2Net ca m s = (ser_emit (WriteClient h m) s, None)" "cl_handler (sp_clients s ca) = Some h"
  by (cases "cl_handler (sp_clients s ca)") (simp_all add: client_write2Net_def)

lemma good_emit: "good s \<Longrightarrow> good (ser_emit e s)"
  by (rule good_same [OF _ same_ports_emit])

lemma client_OpenPort_opened:
  assumes "\<not> port_conflict ca remote loc s"
    "client_write2Net ca (open_request (sp_localId s) remote cfg) s = (s1, None)"
    "await io ca (remote @ ResultOpenPort) (\<lambda>t. t) s1 = Done (t, r)"
  shows "client_OpenPort env io ca remote loc user cfg s = Done (opened_port env ca remote loc user cfg t r)"
  using assms by (simp add: client_OpenPort_def)

lemma client_OpenPort_keeps:
  assumes g: "good s" and ca: "ca < sp_fresh s"
  shows "keeps (client_OpenPort env io ca remote loc user cfg s)"
proof (cases "port_conflict ca remote loc s")
  case True
  then show ?thesis using g by (auto simp: client_OpenPort_def)
next
  case False
  let ?m = "open_request (sp_localId s) remote cfg"
  show ?thesis
  proof (cases rule: write2Net_cases [of ca ?m s])
    case 1
    then show ?thesis using False g by (auto simp: client_OpenPort_def)
  next
    case (2 h)
    let ?s = "ser_emit (WriteClient h ?m) s"
    have k: "sm_load (cl_portCtx (sp_clients s ca)) remote = None"
      using False ser_invD(1) [of s "Inr ca"] g
      by (cases "sm_load (cl_portCtx (sp_clients s ca)) remote") (auto simp: port_conflict_def good_def sm_load_Some_iff)
    obtain t r where t: "await io ca (remote @ ResultOpenPort) (\<lambda>t. t) ?s = Done (t, r)" "same_ports ?s t"
      using await_same [OF good_started [OF good_emit [OF g]]] by blast
    have gt: "good t" by (rule good_same [OF good_emit [OF g] t(2)])
    have kt: "sm_load (cl_portCtx (sp_clients t ca)) remote = None" "ca < sp_fresh t"
      using t(2) k ca by (simp_all add: same_ports_def tab_eq_iff)
    have add: "good (upd_client_ctx ca (\<lambda>c. c\<lparr>cl_portCtx := sm_store remote pa (cl_portCtx c)\<rparr>) t1)"
      if "new_port_ctx conf t = (pa, t1)" for conf pa t1
      by (rule good_add_client [OF gt kt that])
    have "keeps (Done (opened_port env ca remote loc user cfg t r))"
      unfolding opened_port_def using gt add
      by (auto simp: Let_def intro!: keepsI split: option.split reply.split bool.split sum.split prod.split)
    then show ?thesis using False 2(1) t(1) by (simp add: client_OpenPort_opened)
  qed
qed

lemma good_drop_client:
  assumes g: "good s"
  shows "good (client_drop_port ca k s)"
proof -
  have p: "pc_Port (sp_ports s pa) = pa" if "sm_load (cl_portCtx (sp_clients s ca)) k = Some pa" for pa
    using ser_invD(3) [of s "Inr ca" k pa] ser_invD(1) [of s "Inr ca"] g that
    by (simp add: good_def listed_def sm_load_Some_iff)
  have "ser_inv (client_drop_port ca k s)"
    by (rule ser_inv_drop [of s _ "Inr ca" k])
      (use g p in \<open>auto simp: good_def same_maps_def fun_eq_iff tab_def client_drop_port_def Let_def split: sum.split option.split\<close>)
  with g show ?thesis by (auto simp: good_def started_def client_drop_port_def Let_def split: option.split)
qed

lemma client_ClosePort_keeps: "good s \<Longrightarrow> keeps (client_ClosePort io ca name s)"
  unfolding client_ClosePort_def
  by (cases rule: write2Net_cases [of ca "(client_msg SMsg_ClosePort (sp_localId s))\<lparr>scf_MsgCloseCom := Some name\<rparr>" s])
    (auto intro!: keeps_map [OF await_keeps] good_emit good_drop_client)

lemma client_GetPortConfig_keeps: "good s \<Longrightarrow> keeps (client_GetPortConfig io ca name s)"
  unfolding client_GetPortConfig_def
  by (cases rule: write2Net_cases [of ca "(client_msg SMsg_GetConfig (sp_localId s))\<lparr>scf_MsgGetConfig := Some name\<rparr>" s])
    (auto intro!: keeps_map [OF await_keeps] good_emit)

lemma client_SetPortConfig_keeps: "good s \<Longrightarrow> keeps (client_SetPortConfig io ca remote cfg s)"
  unfolding client_SetPortConfig_def
  by (cases rule: write2Net_cases [of ca "open_request (sp_localId s) remote cfg" s])
    (auto intro!: keeps_map [OF await_keeps] good_emit)

lemma client_GetPortList_keeps: "good s \<Longrightarrow> keeps (client_GetPortList io ca s)"
  unfolding client_GetPortList_def
  by (cases rule: write2Net_cases [of ca "client_msg SMsg_GetPortList (sp_localId s)" s])
    (auto intro!: keeps_map [OF await_keeps] good_emit)

section \<open>The service\<close>

lemma NewClientContext_same:
  assumes "ser_inv s" "NewClientContext url s = (ca, s1)"
  shows "same_ports s s1" "ca < sp_fresh s1"
proof -
  have "cl_portCtx (sp_clients s (sp_fresh s)) = []" using ser_invD(8) [OF assms(1), of "sp_fresh s"] by simp
  then show "same_ports s s1" "ca < sp_fresh s1"
    using assms(2) ser_invD(9,10) [OF assms(1)]
    by (auto simp: NewClientContext_def Let_def same_ports_def tab_eq_iff lookS_def lookC_def sm_empty_def started_def)
qed

lemma client_Start_same:
  assumes "client_Start env ca now s = (t, ok)"
  shows "same_ports s t"
proof (cases "se_connect env (cl_url (sp_clients s ca))")
  case True
  let ?s = "s\<lparr>sp_fresh := sp_fresh s + 1, sp_auth := (sp_auth s)(sp_fresh s := False)\<rparr>"
  have "same_ports s ?s" by (simp add: same_ports_def tab_eq_iff started_def lookS_def lookC_def)
  moreover have "same_ports ?s (client_HandleActive (sp_fresh s) ?s)" by (simp add: client_HandleActive_def)
  moreover have "same_ports (client_HandleActive (sp_fresh s) ?s) t"
    using assms True by (auto simp: client_Start_def Let_def intro!: same_ports_upd_client)
  ultimately show ?thesis by (blast intro: same_ports_trans)
next
  case False
  then show ?thesis using assms by (simp add: client_Start_def)
qed

lemma stop_old_client_fresh [simp]: "sp_fresh (stop_old_client k s) = sp_fresh s"
  by (simp add: stop_old_client_def delete_client_def client_Stop_effect split: option.split)

text \<open>The common start of connecting and reconnecting.\<close>

lemma connect_ready:
  assumes g: "good s" and n: "NewClientContext url s = (ca, s1)" and st: "client_Start env ca now s1 = (s2, ok)"
  shows "good s2" "good (store_client dstId ca (stop_old_client dstId s2))"
proof -
  have i: "ser_inv s" using g by (simp add: good_def)
  have g1: "good s1" by (rule good_same [OF g NewClientContext_same(1) [OF i n]])
  show g2: "good s2" by (rule good_same [OF g1 client_Start_same [OF st]])
  have "ca < sp_fresh s2"
    using NewClientContext_same(2) [OF i n] client_Start_same [OF st] by (simp add: same_ports_def)
  then have "same_ports (stop_old_client dstId s2) (store_client dstId ca (stop_old_client dstId s2))"
    by (intro same_ports_store) simp
  with stop_old_client_inv [OF g2] show "good (store_client dstId ca (stop_old_client dstId s2))"
    by (rule good_same)
qed

lemma need_clients: "good s \<Longrightarrow> \<exists>m. sp_clientCtx s = Some m"
  and need_servers: "good s \<Longrightarrow> \<exists>m. sp_serverCtx s = Some m"
  by (auto simp: good_def started_def)

lemma ConnectRemote_keeps:
  assumes g: "good s"
  shows "keeps (ConnectRemote env a io dstId now s)"
proof (cases "FindPeer dstId a")
  case None
  then show ?thesis using g by (auto simp: ConnectRemote_def)
next
  case (Some pr)
  obtain ca s1 where n: "NewClientContext (remote_url pr) s = (ca, s1)" by force
  obtain s2 ok where st: "client_Start env ca now s1 = (s2, ok)" by force
  note r = connect_ready [OF g n st]
  obtain m where "sp_clientCtx s2 = Some m" using need_clients [OF r(1)] by blast
  then show ?thesis
    using Some n st r good_same [OF _ same_ports_delete(1)]
    by (auto simp: ConnectRemote_def intro!: keeps_map [OF client_WaitAuth_keeps])
qed

lemma deleteContext_good:
  assumes g: "good s"
  shows "\<exists>t. deleteContext mac s = Done t \<and> good t"
proof -
  obtain cm where cm: "sp_clientCtx s = Some cm" using need_clients [OF g] by blast
  let ?c = "\<lambda>h t. case h of None \<Rightarrow> t | Some x \<Rightarrow> ser_emit (CloseHandler x) t"
  have close: "good (?c h t)" if "good t" for h t using that good_emit by (simp split: option.split)
  let ?s = "case sm_load cm mac of None \<Rightarrow> s
    | Some ca \<Rightarrow> delete_client mac (client_Stop ca (?c (cl_handler (sp_clients s ca)) s))"
  have s1: "good ?s"
    using g by (auto intro!: good_same [OF _ same_ports_delete(1)] client_Stop_inv good_emit split: option.split)
  then obtain sm where sm: "sp_serverCtx ?s = Some sm" using need_servers by blast
  have "good (case sm_load sm mac of None \<Rightarrow> ?s
    | Some sa \<Rightarrow> let s2 = server_Stop sa (?c (sv_handler (sp_servers ?s sa)) ?s)
        in s2\<lparr>sp_serverCtx := map_option (sm_delete mac) (sp_serverCtx s2)\<rparr>)"
    using s1 close [OF s1] server_Stop_inv good_same [OF _ same_ports_delete(2)]
    by (cases "sm_load sm mac") (simp_all add: Let_def)
  then show ?thesis unfolding deleteContext_def Let_def cm need_Some sm by blast
qed

lemma with_client_keeps:
  assumes g: "good s" and op: "\<And>io ca t. good t \<Longrightarrow> ca < sp_fresh t \<Longrightarrow> keeps (op io ca t)"
  shows "keeps (with_client op env a ios dstId now s)"
proof -
  have lt: "ca < sp_fresh t" if "good t" "sp_clientCtx t = Some m" "sm_load m dstId = Some ca" for t m ca
    using ser_invD(10) [of t dstId ca] that by (simp add: good_def lookC_def)
  have again: "keeps (go_bind (ConnectRemote env a (ios 1) dstId now t) (\<lambda>(t1, r).
           if \<not> or_result r then Done (t1, op_res False TipConnectFailed)
           else need (sp_clientCtx t1) (\<lambda>m1. case sm_load m1 dstId of
               Some ca \<Rightarrow> op (ios 2) ca t1
             | None \<Rightarrow> Done (t1, op_res False TipConnectFailed))))" (is "keeps (?re t)") if "good t" for t
  proof (rule keeps_bind [OF ConnectRemote_keeps [OF that]])
    fix t1 r assume g1: "good t1"
    obtain m1 where "sp_clientCtx t1 = Some m1" using need_clients [OF g1] by blast
    then show "keeps (case (t1, r) of (t1, r) \<Rightarrow> if \<not> or_result r then Done (t1, op_res False TipConnectFailed)
        else need (sp_clientCtx t1) (\<lambda>m1. case sm_load m1 dstId of
          Some ca \<Rightarrow> op (ios 2) ca t1 | None \<Rightarrow> Done (t1, op_res False TipConnectFailed)))"
      using g1 op lt by (auto split: option.split)
  qed
  obtain m where m: "sp_clientCtx s = Some m" using need_clients [OF g] by blast
  have first: "keeps (case (t, r) of (t, r) \<Rightarrow> if \<not> or_timeout r then Done (t, r) else go_bind (deleteContext dstId t) ?re)"
    if "good t" for t and r :: op_result
    using deleteContext_good [OF that, of dstId] that again by auto
  show ?thesis
  proof (cases "sm_load m dstId")
    case None
    then show ?thesis using again [OF g] by (simp add: with_client_def m)
  next
    case (Some ca)
    have "keeps (go_bind (op (ios 0) ca s) (\<lambda>(t, r). if \<not> or_timeout r then Done (t, r) else go_bind (deleteContext dstId t) ?re))"
      by (rule keeps_bind [OF op [OF g lt [OF g m Some]]]) (rule first)
    then show ?thesis using Some by (simp add: with_client_def m del: One_nat_def)
  qed
qed

lemma DisConnectRemote_keeps: "good s \<Longrightarrow> keeps (DisConnectRemote dstId s)"
  using need_clients [of s] stop_old_client_inv [of s dstId] by (auto simp: DisConnectRemote_def)

lemma service_ClosePort_keeps:
  assumes g: "good s"
  shows "keeps (service_ClosePort io dstId name s)"
proof -
  obtain m where m: "sp_clientCtx s = Some m" using need_clients [OF g] by blast
  have "keeps (go_map (\<lambda>(t1, _). (t1, r)) (DisConnectRemote dstId t))" if "good t" for t and r :: op_result
    by (rule keeps_map [OF DisConnectRemote_keeps [OF that]]) auto
  then show ?thesis
    using g by (auto simp: service_ClosePort_def m intro!: keeps_bind [OF client_ClosePort_keeps] split: option.split)
qed

lemma fold_check_good:
  assumes "good s" "\<And>x t ks. good t \<Longrightarrow> good (fst (f x (t, ks)))"
  shows "good (fst (fold f xs (s, ks)))"
  using assms(1)
proof (induction xs arbitrary: s ks)
  case (Cons x xs)
  obtain t ks' where "f x (s, ks) = (t, ks')" by force
  with assms(2) [OF Cons.prems, of x ks] Cons.IH [of t ks'] show ?case by simp
qed simp

lemma service_tick_good:
  assumes g: "good s"
  shows "\<exists>t. service_tick now s = Done t \<and> good t"
proof -
  obtain sm where sm: "sp_serverCtx s = Some sm" using need_servers [OF g] by blast
  obtain s1 dead where f1: "fold (check_server_ctx now) sm (s, []) = (s1, dead)" by force
  have "good (fst (fold (check_server_ctx now) sm (s, [])))"
    by (rule fold_check_good [OF g]) (auto simp: check_server_ctx_def intro: server_Stop_inv)
  then have g1: "good (s1\<lparr>sp_serverCtx := map_option (fold sm_delete dead) (sp_serverCtx s1)\<rparr>)" (is "good ?s2")
    by (intro good_same [OF _ same_ports_shrink(1)]) (simp add: f1)
  obtain cm where cm: "sp_clientCtx ?s2 = Some cm" using need_clients [OF g1] by blast
  obtain s3 gone where f3: "fold (check_client_ctx now) cm (?s2, []) = (s3, gone)" by force
  have "good (fst (fold (check_client_ctx now) cm (?s2, [])))"
    by (rule fold_check_good [OF g1]) (auto simp: check_client_ctx_def intro: client_Stop_inv)
  then have "good (s3\<lparr>sp_clientCtx := map_option (fold sm_delete gone) (sp_clientCtx s3)\<rparr>)"
    by (intro good_same [OF _ same_ports_shrink(2)]) (simp add: f3)
  then show ?thesis
    unfolding service_tick_def sm need_Some f1 Let_def prod.case cm f3 by blast
qed

lemma ReConnect_ports_empty:
  "(case sm_load m dstId of None \<Rightarrow> [] | Some old \<Rightarrow> cl_portCtx (sp_clients (stop_old_client dstId s) old)) = []"
  if "sp_clientCtx s = Some m"
  using that by (simp add: stop_old_client_def delete_client_def client_Stop_effect split: option.split)

lemma ReConnectRemote_eq: "ReConnectRemote env a io ios dstId now s = ConnectRemote env a io dstId now s"
proof (cases "FindPeer dstId a")
  case None
  then show ?thesis by (simp add: ReConnectRemote_def ConnectRemote_def)
next
  case (Some pr)
  obtain ca s1 where n: "NewClientContext (remote_url pr) s = (ca, s1)" by force
  obtain s2 ok where st: "client_Start env ca now s1 = (s2, ok)" by force
  have b: "go_bind w (\<lambda>(t, r). if \<not> or_result r then Done (delete_client dstId t, r)
        else go_map (\<lambda>t1. (t1, r)) (reopen_ports env a ios dstId now [] t)) =
      go_map (\<lambda>(t, r). (if or_result r then t else delete_client dstId t, r)) w" for w
    by (cases w) auto
  show ?thesis
  proof (cases "sp_clientCtx s2")
    case None
    then show ?thesis by (simp add: ReConnectRemote_def ConnectRemote_def Some n st need_def)
  next
    case (Some m)
    note p = ReConnect_ports_empty [OF Some, of dstId]
    show ?thesis
      unfolding ReConnectRemote_def ConnectRemote_def \<open>FindPeer dstId a = Some pr\<close> option.case n prod.case st
        Let_def Some need_Some p b ..
  qed
qed

section \<open>Reachable states\<close>

text \<open>The entry points of the service: a message on a connection in either direction, a request of the
  user interface, a round of the state check, a peer that changed its state.\<close>

inductive ser_step :: "ser \<Rightarrow> ser \<Rightarrow> bool" where
  step_server_read: "server_HandleRead env a h m now s = Done t \<Longrightarrow> ser_step s t"
| step_client_read: "client_HandleRead h c now s = Done (t, d) \<Longrightarrow> ser_step s t"
| step_connect: "ConnectRemote env a io k now s = Done (t, r) \<Longrightarrow> ser_step s t"
| step_reconnect: "ReConnectRemote env a io ios k now s = Done (t, r) \<Longrightarrow> ser_step s t"
| step_disconnect: "DisConnectRemote k s = Done (t, r) \<Longrightarrow> ser_step s t"
| step_open: "service_OpenPort env a ios k remote loc user cfg now s = Done (t, r) \<Longrightarrow> ser_step s t"
| step_close: "service_ClosePort io k name s = Done (t, r) \<Longrightarrow> ser_step s t"
| step_get: "service_GetPortConfig env a ios k name now s = Done (t, r) \<Longrightarrow> ser_step s t"
| step_set: "service_SetPortConfig env a ios k name cfg now s = Done (t, r) \<Longrightarrow> ser_step s t"
| step_list: "GetRemotePortList env a ios k now s = Done (t, r) \<Longrightarrow> ser_step s t"
| step_tick: "service_tick now s = Done t \<Longrightarrow> ser_step s t"
| step_peer: "deleteContext k s = Done t \<Longrightarrow> ser_step s t"

inductive ser_reachable :: "ser \<Rightarrow> bool" where
  reach_start: "service_Start True (NewPortService mac file) = Done s \<Longrightarrow> ser_reachable s"
| reach_step: "ser_reachable s \<Longrightarrow> ser_step s t \<Longrightarrow> ser_reachable t"

lemma service_op_keeps:
  assumes "good s"
  shows "keeps (service_OpenPort env a ios k remote loc user cfg now s)"
    "keeps (service_GetPortConfig env a ios k name now s)" "keeps (service_SetPortConfig env a ios k name cfg now s)"
    "keeps (GetRemotePortList env a ios k now s)"
  unfolding service_OpenPort_def service_GetPortConfig_def service_SetPortConfig_def GetRemotePortList_def
  by (intro with_client_keeps [OF assms]; auto intro: client_OpenPort_keeps client_GetPortConfig_keeps
      client_SetPortConfig_keeps client_GetPortList_keeps)+

lemma ser_step_good: "ser_step s t \<Longrightarrow> good s \<Longrightarrow> good t"
proof (induction rule: ser_step.induct)
  case (step_server_read env a h m now s t)
  then show ?case using server_HandleRead_inv [of s env a h m now] by auto
next
  case (step_client_read h c now s t d)
  then show ?case using client_HandleRead_same [OF good_started, of s h c now] good_same by auto
next
  case (step_tick now s t)
  then show ?case using service_tick_good [of s now] by auto
next
  case (step_peer k s t)
  then show ?case using deleteContext_good [of s k] by auto
qed (auto simp: ReConnectRemote_eq dest: keepsD [OF service_op_keeps(1)] keepsD [OF service_op_keeps(2)]
    keepsD [OF service_op_keeps(3)] keepsD [OF service_op_keeps(4)] keepsD [OF ConnectRemote_keeps]
    keepsD [OF DisConnectRemote_keeps] keepsD [OF service_ClosePort_keeps])

lemma start_good:
  assumes "service_Start True (NewPortService mac file) = Done s"
  shows "good s"
proof -
  have s: "s = (NewPortService mac file)\<lparr>sp_bootstrap := True, sp_serverCtx := Some [], sp_clientCtx := Some [],
      sp_isRunning := True\<rparr>"
    using assms by (simp add: service_Start_def NewPortService_def sm_empty_def Let_def)
  have "tab s w = []" for w by (cases w) (simp_all add: s NewPortService_def)
  moreover have "lookS s k = None" "lookC s k = None" for k by (simp_all add: s lookS_def lookC_def)
  moreover have "sp_open s = []" by (simp add: s NewPortService_def)
  ultimately have "ser_inv s"
    by (intro ser_invI) (simp_all only: listed_def sm_ok_def, simp_all)
  then show ?thesis by (simp add: good_def started_def s)
qed

lemma ser_reachable_good: "ser_reachable s \<Longrightarrow> good s"
  by (induction rule: ser_reachable.induct) (auto intro: start_good ser_step_good)

section \<open>The data path\<close>

definition received :: "bytes option list \<Rightarrow> bytes list" where
  "received rs = List.map_filter (\<lambda>r. r) rs"

lemma received_simps [simp]:
  "received [] = []" "received (None # rs) = received rs" "received (Some d # rs) = d # received rs"
  by (simp_all add: received_def)

definition client_data :: "u64 \<Rightarrow> string \<Rightarrow> u32 \<Rightarrow> bytes \<Rightarrow> SMsgClientFrame" where
  "client_data src name sn d = (client_msg SMsg_Data src)\<lparr>scf_MsgData :=
     Some \<lparr>sd_Sn = sn, sd_Name = name, sd_NeedAck = False, sd_Data = d\<rparr>\<rparr>"

definition server_data_msg :: "u64 \<Rightarrow> string \<Rightarrow> u32 \<Rightarrow> bytes \<Rightarrow> SMsgServerFrame" where
  "server_data_msg src name sn d = (server_msg SMsg_Data src)\<lparr>ssf_MsgData :=
     Some \<lparr>sd_Sn = sn, sd_Name = name, sd_NeedAck = False, sd_Data = d\<rparr>\<rparr>"

text \<open>Frames with the payloads \<open>ds\<close> in order, numbered from \<open>sn + 1\<close>.\<close>

fun numbered :: "(u32 \<Rightarrow> bytes \<Rightarrow> 'f) \<Rightarrow> u32 \<Rightarrow> bytes list \<Rightarrow> 'f list" where
  "numbered f sn [] = []"
| "numbered f sn (d # ds) = f (sn + 1) d # numbered f (sn + 1) ds"

lemma client_readSerial_frames:
  assumes "pc_Running (sp_ports s pa)" "cl_handler (sp_clients s ca) = Some h"
  shows "sp_trace (client_readSerial ca name pa sn rs s) =
    sp_trace s @ map (WriteClient h) (numbered (client_data (sp_localId s) name) sn (received rs))"
  using assms
proof (induction rs arbitrary: sn s)
  case (Cons r rs)
  show ?case
  proof (cases r)
    case None
    then show ?thesis using Cons by simp
  next
    case (Some d)
    let ?t = "ser_emit (WriteClient h (client_data (sp_localId s) name (sn + 1) d)) s"
    have "client_readSerial ca name pa sn (r # rs) s = client_readSerial ca name pa (sn + 1) rs ?t"
      using Cons.prems Some by (simp add: client_write2Net_eq client_data_def)
    then show ?thesis using Cons.IH [of ?t "sn + 1"] Cons.prems Some by simp
  qed
qed simp

lemma server_readSerial_frames:
  assumes "pc_Running (sp_ports s pa)" "sv_handler (sp_servers s sa) = Some h"
  shows "sp_trace (server_readSerial sa pa sn rs s) = sp_trace s @ map (WriteServer h)
    (numbered (server_data_msg (sp_localId s) (sc_Name (pc_Config (sp_ports s pa)))) sn (received rs))"
  using assms
proof (induction rs arbitrary: sn s)
  case (Cons r rs)
  show ?case
  proof (cases r)
    case None
    then show ?thesis using Cons by simp
  next
    case (Some d)
    let ?t = "ser_emit (WriteServer h (server_data_msg (sp_localId s) (sc_Name (pc_Config (sp_ports s pa))) (sn + 1) d)) s"
    have "server_readSerial sa pa sn (r # rs) s = server_readSerial sa pa (sn + 1) rs ?t"
      using Cons.prems Some by (simp add: server_write2Net_eq server_data_msg_def)
    then show ?thesis using Cons.IH [of ?t "sn + 1"] Cons.prems Some by simp
  qed
qed simp

lemma server_reads_data:
  assumes "lookS s src = Some sa" "sm_load (sv_portCtx (sp_servers s sa)) name = Some pa" "sp_auth s h"
  shows "\<exists>t. go_fold (\<lambda>m. server_HandleRead env a h m now) (numbered (client_data src name) sn ds) s = Done t \<and>
    sp_trace t = sp_trace s @ map (WritePort (pc_Port (sp_ports s pa))) ds"
  using assms
proof (induction ds arbitrary: sn s)
  case (Cons d ds)
  let ?t = "ser_emit (WritePort (pc_Port (sp_ports s pa)) d) (upd_server_ctx sa (\<lambda>c. c\<lparr>sv_LastReceive := now\<rparr>) s)"
  have "server_HandleRead env a h (client_data src name (sn + 1) d) now s = Done ?t"
    using Cons.prems
    by (simp add: server_HandleRead_def client_data_def client_msg_def ProcessClientMessage_def lookS_def
        server_processMsg_def server_data_def split: option.splits)
  then show ?case using Cons.IH [of ?t "sn + 1"] Cons.prems by (simp add: lookS_def)
qed simp

lemma client_reads_data:
  assumes "lookC s src = Some ca" "sm_load (cl_portCtx (sp_clients s ca)) name = Some pa" "sp_auth s h"
  shows "\<exists>t. go_fold (\<lambda>m s. go_map fst (client_HandleRead h m now s)) (numbered (server_data_msg src name) sn ds) s = Done t \<and>
    sp_trace t = sp_trace s @ map (WritePort (pc_Port (sp_ports s pa))) ds"
  using assms
proof (induction ds arbitrary: sn s)
  case (Cons d ds)
  let ?t = "ser_emit (WritePort (pc_Port (sp_ports s pa)) d) (upd_client_ctx ca (\<lambda>c. c\<lparr>cl_LastReceive := now\<rparr>) s)"
  have "go_map fst (client_HandleRead h (server_data_msg src name (sn + 1) d) now s) = Done ?t"
    using Cons.prems
    by (simp add: client_HandleRead_def server_data_msg_def server_msg_def ProcessServerMessage_def lookC_def
        client_processMsg_def Let_def split: option.splits)
  then show ?case using Cons.IH [of ?t "sn + 1"] Cons.prems by (simp add: lookC_def)
qed simp

section \<open>The clean-up of silent connections\<close>

text \<open>What the state check relies on, the same for server and client contexts: stopping a context empties
  its table, closes its ports and leaves the times of all contexts and the tables of the others alone;
  one check stops a silent context and notes its key.\<close>

locale stoppable_contexts =
  fixes stop :: "nat \<Rightarrow> ser \<Rightarrow> ser"
    and last_seen :: "ser \<Rightarrow> nat \<Rightarrow> int"
    and table :: "ser \<Rightarrow> nat \<Rightarrow> (string, nat) smap"
    and check :: "int \<Rightarrow> u64 \<times> nat \<Rightarrow> ser \<times> u64 list \<Rightarrow> ser \<times> u64 list"
  assumes stop_last: "last_seen (stop x s) y = last_seen s y"
    and stop_table: "table (stop x s) y = (if y = x then [] else table s y)"
    and stop_open: "set (sp_open (stop x s)) = set (sp_open s) - (\<lambda>(key, pa). pc_Port (sp_ports s pa)) ` set (table s x)"
    and stop_handle: "pc_Port (sp_ports (stop x s) p) = pc_Port (sp_ports s p)"
    and stop_maps: "sp_serverCtx (stop x s) = sp_serverCtx s" "sp_clientCtx (stop x s) = sp_clientCtx s"
    and check_eq: "check now (k, x) (s, ks) = (if silent_for now (last_seen s x) then (stop x s, ks @ [k]) else (s, ks))"
begin

definition stop_all :: "(u64 \<times> nat) list \<Rightarrow> ser \<Rightarrow> ser" where
  "stop_all m s = fold (\<lambda>(k, x) t. stop x t) m s"

lemma check_all:
  "fold (check now) m (s, ks) =
     (stop_all (filter (\<lambda>(k, x). silent_for now (last_seen s x)) m) s,
      ks @ map fst (filter (\<lambda>(k, x). silent_for now (last_seen s x)) m))"
proof (induction m arbitrary: s ks)
  case (Cons e m)
  obtain k x where e: "e = (k, x)" by force
  show ?case
    using Cons [of "stop x s" "ks @ [k]"] Cons [of s ks] by (simp add: e check_eq stop_last stop_all_def)
qed (simp add: stop_all_def)

lemma stop_all_maps: "sp_serverCtx (stop_all m s) = sp_serverCtx s" "sp_clientCtx (stop_all m s) = sp_clientCtx s"
  by (induction m arbitrary: s) (auto simp: stop_all_def stop_maps)

lemma stop_all_handle: "pc_Port (sp_ports (stop_all m s) p) = pc_Port (sp_ports s p)"
  by (induction m arbitrary: s) (auto simp: stop_all_def stop_handle)

lemma stop_all_open: "set (sp_open (stop_all m s)) \<subseteq> set (sp_open s)"
proof (induction m arbitrary: s)
  case (Cons e m)
  then show ?case by (cases e) (force simp: stop_all_def stop_open)
qed (simp add: stop_all_def)

lemma stop_all_closes:
  assumes "(k, x) \<in> set m" "(key, pa) \<in> set (table s x)"
  shows "pc_Port (sp_ports s pa) \<notin> set (sp_open (stop_all m s))"
  using assms
proof (induction m arbitrary: s)
  case (Cons e m)
  obtain j y where e: "e = (j, y)" by force
  have a: "stop_all (e # m) s = stop_all m (stop y s)" by (simp add: stop_all_def e)
  show ?case
  proof (cases "y = x")
    case True
    then have "pc_Port (sp_ports s pa) \<notin> set (sp_open (stop y s))" using Cons.prems(2) by (force simp: stop_open)
    then show ?thesis using stop_all_open [of m "stop y s"] a by auto
  next
    case False
    then show ?thesis using Cons.IH [of "stop y s"] Cons.prems e unfolding a by (auto simp: stop_table stop_handle)
  qed
qed simp

text \<open>After the round a silent connection is gone from the map and its ports are closed, the others stay.\<close>

lemma check_map:
  fixes s :: ser and now :: int
  assumes "sm_ok m" "sm_load m k = Some x"
  defines "dead \<equiv> map fst (filter (\<lambda>(k, x). silent_for now (last_seen s x)) m)"
  shows "sm_load (fold sm_delete dead m) k = (if silent_for now (last_seen s x) then None else Some x)"
proof -
  have i: "(k, x) \<in> set m" using assms by (simp add: sm_load_Some_iff)
  have "k \<in> set dead \<longleftrightarrow> silent_for now (last_seen s x)"
    using i assms(1) by (auto simp: dead_def sm_ok_def image_iff dest: eq_key_imp_eq_value)
  then show ?thesis using assms(2) by (simp add: sm.load_delete_all)
qed

lemma check_closes:
  assumes "(k, x) \<in> set m" "silent_for now (last_seen s x)" "(key, pa) \<in> set (table s x)"
  shows "pc_Port (sp_ports s pa) \<notin> set (sp_open (fst (fold (check now) m (s, ks))))"
  using stop_all_closes [of k x "filter (\<lambda>(k, x). silent_for now (last_seen s x)) m" key pa s] assms
  by (simp add: check_all)

end

interpretation servers: stoppable_contexts server_Stop "\<lambda>s sa. sv_LastReceive (sp_servers s sa)"
  "\<lambda>s sa. sv_portCtx (sp_servers s sa)" check_server_ctx
  by unfold_locales (auto simp: server_Stop_effect check_server_ctx_def)

interpretation clients: stoppable_contexts client_Stop "\<lambda>s ca. cl_LastReceive (sp_clients s ca)"
  "\<lambda>s ca. cl_portCtx (sp_clients s ca)" check_client_ctx
  by unfold_locales (auto simp: client_Stop_effect check_client_ctx_def)

lemma stop_servers_clients: "sp_clients (servers.stop_all m s) = sp_clients s"
  by (induction m arbitrary: s) (auto simp: servers.stop_all_def server_Stop_effect)

section \<open>Properties\<close>


lemma start_reachable: "ser_reachable ((NewPortService 7 None)\<lparr>sp_bootstrap := True, sp_serverCtx := Some [],
    sp_clientCtx := Some [], sp_isRunning := True\<rparr>)"
  by (rule reach_start [of 7 None]) (simp add: service_Start_def NewPortService_def sm_empty_def Let_def)


text \<open>(C22) Bytes arrive. What the reader of the local port yields reaches the remote port in order and
  complete, and the other way round, as long as both tables list the port and both connections are
  registered: one frame per read, no byte reordered, dropped or repeated.\<close>

theorem serial_bytes_delivered:
  assumes "lookC C (sp_localId S) = Some ca" "sm_load (cl_portCtx (sp_clients C ca)) remote = Some pc"
    and "pc_Running (sp_ports C pc)" "cl_handler (sp_clients C ca) = Some hc" "sp_auth C hc"
    and "lookS S (sp_localId C) = Some sa" "sm_load (sv_portCtx (sp_servers S sa)) remote = Some ps"
    and "pc_Running (sp_ports S ps)" "sv_handler (sp_servers S sa) = Some hs" "sp_auth S hs"
    and "sc_Name (pc_Config (sp_ports S ps)) = remote"
  shows "(\<exists>fs S'. sp_trace (client_readSerial ca remote pc 0 reads C) = sp_trace C @ map (WriteClient hc) fs \<and>
      go_fold (\<lambda>m. server_HandleRead env a hs m now) fs S = Done S' \<and>
      sp_trace S' = sp_trace S @ map (WritePort (pc_Port (sp_ports S ps))) (received reads)) \<and>
    (\<exists>fs C'. sp_trace (server_readSerial sa ps 0 reads S) = sp_trace S @ map (WriteServer hs) fs \<and>
      go_fold (\<lambda>m s. go_map fst (client_HandleRead hc m now s)) fs C = Done C' \<and>
      sp_trace C' = sp_trace C @ map (WritePort (pc_Port (sp_ports C pc))) (received reads))"
  using client_readSerial_frames [OF assms(3,4), of remote 0 reads] server_readSerial_frames [OF assms(8,9), of 0 reads]
    server_reads_data [OF assms(6,7,10), of env a now 0 "received reads"]
    client_reads_data [OF assms(1,2,5), of now 0 "received reads"] assms(11)
  by metis

text \<open>Two connected peers: peer 1 has a client context (at 0) to peer 2, which has the server context (at 0).
  With \<open>ports\<close> the port \<open>COM1\<close> is open on both sides.\<close>

definition sample_client :: "bool \<Rightarrow> ser" where
  "sample_client ports = (NewPortService 1 None)\<lparr>sp_serverCtx := Some [], sp_clientCtx := Some [(2, 0)],
     sp_clients := (\<lambda>_. \<lparr>cl_url = [], cl_channel = Some 9, cl_handler = Some 9, cl_portList = [],
       cl_portCtx = (if ports then [(''COM1'', 3)] else []), cl_LastReceive = 0, cl_msgResult = []\<rparr>),
     sp_ports := (\<lambda>_. \<lparr>pc_Running = True, pc_Port = 3, pc_Config = default_port_config ''COM8''\<rparr>),
     sp_auth := (\<lambda>_. True), sp_fresh := 10\<rparr>"

definition sample_server :: "bool \<Rightarrow> ser" where
  "sample_server ports = (NewPortService 2 None)\<lparr>sp_serverCtx := Some [(1, 0)], sp_clientCtx := Some [],
     sp_servers := (\<lambda>_. \<lparr>sv_handler = Some 5, sv_portCtx = (if ports then [(''COM1'', 4)] else []), sv_LastReceive = 0\<rparr>),
     sp_ports := (\<lambda>_. \<lparr>pc_Running = True, pc_Port = 4, pc_Config = default_port_config ''COM1''\<rparr>),
     sp_auth := (\<lambda>_. True), sp_fresh := 10\<rparr>"

definition willing_env :: serial_env where
  "willing_env = \<lparr>se_os = \<lparr>os_open = (\<lambda>_. True), os_set = (\<lambda>_ _. True)\<rparr>, se_portWrite = (\<lambda>_ _. True),
     se_ports = Some [''COM1''], se_writable = True, se_connect = (\<lambda>_. True)\<rparr>"

theorem serial_bytes_delivered_witness:
  "(\<exists>fs S'. sp_trace (client_readSerial 0 ''COM1'' 3 0 [Some [1, 2], None, Some [3]] (sample_client True)) =
        sp_trace (sample_client True) @ map (WriteClient 9) fs \<and>
      go_fold (\<lambda>m. server_HandleRead willing_env (new_app sample_config) 5 m 100) fs (sample_server True) = Done S' \<and>
      sp_trace S' = sp_trace (sample_server True) @
        map (WritePort (pc_Port (sp_ports (sample_server True) 4))) (received [Some [1, 2], None, Some [3]])) \<and>
    (\<exists>fs C'. sp_trace (server_readSerial 0 4 0 [Some [1, 2], None, Some [3]] (sample_server True)) =
        sp_trace (sample_server True) @ map (WriteServer 5) fs \<and>
      go_fold (\<lambda>m s. go_map fst (client_HandleRead 9 m 100 s)) fs (sample_client True) = Done C' \<and>
      sp_trace C' = sp_trace (sample_client True) @
        map (WritePort (pc_Port (sp_ports (sample_client True) 3))) (received [Some [1, 2], None, Some [3]]))"
  by (rule serial_bytes_delivered)
    (simp_all add: sample_client_def sample_server_def NewPortService_def lookC_def lookS_def sm_load_def default_port_config_def)





text \<open>Reconnecting reopens nothing: \<open>ReConnectRemote\<close> does exactly what \<open>ConnectRemote\<close> does, because
  it reads the port table of the old connection after \<open>Stop\<close> has emptied it.\<close>

lemma reconnect_reopens_nothing:
  "ReConnectRemote env a io ios dstId now s = ConnectRemote env a io dstId now s"
  by (rule ReConnectRemote_eq)

text \<open>The \<open>auth\<close> flag of a connection does not mean that a peer was authenticated. An \<open>Auth\<close> message
  of an unknown peer gets no answer and still sets the flag; after it, a message that names a registered
  peer as its source is executed on that peer's ports, over a connection that peer never used.\<close>

lemma auth_flag_bypassed:
  assumes "FindPeer x a = None" "scf_MsgType m = SMsg_Auth" "scf_SrcId m = x"
    and "lookS s victim = Some sa" "sm_load (sv_portCtx (sp_servers s sa)) name = Some pa"
  shows "\<exists>t u. server_HandleRead env a h m now s = Done t \<and> sp_trace t = sp_trace s \<and>
    server_HandleRead env a h (client_data victim name sn d) now t = Done u \<and>
    sp_trace u = sp_trace s @ [WritePort (pc_Port (sp_ports s pa)) d]"
proof -
  let ?t = "s\<lparr>sp_auth := (sp_auth s)(h := True)\<rparr>"
  have "server_HandleRead env a h m now s = Done ?t"
    using assms(1-3) by (simp add: server_HandleRead_def ProcessClientMessage_def)
  moreover obtain u where
    "go_fold (\<lambda>m. server_HandleRead env a h m now) (numbered (client_data victim name) (sn - 1) [d]) ?t = Done u"
    "sp_trace u = sp_trace s @ [WritePort (pc_Port (sp_ports s pa)) d]"
    using server_reads_data [of ?t victim sa name pa h env a now "sn - 1" "[d]"] assms(4,5) by (auto simp: lookS_def)
  ultimately show ?thesis by (auto simp: go_bind_Done_iff)
qed

lemma no_peers: "FindPeer x (new_app sample_config) = None"
  by (simp add: FindPeer_def new_app_def NewRuntimeService_def)

text \<open>An answer that comes too early is lost: a client that opens a port registers its reply channel only
  after it has sent the request, so an answer handled before that is dropped; whatever arrives in that
  window, the request fails and no port is listed.\<close>

lemma early_answer_lost:
  assumes "started s"
  shows "\<exists>t r. client_OpenPort env \<lparr>io_early = answers, io_wait = []\<rparr> ca remote loc user cfg s = Done (t, r) \<and>
    \<not> or_result r \<and> tab t = tab s"
proof (cases "port_conflict ca remote loc s")
  case True
  then show ?thesis by (simp add: client_OpenPort_def op_res_def)
next
  case False
  let ?m = "open_request (sp_localId s) remote cfg"
  show ?thesis
  proof (cases rule: write2Net_cases [of ca ?m s])
    case 1
    then show ?thesis using False by (simp add: client_OpenPort_def op_res_def)
  next
    case (2 h)
    let ?s = "ser_emit (WriteClient h ?m) s"
    have "started ?s" using assms by (simp add: started_def)
    then obtain s1 where s1: "handle_arrivals answers ?s = Done s1" "same_ports ?s s1"
      using handle_arrivals_same by blast
    let ?t = "unregister_key ca (remote @ ResultOpenPort) (register_key ca (remote @ ResultOpenPort) s1)"
    have w: "await \<lparr>io_early = answers, io_wait = []\<rparr> ca (remote @ ResultOpenPort) (\<lambda>t. t) ?s = Done (?t, None)"
      using s1(1) by (simp add: await_def)
    have "tab ?t = tab s1" using same_ports_register same_ports_trans by (metis same_ports_def)
    moreover have "tab s1 = tab s" using s1(2) by (simp add: same_ports_def tab_eq_iff)
    ultimately have "tab ?t = tab s" by simp
    then show ?thesis
      using client_OpenPort_opened [OF False 2(1) w] by (simp add: opened_port_def timed_out_def op_res_def)
  qed
qed

text \<open>A client that registers again orphans its ports: the new \<open>Auth\<close> of a known peer replaces its
  context in the map without stopping the old one, whose ports stay open while no context in the map
  lists them, so neither a close request nor the state check can reach them.\<close>

lemma second_auth_orphans_ports:
  assumes "ser_inv s" "lookS s k = Some sa" "listed s (Inl sa) name pa" "\<forall>k'. lookS s k' = Some sa \<longrightarrow> k' = k"
    and "FindPeer k a = Some pr" "scf_MsgType m = SMsg_Auth" "scf_MsgAuth m \<noteq> None" "scf_SrcId m = k"
  shows "\<exists>t. server_HandleRead env a h m now s = Done t \<and> pa \<in> set (sp_open t) \<and>
    (\<forall>k' sa' name'. lookS t k' = Some sa' \<longrightarrow> \<not> listed t (Inl sa') name' pa)"
proof -
  obtain sm where sm: "sp_serverCtx s = Some sm" using assms(2) by (cases "sp_serverCtx s") (simp_all add: lookS_def)
  define s1 where "s1 = ser_emit (WriteServer h ((server_msg SMsg_AuthAck (sp_localId s))\<lparr>ssf_MsgAuthAck := Some False\<rparr>))
    (s\<lparr>sp_auth := (sp_auth s)(h := True)\<rparr>)"
  let ?t = "SetServerHandle k h now s1"
  have q: "same_ports s s1" unfolding s1_def by (rule same_ports_trans [OF same_ports_auth same_ports_emit])
  have t: "same_ports s1 ?t" by (rule same_ports_new_server [OF ser_inv_same [OF assms(1) q]])
  have tab: "tab ?t = tab s" "set (sp_open ?t) = set (sp_open s)" using q t by (simp_all add: same_ports_def)
  have "pa \<in> set (sp_open s)" using ser_invD(6) [OF assms(1)] assms(3) by blast
  moreover have look: "lookS ?t k' = (if k' = k then Some (sp_fresh s) else lookS s k')" for k'
    by (simp add: SetServerHandle_def NewServerContext_def Let_def lookS_def s1_def sm)
  moreover have "\<not> listed ?t (Inl sa') name' pa" if "lookS ?t k' = Some sa'" for k' sa' name'
  proof
    assume "listed ?t (Inl sa') name' pa"
    then have "sa' = sa" using ser_invD(5) [OF assms(1,3), of "Inl sa'" name'] tab by (simp add: listed_def)
    moreover have "sa < sp_fresh s" by (rule ser_invD(9) [OF assms(1,2)])
    ultimately show False using that assms(4) by (auto simp: look split: if_splits)
  qed
  moreover have "server_HandleRead env a h m now s = Done ?t"
    using assms(5-8) by (auto simp: server_HandleRead_def ProcessClientMessage_def s1_def sm Let_def)
  ultimately show ?thesis using tab by blast
qed

definition sample_registered_server :: ser where
  "sample_registered_server = (NewPortService 2 None)\<lparr>sp_serverCtx := Some [(1, 0)], sp_clientCtx := Some [],
     sp_servers := (\<lambda>n. \<lparr>sv_handler = Some 5, sv_portCtx = (if n = 0 then [(''COM1'', 1)] else []), sv_LastReceive = 0\<rparr>),
     sp_ports := (\<lambda>_. \<lparr>pc_Running = True, pc_Port = 1, pc_Config = default_port_config ''COM1''\<rparr>),
     sp_open := [1], sp_fresh := 2\<rparr>"

lemma sample_registered_server_inv: "ser_inv sample_registered_server"
proof -
  let ?s = sample_registered_server
  have t: "tab ?s w = (if w = Inl 0 then [(''COM1'', 1)] else [])" for w
    by (cases w) (simp_all add: sample_registered_server_def NewPortService_def)
  then have l: "listed ?s w k pa \<longleftrightarrow> w = Inl 0 \<and> k = ''COM1'' \<and> pa = 1" for w k pa
    by (auto simp: listed_def)
  have "lookS ?s k = (if k = 1 then Some 0 else None)" "lookC ?s k = None" for k
    by (simp_all add: sample_registered_server_def lookS_def lookC_def sm_load_def)
  moreover have "sp_fresh ?s = 2" "sp_open ?s = [1]" "pc_Port (sp_ports ?s n) = 1" "pc_Running (sp_ports ?s n)" for n
    by (simp_all add: sample_registered_server_def)
  ultimately show ?thesis
    by (intro ser_invI) (auto simp: l t sm_ok_def simp del: tab_Inl tab_Inr split: if_splits)
qed

definition app_with_peer :: app where
  "app_with_peer = upd_rt (\<lambda>r. r\<lparr>rt_groupPeers := Some [(1, \<lparr>pi_PeerName = [], pi_DevType = [], pi_NetAddr = 0, pi_InterAddr = 0,
     pi_PeerMac = 1, pi_NetBitLen = 24, pi_InterNetBitLen = 24, pi_Online = True, pi_LinkMode = 0, pi_LinkQuality = 0,
     pi_Stats = None, pi_Sock = None\<rparr>)]\<rparr>) (new_app sample_config)"

text \<open>A request for the parameters of a port that is neither open nor configured is never answered: the
  acknowledgement dereferences the missing configuration, and the panic is swallowed.\<close>

lemma missing_config_unanswered:
  assumes "sm_load (sv_portCtx (sp_servers s sa)) name = None" "GetLocalPortConfig name (sp_configs s) \<in> {Inl FileError, Inr None}"
  shows "server_processMsg env sa ((client_msg SMsg_GetConfig src)\<lparr>scf_MsgGetConfig := Some name\<rparr>) s = (s, None)"
  using assms by (auto simp: server_processMsg_def client_msg_def server_get_config_def)

text \<open>A start that cannot bind its port reports success and leaves a service whose operations panic.\<close>

lemma start_without_port:
  "\<exists>s. service_Start False (NewPortService mac file) = Done s \<and> deleteContext k s = Panicked NilDeref \<and>
     service_tick now s = Panicked NilDeref"
  by (simp add: service_Start_def NewPortService_def deleteContext_def service_tick_def need_def Let_def)

end
