(* ===== verification/Serial_Codec.thy ===== *)
theory Serial_Codec
  imports Proto_Codec Serial_Context
begin

text \<open>
  The framing codec of the serial connections, \<open>serial/protocol/protobuf.go\<close>: the same header and the same
  reassembly loop as \<open>netty/codec/format/protobuf.go\<close>, around another pair of messages, told apart by the
  tag of field 31, and with a receive buffer taken from a pool to which nothing is ever returned, so
  that every read starts from a zeroed array. What the stream codec guarantees carries over.
\<close>

datatype serial_frame = SerialServer SMsgServerFrame | SerialClient SMsgClientFrame

record 's serial_proto =
  sx_server :: "bytes \<Rightarrow> SMsgServerFrame option"   \<comment> \<open>\<open>proto.Unmarshal\<close>\<close>
  sx_client :: "bytes \<Rightarrow> SMsgClientFrame option"
  sx_marshal :: "serial_frame \<Rightarrow> bytes option"     \<comment> \<open>\<open>proto.Marshal\<close>\<close>
  sx_next :: "serial_frame \<Rightarrow> 's \<Rightarrow> 's run"         \<comment> \<open>\<open>ctx.HandleRead\<close>\<close>

definition serial_ProtobufCodec :: "u32 \<Rightarrow> u32 \<Rightarrow> protobufCodec go" where
  "serial_ProtobufCodec scheme maxFrameLength =
     (if maxFrameLength \<le> 0 then Panicked AssertFailed
      else Done \<lparr>cd_scheme = scheme, cd_packetBuffer = [], cd_rxBuffer = replicate PackLength 0,
                 cd_frameLength = 0, cd_maxFrameLength = maxFrameLength\<rparr>)"

definition serial_decode :: "('s, 'e) serial_proto_scheme \<Rightarrow> bool \<Rightarrow> bytes \<Rightarrow> 's \<Rightarrow> 's run" where
  "serial_decode env fromServer data a =
     (if fromServer then (case sx_server env data of None \<Rightarrow> Ret a | Some m \<Rightarrow> sx_next env (SerialServer m) a)
      else (case sx_client env data of None \<Rightarrow> Ret a | Some m \<Rightarrow> sx_next env (SerialClient m) a))"

definition serial_message :: "('s, 'e) serial_proto_scheme \<Rightarrow> bytes \<Rightarrow> 's \<Rightarrow> 's run" where
  "serial_message env data a =
     (case data of
        [] \<Rightarrow> Pan a
      | b0 # rest \<Rightarrow>
          (if b0 = 0xF8 then (case rest of [] \<Rightarrow> Pan a | b1 # _ \<Rightarrow> serial_decode env (b1 = 0x01) data a)
           else serial_decode env False data a))"

definition serial_udp_read ::
  "('s, 'e) serial_proto_scheme \<Rightarrow> bytes \<Rightarrow> protobufCodec \<Rightarrow> 's \<Rightarrow> (protobufCodec \<times> 's) run" where
  "serial_udp_read env packet c a =
     (let buf = go_copy (replicate PackLength 0) 0 packet; rn = int (min (length packet) PackLength);
          (frameLength, num) = Uvarint32 buf
      in if num = 0 \<and> rn < 5 \<or> frameLength > cd_maxFrameLength c then Ret (c, a)
         else if num \<ge> rn - 2 then Ret (c, a)
         else if num < 0 then Pan (c, a)
         else run_bind (serial_decode env (buf ! nat num = 0xF8 \<and> buf ! (nat num + 1) = 0x01)
                (take (nat rn - nat num) (drop (nat num) buf)) a) (\<lambda>b. Ret (c, b)) (\<lambda>b. (c, b)))"

definition serial_HandleRead ::
  "('s, 'e) serial_proto_scheme \<Rightarrow> bytes \<Rightarrow> bool \<Rightarrow> protobufCodec \<Rightarrow> 's \<Rightarrow> (protobufCodec \<times> 's) run" where
  "serial_HandleRead env chunk err c a =
     (if chunk = [] \<and> err then Ret (c, a)
      else if cd_scheme c \<noteq> 0 then serial_udp_read env chunk c a
      else Ret (tcp_read (serial_message env) chunk (c\<lparr>cd_rxBuffer := replicate PackLength 0\<rparr>) a))"

definition serial_HandleWrite :: "('s, 'e) serial_proto_scheme \<Rightarrow> serial_frame \<Rightarrow> bytes list option" where
  "serial_HandleWrite env m =
     (case sx_marshal env m of
        None \<Rightarrow> None
      | Some data \<Rightarrow> (case put_header (length data) of Done head \<Rightarrow> Some [head, data] | Panicked _ \<Rightarrow> None))"

section \<open>Streams of serial messages\<close>

definition serial_deliver :: "('s, 'e) serial_proto_scheme \<Rightarrow> bytes \<Rightarrow> 's \<Rightarrow> 's" where
  "serial_deliver env f a = run_state (serial_message env f a)"

lemma serial_message_Ret:
  assumes "\<forall>m a. \<exists>b. sx_next env m a = Ret b" "2 \<le> length f"
  shows "serial_message env f a = Ret (serial_deliver env f a)"
proof -
  obtain b0 b1 r where f: "f = b0 # b1 # r"
    using assms(2) by (cases f; cases "tl f") auto
  have "\<exists>b. serial_message env f a = Ret b"
    using assms(1) by (simp add: f serial_message_def serial_decode_def split: option.split)
  then show ?thesis by (auto simp: serial_deliver_def)
qed

fun serial_reads :: "('s, 'e) serial_proto_scheme \<Rightarrow> bytes list \<Rightarrow> protobufCodec \<times> 's \<Rightarrow> (protobufCodec \<times> 's) run" where
  "serial_reads env [] s = Ret s"
| "serial_reads env (k # ks) s =
     run_bind (serial_HandleRead env k False (fst s) (snd s)) (serial_reads env ks) (\<lambda>t. t)"

lemma pending_rxBuffer [simp]: "pending (c\<lparr>cd_rxBuffer := b\<rparr>) = pending c"
  by (simp add: pending_def)

text \<open>Writes of one side, cut at will, are the messages the other side handles, in order.\<close>

lemma serial_stream:
  assumes "\<forall>m a. \<exists>b. sx_next env m a = Ret b" "\<forall>f \<in> set fs. 2 \<le> length f \<and> length f \<le> 2 * 1024 * 1024"
    and "pending c @ concat chunks = concat (map enc fs)" "\<forall>k \<in> set chunks. length k \<le> PackLength"
    and "cd_scheme c = 0" "chunks \<noteq> []"
  shows "\<exists>c'. serial_reads env chunks (c, a) = Ret (c', fold (serial_deliver env) fs a) \<and> pending c' = []"
  using assms(2-6)
proof (induction chunks arbitrary: fs c a)
  case (Cons k ks fs c a)
  let ?c = "c\<lparr>cd_rxBuffer := replicate PackLength 0\<rparr>"
  obtain c1 a1 where r: "tcp_read (serial_message env) k ?c a = (c1, a1)" by force
  have f: "\<forall>f \<in> set fs. sendable f \<and> (\<forall>a. serial_message env f a = Ret (serial_deliver env f a))"
    using assms(1) Cons.prems(1) by (auto simp: sendable_def MaxTcpFrame_def serial_message_Ret)
  have "pending ?c @ k @ concat ks = concat (map enc fs)" "length k \<le> length (cd_rxBuffer ?c)"
    using Cons.prems(2,3) by simp_all
  from tcp_read_stream [OF f this, of a] r obtain gs hs where g: "fs = gs @ hs" "a1 = fold (serial_deliver env) gs a"
      "pending c1 @ concat ks = concat (map enc hs)" "hs \<noteq> [] \<longrightarrow> length (pending c1) < length (enc (hd hs))" by auto
  have s: "cd_scheme c1 = 0" using tcp_read_scheme [of "serial_message env" k ?c a] r Cons.prems(4) by simp
  have e: "serial_reads env (k # ks) (c, a) = serial_reads env ks (c1, a1)"
    using r Cons.prems(4) by (simp add: serial_HandleRead_def)
  show ?case
  proof (cases "ks = []")
    case True
    then have "hs = []" using g(3,4) by (cases hs) auto
    then show ?thesis using g True e by auto
  next
    case False
    have "\<exists>c'. serial_reads env ks (c1, a1) = Ret (c', fold (serial_deliver env) hs a1) \<and> pending c' = []"
      by (rule Cons.IH) (use Cons.prems g s False in auto)
    then show ?thesis using e g by simp
  qed
qed simp

lemma serial_HandleWrite_enc: "serial_HandleWrite env m = Some parts \<Longrightarrow> \<exists>f. sx_marshal env m = Some f \<and> concat parts = enc f"
  by (auto simp: serial_HandleWrite_def put_header_Done enc_def split: option.splits)

end
