(* ===== verification/Message_Codecs.thy ===== *)
theory Message_Codecs
  imports VPrelude
begin

text \<open>
  The small parts of the channel library that messages pass: \<open>netty/utils/reader.go\<close>, \<open>netty/utils/assert.go\<close>, the text codec of
  \<open>netty/codec/format/text.go\<close>, \<open>netty/codec/codec.go\<close>, \<open>netty/exception.go\<close> and \<open>netty/executor.go\<close>. A reader is what is left to read of it and
  whether it ends with an error.
\<close>

section \<open>Messages\<close>

record reader =
  rd_chunks :: "bytes list"   \<comment> \<open>what the next calls of \<open>Read\<close> deliver\<close>
  rd_fails :: bool

datatype 'x message = MReader reader | MBytes bytes | MSlices "bytes list" | MString bytes | MOther 'x

definition reader_of :: "bytes list \<Rightarrow> reader" where
  "reader_of bs = \<lparr>rd_chunks = bs, rd_fails = False\<rparr>"

text \<open>\<open>io.ReadAll\<close>: everything, or the error and what came before it.\<close>

definition ReadAll :: "reader \<Rightarrow> bytes \<times> bool" where
  "ReadAll r = (concat (rd_chunks r), rd_fails r)"

text \<open>\<open>ToReader\<close> and \<open>ToBytes\<close>; \<open>None\<close> is an unrecognized type. \<open>ToBytes\<close> of a reader may carry an error.\<close>

definition ToReader :: "'x message \<Rightarrow> reader option" where
  "ToReader m = (case m of MReader r \<Rightarrow> Some r | MBytes b \<Rightarrow> Some (reader_of [b]) | MSlices bs \<Rightarrow> Some (reader_of bs)
     | MString b \<Rightarrow> Some (reader_of [b]) | MOther x \<Rightarrow> None)"

definition ToBytes :: "'x message \<Rightarrow> (bytes \<times> bool) option" where
  "ToBytes m = (case m of MReader r \<Rightarrow> Some (ReadAll r) | MBytes b \<Rightarrow> Some (b, False)
     | MSlices bs \<Rightarrow> Some (fold (\<lambda>b buffer. buffer @ b) bs [], False) | MString b \<Rightarrow> Some (b, False) | MOther x \<Rightarrow> None)"

text \<open>\<open>Assert\<close>, \<open>AssertIf\<close>, \<open>AssertLength\<close>, \<open>AssertLong\<close> and \<open>AssertBytes\<close>: a panic when there is an error.\<close>

definition Assert :: "bool \<Rightarrow> unit go" where
  "Assert err = (if err then Panicked AssertFailed else Done ())"

definition AssertIf :: "bool \<Rightarrow> unit go" where
  "AssertIf ex = (if ex then Panicked AssertFailed else Done ())"

definition Assert_value :: "'a \<Rightarrow> bool \<Rightarrow> 'a go" where
  "Assert_value n err = (if err then Panicked AssertFailed else Done n)"

definition MustToReader :: "'x message \<Rightarrow> reader go" where
  "MustToReader m = (case ToReader m of None \<Rightarrow> go_bind (Assert True) (\<lambda>_. Panicked NilDeref) | Some r \<Rightarrow> Done r)"

definition MustToBytes :: "'x message \<Rightarrow> bytes go" where
  "MustToBytes m = (case ToBytes m of None \<Rightarrow> go_bind (Assert True) (\<lambda>_. Done [])
     | Some (b, err) \<Rightarrow> go_bind (Assert err) (\<lambda>_. Done b))"

section \<open>Byte readers\<close>

text \<open>\<open>ReadByte\<close> of the wrapper: the count that \<open>Read\<close> returns is not looked at. The result is the byte, whether there was an error, and
  the reader.\<close>

definition read1 :: "reader \<Rightarrow> nat \<times> u8 \<times> bool \<times> reader" where
  "read1 r = (case rd_chunks r of
       [] \<Rightarrow> (0, 0, True, r)
     | [] # cs \<Rightarrow> (0, 0, False, r\<lparr>rd_chunks := cs\<rparr>)
     | (b # bs) # cs \<Rightarrow> (1, b, False, r\<lparr>rd_chunks := (if bs = [] then cs else bs # cs)\<rparr>))"

definition ReadByte :: "reader \<Rightarrow> u8 \<times> bool \<times> reader" where
  "ReadByte r = (let (n, b, err, r1) = read1 r in (b, err, r1))"

section \<open>The text codec\<close>

definition text_HandleRead :: "'x message \<Rightarrow> 'x message go" where
  "text_HandleRead m = go_map MString (MustToBytes m)"

definition text_HandleWrite :: "'x message \<Rightarrow> 'x message" where
  "text_HandleWrite m = (case m of MString b \<Rightarrow> MReader (reader_of [b]) | _ \<Rightarrow> m)"

text \<open>\<open>Combine\<close>: what is read goes to the first handler, what is written to the second.\<close>

record 'x codec =
  co_name :: string
  co_read :: "'x message \<Rightarrow> 'x message go"
  co_write :: "'x message \<Rightarrow> 'x message go"

definition Combine :: "string \<Rightarrow> 'x codec \<Rightarrow> 'x codec \<Rightarrow> 'x codec" where
  "Combine name inbound outbound = \<lparr>co_name = name, co_read = co_read inbound, co_write = co_write outbound\<rparr>"

definition TextCodec :: "'x codec" where
  "TextCodec = \<lparr>co_name = ''text-codec'', co_read = text_HandleRead, co_write = (\<lambda>m. Done (text_HandleWrite m))\<rparr>"

section \<open>Exceptions and the executor\<close>

datatype exception_error = Wrapped string | Formatted string

record exc =
  ex_error :: exception_error
  ex_stack :: string

text \<open>\<open>AsException\<close>: an error is kept, anything else is printed into one.\<close>

definition AsException :: "string + string \<Rightarrow> string \<Rightarrow> exc" where
  "AsException e stack = \<lparr>ex_error = (case e of Inl m \<Rightarrow> Wrapped m | Inr v \<Rightarrow> Formatted v), ex_stack = stack\<rparr>"

definition exc_Error :: "exc \<Rightarrow> string" where
  "exc_Error e = (case ex_error e of Wrapped m \<Rightarrow> m | Formatted m \<Rightarrow> m)"

text \<open>\<open>PrintStackTrace\<close>: the text goes to the writers in order, up to the first that fails; without one, to the standard error output.\<close>

datatype sink = Stderr | Writer nat

fun multi_write :: "(sink \<Rightarrow> bool) \<Rightarrow> sink list \<Rightarrow> string \<Rightarrow> (sink \<times> string) list" where
  "multi_write ok [] t = []"
| "multi_write ok (w # ws) t = (if ok w then (w, t) # multi_write ok ws t else [])"

definition PrintStackTrace :: "(sink \<Rightarrow> bool) \<Rightarrow> nat list \<Rightarrow> exc \<Rightarrow> (sink \<times> string) list" where
  "PrintStackTrace ok writer e =
     multi_write ok (if writer = [] then [Stderr] else map Writer writer) (''exception: '' @ exc_Error e @ [CHR 0x0A] @ ex_stack e)"

text \<open>The executor runs the rest of the pipeline as a task; a panic in it becomes an exception event of the channel.\<close>

datatype 'e task_result = Handled 'e | FiredException panic

definition executor_task :: "('m \<Rightarrow> 'e go) \<Rightarrow> 'm \<Rightarrow> 'e task_result" where
  "executor_task handle m = (case handle m of Done e \<Rightarrow> Handled e | Panicked r \<Rightarrow> FiredException r)"

section \<open>Facts\<close>

lemma fold_append_concat: "fold (\<lambda>b buffer. buffer @ b) bs acc = acc @ concat bs"
  by (induction bs arbitrary: acc) auto

text \<open>Reading a message and taking its bytes agree: for every kind of message the handlers accept, reading to the end what \<open>ToReader\<close>
  gives yields what \<open>ToBytes\<close> yields, with the same error, and both refuse the same messages; \<open>MustToReader\<close> and \<open>MustToBytes\<close> panic on those
  and, for the bytes, on a reader that fails. A text that is written comes back as the same text.\<close>

lemma reader_bytes_agree:
  "map_option ReadAll (ToReader m) = ToBytes m \<and>
   is_done (MustToReader m) = (ToReader m \<noteq> None) \<and>
   MustToBytes m = (case ToReader m of Some r \<Rightarrow> if rd_fails r then Panicked AssertFailed else Done (concat (rd_chunks r))
     | None \<Rightarrow> Panicked AssertFailed) \<and>
   go_bind (co_write TextCodec (MString t)) (co_read TextCodec) = Done (MString t :: 'x message)"
proof -
  have 1: "map_option ReadAll (ToReader m) = ToBytes m"
    by (cases m) (simp_all add: ToReader_def ToBytes_def ReadAll_def reader_of_def fold_append_concat)
  have 2: "MustToBytes m = (case ToReader m of Some r \<Rightarrow> if rd_fails r then Panicked AssertFailed else Done (concat (rd_chunks r))
     | None \<Rightarrow> Panicked AssertFailed)"
    by (cases m) (simp_all add: MustToBytes_def ToReader_def ToBytes_def ReadAll_def reader_of_def Assert_def fold_append_concat)
  have 3: "is_done (MustToReader m) = (ToReader m \<noteq> None)" by (auto simp: MustToReader_def Assert_def split: option.split)
  have 4: "go_bind (co_write TextCodec (MString t)) (co_read TextCodec) = Done (MString t :: 'x message)"
    by (simp add: TextCodec_def text_HandleWrite_def text_HandleRead_def MustToBytes_def ToBytes_def ReadAll_def reader_of_def Assert_def)
  show ?thesis using 1 2 3 4 by blast
qed

text \<open>A reader that delivers nothing without an error makes the wrapper report a zero byte that was not read.\<close>

lemma ReadByte_spurious: "rd_chunks r = [] # cs \<Longrightarrow> ReadByte r = (0, False, r\<lparr>rd_chunks := cs\<rparr>)"
  by (simp add: ReadByte_def read1_def)

end
