(* ===== verification/Transport.thy ===== *)
theory Transport
  imports Addr_Utils
begin

text \<open>
  Addresses and sockets of the network library: \<open>netty/transport/options.go\<close>, the schemes of
  \<open>netty/transport/transport.go\<close>, the TCP transport and factory (\<open>netty/transport/tcp\<close>) and the client side
  of the UDP factory. The part of \<open>net/url\<close> and \<open>net\<close> that takes an address apart is modelled for addresses
  of letters, digits, \<open>.\<close>, \<open>-\<close>, \<open>:\<close> and \<open>/\<close>, which are all the program forms; other characters give the
  error \<open>UrlOther\<close>. Sockets are numbers; whether the system can open one is an input.
\<close>

section \<open>Addresses\<close>

record URL =
  u_Scheme :: string
  u_Opaque :: string
  u_Host :: string
  u_Path :: string

datatype url_error = MissingScheme | ColonInSegment | InvalidPort | UrlOther

definition is_alpha :: "char \<Rightarrow> bool" where
  "is_alpha c = (let n = of_char c :: nat in 65 \<le> n \<and> n \<le> 90 \<or> 97 \<le> n \<and> n \<le> 122)"

definition is_digit :: "char \<Rightarrow> bool" where
  "is_digit c = (let n = of_char c :: nat in 48 \<le> n \<and> n \<le> 57)"

definition url_char :: "char \<Rightarrow> bool" where
  "url_char c \<longleftrightarrow> is_alpha c \<or> is_digit c \<or> c \<in> {CHR ''.'', CHR ''-'', CHR '':'', CHR ''/''}"

text \<open>\<open>getScheme\<close>: \<open>acc\<close> is what was read. Letters are kept as they are; \<open>ToLower\<close> is applied by the caller.\<close>

fun getScheme :: "string \<Rightarrow> string \<Rightarrow> url_error + (string \<times> string)" where
  "getScheme acc [] = Inr ([], acc)"
| "getScheme acc (c # cs) =
     (if is_alpha c then getScheme (acc @ [c]) cs
      else if is_digit c \<or> c = CHR ''.'' \<or> c = CHR ''-'' then
        (if acc = [] then Inr ([], acc @ c # cs) else getScheme (acc @ [c]) cs)
      else if c = CHR '':'' then (if acc = [] then Inl MissingScheme else Inr (acc, cs))
      else Inr ([], acc @ c # cs))"

definition to_lower :: "char \<Rightarrow> char" where
  "to_lower c = (let n = of_char c :: nat in if 65 \<le> n \<and> n \<le> 90 then char_of (n + 32) else c)"

text \<open>The last colon of a host separates the port, which must be digits.\<close>

definition after_last :: "char \<Rightarrow> string \<Rightarrow> string" where
  "after_last c s = rev (takeWhile (\<lambda>x. x \<noteq> c) (rev s))"

definition before_last :: "char \<Rightarrow> string \<Rightarrow> string" where
  "before_last c s = rev (drop 1 (dropWhile (\<lambda>x. x \<noteq> c) (rev s)))"

definition valid_host :: "string \<Rightarrow> bool" where
  "valid_host h \<longleftrightarrow> CHR '':'' \<in> set h \<longrightarrow> list_all is_digit (after_last CHR '':'' h)"

definition url_Parse :: "string \<Rightarrow> url_error + URL" where
  "url_Parse s =
     (if \<not> list_all url_char s then Inl UrlOther
      else case getScheme [] s of
        Inl er \<Rightarrow> Inl er
      | Inr (sch, rest) \<Rightarrow>
          (let scheme = map to_lower sch in
           if take 1 rest \<noteq> ''/'' \<and> scheme \<noteq> [] then Inr \<lparr>u_Scheme = scheme, u_Opaque = rest, u_Host = [], u_Path = []\<rparr>
           else if take 1 rest \<noteq> ''/'' \<and> CHR '':'' \<in> set (takeWhile (\<lambda>c. c \<noteq> CHR ''/'') rest) then Inl ColonInSegment
           else if (scheme \<noteq> [] \<or> take 3 rest \<noteq> ''///'') \<and> take 2 rest = ''//'' then
             (let a = drop 2 rest; host = takeWhile (\<lambda>c. c \<noteq> CHR ''/'') a; path = dropWhile (\<lambda>c. c \<noteq> CHR ''/'') a
              in if valid_host host then Inr \<lparr>u_Scheme = scheme, u_Opaque = [], u_Host = host, u_Path = path\<rparr>
                 else Inl InvalidPort)
           else Inr \<lparr>u_Scheme = scheme, u_Opaque = [], u_Host = [], u_Path = rest\<rparr>))"

text \<open>The option \<open>WithAddress\<close>: an address without a scheme is tried again as an authority.\<close>

definition WithAddress :: "string \<Rightarrow> url_error + URL" where
  "WithAddress address =
     (let r = (case url_Parse address of
            Inl ColonInSegment \<Rightarrow> url_Parse (''//'' @ address)
          | Inl MissingScheme \<Rightarrow> url_Parse (''//'' @ address)
          | r0 \<Rightarrow> r0)
      in case r of Inl er \<Rightarrow> Inl er | Inr u \<Rightarrow> Inr (if u_Path u = [] then u\<lparr>u_Path := ''/''\<rparr> else u))"

section \<open>Schemes\<close>

type_synonym Schemes = "string list"

fun scheme_indexOf :: "nat \<Rightarrow> Schemes \<Rightarrow> string \<Rightarrow> int" where
  "scheme_indexOf i [] sch = - 1"
| "scheme_indexOf i (s # ss) sch = (if s = sch then int i else scheme_indexOf (i + 1) ss sch)"

definition scheme_Valid :: "Schemes \<Rightarrow> string \<Rightarrow> bool" where
  "scheme_Valid ss sch \<longleftrightarrow> - 1 \<noteq> scheme_indexOf 0 ss sch"

definition scheme_Add :: "Schemes \<Rightarrow> string \<Rightarrow> Schemes" where
  "scheme_Add ss sch = (if - 1 \<noteq> scheme_indexOf 0 ss sch then ss else ss @ [sch])"

definition ValidURL :: "Schemes \<Rightarrow> string \<Rightarrow> bool" where
  "ValidURL ss address = (case url_Parse address of Inl _ \<Rightarrow> False | Inr u \<Rightarrow> scheme_Valid ss (u_Scheme u))"

definition FixedURL :: "Schemes \<Rightarrow> URL \<Rightarrow> URL option" where
  "FixedURL ss u = (if u_Scheme u = [] then Some (u\<lparr>u_Scheme := ss ! 0\<rparr>)
     else if \<not> scheme_Valid ss (u_Scheme u) then None else Some u)"

definition tcp_Schemes :: Schemes where "tcp_Schemes = [''tcp'', ''tcp4'', ''tcp6'']"
definition udp_Schemes :: Schemes where "udp_Schemes = [''udp'', ''udp4'', ''udp6'']"

text \<open>\<open>net.SplitHostPort\<close> (no brackets occur in these hosts), \<open>net.JoinHostPort\<close> with an empty host.\<close>

definition SplitHostPort :: "string \<Rightarrow> (string \<times> string) option" where
  "SplitHostPort h = (if CHR '':'' \<notin> set h then None
     else if CHR '':'' \<in> set (before_last CHR '':'' h) then None
     else Some (before_last CHR '':'' h, after_last CHR '':'' h))"

definition AddressWithoutHost :: "URL \<Rightarrow> string go" where
  "AddressWithoutHost u = (case SplitHostPort (u_Host u) of None \<Rightarrow> Panicked AssertFailed | Some (_, port) \<Rightarrow> Done ('':'' @ port))"

section \<open>Options\<close>

record TcpOptions =
  to_Timeout :: int
  to_KeepAlive :: bool
  to_KeepAlivePeriod :: int
  to_Linger :: int
  to_NoDelay :: bool
  to_SockBuf :: int

definition DefaultOption :: TcpOptions where
  "DefaultOption = \<lparr>to_Timeout = 5000000000, to_KeepAlive = True, to_KeepAlivePeriod = 60000000000, to_Linger = -1,
     to_NoDelay = True, to_SockBuf = 0\<rparr>"

record UdpOptions =
  uo_MaxPacketSize :: int
  uo_MaxBacklog :: int

definition DefaultOptions :: UdpOptions where
  "DefaultOptions = \<lparr>uo_MaxPacketSize = 1400, uo_MaxBacklog = 16\<rparr>"

text \<open>The context carries at most one value of each kind of options.\<close>

record Options =
  op_Address :: "URL option"
  op_LocalAddr :: "string option"
  op_tcp :: "TcpOptions option"
  op_udp :: "UdpOptions option"

datatype Option = OptAddress string | OptContext | OptLocalAddr string | OptTcp TcpOptions | OptUdp UdpOptions

fun apply_option :: "Option \<Rightarrow> Options \<Rightarrow> url_error + Options" where
  "apply_option (OptAddress a) o' = (case WithAddress a of Inl er \<Rightarrow> Inl er | Inr u \<Rightarrow> Inr (o'\<lparr>op_Address := Some u\<rparr>))"
| "apply_option OptContext o' = Inr (o'\<lparr>op_tcp := None, op_udp := None\<rparr>)"
| "apply_option (OptLocalAddr a) o' = Inr (o'\<lparr>op_LocalAddr := Some a\<rparr>)"
| "apply_option (OptTcp t) o' = Inr (o'\<lparr>op_tcp := Some t\<rparr>)"
| "apply_option (OptUdp u) o' = Inr (o'\<lparr>op_udp := Some u\<rparr>)"

fun Apply :: "Option list \<Rightarrow> Options \<Rightarrow> url_error + Options" where
  "Apply [] o' = Inr o'"
| "Apply (x # xs) o' = (case apply_option x o' of Inl er \<Rightarrow> Inl er | Inr p \<Rightarrow> Apply xs p)"

definition ParseOptions :: "Option list \<Rightarrow> url_error + Options" where
  "ParseOptions xs = Apply xs \<lparr>op_Address = None, op_LocalAddr = None, op_tcp = None, op_udp = None\<rparr>"

definition tcp_FromContext :: "Options \<Rightarrow> TcpOptions \<Rightarrow> TcpOptions" where
  "tcp_FromContext o' def = (case op_tcp o' of Some v \<Rightarrow> v | None \<Rightarrow> def)"

definition udp_FromContext :: "Options \<Rightarrow> UdpOptions \<Rightarrow> UdpOptions" where
  "udp_FromContext o' def = (case op_udp o' of Some v \<Rightarrow> v | None \<Rightarrow> def)"

section \<open>TCP\<close>

text \<open>The socket options in the order the code sets them; \<open>fails\<close> says which call returns an error. The
  connection is returned with the error, and nobody closes it.\<close>

datatype sock_opt = SetKeepAlive bool | SetKeepAlivePeriod int | SetLinger int | SetNoDelay bool | SetReadBuffer int
  | SetWriteBuffer int

fun set_all :: "(sock_opt \<Rightarrow> bool) \<Rightarrow> sock_opt list \<Rightarrow> sock_opt list \<times> bool" where
  "set_all fails [] = ([], True)"
| "set_all fails (x # xs) = (if fails x then ([], False) else let (done', ok) = set_all fails xs in (x # done', ok))"

definition applyOptions :: "(sock_opt \<Rightarrow> bool) \<Rightarrow> TcpOptions \<Rightarrow> sock_opt list \<times> bool" where
  "applyOptions fails t = set_all fails
     ([SetKeepAlive (to_KeepAlive t), SetKeepAlivePeriod (to_KeepAlivePeriod t), SetLinger (to_Linger t),
       SetNoDelay (to_NoDelay t)] @
      (if to_SockBuf t > 0 then [SetReadBuffer (to_SockBuf t), SetWriteBuffer (to_SockBuf t)] else []))"

text \<open>Sockets: the listening sockets that are open, the connections that are open, and the next number.\<close>

record sockets =
  sk_listening :: "nat list"
  sk_conns :: "nat list"
  sk_next :: nat

record tcpFactory =
  tf_listener :: "nat option"
  tf_options :: "TcpOptions option"

definition tcp_New :: tcpFactory where "tcp_New = \<lparr>tf_listener = None, tf_options = None\<rparr>"

definition close_listener :: "nat \<Rightarrow> sockets \<Rightarrow> sockets" where
  "close_listener l k = k\<lparr>sk_listening := removeAll l (sk_listening k)\<rparr>"

definition open_listener :: "sockets \<Rightarrow> nat \<times> sockets" where
  "open_listener k = (sk_next k, k\<lparr>sk_listening := sk_next k # sk_listening k, sk_next := sk_next k + 1\<rparr>)"

definition open_conn :: "sockets \<Rightarrow> nat \<times> sockets" where
  "open_conn k = (sk_next k, k\<lparr>sk_conns := sk_next k # sk_conns k, sk_next := sk_next k + 1\<rparr>)"

definition close_conn :: "nat \<Rightarrow> sockets \<Rightarrow> sockets" where
  "close_conn t k = k\<lparr>sk_conns := removeAll t (sk_conns k)\<rparr>"

definition tcp_Close :: "tcpFactory \<Rightarrow> sockets \<Rightarrow> tcpFactory \<times> sockets" where
  "tcp_Close f k = (case tf_listener f of None \<Rightarrow> (f, k) | Some l \<Rightarrow> (f\<lparr>tf_listener := None\<rparr>, close_listener l k))"

datatype net_error = BadUrl url_error | BadScheme | ResolveFailed | ListenFailed | DialFailed | OptionFailed | NoListener | AcceptFailed

definition tcp_Listen :: "bool \<Rightarrow> Options \<Rightarrow> tcpFactory \<Rightarrow> sockets \<Rightarrow> (tcpFactory \<times> sockets \<times> net_error option) go" where
  "tcp_Listen ok o' f k = (case op_Address o' of None \<Rightarrow> Panicked NilDeref | Some u \<Rightarrow>
     (case FixedURL tcp_Schemes u of
        None \<Rightarrow> Done (f, k, Some BadScheme)
      | Some u1 \<Rightarrow>
          (let (f1, k1) = tcp_Close f k in
           go_map (\<lambda>_. if ok then
               (let (l, k2) = open_listener k1
                in (f1\<lparr>tf_listener := Some l, tf_options := Some (tcp_FromContext o' DefaultOption)\<rparr>, k2, None))
             else (f1, k1, Some ListenFailed)) (AddressWithoutHost u1))))"

definition tcp_Accept :: "bool \<Rightarrow> (sock_opt \<Rightarrow> bool) \<Rightarrow> tcpFactory \<Rightarrow> sockets \<Rightarrow> (sockets \<times> (net_error + nat)) go" where
  "tcp_Accept ok fails f k = (case tf_listener f of None \<Rightarrow> Done (k, Inl NoListener)
     | Some l \<Rightarrow>
         if \<not> ok \<or> l \<notin> set (sk_listening k) then Done (k, Inl AcceptFailed)
         else (let (t, k1) = open_conn k in
           case tf_options f of None \<Rightarrow> Panicked NilDeref
           | Some opts \<Rightarrow> Done (k1, if snd (applyOptions fails opts) then Inr t else Inl OptionFailed)))"

definition tcp_Connect :: "bool \<Rightarrow> (sock_opt \<Rightarrow> bool) \<Rightarrow> Options \<Rightarrow> sockets \<Rightarrow> (sockets \<times> (net_error + nat)) go" where
  "tcp_Connect ok fails o' k = (case op_Address o' of None \<Rightarrow> Panicked NilDeref | Some u \<Rightarrow>
     (case FixedURL tcp_Schemes u of
        None \<Rightarrow> Done (k, Inl BadScheme)
      | Some u1 \<Rightarrow>
          if \<not> ok then Done (k, Inl DialFailed)
          else (let (t, k1) = open_conn k; opts = tcp_FromContext o' DefaultOption
                in Done (k1, if snd (applyOptions fails opts) then Inr t else Inl OptionFailed))))"

text \<open>The UDP client: the address is resolved first, then dialled.\<close>

definition udp_Connect :: "bool \<Rightarrow> bool \<Rightarrow> Options \<Rightarrow> sockets \<Rightarrow> (sockets \<times> (net_error + nat)) go" where
  "udp_Connect resolves ok o' k = (case op_Address o' of None \<Rightarrow> Panicked NilDeref | Some u \<Rightarrow>
     (case FixedURL udp_Schemes u of
        None \<Rightarrow> Done (k, Inl BadScheme)
      | Some u1 \<Rightarrow>
          if \<not> resolves then Done (k, Inl ResolveFailed)
          else if \<not> ok then Done (k, Inl DialFailed)
          else (let (t, k1) = open_conn k in Done (k1, Inr t))))"

section \<open>Forms of an address\<close>

lemma scheme_Valid_iff: "scheme_Valid ss s \<longleftrightarrow> s \<in> set ss"
proof -
  have "scheme_indexOf i ss s = - 1 \<longleftrightarrow> s \<notin> set ss" for i
    by (induction ss arbitrary: i) auto
  then show ?thesis by (metis scheme_Valid_def)
qed

lemma scheme_Add_set: "set (scheme_Add ss s) = insert s (set ss)" "distinct ss \<Longrightarrow> distinct (scheme_Add ss s)"
  using scheme_Valid_iff [of ss s] by (auto simp: scheme_Add_def scheme_Valid_def)

lemma getScheme_name:
  assumes "list_all (\<lambda>c. is_alpha c \<or> is_digit c \<or> c = CHR ''.'' \<or> c = CHR ''-'') n" "acc \<noteq> []"
  shows "getScheme acc (n @ CHR '':'' # p) = Inr (acc @ n, p)"
  using assms by (induction n arbitrary: acc) (auto simp: is_alpha_def is_digit_def)

lemma getScheme_digit: "\<not> is_alpha c \<Longrightarrow> is_digit c \<Longrightarrow> getScheme [] (c # cs) = Inr ([], c # cs)"
  by simp

lemma getScheme_colon: "getScheme [] (CHR '':'' # cs) = Inl MissingScheme"
  by (simp add: is_alpha_def is_digit_def)

lemma getScheme_slash: "getScheme [] (CHR ''/'' # cs) = Inr ([], CHR ''/'' # cs)"
  by (simp add: is_alpha_def is_digit_def)

declare getScheme.simps(2) [simp del]

lemma takeWhile_noslash: "CHR ''/'' \<notin> set s \<Longrightarrow> takeWhile (\<lambda>c. c \<noteq> CHR ''/'') s = s"
  "CHR ''/'' \<notin> set s \<Longrightarrow> dropWhile (\<lambda>c. c \<noteq> CHR ''/'') s = []"
  by (auto simp: takeWhile_eq_all_conv)

lemma url_Parse_authority:
  assumes "list_all url_char hp" "CHR ''/'' \<notin> set hp" "valid_host hp" "hp \<noteq> []"
  shows "url_Parse (''//'' @ hp) = Inr \<lparr>u_Scheme = [], u_Opaque = [], u_Host = hp, u_Path = []\<rparr>"
proof -
  obtain c cs where hp: "hp = c # cs" "c \<noteq> CHR ''/''" using assms(2,4) by (cases hp) auto
  have "url_char CHR ''/''" by (simp add: url_char_def)
  then show ?thesis
    using assms hp by (simp add: url_Parse_def getScheme_slash Let_def takeWhile_noslash)
qed

text \<open>What \<open>Listen\<close> and \<open>Connect\<close> make of an address \<open>host:port\<close>. Written \<open>//host:port\<close> it is the host of the URL;
  so it is without the slashes when it starts with a digit or with the colon, as IP addresses and
  \<open>:port\<close> do. But a host name without slashes is taken for a scheme, and both factories then refuse the
  address, although the code means to be compatible with \<open>host:port\<close>.\<close>

lemma address_forms:
  assumes "list_all url_char hp" "CHR ''/'' \<notin> set hp" "valid_host hp" "CHR '':'' \<in> set hp"
  shows "WithAddress (''//'' @ hp) = Inr \<lparr>u_Scheme = [], u_Opaque = [], u_Host = hp, u_Path = ''/''\<rparr> \<and>
    (is_digit (hd hp) \<or> hd hp = CHR '':'' \<longrightarrow> WithAddress hp = WithAddress (''//'' @ hp)) \<and>
    (is_alpha (hd hp) \<longrightarrow> (\<exists>u. WithAddress hp = Inr u \<and> u_Host u = [] \<and>
      (u_Scheme u \<notin> set tcp_Schemes \<longrightarrow> FixedURL tcp_Schemes u = None) \<and>
      (u_Scheme u \<notin> set udp_Schemes \<longrightarrow> FixedURL udp_Schemes u = None)))"
proof -
  obtain c cs where hp: "hp = c # cs" using assms(4) by (cases hp) auto
  have au: "url_Parse (''//'' @ hp) = Inr \<lparr>u_Scheme = [], u_Opaque = [], u_Host = hp, u_Path = []\<rparr>"
    using assms hp by (intro url_Parse_authority) auto
  have sl: "WithAddress (''//'' @ hp) = Inr \<lparr>u_Scheme = [], u_Opaque = [], u_Host = hp, u_Path = ''/''\<rparr>"
    using au by (simp add: WithAddress_def)
  have "url_Parse hp = Inl ColonInSegment" if "is_digit c"
  proof -
    have "\<not> is_alpha c" "c \<noteq> CHR ''/''" using that by (auto simp: is_alpha_def is_digit_def Let_def)
    with that assms hp show ?thesis
      by (auto simp: url_Parse_def getScheme_digit Let_def takeWhile_noslash)
  qed
  moreover have "url_Parse hp = Inl MissingScheme" if "c = CHR '':''"
    using that assms hp by (simp add: url_Parse_def getScheme_colon)
  ultimately have dg: "is_digit (hd hp) \<or> hd hp = CHR '':'' \<longrightarrow> WithAddress hp = WithAddress (''//'' @ hp)"
    using au sl hp by (auto simp: WithAddress_def)
  have "\<exists>u. WithAddress hp = Inr u \<and> u_Host u = [] \<and> u_Scheme u \<noteq> []" if "is_alpha c"
  proof -
    have "c \<noteq> CHR '':''" using that by (auto simp: is_alpha_def)
    then obtain n p where np: "cs = n @ CHR '':'' # p" "CHR '':'' \<notin> set n"
      using assms(4) hp by (auto dest: split_list_first)
    have "list_all (\<lambda>c. is_alpha c \<or> is_digit c \<or> c = CHR ''.'' \<or> c = CHR ''-'') n"
      using assms(1,2) np by (auto simp: hp list_all_iff url_char_def)
    then have "getScheme [c] (n @ CHR '':'' # p) = Inr ([c] @ n, p)" by (intro getScheme_name) auto
    then have "getScheme [] hp = Inr (c # n, p)" using that np hp by (simp add: getScheme.simps(2))
    moreover have "take 1 p \<noteq> ''/''" using assms(2) np hp by (cases p) auto
    ultimately have "url_Parse hp = Inr \<lparr>u_Scheme = map to_lower (c # n), u_Opaque = p, u_Host = [], u_Path = []\<rparr>"
      using assms(1) by (simp add: url_Parse_def Let_def)
    then show ?thesis by (simp add: WithAddress_def)
  qed
  then have "is_alpha (hd hp) \<longrightarrow> (\<exists>u. WithAddress hp = Inr u \<and> u_Host u = [] \<and>
      (u_Scheme u \<notin> set tcp_Schemes \<longrightarrow> FixedURL tcp_Schemes u = None) \<and>
      (u_Scheme u \<notin> set udp_Schemes \<longrightarrow> FixedURL udp_Schemes u = None))"
    using hp by (auto simp: FixedURL_def scheme_Valid_iff)
  with sl dg show ?thesis by blast
qed

section \<open>The acceptor contract\<close>

text \<open>What the accept loop of a bootstrap relies on: a closed acceptor refuses, closing it twice changes
  nothing more, and accepting does not open it again.\<close>

locale acceptor =
  fixes is_open :: "'a \<Rightarrow> 's \<Rightarrow> bool" and close :: "'a \<Rightarrow> 's \<Rightarrow> 'a \<times> 's"
    and refuses :: "'a \<Rightarrow> 's \<Rightarrow> bool"
  assumes closed: "close a s = (b, t) \<Longrightarrow> \<not> is_open b t"
    and refuse: "\<not> is_open a s \<Longrightarrow> refuses a s"
    and close_again: "\<not> is_open a s \<Longrightarrow> close a s = (b, t) \<Longrightarrow> close b t = (b, t)"
begin

lemma closed_refuses: "close a s = (b, t) \<Longrightarrow> refuses b t"
  by (rule refuse, rule closed)

lemma close_idem: "close a s = (b, t) \<Longrightarrow> close b t = (c, u) \<Longrightarrow> close c u = (c, u)"
  by (rule close_again [OF closed])

end

definition tcp_open :: "tcpFactory \<Rightarrow> sockets \<Rightarrow> bool" where
  "tcp_open f k = (case tf_listener f of None \<Rightarrow> False | Some l \<Rightarrow> l \<in> set (sk_listening k))"

definition tcp_refuses :: "tcpFactory \<Rightarrow> sockets \<Rightarrow> bool" where
  "tcp_refuses f k = (case tcp_Accept True (\<lambda>_. False) f k of Done (_, Inl _) \<Rightarrow> True | _ \<Rightarrow> False)"

interpretation tcp: acceptor tcp_open tcp_Close tcp_refuses
  by unfold_locales
    (auto simp: tcp_open_def tcp_Close_def tcp_refuses_def tcp_Accept_def close_listener_def split: option.splits)

end
