(* ===== verification/Bootstrap.thy ===== *)
theory Bootstrap
  imports Transport Pipeline "HOL-Library.Multiset"
begin

text \<open>
  The bootstrap, \<open>netty/bootstrap.go\<close> with the options of \<open>netty/options.go\<close>: configuration, listening,
  connecting, setting up the pipeline of a new channel, the accept loop and \<open>Stop\<close>. The sequential
  operations are functions; the accept loops run beside them, so what they do is a step relation in
  which every access to the shared field \<open>b.acceptor\<close> and to the context is a step of its own.
\<close>

section \<open>State\<close>

text \<open>An acceptor as the bootstrap holds it. The TCP factory is its own acceptor: \<open>Listen\<close> returns the factory
  itself; the UDP factory returns a new object.\<close>

datatype acceptor_ref = AccTcp | AccUdp nat

text \<open>An accept loop, by the next thing it does.\<close>

datatype accept_loop = AtTop | Accepting "nat option" | Got nat | Serving nat | Exited

text \<open>\<open>Stop\<close>, by what it has done: closed the acceptor, cleared the field, cancelled.\<close>

datatype stopping = NotStopping | AcceptorClosed | AcceptorCleared | Stopped

record served =
  sv_id :: u64
  sv_transport :: nat
  sv_pipeline :: pipeline

record bootstrap =
  bs_cancelled :: bool
  bs_udp :: bool
  bs_tcp :: tcpFactory
  bs_sock :: sockets
  bs_acceptor :: "acceptor_ref option"
  bs_id :: u64
  bs_executor :: "handler option"
  bs_child :: "handler list option"
  bs_client :: "handler list option"
  bs_channels :: "served list"
  bs_loops :: "accept_loop list"
  bs_accepted :: "nat list"
  bs_refused :: "nat list"
  bs_stop :: stopping
  bs_crashed :: bool

definition NewBootstrap :: bootstrap where
  "NewBootstrap = \<lparr>bs_cancelled = False, bs_udp = False, bs_tcp = tcp_New,
     bs_sock = \<lparr>sk_listening = [], sk_conns = [], sk_next = 0\<rparr>, bs_acceptor = None, bs_id = 0, bs_executor = None,
     bs_child = None, bs_client = None, bs_channels = [], bs_loops = [], bs_accepted = [], bs_refused = [],
     bs_stop = NotStopping, bs_crashed = False\<rparr>"

definition ChannelExecutor :: "handler \<Rightarrow> bootstrap \<Rightarrow> bootstrap" where
  "ChannelExecutor ex b = b\<lparr>bs_executor := Some ex\<rparr>"

definition Transport_tcp :: "bootstrap \<Rightarrow> bootstrap" where
  "Transport_tcp b = b\<lparr>bs_udp := False, bs_tcp := tcp_New\<rparr>"

definition Transport_udp :: "bootstrap \<Rightarrow> bootstrap" where
  "Transport_udp b = b\<lparr>bs_udp := True\<rparr>"

definition ChildInitializer :: "handler list \<Rightarrow> bootstrap \<Rightarrow> bootstrap" where
  "ChildInitializer hs b = b\<lparr>bs_child := Some hs\<rparr>"

definition ClientInitializer :: "handler list \<Rightarrow> bootstrap \<Rightarrow> bootstrap" where
  "ClientInitializer hs b = b\<lparr>bs_client := Some hs\<rparr>"

text \<open>\<open>SequenceID\<close>: \<open>AddInt64(&id, 1)\<close>.\<close>

definition SequenceID :: "bootstrap \<Rightarrow> u64 \<times> bootstrap" where
  "SequenceID b = (bs_id b + 1, b\<lparr>bs_id := bs_id b + 1\<rparr>)"

section \<open>Serving a transport\<close>

text \<open>An initializer adds its handlers behind each other. \<open>None\<close> is a search in the pipeline that does not end.\<close>

definition serveChannel :: "handler option \<Rightarrow> handler list option \<Rightarrow> pipeline \<Rightarrow> pipeline go option" where
  "serveChannel ex ini p = (case ini of None \<Rightarrow> Some (Panicked NilDeref) | Some hs \<Rightarrow>
     (case AddLast hs p of
        Panicked r \<Rightarrow> Some (Panicked r)
      | Done q \<Rightarrow> (case ex of None \<Rightarrow> Some (Done q) | Some h \<Rightarrow> insert_executor h q)))"

definition serveTransport :: "nat \<Rightarrow> bool \<Rightarrow> bootstrap \<Rightarrow> bootstrap go option" where
  "serveTransport t childChannel b =
     (let (cid, b1) = SequenceID b in
      map_option (go_map (\<lambda>p. b1\<lparr>bs_channels := bs_channels b1 @ [\<lparr>sv_id = cid, sv_transport = t, sv_pipeline = p\<rparr>]\<rparr>))
        (serveChannel (bs_executor b) (if childChannel then bs_child b else bs_client b) NewPipelineWith))"

section \<open>Listening\<close>

definition close_acceptor :: "acceptor_ref \<Rightarrow> bootstrap \<Rightarrow> bootstrap" where
  "close_acceptor r b = (case r of
       AccTcp \<Rightarrow> (let (f, k) = tcp_Close (bs_tcp b) (bs_sock b) in b\<lparr>bs_tcp := f, bs_sock := k\<rparr>)
     | AccUdp l \<Rightarrow> b\<lparr>bs_sock := close_listener l (bs_sock b)\<rparr>)"

definition stopListener :: "bootstrap \<Rightarrow> bootstrap" where
  "stopListener b = (case bs_acceptor b of None \<Rightarrow> b | Some r \<Rightarrow> (close_acceptor r b)\<lparr>bs_acceptor := None\<rparr>)"

text \<open>The factory's \<open>Listen\<close>: for UDP the address is resolved first.\<close>

definition factory_Listen :: "bool \<Rightarrow> bool \<Rightarrow> Options \<Rightarrow> bootstrap \<Rightarrow> (bootstrap \<times> (net_error + acceptor_ref)) go" where
  "factory_Listen resolves ok o' b =
     (if bs_udp b then
        (case op_Address o' of None \<Rightarrow> Panicked NilDeref | Some u \<Rightarrow>
          (case FixedURL udp_Schemes u of
             None \<Rightarrow> Done (b, Inl BadScheme)
           | Some u1 \<Rightarrow>
               if \<not> resolves then Done (b, Inl ResolveFailed)
               else go_map (\<lambda>_. if ok then (let (l, k) = open_listener (bs_sock b) in (b\<lparr>bs_sock := k\<rparr>, Inr (AccUdp l)))
                                else (b, Inl ListenFailed)) (AddressWithoutHost u1)))
      else go_map (\<lambda>(f, k, err). (b\<lparr>bs_tcp := f, bs_sock := k\<rparr>, case err of None \<Rightarrow> Inr AccTcp | Some er \<Rightarrow> Inl er))
             (tcp_Listen ok o' (bs_tcp b) (bs_sock b)))"

definition createListener :: "bool \<Rightarrow> bool \<Rightarrow> Option list \<Rightarrow> bootstrap \<Rightarrow> (bootstrap \<times> net_error option) go" where
  "createListener resolves ok listenOptions b =
     (if listenOptions = [] then Done (b, None)
      else case ParseOptions listenOptions of
        Inl er \<Rightarrow> Done (b, Some (BadUrl er))
      | Inr options \<Rightarrow>
          go_map (\<lambda>(b1, r). case r of
              Inl er \<Rightarrow> (b1, Some er)
            | Inr l \<Rightarrow> ((stopListener b1)\<lparr>bs_acceptor := Some l\<rparr>, None)) (factory_Listen resolves ok options b))"

definition startListener :: "bootstrap \<Rightarrow> bootstrap" where
  "startListener b = (if bs_acceptor b = None then b else b\<lparr>bs_loops := bs_loops b @ [AtTop]\<rparr>)"

definition Listen :: "bool \<Rightarrow> bool \<Rightarrow> string \<Rightarrow> Option list \<Rightarrow> bootstrap \<Rightarrow> bootstrap go" where
  "Listen resolves ok url option b =
     go_bind (createListener resolves ok ([OptAddress url, OptContext] @ option) b) (\<lambda>(b1, err).
       if err \<noteq> None then Panicked AssertFailed else Done (startListener b1))"

section \<open>Connecting\<close>

definition Connect :: "bool \<Rightarrow> bool \<Rightarrow> (sock_opt \<Rightarrow> bool) \<Rightarrow> string \<Rightarrow> Option list \<Rightarrow> bootstrap \<Rightarrow>
    (bootstrap \<times> net_error option) go option" where
  "Connect resolves ok fails url option b =
     (case ParseOptions ([OptAddress url, OptContext] @ option) of
        Inl er \<Rightarrow> Some (Done (b, Some (BadUrl er)))
      | Inr options \<Rightarrow>
          (case (if bs_udp b then udp_Connect resolves ok options (bs_sock b) else tcp_Connect ok fails options (bs_sock b)) of
             Panicked r \<Rightarrow> Some (Panicked r)
           | Done (k, Inl er) \<Rightarrow> Some (Done (b\<lparr>bs_sock := k\<rparr>, Some er))
           | Done (k, Inr t) \<Rightarrow> map_option (go_map (\<lambda>b1. (b1, None))) (serveTransport t False (b\<lparr>bs_sock := k\<rparr>))))"

definition Stop :: "bootstrap \<Rightarrow> bootstrap" where
  "Stop b = (stopListener b)\<lparr>bs_cancelled := True, bs_stop := Stopped\<rparr>"

section \<open>The accept loop beside Stop\<close>

definition acc_listener :: "acceptor_ref \<Rightarrow> bootstrap \<Rightarrow> nat option" where
  "acc_listener r b = (case r of AccTcp \<Rightarrow> tf_listener (bs_tcp b) | AccUdp l \<Rightarrow> Some l)"

definition set_loop :: "nat \<Rightarrow> accept_loop \<Rightarrow> bootstrap \<Rightarrow> bootstrap" where
  "set_loop i ph b = b\<lparr>bs_loops := (bs_loops b)[i := ph]\<rparr>"

definition loop_at :: "nat \<Rightarrow> accept_loop \<Rightarrow> bootstrap \<Rightarrow> bool" where
  "loop_at i ph b \<longleftrightarrow> i < length (bs_loops b) \<and> bs_loops b ! i = ph"

definition take_conn :: "bootstrap \<Rightarrow> nat \<times> bootstrap" where
  "take_conn b = (let (t, k) = open_conn (bs_sock b) in (t, b\<lparr>bs_sock := k, bs_accepted := bs_accepted b @ [t]\<rparr>))"

text \<open>The goroutine of \<open>startListener\<close>: it reads \<open>b.acceptor\<close> anew in each round; an error of \<open>Accept\<close>, whatever
  its cause, ends it. Nothing recovers a panic in it.\<close>

inductive loop_step :: "bootstrap \<Rightarrow> bootstrap \<Rightarrow> bool" where
  top: "loop_at i AtTop b \<Longrightarrow> bs_acceptor b = Some r \<Longrightarrow> loop_step b (set_loop i (Accepting (acc_listener r b)) b)"
| top_nil: "loop_at i AtTop b \<Longrightarrow> bs_acceptor b = None \<Longrightarrow> loop_step b (b\<lparr>bs_crashed := True\<rparr>)"
| accept_err: "loop_at i (Accepting l) b \<Longrightarrow> loop_step b (set_loop i Exited b)"
| accept_ok: "loop_at i (Accepting (Some l)) b \<Longrightarrow> l \<in> set (sk_listening (bs_sock b)) \<Longrightarrow> take_conn b = (t, b1) \<Longrightarrow>
    loop_step b (set_loop i (Got t) b1)"
| check_done: "loop_at i (Got t) b \<Longrightarrow> bs_cancelled b \<Longrightarrow>
    loop_step b (set_loop i Exited (b\<lparr>bs_sock := close_conn t (bs_sock b), bs_refused := bs_refused b @ [t]\<rparr>))"
| check_serve: "loop_at i (Got t) b \<Longrightarrow> \<not> bs_cancelled b \<Longrightarrow> loop_step b (set_loop i (Serving t) b)"
| serve: "loop_at i (Serving t) b \<Longrightarrow> serveTransport t True b = Some (Done b1) \<Longrightarrow> loop_step b (set_loop i AtTop b1)"
| serve_panic: "loop_at i (Serving t) b \<Longrightarrow> serveTransport t True b = Some (Panicked r) \<Longrightarrow> loop_step b (b\<lparr>bs_crashed := True\<rparr>)"

inductive stop_step :: "bootstrap \<Rightarrow> bootstrap \<Rightarrow> bool" where
  close: "bs_stop b = NotStopping \<Longrightarrow> bs_acceptor b = Some r \<Longrightarrow>
    stop_step b ((close_acceptor r b)\<lparr>bs_stop := AcceptorClosed\<rparr>)"
| skip: "bs_stop b = NotStopping \<Longrightarrow> bs_acceptor b = None \<Longrightarrow> stop_step b (b\<lparr>bs_stop := AcceptorCleared\<rparr>)"
| clear: "bs_stop b = AcceptorClosed \<Longrightarrow> stop_step b (b\<lparr>bs_acceptor := None, bs_stop := AcceptorCleared\<rparr>)"
| cancel: "bs_stop b = AcceptorCleared \<Longrightarrow> stop_step b (b\<lparr>bs_cancelled := True, bs_stop := Stopped\<rparr>)"

inductive bs_run :: "bootstrap \<Rightarrow> bootstrap \<Rightarrow> bool" where
  refl: "bs_run b b"
| loop: "bs_run b c \<Longrightarrow> \<not> bs_crashed c \<Longrightarrow> loop_step c d \<Longrightarrow> bs_run b d"
| stop: "bs_run b c \<Longrightarrow> \<not> bs_crashed c \<Longrightarrow> stop_step c d \<Longrightarrow> bs_run b d"

section \<open>Accounting for connections\<close>

fun hand :: "accept_loop \<Rightarrow> nat list" where
  "hand (Got t) = [t]"
| "hand (Serving t) = [t]"
| "hand _ = []"

definition in_hand :: "bootstrap \<Rightarrow> nat multiset" where
  "in_hand b = (\<Sum>ph\<leftarrow>bs_loops b. mset (hand ph))"

definition accounted :: "bootstrap \<Rightarrow> bool" where
  "accounted b \<longleftrightarrow> mset (bs_accepted b) = mset (map sv_transport (bs_channels b)) + mset (bs_refused b) + in_hand b \<and>
     distinct (bs_accepted b) \<and> (\<forall>t\<in>set (bs_accepted b). t < sk_next (bs_sock b)) \<and>
     set (bs_refused b) \<inter> set (sk_conns (bs_sock b)) = {}"

definition stop_order :: "bootstrap \<Rightarrow> bool" where
  "stop_order b \<longleftrightarrow> (bs_cancelled b \<longleftrightarrow> bs_stop b = Stopped) \<and>
     (case bs_stop b of
        NotStopping \<Rightarrow> (\<exists>r l. bs_acceptor b = Some r \<and> acc_listener r b = Some l \<and> sk_listening (bs_sock b) = [l])
      | AcceptorClosed \<Rightarrow> bs_acceptor b \<noteq> None \<and> sk_listening (bs_sock b) = []
      | _ \<Rightarrow> bs_acceptor b = None \<and> sk_listening (bs_sock b) = [])"

lemma in_hand_set_loop:
  assumes "loop_at i ph b"
  shows "in_hand (set_loop i ph' b) + mset (hand ph) = in_hand b + mset (hand ph')"
proof -
  have "(\<Sum>p\<leftarrow>xs[i := ph']. mset (hand p)) + mset (hand (xs ! i)) = (\<Sum>p\<leftarrow>xs. mset (hand p)) + mset (hand ph')"
    if "i < length xs" for xs :: "accept_loop list"
    using that
  proof (induction xs arbitrary: i)
    case (Cons x xs)
    then show ?case by (cases i) (auto simp: ac_simps)
  qed simp
  from this [of "bs_loops b"] show ?thesis using assms by (simp add: in_hand_def set_loop_def loop_at_def)
qed

lemma in_hand_cong: "bs_loops b = bs_loops c \<Longrightarrow> in_hand b = in_hand c"
  by (simp add: in_hand_def)

lemma set_loop_simps [simp]:
  "bs_sock (set_loop i ph b) = bs_sock b" "bs_accepted (set_loop i ph b) = bs_accepted b"
  "bs_refused (set_loop i ph b) = bs_refused b" "bs_channels (set_loop i ph b) = bs_channels b"
  "bs_cancelled (set_loop i ph b) = bs_cancelled b" "bs_stop (set_loop i ph b) = bs_stop b"
  "bs_acceptor (set_loop i ph b) = bs_acceptor b" "bs_tcp (set_loop i ph b) = bs_tcp b"
  "bs_crashed (set_loop i ph b) = bs_crashed b" "bs_loops (set_loop i ph b) = (bs_loops b)[i := ph]"
  by (simp_all add: set_loop_def)

lemma acc_listener_cong [simp]: "acc_listener r (set_loop i ph b) = acc_listener r b"
  by (simp add: acc_listener_def split: acceptor_ref.split)

lemma serveTransport_effect:
  assumes "serveTransport t c b = Some (Done b1)"
  shows "\<exists>p. b1 = b\<lparr>bs_id := bs_id b + 1, bs_channels := bs_channels b @ [\<lparr>sv_id = bs_id b + 1, sv_transport = t, sv_pipeline = p\<rparr>]\<rparr>"
  using assms by (auto simp: serveTransport_def SequenceID_def go_map_Done_iff)

lemma accounted_refused: "accounted b \<Longrightarrow> set (bs_refused b) \<subseteq> set (bs_accepted b)"
  by (auto simp: accounted_def dest: arg_cong [where f = set_mset])

lemma loop_step_accounted:
  assumes "loop_step b c" "accounted b"
  shows "accounted c"
  using assms
proof (induction rule: loop_step.induct)
  case (top i b r)
  then show ?case using in_hand_set_loop [OF top(1), of "Accepting (acc_listener r b)"] by (simp add: accounted_def)
next
  case (top_nil i b)
  then show ?case using in_hand_cong [of "b\<lparr>bs_crashed := True\<rparr>" b] by (simp add: accounted_def)
next
  case (accept_err i l b)
  then show ?case using in_hand_set_loop [OF accept_err(1), of Exited] by (simp add: accounted_def)
next
  case (accept_ok i l b t b1)
  have b1: "b1 = b\<lparr>bs_sock := snd (open_conn (bs_sock b)), bs_accepted := bs_accepted b @ [t]\<rparr>" "t = sk_next (bs_sock b)"
    using accept_ok(3) by (auto simp: take_conn_def open_conn_def Let_def)
  have "loop_at i (Accepting (Some l)) b1" using accept_ok(1) b1 by (simp add: loop_at_def)
  from in_hand_set_loop [OF this, of "Got t"] have "in_hand (set_loop i (Got t) b1) = in_hand b + {#t#}"
    using in_hand_cong [of b1 b] b1 by simp
  moreover have "t \<notin> set (bs_accepted b)" using accept_ok(4) b1(2) by (auto simp: accounted_def)
  moreover from this have "t \<notin> set (bs_refused b)" using accounted_refused [OF accept_ok(4)] by blast
  ultimately show ?case using accept_ok(4) b1 by (auto simp: accounted_def open_conn_def less_Suc_eq)
next
  case (check_done i t b)
  let ?c = "b\<lparr>bs_sock := close_conn t (bs_sock b), bs_refused := bs_refused b @ [t]\<rparr>"
  have "loop_at i (Got t) ?c" using check_done(1) by (simp add: loop_at_def)
  from in_hand_set_loop [OF this, of Exited] have "in_hand b = in_hand (set_loop i Exited ?c) + {#t#}"
    using in_hand_cong [of ?c b] by simp
  with check_done(3) show ?case by (auto simp: accounted_def close_conn_def)
next
  case (check_serve i t b)
  then show ?case using in_hand_set_loop [OF check_serve(1), of "Serving t"] by (simp add: accounted_def)
next
  case (serve i t b b1)
  obtain p where b1: "b1 = b\<lparr>bs_id := bs_id b + 1, bs_channels := bs_channels b @ [\<lparr>sv_id = bs_id b + 1, sv_transport = t, sv_pipeline = p\<rparr>]\<rparr>"
    using serveTransport_effect [OF serve(2)] by blast
  have "loop_at i (Serving t) b1" using serve(1) b1 by (simp add: loop_at_def)
  from in_hand_set_loop [OF this, of AtTop] have "in_hand b = in_hand (set_loop i AtTop b1) + {#t#}"
    using in_hand_cong [of b1 b] b1 by simp
  with serve(3) b1 show ?case by (simp add: accounted_def)
next
  case (serve_panic i t b r)
  then show ?case using in_hand_cong [of "b\<lparr>bs_crashed := True\<rparr>" b] by (simp add: accounted_def)
qed


lemma stop_step_keeps:
  assumes "stop_step b c"
  shows "bs_loops c = bs_loops b \<and> bs_accepted c = bs_accepted b \<and> bs_refused c = bs_refused b \<and>
    bs_channels c = bs_channels b \<and> sk_next (bs_sock c) = sk_next (bs_sock b) \<and> sk_conns (bs_sock c) = sk_conns (bs_sock b) \<and>
    bs_crashed c = bs_crashed b"
  using assms
  by (induction rule: stop_step.induct)
    (auto simp: close_acceptor_def tcp_Close_def close_listener_def split: acceptor_ref.split option.split)

lemma stop_step_accounted: "stop_step b c \<Longrightarrow> accounted b \<Longrightarrow> accounted c"
  using stop_step_keeps [of b c] in_hand_cong [of c b] by (simp add: accounted_def)

lemma loop_step_stop:
  assumes "loop_step b c"
  shows "bs_stop c = bs_stop b \<and> bs_cancelled c = bs_cancelled b \<and> bs_acceptor c = bs_acceptor b \<and> bs_tcp c = bs_tcp b \<and>
    sk_listening (bs_sock c) = sk_listening (bs_sock b)"
  using assms
  by (induction rule: loop_step.induct)
    (auto simp: take_conn_def open_conn_def close_conn_def dest!: serveTransport_effect)

lemma acc_listener_tcp: "bs_tcp b = bs_tcp c \<Longrightarrow> acc_listener r b = acc_listener r c"
  by (simp add: acc_listener_def split: acceptor_ref.split)

lemma stop_order_loop: "loop_step b c \<Longrightarrow> stop_order b \<Longrightarrow> stop_order c"
  using loop_step_stop [of b c] acc_listener_tcp [of b c] by (auto simp: stop_order_def split: stopping.split)

lemma stop_order_stop: "stop_step b c \<Longrightarrow> stop_order b \<Longrightarrow> stop_order c"
  by (induction rule: stop_step.induct)
    (auto simp: stop_order_def close_acceptor_def tcp_Close_def close_listener_def acc_listener_def
      split: acceptor_ref.splits option.splits)

lemma bs_run_inv:
  assumes "bs_run b c" "accounted b" "stop_order b"
  shows "accounted c \<and> stop_order c"
  using assms
  by (induction rule: bs_run.induct)
    (blast intro: loop_step_accounted stop_step_accounted stop_order_loop stop_order_stop)+

section \<open>A listening bootstrap\<close>

text \<open>A bootstrap as the program sets it up before it listens.\<close>

definition configure :: "bool \<Rightarrow> handler list \<Rightarrow> bootstrap" where
  "configure udp hs = ChildInitializer hs (if udp then Transport_udp NewBootstrap else Transport_tcp NewBootstrap)"

lemma configure_simps [simp]:
  "bs_loops (configure udp hs) = []" "bs_acceptor (configure udp hs) = None" "bs_accepted (configure udp hs) = []"
  "bs_refused (configure udp hs) = []" "bs_channels (configure udp hs) = []" "bs_stop (configure udp hs) = NotStopping"
  "bs_cancelled (configure udp hs) = False" "bs_child (configure udp hs) = Some hs" "bs_executor (configure udp hs) = None"
  "bs_crashed (configure udp hs) = False" "bs_sock (configure udp hs) = \<lparr>sk_listening = [], sk_conns = [], sk_next = 0\<rparr>"
  "tf_listener (bs_tcp (configure udp hs)) = None"
  by (simp_all add: configure_def NewBootstrap_def ChildInitializer_def Transport_udp_def Transport_tcp_def tcp_New_def)

lemma factory_Listen_first:
  assumes "factory_Listen resolves ok o' b = Done (c, Inr r)" "tf_listener (bs_tcp b) = None"
  shows "\<exists>f l. c = b\<lparr>bs_tcp := f, bs_sock := (bs_sock b)\<lparr>sk_listening := l # sk_listening (bs_sock b), sk_next := Suc l\<rparr>\<rparr> \<and>
    l = sk_next (bs_sock b) \<and> acc_listener r c = Some l"
proof (cases "bs_udp b")
  case True
  then have "c = b\<lparr>bs_sock := snd (open_listener (bs_sock b))\<rparr> \<and> r = AccUdp (sk_next (bs_sock b))"
    using assms by (auto simp: factory_Listen_def go_map_Done_iff open_listener_def split: if_splits option.splits)
  then show ?thesis by (intro exI [of _ "bs_tcp b"] exI [of _ "sk_next (bs_sock b)"]) (simp add: open_listener_def acc_listener_def)
next
  case False
  then show ?thesis
    using assms
    by (auto simp: factory_Listen_def tcp_Listen_def tcp_Close_def go_map_Done_iff open_listener_def acc_listener_def
        split: if_splits option.splits intro!: exI)
qed

lemma Listen_first:
  assumes "Listen resolves ok url os (configure udp hs) = Done b"
  shows "\<exists>f r. b = (configure udp hs)\<lparr>bs_tcp := f, bs_sock := \<lparr>sk_listening = [0], sk_conns = [], sk_next = 1\<rparr>,
    bs_acceptor := Some r, bs_loops := [AtTop]\<rparr> \<and> acc_listener r b = Some 0"
proof -
  obtain b1 where b1: "createListener resolves ok (OptAddress url # OptContext # os) (configure udp hs) = Done (b1, None)"
    "b = startListener b1"
    using assms by (auto simp: Listen_def go_bind_Done_iff split: if_splits)
  obtain b2 r where b2: "b1 = (stopListener b2)\<lparr>bs_acceptor := Some r\<rparr>"
    and o': "\<exists>o'. factory_Listen resolves ok o' (configure udp hs) = Done (b2, Inr r)"
  proof (cases "ParseOptions (OptAddress url # OptContext # os)")
    case (Inr o')
    then obtain b2 x where x: "factory_Listen resolves ok o' (configure udp hs) = Done (b2, x)"
      "(b1, None) = (case x of Inl er \<Rightarrow> (b2, Some er) | Inr l \<Rightarrow> ((stopListener b2)\<lparr>bs_acceptor := Some l\<rparr>, None))"
      using b1(1) by (auto simp: createListener_def go_map_Done_iff)
    then obtain r where "x = Inr r" by (cases x) auto
    with x that show ?thesis by auto
  qed (use b1 in \<open>simp add: createListener_def\<close>)
  obtain f where b2': "b2 = (configure udp hs)\<lparr>bs_tcp := f, bs_sock := \<lparr>sk_listening = [0], sk_conns = [], sk_next = 1\<rparr>\<rparr>"
    "acc_listener r b2 = Some 0"
    using o' factory_Listen_first [OF _ configure_simps(12)] by fastforce
  then have "bs_acceptor b2 = None" "bs_loops b2 = []" by simp_all
  with b1(2) b2 b2' show ?thesis
    by (intro exI [of _ f] exI [of _ r])
      (simp add: startListener_def stopListener_def acc_listener_def split: acceptor_ref.splits)
qed

lemma Listen_first_inv:
  assumes "Listen resolves ok url os (configure udp hs) = Done b"
  shows "accounted b \<and> stop_order b"
  using Listen_first [OF assms] by (auto simp: accounted_def in_hand_def stop_order_def)

lemma bs_run_trans: "bs_run c d \<Longrightarrow> bs_run b c \<Longrightarrow> bs_run b d"
  by (induction rule: bs_run.induct) (auto intro: bs_run.intros)

definition serving :: "bootstrap \<Rightarrow> nat set" where
  "serving b = sv_transport ` set (bs_channels b) \<union> {t. Serving t \<in> set (bs_loops b)}"

lemma serving_loop:
  assumes "loop_step b c" "bs_cancelled b" "sk_listening (bs_sock b) = []"
  shows "serving c \<subseteq> serving b \<and> bs_accepted c = bs_accepted b"
  using assms
proof (induction rule: loop_step.induct)
  case (serve i t b b1)
  then obtain p where b1: "b1 = b\<lparr>bs_id := bs_id b + 1, bs_channels := bs_channels b @ [\<lparr>sv_id = bs_id b + 1, sv_transport = t, sv_pipeline = p\<rparr>]\<rparr>"
    using serveTransport_effect by blast
  have "Serving t \<in> set (bs_loops b)" using serve(1) nth_mem by (fastforce simp: loop_at_def)
  then show ?case using b1 by (auto simp: serving_def dest: set_update_subset_insert [THEN subsetD])
qed (auto simp: serving_def loop_at_def dest: set_update_subset_insert [THEN subsetD])

lemma serving_run:
  assumes "bs_run b c" "bs_cancelled b" "stop_order b"
  shows "serving c \<subseteq> serving b \<and> bs_accepted c = bs_accepted b \<and> bs_cancelled c \<and> stop_order c"
  using assms
proof (induction rule: bs_run.induct)
  case (loop b c d)
  then have i: "serving c \<subseteq> serving b" "bs_accepted c = bs_accepted b" "bs_cancelled c" "stop_order c" by auto
  then have "sk_listening (bs_sock c) = []" by (auto simp: stop_order_def)
  with i loop(3) serving_loop [of c d] show ?case
    using loop_step_stop [of c d] stop_order_loop [of c d] by auto
next
  case (stop b c d)
  then have "bs_stop c = Stopped" by (auto simp: stop_order_def)
  with stop(3) show ?case by (auto elim: stop_step.cases)
qed simp


definition sample_listen :: "bool \<Rightarrow> bootstrap go" where
  "sample_listen udp = Listen True True ''//:80'' [] (configure udp [sample_codec])"

lemma sample_listens: "\<exists>b. sample_listen udp = Done b"
proof -
  have "case sample_listen True of Done b \<Rightarrow> True | Panicked r \<Rightarrow> False" by code_simp
  moreover have "case sample_listen False of Done b \<Rightarrow> True | Panicked r \<Rightarrow> False" by code_simp
  ultimately show ?thesis by (cases udp) (simp_all split: go.splits)
qed

lemma take_one:
  assumes "Listen resolves ok url os (configure udp hs) = Done b"
  shows "\<exists>c. bs_run b c \<and> bs_accepted c = [1]"
proof -
  obtain f r where b: "b = (configure udp hs)\<lparr>bs_tcp := f, bs_sock := \<lparr>sk_listening = [0], sk_conns = [], sk_next = 1\<rparr>,
      bs_acceptor := Some r, bs_loops := [AtTop]\<rparr>" "acc_listener r b = Some 0"
    using Listen_first [OF assms] by blast
  let ?c = "set_loop 0 (Accepting (Some 0)) b"
  have "loop_step b ?c" using loop_step.top [of 0 b r] b by (simp add: loop_at_def)
  moreover have "loop_step ?c (set_loop 0 (Got (fst (take_conn ?c))) (snd (take_conn ?c)))"
    using b by (intro loop_step.accept_ok [where l = 0]) (auto simp: loop_at_def)
  ultimately have "bs_run b (set_loop 0 (Got (fst (take_conn ?c))) (snd (take_conn ?c)))"
    using b by (intro bs_run.loop [OF bs_run.loop [OF bs_run.refl]]) auto
  moreover have "bs_accepted (snd (take_conn ?c)) = [1]" using b by (simp add: take_conn_def open_conn_def)
  ultimately show ?thesis by force
qed


section \<open>The pipeline of a served channel\<close>

lemma pipeline_wf_new: "pipeline_wf NewPipelineWith [headHandler, tailHandler]"
  using repr_new by (auto simp: pipeline_wf_def)

lemma AddLast_wf:
  assumes "pipeline_wf p hs" "\<forall>h\<in>set xs. known_handler h"
  shows "\<exists>q. AddLast xs p = Done q \<and> pipeline_wf q (butlast hs @ xs @ [last hs])"
  using pl.add_lasts [OF assms] assms(2) by (simp add: AddLast_def checkHandler_def list_all_iff)

lemma serveChannel_no_executor:
  assumes "\<forall>h\<in>set hs. known_handler h"
  shows "\<exists>q. serveChannel None (Some hs) NewPipelineWith = Some (Done q) \<and> pipeline_wf q (headHandler # hs @ [tailHandler])"
  using AddLast_wf [OF pipeline_wf_new assms] by (auto simp: serveChannel_def)

lemma loop_step_config: "loop_step b c \<Longrightarrow> bs_child c = bs_child b \<and> bs_executor c = bs_executor b"
  by (induction rule: loop_step.induct) (auto simp: set_loop_def take_conn_def Let_def split: prod.splits dest!: serveTransport_effect)

lemma stop_step_config: "stop_step b c \<Longrightarrow> bs_child c = bs_child b \<and> bs_executor c = bs_executor b"
  by (induction rule: stop_step.induct)
    (auto simp: close_acceptor_def tcp_Close_def close_listener_def split: acceptor_ref.split option.split)

lemma loop_step_crash:
  assumes "loop_step b c" "bs_crashed c" "\<not> bs_crashed b" "bs_child b = Some hs" "bs_executor b = None" "\<forall>h\<in>set hs. known_handler h"
  shows "bs_acceptor b = None"
  using assms
proof (induction rule: loop_step.induct)
  case (serve_panic i t b r)
  then show ?case
    using serveChannel_no_executor [of hs] by (auto simp: serveTransport_def SequenceID_def go_map_def split: go.splits)
qed (auto simp: set_loop_def take_conn_def Let_def split: prod.splits dest!: serveTransport_effect)

lemma crash_needs_stop:
  assumes "bs_run b c" "stop_order b" "\<not> bs_crashed b" "bs_child b = Some hs" "bs_executor b = None" "\<forall>h\<in>set hs. known_handler h"
  shows "stop_order c \<and> bs_child c = Some hs \<and> bs_executor c = None \<and> (bs_crashed c \<longrightarrow> bs_acceptor c = None \<and> bs_stop c \<noteq> NotStopping)"
  using assms
proof (induction rule: bs_run.induct)
  case (loop b c d)
  then have i: "stop_order c" "bs_child c = Some hs" "bs_executor c = None" by auto
  have d: "stop_order d" using stop_order_loop loop(3) i by blast
  have "bs_acceptor d = None" if "bs_crashed d"
    using loop_step_crash [OF loop(3) that loop(2) i(2,3) loop(9)] loop_step_stop [OF loop(3)] by simp
  then show ?case using d loop_step_config [OF loop(3)] i by (auto simp: stop_order_def)
next
  case (stop b c d)
  then show ?case using stop_order_stop [of c d] stop_step_config [of c d] stop_step_keeps [of c d] by auto
qed simp

text \<open>(C38) \<open>Stop\<close> can bring the program down: the loop reads \<open>b.acceptor\<close> anew in every round, and \<open>Stop\<close> sets it to nil
  before it cancels, so an accept loop between two connections then calls a method on nil, and nothing
  recovers the panic of that goroutine. This is the only way the loop crashes when its initializer can be run.\<close>

theorem stop_race_crashes:
  assumes "Listen resolves ok url os (configure udp hs) = Done b" "\<forall>h\<in>set hs. known_handler h"
  shows "(\<exists>c. bs_run b c \<and> bs_crashed c) \<and> (\<forall>c. bs_run b c \<and> bs_crashed c \<longrightarrow> bs_acceptor c = None \<and> bs_stop c \<noteq> NotStopping)"
proof -
  obtain f r where b: "b = (configure udp hs)\<lparr>bs_tcp := f, bs_sock := \<lparr>sk_listening = [0], sk_conns = [], sk_next = 1\<rparr>,
      bs_acceptor := Some r, bs_loops := [AtTop]\<rparr>"
    using Listen_first [OF assms(1)] by blast
  let ?c = "(close_acceptor r b)\<lparr>bs_stop := AcceptorClosed\<rparr>"
  let ?d = "?c\<lparr>bs_acceptor := None, bs_stop := AcceptorCleared\<rparr>"
  have st: "stop_step b ?c" using b by (intro stop_step.close) auto
  have st': "stop_step ?c ?d" by (rule stop_step.clear) simp
  note k = stop_step_keeps [OF st] stop_step_keeps [OF st']
  have "loop_step ?d (?d\<lparr>bs_crashed := True\<rparr>)"
    using k b by (intro loop_step.top_nil [of 0]) (auto simp: loop_at_def)
  then have "bs_run b (?d\<lparr>bs_crashed := True\<rparr>)"
    using k b st st' by (intro bs_run.loop [OF bs_run.stop [OF bs_run.stop [OF bs_run.refl]]]) auto
  then show ?thesis
    using crash_needs_stop [of b _ hs] Listen_first_inv [OF assms(1)] assms(2) b by force
qed

theorem stop_race_crashes_witness: "\<exists>b c. sample_listen True = Done b \<and> bs_run b c \<and> bs_crashed c"
proof -
  obtain b where b: "sample_listen True = Done b" using sample_listens by blast
  have "\<forall>h\<in>set [sample_codec]. known_handler h" by (simp add: known_handler_def sample_codec_def)
  then show ?thesis using stop_race_crashes [OF b [unfolded sample_listen_def]] b by blast
qed

lemma executor_behind_codec:
  assumes "pipeline_wf q (headHandler # hs @ [tailHandler])" "known_handler ex" "\<exists>h\<in>set hs. is_codec h"
  shows "\<exists>q' xs k ys. insert_executor ex q = Some (Done q') \<and> hs = xs @ k # ys \<and> is_codec k \<and>
    (\<forall>h\<in>set ys. \<not> is_codec h) \<and> pipeline_wf q' (headHandler # xs @ k # ex # ys @ [tailHandler])"
proof -
  have nc: "\<not> is_codec headHandler" "\<not> is_codec tailHandler" by (simp_all add: headHandler_def tailHandler_def)
  note last = executor_after_last_codec [OF assms(1,2)]
  obtain k q' where k: "insert_executor ex q = Some (Done q')" "k < Suc (Suc (length hs))"
    "is_codec ((headHandler # hs @ [tailHandler]) ! k)"
    "\<forall>j. k < j \<and> j < Suc (Suc (length hs)) \<longrightarrow> \<not> is_codec ((headHandler # hs @ [tailHandler]) ! j)"
    "pipeline_wf q' (take (Suc k) (headHandler # hs @ [tailHandler]) @ ex # drop (Suc k) (headHandler # hs @ [tailHandler]))"
    using last nc assms(3) by auto
  obtain m where m: "k = Suc m" "m < length hs"
    using k(2,3) nc by (cases k) (auto simp: nth_append less_Suc_eq split: if_splits)
  have codec: "is_codec (hs ! m)" using k(3) m by (simp add: nth_append)
  have "\<not> is_codec h" if h: "h \<in> set (drop (Suc m) hs)" for h
  proof -
    obtain j where "j < length hs - Suc m" "h = hs ! (Suc m + j)" using h by (auto simp: set_conv_nth)
    then show ?thesis using k(4) [THEN spec, of "Suc (Suc m + j)"] m by (auto simp: nth_append split: if_splits)
  qed
  moreover have "hs = take m hs @ hs ! m # drop (Suc m) hs" using m(2) by (rule id_take_nth_drop)
  moreover have "pipeline_wf q' (headHandler # take m hs @ hs ! m # ex # drop (Suc m) hs @ [tailHandler])"
    using k(5) m by (simp add: take_Suc_conv_app_nth)
  ultimately show ?thesis using codec k(1) by blast
qed

text \<open>The pipeline of a served channel: the channel gets the next id, its pipeline holds, between head and tail, the
  handlers of the initializer in order, and with an executor that stands right behind the last codec;
  an executor without any codec panics.\<close>

lemma served_pipeline:
  assumes "(if child then bs_child b else bs_client b) = Some hs" "\<forall>h\<in>set hs. known_handler h" "\<forall>ex. bs_executor b = Some ex \<longrightarrow> known_handler ex"
  shows "case bs_executor b of
      None \<Rightarrow> (\<exists>c p. serveTransport t child b = Some (Done c) \<and>
        bs_channels c = bs_channels b @ [\<lparr>sv_id = bs_id b + 1, sv_transport = t, sv_pipeline = p\<rparr>] \<and>
        pipeline_wf p (headHandler # hs @ [tailHandler]))
    | Some ex \<Rightarrow>
        if \<forall>h\<in>set hs. \<not> is_codec h then serveTransport t child b = Some (Panicked AssertFailed)
        else (\<exists>c p xs k ys. serveTransport t child b = Some (Done c) \<and>
          bs_channels c = bs_channels b @ [\<lparr>sv_id = bs_id b + 1, sv_transport = t, sv_pipeline = p\<rparr>] \<and>
          hs = xs @ k # ys \<and> is_codec k \<and> (\<forall>h\<in>set ys. \<not> is_codec h) \<and>
          pipeline_wf p (headHandler # xs @ k # ex # ys @ [tailHandler]))"
proof -
  obtain q where q: "AddLast hs NewPipelineWith = Done q" "pipeline_wf q (headHandler # hs @ [tailHandler])"
    using AddLast_wf [OF pipeline_wf_new assms(2)] by auto
  show ?thesis
  proof (cases "bs_executor b")
    case None
    then show ?thesis using assms(1) q by (simp add: serveTransport_def SequenceID_def serveChannel_def go_map_def)
  next
    case (Some ex)
    have nc: "\<not> is_codec headHandler" "\<not> is_codec tailHandler" by (simp_all add: headHandler_def tailHandler_def)
    note last = executor_after_last_codec [OF q(2), of ex]
    have sv: "serveTransport t child b = map_option (go_map (\<lambda>p. b\<lparr>bs_id := bs_id b + 1,
        bs_channels := bs_channels b @ [\<lparr>sv_id = bs_id b + 1, sv_transport = t, sv_pipeline = p\<rparr>]\<rparr>)) (insert_executor ex q)"
      using assms(1) q(1) Some by (simp add: serveTransport_def SequenceID_def serveChannel_def)
    show ?thesis
    proof (cases "\<forall>h\<in>set hs. \<not> is_codec h")
      case True
      then show ?thesis using last nc Some assms(3) sv by (auto simp: go_map_def split: if_splits)
    next
      case False
      then obtain q' xs k ys where k: "insert_executor ex q = Some (Done q')" "hs = xs @ k # ys" "is_codec k"
        "\<forall>h\<in>set ys. \<not> is_codec h" "pipeline_wf q' (headHandler # xs @ k # ex # ys @ [tailHandler])"
        using executor_behind_codec [OF q(2), of ex] assms(3) Some by blast
      have "serveTransport t child b = Some (Done (b\<lparr>bs_id := bs_id b + 1,
          bs_channels := bs_channels b @ [\<lparr>sv_id = bs_id b + 1, sv_transport = t, sv_pipeline = q'\<rparr>]\<rparr>))"
        using sv k(1) by (simp add: go_map_def)
      then show ?thesis using False Some k by fastforce
    qed
  qed
qed

section \<open>Listening twice\<close>

text \<open>A second \<open>Listen\<close> on TCP: the factory, being its own acceptor, has closed the old listener and opened the new one
  when \<open>createListener\<close> stops the old acceptor, which closes the new listener. \<open>Listen\<close> succeeds, nothing listens,
  and the new accept loop ends at once.\<close>

lemma second_listen_closed:
  assumes "Listen resolves ok url os b = Done c" "bs_acceptor b = Some AccTcp" "\<not> bs_udp b"
    "tf_listener (bs_tcp b) = Some l" "sk_listening (bs_sock b) = [l]"
  shows "bs_acceptor c = Some AccTcp \<and> sk_listening (bs_sock c) = [] \<and> tf_listener (bs_tcp c) = None"
proof -
  obtain b1 where b1: "createListener resolves ok (OptAddress url # OptContext # os) b = Done (b1, None)" "c = startListener b1"
    using assms(1) by (auto simp: Listen_def go_bind_Done_iff split: if_splits)
  then obtain o' where o': "ParseOptions (OptAddress url # OptContext # os) = Inr o'"
    by (auto simp: createListener_def split: sum.splits)
  obtain f k err where t: "tcp_Listen ok o' (bs_tcp b) (bs_sock b) = Done (f, k, err)"
    "(b1, None) = (case err of None \<Rightarrow> ((stopListener (b\<lparr>bs_tcp := f, bs_sock := k\<rparr>))\<lparr>bs_acceptor := Some AccTcp\<rparr>, None)
       | Some er \<Rightarrow> (b\<lparr>bs_tcp := f, bs_sock := k\<rparr>, Some er))"
    using b1(1) o' assms(3)
    by (auto simp: createListener_def factory_Listen_def go_map_Done_iff split: option.splits)
  then have "err = None" by (cases err) auto
  with t assms(4,5) have "tf_listener f = Some (sk_next (bs_sock b))" "sk_listening k = [sk_next (bs_sock b)]"
    by (auto simp: tcp_Listen_def tcp_Close_def go_map_Done_iff open_listener_def close_listener_def split: if_splits option.splits)
  with t \<open>err = None\<close> b1(2) assms(2) show ?thesis
    by (simp add: stopListener_def close_acceptor_def tcp_Close_def close_listener_def startListener_def)
qed

end
