(* ===== verification/Served_Channel.thy ===== *)
theory Served_Channel
  imports Bootstrap
begin

text \<open>
  Events on a served channel: the fire functions of \<open>netty/pipeline.go\<close>, the reactions of the handlers the
  program puts into its pipelines (\<open>netty/handler.go\<close>, \<open>netty/executor.go\<close>, the two protobuf codecs and the handlers of
  \<open>serial/\<close> and \<open>service/\<close>) and \<open>channel.Close\<close>, which fires again. A reaction is the list of calls a handler makes,
  in order; the calls in progress are an explicit stack. What the codecs and the handlers compute is a
  parameter (\<open>replies\<close>): it is modelled in the theories of the components. What reaches the head to be written is
  taken to be of a type the head can send (byte slices, a reader), which is what the codecs pass on.
\<close>

section \<open>Handlers and their reactions\<close>

datatype role = SerialServer | SerialClient | PeerData | ServerMsg | PunchMsg

datatype kind = KHead | KTail | KIdle | KCodec | KExecutor | KApp role

fun role_num :: "role \<Rightarrow> nat" where
  "role_num SerialServer = 0"
| "role_num SerialClient = 1"
| "role_num PeerData = 2"
| "role_num ServerMsg = 3"
| "role_num PunchMsg = 4"

text \<open>The methods a handler has decide which events reach it.\<close>

fun handler_of :: "kind \<Rightarrow> handler" where
  "handler_of KHead = headHandler"
| "handler_of KTail = tailHandler"
| "handler_of KIdle = \<lparr>hd_name = 2, is_active = True, is_inbound = True, is_outbound = False, is_exception = False,
     is_inactive = True, is_event = False, is_codec = False\<rparr>"
| "handler_of KCodec = \<lparr>hd_name = 3, is_active = False, is_inbound = True, is_outbound = True, is_exception = False,
     is_inactive = False, is_event = False, is_codec = True\<rparr>"
| "handler_of KExecutor = \<lparr>hd_name = 4, is_active = False, is_inbound = True, is_outbound = False, is_exception = False,
     is_inactive = False, is_event = False, is_codec = False\<rparr>"
| "handler_of (KApp r) = \<lparr>hd_name = 5 + role_num r, is_active = True, is_inbound = True, is_outbound = True, is_exception = True,
     is_inactive = True, is_event = True, is_codec = True\<rparr>"

definition kind_of :: "handler \<Rightarrow> kind" where
  "kind_of h = (let n = hd_name h in
     if n = 0 then KHead else if n = 1 then KTail else if n = 2 then KIdle else if n = 3 then KCodec else if n = 4 then KExecutor
     else KApp (if n = 5 then SerialServer else if n = 6 then SerialClient else if n = 7 then PeerData else if n = 8 then ServerMsg
       else PunchMsg))"

lemma kind_of_handler [simp]: "kind_of (handler_of k) = k"
proof (cases k)
  case (KApp r)
  then show ?thesis by (cases r) (simp_all add: kind_of_def)
qed (simp_all add: kind_of_def headHandler_def tailHandler_def)

text \<open>Events; \<open>EvInactive\<close> says whether it comes with an exception.\<close>

datatype 'm ev = EvActive | EvRead 'm | EvWrite 'm | EvException | EvInactive bool | EvIdle

datatype 'm effect = TimerOn | TimerReset | TimerOff | Delivered role 'm | ConnectedOff

datatype 'm action = Pass "'m ev" | CtxWrite 'm | CtxClose | ChClose | ChWrite 'm | ClearPipeline | Do "'m effect" | Task 'm

text \<open>What a codec makes of what it reads (a list of messages) and of a message to write (nothing, when
  \<open>proto.Marshal\<close> fails), and what the program's handlers write when the channel opens, for a message, and
  when it is idle.\<close>

record 'm replies =
  rp_decode :: "'m \<Rightarrow> 'm list"
  rp_encode :: "'m \<Rightarrow> 'm option"
  rp_active :: "role \<Rightarrow> 'm list"
  rp_read :: "role \<Rightarrow> 'm \<Rightarrow> 'm list"
  rp_idle :: "role \<Rightarrow> 'm list"

definition goes_off :: "role \<Rightarrow> 'm action list" where
  "goes_off r = (if r = ServerMsg then [Do ConnectedOff] else [])"

fun head_react :: "'m ev \<Rightarrow> 'm action list" where
  "head_react EvActive = [Pass EvActive]"
| "head_react (EvRead m) = [Pass (EvRead m)]"
| "head_react (EvWrite m) = [ChWrite m]"
| "head_react EvException = [Pass EvException]"
| "head_react (EvInactive b) = [ChClose]"
| "head_react EvIdle = []"

fun tail_react :: "'m ev \<Rightarrow> 'm action list" where
  "tail_react EvException = [CtxClose]"
| "tail_react (EvInactive b) = [Pass (EvInactive b)]"
| "tail_react (EvWrite m) = [Pass (EvWrite m)]"
| "tail_react _ = []"

fun idle_react :: "'m ev \<Rightarrow> 'm action list" where
  "idle_react EvActive = [Do TimerOn, Pass EvActive]"
| "idle_react (EvRead m) = [Pass (EvRead m), Do TimerReset]"
| "idle_react (EvInactive b) = [Do TimerOff, Pass (EvInactive b)]"
| "idle_react _ = []"

fun codec_react :: "'m replies \<Rightarrow> 'm ev \<Rightarrow> 'm action list" where
  "codec_react R (EvRead m) = map (\<lambda>x. Pass (EvRead x)) (rp_decode R m)"
| "codec_react R (EvWrite m) = (case rp_encode R m of None \<Rightarrow> [] | Some e \<Rightarrow> [Pass (EvWrite e)])"
| "codec_react R _ = []"

fun executor_react :: "'m ev \<Rightarrow> 'm action list" where
  "executor_react (EvRead m) = [Task m]"
| "executor_react _ = []"

text \<open>The handlers of the program. None passes on what it reads or is asked to write.\<close>

fun server_handler_react :: "'m replies \<Rightarrow> 'm ev \<Rightarrow> 'm action list" where
  "server_handler_react R EvActive = []"
| "server_handler_react R (EvRead m) = Do (Delivered SerialServer m) # map CtxWrite (rp_read R SerialServer m)"
| "server_handler_react R (EvWrite m) = []"
| "server_handler_react R EvException = [Pass EvException]"
| "server_handler_react R (EvInactive b) = [Pass (EvInactive b)]"
| "server_handler_react R EvIdle = map CtxWrite (rp_idle R SerialServer)"

fun client_handler_react :: "'m replies \<Rightarrow> 'm ev \<Rightarrow> 'm action list" where
  "client_handler_react R EvActive = map CtxWrite (rp_active R SerialClient)"
| "client_handler_react R (EvRead m) = Do (Delivered SerialClient m) # map CtxWrite (rp_read R SerialClient m)"
| "client_handler_react R (EvWrite m) = []"
| "client_handler_react R EvException = [Pass EvException]"
| "client_handler_react R (EvInactive b) = [Pass (EvInactive b)]"
| "client_handler_react R EvIdle = map CtxWrite (rp_idle R SerialClient)"

fun data_handler_react :: "'m replies \<Rightarrow> 'm ev \<Rightarrow> 'm action list" where
  "data_handler_react R EvActive = map CtxWrite (rp_active R PeerData)"
| "data_handler_react R (EvRead m) = Do (Delivered PeerData m) # map CtxWrite (rp_read R PeerData m)"
| "data_handler_react R (EvWrite m) = []"
| "data_handler_react R EvException = [Pass EvException]"
| "data_handler_react R (EvInactive b) = [Pass (EvInactive b)]"
| "data_handler_react R EvIdle = map CtxWrite (rp_idle R PeerData)"

text \<open>The message handler serves the server's socket and, with another context, the punching sockets; only the
  former has a \<open>Connected\<close> flag to clear, after the event was passed on.\<close>

fun message_handler_react :: "'m replies \<Rightarrow> role \<Rightarrow> 'm ev \<Rightarrow> 'm action list" where
  "message_handler_react R r EvActive = map CtxWrite (rp_active R r)"
| "message_handler_react R r (EvRead m) = Do (Delivered r m) # map CtxWrite (rp_read R r m)"
| "message_handler_react R r (EvWrite m) = []"
| "message_handler_react R r EvException = Pass EvException # goes_off r"
| "message_handler_react R r (EvInactive b) = Pass (EvInactive b) # goes_off r"
| "message_handler_react R r EvIdle = map CtxWrite (rp_idle R r)"

fun app_react :: "'m replies \<Rightarrow> role \<Rightarrow> 'm ev \<Rightarrow> 'm action list" where
  "app_react R SerialServer = server_handler_react R"
| "app_react R SerialClient = client_handler_react R"
| "app_react R PeerData = data_handler_react R"
| "app_react R ServerMsg = message_handler_react R ServerMsg"
| "app_react R PunchMsg = message_handler_react R PunchMsg"

fun react :: "'m replies \<Rightarrow> kind \<Rightarrow> 'm ev \<Rightarrow> 'm action list" where
  "react R KHead = head_react"
| "react R KTail = tail_react"
| "react R KIdle = idle_react"
| "react R KCodec = codec_react R"
| "react R KExecutor = executor_react"
| "react R (KApp r) = app_react R r"

text \<open>What a handler writes when the connection opens: the server side of the port service writes nothing.\<close>

definition greeting :: "'m replies \<Rightarrow> role \<Rightarrow> 'm list" where
  "greeting R r = (if r = SerialServer then [] else rp_active R r)"

lemma app_react [simp]:
  "app_react R r EvActive = map CtxWrite (greeting R r)" "app_react R r (EvRead m) = Do (Delivered r m) # map CtxWrite (rp_read R r m)"
  "app_react R r (EvWrite m) = []" "app_react R r EvException = Pass EvException # goes_off r"
  "app_react R r (EvInactive b) = Pass (EvInactive b) # goes_off r" "app_react R r EvIdle = map CtxWrite (rp_idle R r)"
  by (cases r; simp add: greeting_def goes_off_def)+

section \<open>Running an event\<close>

record 'm chst =
  cs_closed :: bool
  cs_transport :: nat
  cs_pipeline :: bool
  cs_sent :: "'m list"
  cs_effects :: "'m effect list"
  cs_tasks :: "'m list"
  cs_visits :: "(kind \<times> 'm ev) list"

definition visit :: "kind \<Rightarrow> 'm ev \<Rightarrow> 'm chst \<Rightarrow> 'm chst" where
  "visit k e s = s\<lparr>cs_visits := cs_visits s @ [(k, e)]\<rparr>"

definition effect :: "'m effect \<Rightarrow> 'm chst \<Rightarrow> 'm chst" where
  "effect f s = s\<lparr>cs_effects := cs_effects s @ [f]\<rparr>"

text \<open>A write to a closed channel goes nowhere.\<close>

definition ch_write :: "'m \<Rightarrow> 'm chst \<Rightarrow> 'm chst" where
  "ch_write m s = (if cs_closed s then s else s\<lparr>cs_sent := cs_sent s @ [m]\<rparr>)"

definition ch_down :: "'m chst \<Rightarrow> 'm chst" where
  "ch_down s = s\<lparr>cs_closed := True, cs_transport := cs_transport s + 1\<rparr>"

definition ch_forget :: "'m chst \<Rightarrow> 'm chst" where
  "ch_forget s = s\<lparr>cs_pipeline := False\<rparr>"

fun target :: "'m ev \<Rightarrow> pipeline \<Rightarrow> nat \<Rightarrow> nat option option" where
  "target EvActive = hc_HandleActive"
| "target (EvRead m) = hc_HandleRead"
| "target (EvWrite m) = hc_HandleWrite"
| "target EvException = hc_HandleException"
| "target (EvInactive b) = hc_HandleInactive"
| "target EvIdle = hc_Trigger"

type_synonym 'm stack = "(nat \<times> 'm action) list"

text \<open>The calls a context makes for its handler's action, and what the channel does.\<close>

fun action_event :: "'m action \<Rightarrow> ('m ev \<times> (pipeline \<Rightarrow> nat \<Rightarrow> nat option option)) option" where
  "action_event (Pass e) = Some (e, target e)"
| "action_event (CtxWrite m) = Some (EvWrite m, hc_Write)"
| "action_event CtxClose = Some (EvInactive True, hc_Close)"
| "action_event _ = None"

definition node_kind :: "pipeline \<Rightarrow> nat \<Rightarrow> kind" where
  "node_kind p y = kind_of (hc_handler (pl_heap p y))"

definition fireChannelActive :: "pipeline \<Rightarrow> 'm stack" where "fireChannelActive p = [(pl_head p, Pass EvActive)]"
definition fireChannelRead :: "pipeline \<Rightarrow> 'm \<Rightarrow> 'm stack" where "fireChannelRead p m = [(pl_head p, Pass (EvRead m))]"
definition fireChannelWrite :: "pipeline \<Rightarrow> 'm \<Rightarrow> 'm stack" where "fireChannelWrite p m = [(pl_tail p, Pass (EvWrite m))]"
definition fireChannelException :: "pipeline \<Rightarrow> 'm stack" where "fireChannelException p = [(pl_head p, Pass EvException)]"
definition fireChannelInactive :: "pipeline \<Rightarrow> bool \<Rightarrow> 'm stack" where
  "fireChannelInactive p b = [(pl_tail p, Pass (EvInactive b))]"
definition fireChannelEvent :: "pipeline \<Rightarrow> 'm stack" where "fireChannelEvent p = [(pl_head p, Pass EvIdle)]"

text \<open>\<open>channel.Close\<close>: only the first call cancels, closes the transport, fires \<open>Inactive\<close> and forgets the pipeline.\<close>

definition channel_Close :: "pipeline \<Rightarrow> 'm chst \<Rightarrow> 'm stack \<times> 'm chst" where
  "channel_Close p s = (if cs_closed s then ([], s) else (fireChannelInactive p False @ [(pl_tail p, ClearPipeline)], ch_down s))"

partial_function (option) run_event :: "'m replies \<Rightarrow> pipeline \<Rightarrow> 'm stack \<Rightarrow> 'm chst \<Rightarrow> 'm chst option" where
  "run_event R p st s = (case st of [] \<Rightarrow> Some s
     | (x, a) # rest \<Rightarrow>
         (case a of
            ChClose \<Rightarrow> run_event R p (fst (channel_Close p s) @ rest) (snd (channel_Close p s))
          | ChWrite m \<Rightarrow> run_event R p rest (ch_write m s)
          | ClearPipeline \<Rightarrow> run_event R p rest (ch_forget s)
          | Do f \<Rightarrow> run_event R p rest (effect f s)
          | Task m \<Rightarrow> run_event R p rest (s\<lparr>cs_tasks := cs_tasks s @ [m]\<rparr>)
          | _ \<Rightarrow> (case action_event a of None \<Rightarrow> None
               | Some (e, fire) \<Rightarrow> Option.bind (fire p x) (\<lambda>r. case r of
                     None \<Rightarrow> run_event R p rest s
                   | Some y \<Rightarrow> run_event R p (map (Pair y) (react R (node_kind p y) e) @ rest) (visit (node_kind p y) e s)))))"

section \<open>The abstract channel\<close>

text \<open>What the events do, by recursion over the list of handlers: \<open>bs\<close> are the handlers before the current place,
  nearest first, \<open>as\<close> those after it.\<close>

fun spec_write :: "'m replies \<Rightarrow> kind list \<Rightarrow> 'm \<Rightarrow> 'm chst \<Rightarrow> 'm chst" where
  "spec_write R [] m s = ch_write m (visit KHead (EvWrite m) s)"
| "spec_write R (KCodec # bs) m s = (let s1 = visit KCodec (EvWrite m) s in
     case rp_encode R m of None \<Rightarrow> s1 | Some e \<Rightarrow> spec_write R bs e s1)"
| "spec_write R (KApp r # bs) m s = visit (KApp r) (EvWrite m) s"
| "spec_write R (k # bs) m s = spec_write R bs m s"

definition spec_writes :: "'m replies \<Rightarrow> kind list \<Rightarrow> 'm list \<Rightarrow> 'm chst \<Rightarrow> 'm chst" where
  "spec_writes R bs = fold (spec_write R bs)"

fun spec_read :: "'m replies \<Rightarrow> kind list \<Rightarrow> kind list \<Rightarrow> 'm \<Rightarrow> 'm chst \<Rightarrow> 'm chst" where
  "spec_read R bs [] m s = s"
| "spec_read R bs (KIdle # as) m s = effect TimerReset (spec_read R (KIdle # bs) as m (visit KIdle (EvRead m) s))"
| "spec_read R bs (KCodec # as) m s = fold (spec_read R (KCodec # bs) as) (rp_decode R m) (visit KCodec (EvRead m) s)"
| "spec_read R bs (KExecutor # as) m s = (let s1 = visit KExecutor (EvRead m) s in s1\<lparr>cs_tasks := cs_tasks s1 @ [m]\<rparr>)"
| "spec_read R bs (KApp r # as) m s = spec_writes R bs (rp_read R r m) (effect (Delivered r m) (visit (KApp r) (EvRead m) s))"
| "spec_read R bs (k # as) m s = s"

definition inner :: "kind \<Rightarrow> bool" where
  "inner k \<longleftrightarrow> k \<noteq> KHead \<and> k \<noteq> KTail"

definition off :: "role \<Rightarrow> 'm chst \<Rightarrow> 'm chst" where
  "off r s = (if r = ServerMsg then effect ConnectedOff s else s)"

text \<open>\<open>Inactive\<close> travels to the head, where \<open>fin\<close> is what closing the channel does.\<close>

fun spec_inactive :: "bool \<Rightarrow> ('m chst \<Rightarrow> 'm chst) \<Rightarrow> kind list \<Rightarrow> 'm chst \<Rightarrow> 'm chst" where
  "spec_inactive b fin [] s = fin (visit KHead (EvInactive b) s)"
| "spec_inactive b fin (KIdle # bs) s = spec_inactive b fin bs (effect TimerOff (visit KIdle (EvInactive b) s))"
| "spec_inactive b fin (KApp r # bs) s = off r (spec_inactive b fin bs (visit (KApp r) (EvInactive b) s))"
| "spec_inactive b fin (k # bs) s = spec_inactive b fin bs s"

definition spec_close :: "kind list \<Rightarrow> 'm chst \<Rightarrow> 'm chst" where
  "spec_close ks s = (if cs_closed s then s else ch_forget (spec_inactive False id (rev ks) (ch_down s)))"

fun spec_exception :: "('m chst \<Rightarrow> 'm chst) \<Rightarrow> kind list \<Rightarrow> 'm chst \<Rightarrow> 'm chst" where
  "spec_exception fin [] s = fin (visit KTail EvException s)"
| "spec_exception fin (KApp r # as) s = off r (spec_exception fin as (visit (KApp r) EvException s))"
| "spec_exception fin (k # as) s = spec_exception fin as s"

fun spec_active :: "'m replies \<Rightarrow> kind list \<Rightarrow> kind list \<Rightarrow> 'm chst \<Rightarrow> 'm chst" where
  "spec_active R bs [] s = s"
| "spec_active R bs (KIdle # as) s = spec_active R (KIdle # bs) as (effect TimerOn (visit KIdle EvActive s))"
| "spec_active R bs (KApp r # as) s = spec_writes R bs (greeting R r) (visit (KApp r) EvActive s)"
| "spec_active R bs (k # as) s = spec_active R (k # bs) as s"

fun spec_idle :: "'m replies \<Rightarrow> kind list \<Rightarrow> kind list \<Rightarrow> 'm chst \<Rightarrow> 'm chst" where
  "spec_idle R bs [] s = s"
| "spec_idle R bs (KApp r # as) s = spec_writes R bs (rp_idle R r) (visit (KApp r) EvIdle s)"
| "spec_idle R bs (k # as) s = spec_idle R (k # bs) as s"

section \<open>The pipeline implements it\<close>

text \<open>\<open>p\<close> holds the handlers \<open>ks\<close> between head and tail, in the nodes \<open>ns\<close>.\<close>

definition holds :: "pipeline \<Rightarrow> nat list \<Rightarrow> kind list \<Rightarrow> bool" where
  "holds p ns ks \<longleftrightarrow> repr p ns (headHandler # map handler_of ks @ [tailHandler]) \<and> list_all inner ks"

definition slot :: "kind list \<Rightarrow> nat \<Rightarrow> kind" where
  "slot ks i = (KHead # ks @ [KTail]) ! i"

lemma slot_handler:
  assumes "holds p ns ks" "i < length ks + 2"
  shows "length ns = length ks + 2" "hc_handler (pl_heap p (ns ! i)) = handler_of (slot ks i)" "node_kind p (ns ! i) = slot ks i"
proof -
  have r: "repr p ns (headHandler # map handler_of ks @ [tailHandler])" using assms(1) by (simp add: holds_def)
  show l: "length ns = length ks + 2" using reprD(1) [OF r] by simp
  have "(headHandler # map handler_of ks @ [tailHandler]) ! i = map handler_of (KHead # ks @ [KTail]) ! i" by simp
  then have "(headHandler # map handler_of ks @ [tailHandler]) ! i = handler_of (slot ks i)"
    using assms(2) by (simp del: list.map map_append add: slot_def)
  with reprD(7) [OF r, of i] l assms(2) show h: "hc_handler (pl_heap p (ns ! i)) = handler_of (slot ks i)" by simp
  from h show "node_kind p (ns ! i) = slot ks i" by (simp add: node_kind_def)
qed

lemma seek_forward:
  assumes "holds p ns ks" "i \<le> length ks"
  shows "seek hc_next ok p (ns ! i) =
    (if ok (handler_of (slot ks (Suc i))) then Some (Some (ns ! Suc i)) else seek hc_next ok p (ns ! Suc i))"
proof -
  have r: "repr p ns (headHandler # map handler_of ks @ [tailHandler])" using assms(1) by (simp add: holds_def)
  have "hc_next (pl_heap p (ns ! i)) = Some (ns ! Suc i)"
    using reprD(9) [OF r, of i] slot_handler(1) [OF assms(1), of i] assms(2) by simp
  then show ?thesis using slot_handler(2) [OF assms(1), of "Suc i"] assms(2) by (subst seek.simps) simp
qed

lemma seek_backward:
  assumes "holds p ns ks" "i \<le> length ks"
  shows "seek hc_prev ok p (ns ! Suc i) =
    (if ok (handler_of (slot ks i)) then Some (Some (ns ! i)) else seek hc_prev ok p (ns ! i))"
proof -
  have r: "repr p ns (headHandler # map handler_of ks @ [tailHandler])" using assms(1) by (simp add: holds_def)
  have "hc_prev (pl_heap p (ns ! Suc i)) = Some (ns ! i)"
    using reprD(8) [OF r, of "Suc i"] slot_handler(1) [OF assms(1), of i] assms(2) by simp
  then show ?thesis using slot_handler(2) [OF assms(1), of i] assms(2) by (subst seek.simps) simp
qed

lemma seek_end: "holds p ns ks \<Longrightarrow> seek hc_next ok p (ns ! Suc (length ks)) = Some None"
proof -
  assume h: "holds p ns ks"
  then have r: "repr p ns (headHandler # map handler_of ks @ [tailHandler])" by (simp add: holds_def)
  have "hc_next (pl_heap p (ns ! Suc (length ks))) = None"
    using reprD(9) [OF r, of "Suc (length ks)"] slot_handler(1) [OF h, of 0] by simp
  then show ?thesis by (subst seek.simps) simp
qed

lemma run_nil [simp]: "run_event R p [] s = Some s"
  by (subst run_event.simps) simp

lemma run_do [simp]:
  "run_event R p ((x, ChWrite m) # st) s = run_event R p st (ch_write m s)"
  "run_event R p ((x, ClearPipeline) # st) s = run_event R p st (ch_forget s)"
  "run_event R p ((x, Do f) # st) s = run_event R p st (effect f s)"
  "run_event R p ((x, Task m) # st) s = run_event R p st (s\<lparr>cs_tasks := cs_tasks s @ [m]\<rparr>)"
  "run_event R p ((x, ChClose) # st) s = run_event R p (fst (channel_Close p s) @ st) (snd (channel_Close p s))"
  by (subst run_event.simps, simp)+

lemma run_pass:
  "run_event R p ((x, Pass e) # st) s = Option.bind (target e p x) (\<lambda>r. case r of
     None \<Rightarrow> run_event R p st s
   | Some y \<Rightarrow> run_event R p (map (Pair y) (react R (node_kind p y) e) @ st) (visit (node_kind p y) e s))"
  by (subst run_event.simps) simp

lemma run_ctx [simp]:
  "run_event R p ((x, CtxWrite m) # st) s = run_event R p ((x, Pass (EvWrite m)) # st) s"
  "run_event R p ((x, CtxClose) # st) s = run_event R p ((x, Pass (EvInactive True)) # st) s"
  by (subst run_event.simps, simp add: run_pass hc_Write_def hc_HandleWrite_def hc_Close_def hc_HandleInactive_def)+

text \<open>One step of an event that travels forward, one that travels backward.\<close>

fun wants :: "'m ev \<Rightarrow> handler \<Rightarrow> bool" where
  "wants EvActive = is_active"
| "wants (EvRead m) = is_inbound"
| "wants (EvWrite m) = is_outbound"
| "wants EvException = is_exception"
| "wants (EvInactive b) = is_inactive"
| "wants EvIdle = is_event"

fun backward :: "'m ev \<Rightarrow> bool" where
  "backward (EvWrite m) = True"
| "backward (EvInactive b) = True"
| "backward _ = False"

lemma target_seek: "target e = seek (if backward e then hc_prev else hc_next) (wants e)"
  by (cases e) (simp_all add: hc_HandleActive_def hc_HandleRead_def hc_HandleWrite_def hc_HandleException_def
      hc_HandleInactive_def hc_Trigger_def)

lemma run_forward:
  assumes "holds p ns ks" "i \<le> length ks" "\<not> backward e"
  shows "run_event R p ((ns ! i, Pass e) # st) s =
    (if wants e (handler_of (slot ks (Suc i)))
     then run_event R p (map (Pair (ns ! Suc i)) (react R (slot ks (Suc i)) e) @ st) (visit (slot ks (Suc i)) e s)
     else run_event R p ((ns ! Suc i, Pass e) # st) s)"
  using seek_forward [OF assms(1,2), of "wants e"] slot_handler(3) [OF assms(1), of "Suc i"] assms(2,3)
  by (simp add: run_pass target_seek)

lemma run_backward:
  assumes "holds p ns ks" "i \<le> length ks" "backward e"
  shows "run_event R p ((ns ! Suc i, Pass e) # st) s =
    (if wants e (handler_of (slot ks i))
     then run_event R p (map (Pair (ns ! i)) (react R (slot ks i) e) @ st) (visit (slot ks i) e s)
     else run_event R p ((ns ! i, Pass e) # st) s)"
  using seek_backward [OF assms(1,2), of "wants e"] slot_handler(3) [OF assms(1), of i] assms(2,3)
  by (simp add: run_pass target_seek)

lemma run_end: "holds p ns ks \<Longrightarrow> \<not> backward e \<Longrightarrow> run_event R p ((ns ! Suc (length ks), Pass e) # st) s = run_event R p st s"
  by (simp add: run_pass target_seek seek_end)

lemma slot_simps:
  "slot ks 0 = KHead" "i < length ks \<Longrightarrow> slot ks (Suc i) = ks ! i" "slot ks (Suc (length ks)) = KTail"
  by (simp_all add: slot_def nth_append)

lemma holds_inner: "holds p ns ks \<Longrightarrow> i < length ks \<Longrightarrow> ks ! i \<noteq> KHead \<and> ks ! i \<noteq> KTail"
  by (auto simp: holds_def inner_def list_all_length)

lemma rev_take_Suc: "i < length ks \<Longrightarrow> rev (take (Suc i) ks) = ks ! i # rev (take i ks)"
  by (simp add: take_Suc_conv_app_nth)

lemma run_write:
  assumes "holds p ns ks" "i \<le> length ks"
  shows "run_event R p ((ns ! Suc i, Pass (EvWrite m)) # st) s = run_event R p st (spec_write R (rev (take i ks)) m s)"
  using assms(2)
proof (induction i arbitrary: m s)
  case 0
  show ?case using run_backward [OF assms(1) 0, of "EvWrite m"] by (simp add: slot_simps headHandler_def)
next
  case (Suc i)
  then have i: "i < length ks" by simp
  note run_backward [OF assms(1) Suc.prems, of "EvWrite m"]
  then show ?case using Suc.IH i holds_inner [OF assms(1) i]
    by (cases "ks ! i") (auto simp: slot_simps rev_take_Suc Let_def split: option.split)
qed

lemma run_writes:
  assumes "holds p ns ks" "i \<le> length ks"
  shows "run_event R p (map (Pair (ns ! Suc i) \<circ> CtxWrite) ms @ st) s = run_event R p st (spec_writes R (rev (take i ks)) ms s)"
  by (induction ms arbitrary: s) (simp_all add: spec_writes_def run_write [OF assms])

lemma run_read:
  assumes "holds p ns ks" "i \<le> length ks"
  shows "run_event R p ((ns ! i, Pass (EvRead m)) # st) s = run_event R p st (spec_read R (rev (take i ks)) (drop i ks) m s)"
  using assms(2)
proof (induction "length ks - i" arbitrary: i m st s)
  case 0
  then have "i = length ks" by simp
  then show ?case using run_forward [OF assms(1) 0(2), of "EvRead m"] run_end [OF assms(1), of "EvRead m"]
    by (simp add: slot_simps tailHandler_def)
next
  case (Suc n)
  then have i: "i < length ks" "Suc i \<le> length ks" "n = length ks - Suc i" by simp_all
  note IH = Suc.hyps(1) [OF i(3,2)]
  have dec: "run_event R p (map (Pair (ns ! Suc i)) (map (\<lambda>x. Pass (EvRead x)) xs) @ st) s =
    run_event R p st (fold (spec_read R (rev (take (Suc i) ks)) (drop (Suc i) ks)) xs s)" for xs s
    by (induction xs arbitrary: s) (simp_all add: IH)
  have d: "drop i ks = ks ! i # drop (Suc i) ks" using i(1) by (simp add: Cons_nth_drop_Suc)
  note run_forward [OF assms(1) Suc.prems, of "EvRead m"]
  then show ?case using IH dec i(1) d holds_inner [OF assms(1) i(1)]
    by (cases "ks ! i") (simp_all add: slot_simps rev_take_Suc run_writes [OF assms(1) Suc.prems] Let_def visit_def)
qed

text \<open>Closing: a channel that is closed already is only visited; otherwise the head closes it.\<close>

lemma run_off: "run_event R p (map (Pair x) (goes_off r) @ st) s = run_event R p st (off r s)"
  by (simp add: goes_off_def off_def)

lemma run_inactive_gen:
  assumes "holds p ns ks" "i \<le> length ks" "P s" "\<And>k e s. P s \<Longrightarrow> P (visit k e s)" "\<And>f s. P s \<Longrightarrow> P (effect f s)"
    and fin: "\<And>st s. P s \<Longrightarrow> run_event R p ((ns ! 0, ChClose) # st) s = run_event R p st (fin s)"
  shows "run_event R p ((ns ! Suc i, Pass (EvInactive b)) # st) s = run_event R p st (spec_inactive b fin (rev (take i ks)) s)"
  using assms(2,3)
proof (induction i arbitrary: s st)
  case 0
  show ?case using run_backward [OF assms(1) 0(1), of "EvInactive b" R] fin [OF assms(4) [OF 0(2)]]
    by (simp del: run_do add: slot_simps headHandler_def)
next
  case (Suc i)
  then have i: "i < length ks" by simp
  note run_backward [OF assms(1) Suc.prems(1), of "EvInactive b" R]
  then show ?case using Suc.IH Suc.prems(2) i holds_inner [OF assms(1) i] assms(4,5)
    by (cases "ks ! i") (simp_all add: slot_simps rev_take_Suc run_off)
qed

lemma cs_closed_simps [simp]:
  "cs_closed (visit k e s) = cs_closed s" "cs_closed (effect f s) = cs_closed s" "cs_closed (off r s) = cs_closed s"
  "cs_closed (ch_down s)" "cs_closed (ch_forget s) = cs_closed s" "cs_closed (ch_write m s) = cs_closed s"
  by (simp_all add: visit_def effect_def off_def ch_down_def ch_forget_def ch_write_def)

lemma tail_node: "holds p ns ks \<Longrightarrow> pl_tail p = ns ! Suc (length ks)" "holds p ns ks \<Longrightarrow> pl_head p = ns ! 0"
proof -
  assume h: "holds p ns ks"
  then have r: "repr p ns (headHandler # map handler_of ks @ [tailHandler])" by (simp add: holds_def)
  show "pl_tail p = ns ! Suc (length ks)" "pl_head p = ns ! 0"
    using reprD(4,5) [OF r] slot_handler(1) [OF h, of 0] by simp_all
qed

lemma run_inactive_closed:
  assumes "holds p ns ks" "i \<le> length ks" "cs_closed s"
  shows "run_event R p ((ns ! Suc i, Pass (EvInactive b)) # st) s = run_event R p st (spec_inactive b id (rev (take i ks)) s)"
  using assms(3) by (intro run_inactive_gen [OF assms(1,2), where P = cs_closed]) (simp_all add: channel_Close_def)

lemma run_close:
  assumes "holds p ns ks"
  shows "run_event R p ((x, ChClose) # st) s = run_event R p st (spec_close ks s)"
  using run_inactive_closed [OF assms order_refl, of "ch_down s" R False]
  by (simp add: channel_Close_def spec_close_def fireChannelInactive_def tail_node [OF assms])

lemma run_inactive:
  assumes "holds p ns ks" "i \<le> length ks"
  shows "run_event R p ((ns ! Suc i, Pass (EvInactive b)) # st) s =
    run_event R p st (spec_inactive b (spec_close ks) (rev (take i ks)) s)"
  by (intro run_inactive_gen [OF assms, where P = "\<lambda>_. True"] run_close [OF assms(1)] TrueI)

lemma run_exception:
  assumes "holds p ns ks" "i \<le> length ks"
  shows "run_event R p ((ns ! i, Pass EvException) # st) s =
    run_event R p st (spec_exception (spec_inactive True (spec_close ks) (rev ks)) (drop i ks) s)"
  using assms(2)
proof (induction "length ks - i" arbitrary: i st s)
  case 0
  then have "i = length ks" by simp
  then show ?case using run_forward [OF assms(1) 0(2), of EvException R] run_inactive [OF assms(1) order_refl, of R True]
    by (simp add: slot_simps tailHandler_def)
next
  case (Suc n)
  then have i: "i < length ks" "Suc i \<le> length ks" "n = length ks - Suc i" by simp_all
  have d: "drop i ks = ks ! i # drop (Suc i) ks" using i(1) by (simp add: Cons_nth_drop_Suc)
  note run_forward [OF assms(1) Suc.prems, of EvException R]
  then show ?case using Suc.hyps(1) [OF i(3,2)] i(1) d holds_inner [OF assms(1) i(1)]
    by (cases "ks ! i") (simp_all add: slot_simps run_off)
qed

lemma run_active:
  assumes "holds p ns ks" "i \<le> length ks"
  shows "run_event R p ((ns ! i, Pass EvActive) # st) s = run_event R p st (spec_active R (rev (take i ks)) (drop i ks) s)"
  using assms(2)
proof (induction "length ks - i" arbitrary: i st s)
  case 0
  then have "i = length ks" by simp
  then show ?case using run_forward [OF assms(1) 0(2), of EvActive R] run_end [OF assms(1), of EvActive R]
    by (simp add: slot_simps tailHandler_def)
next
  case (Suc n)
  then have i: "i < length ks" "Suc i \<le> length ks" "n = length ks - Suc i" by simp_all
  have d: "drop i ks = ks ! i # drop (Suc i) ks" using i(1) by (simp add: Cons_nth_drop_Suc)
  note run_forward [OF assms(1) Suc.prems, of EvActive R]
  then show ?case using Suc.hyps(1) [OF i(3,2)] i(1) d holds_inner [OF assms(1) i(1)]
    by (cases "ks ! i") (simp_all add: slot_simps rev_take_Suc run_writes [OF assms(1) Suc.prems])
qed

lemma run_idle:
  assumes "holds p ns ks" "i \<le> length ks"
  shows "run_event R p ((ns ! i, Pass EvIdle) # st) s = run_event R p st (spec_idle R (rev (take i ks)) (drop i ks) s)"
  using assms(2)
proof (induction "length ks - i" arbitrary: i st s)
  case 0
  then have "i = length ks" by simp
  then show ?case using run_forward [OF assms(1) 0(2), of EvIdle R] run_end [OF assms(1), of EvIdle R]
    by (simp add: slot_simps tailHandler_def)
next
  case (Suc n)
  then have i: "i < length ks" "Suc i \<le> length ks" "n = length ks - Suc i" by simp_all
  have d: "drop i ks = ks ! i # drop (Suc i) ks" using i(1) by (simp add: Cons_nth_drop_Suc)
  note run_forward [OF assms(1) Suc.prems, of EvIdle R]
  then show ?case using Suc.hyps(1) [OF i(3,2)] i(1) d holds_inner [OF assms(1) i(1)]
    by (cases "ks ! i") (simp_all add: slot_simps rev_take_Suc run_writes [OF assms(1) Suc.prems])
qed

lemma wf_holds:
  assumes "pipeline_wf p (headHandler # map handler_of ks @ [tailHandler])" "list_all inner ks"
  obtains ns where "holds p ns ks"
  using assms by (auto simp: pipeline_wf_def holds_def)

lemma fired:
  assumes "holds p ns ks"
  shows "run_event R p (fireChannelActive p) s = Some (spec_active R [] ks s)"
    "run_event R p (fireChannelRead p m) s = Some (spec_read R [] ks m s)"
    "run_event R p (fireChannelWrite p m) s = Some (spec_write R (rev ks) m s)"
    "run_event R p (fireChannelException p) s = Some (spec_exception (spec_inactive True (spec_close ks) (rev ks)) ks s)"
    "run_event R p (fireChannelInactive p b) s = Some (spec_inactive b (spec_close ks) (rev ks) s)"
    "run_event R p (fireChannelEvent p) s = Some (spec_idle R [] ks s)"
  using run_active [OF assms, of 0 R] run_read [OF assms, of 0 R] run_write [OF assms order_refl, of R] run_exception [OF assms, of 0 R]
    run_inactive [OF assms order_refl, of R] run_idle [OF assms, of 0 R]
  by (simp_all add: fireChannelActive_def fireChannelRead_def fireChannelWrite_def fireChannelException_def
      fireChannelInactive_def fireChannelEvent_def tail_node [OF assms])

text \<open>(C11) Events on the linked pipeline do what the recursion over the list of handlers says: for every pipeline
  of the program's handlers, every fire function ends, and its calls, the state of the channel, what is
  sent, the timers and the tasks are those of the abstract channel.\<close>

theorem events_follow_list:
  assumes "pipeline_wf p (headHandler # map handler_of ks @ [tailHandler])" "list_all inner ks"
  shows "run_event R p (fireChannelActive p) s = Some (spec_active R [] ks s) \<and>
    run_event R p (fireChannelRead p m) s = Some (spec_read R [] ks m s) \<and>
    run_event R p (fireChannelWrite p m) s = Some (spec_write R (rev ks) m s) \<and>
    run_event R p (fireChannelException p) s =
      Some (spec_exception (spec_inactive True (spec_close ks) (rev ks)) ks s) \<and>
    run_event R p (fireChannelInactive p b) s = Some (spec_inactive b (spec_close ks) (rev ks) s) \<and>
    run_event R p (fireChannelEvent p) s = Some (spec_idle R [] ks s)"
proof -
  obtain ns where h: "holds p ns ks" using wf_holds [OF assms] .
  then show ?thesis by (simp add: fired)
qed

text \<open>A connection for the examples: two messages are read at a time, each is answered, encoding adds 100.\<close>

definition sample_reply :: "nat replies" where
  "sample_reply = \<lparr>rp_decode = (\<lambda>m. [m, m + 1]), rp_encode = (\<lambda>m. if m = 0 then None else Some (m + 100)), rp_active = (\<lambda>r. [1]),
     rp_read = (\<lambda>r m. [m * 10]), rp_idle = (\<lambda>r. [2])\<rparr>"

definition open_channel :: "nat chst" where
  "open_channel = \<lparr>cs_closed = False, cs_transport = 0, cs_pipeline = True, cs_sent = [], cs_effects = [], cs_tasks = [], cs_visits = []\<rparr>"

lemma sample_pipeline:
  obtains p where "pipeline_wf p (headHandler # map handler_of [KIdle, KCodec, KApp ServerMsg] @ [tailHandler])"
  using AddLast_wf [OF pipeline_wf_new, of "map handler_of [KIdle, KCodec, KApp ServerMsg]"] by (auto simp: known_handler_def)

theorem events_follow_list_witness:
  "\<exists>p s. run_event sample_reply p (fireChannelRead p 7) open_channel = Some s \<and> cs_sent s = [170, 180] \<and>
     cs_effects s = [Delivered ServerMsg 7, Delivered ServerMsg 8, TimerReset]"
proof -
  obtain p where p: "pipeline_wf p (headHandler # map handler_of [KIdle, KCodec, KApp ServerMsg] @ [tailHandler])" by (rule sample_pipeline)
  have "run_event sample_reply p (fireChannelRead p 7) open_channel =
      Some (spec_read sample_reply [] [KIdle, KCodec, KApp ServerMsg] 7 open_channel)"
    using events_follow_list [OF p, of sample_reply open_channel 7] by (simp add: inner_def)
  moreover have "cs_sent (spec_read sample_reply [] [KIdle, KCodec, KApp ServerMsg] 7 open_channel) = [170, 180]"
    "cs_effects (spec_read sample_reply [] [KIdle, KCodec, KApp ServerMsg] 7 open_channel) =
      [Delivered ServerMsg 7, Delivered ServerMsg 8, TimerReset]"
    by (simp_all add: sample_reply_def open_channel_def visit_def effect_def spec_writes_def ch_write_def)
  ultimately show ?thesis by blast
qed

section \<open>A failure closes the channel once\<close>

definition wants_inactive :: "kind \<Rightarrow> bool" where "wants_inactive k = is_inactive (handler_of k)"
definition wants_exception :: "kind \<Rightarrow> bool" where "wants_exception k = is_exception (handler_of k)"

text \<open>Passing a failure on: what happens on the way (\<open>told\<close>), and what the handlers do when the call returns.\<close>

fun told :: "bool \<Rightarrow> kind list \<Rightarrow> 'm chst \<Rightarrow> 'm chst" where
  "told b [] s = visit KHead (EvInactive b) s"
| "told b (KIdle # bs) s = told b bs (effect TimerOff (visit KIdle (EvInactive b) s))"
| "told b (KApp r # bs) s = told b bs (visit (KApp r) (EvInactive b) s)"
| "told b (k # bs) s = told b bs s"

fun returned :: "kind list \<Rightarrow> 'm chst \<Rightarrow> 'm chst" where
  "returned [] s = s"
| "returned (KApp r # bs) s = off r (returned bs s)"
| "returned (k # bs) s = returned bs s"

lemma spec_inactive_told: "spec_inactive b fin bs s = returned bs (fin (told b bs s))"
  by (induction b fin bs s rule: spec_inactive.induct) simp_all

lemma spec_exception_returned:
  "spec_exception fin as s =
    returned as (fin (visit KTail EvException (s\<lparr>cs_visits := cs_visits s @ map (\<lambda>k. (k, EvException)) (filter (\<lambda>k. \<exists>r. k = KApp r) as)\<rparr>)))"
  by (induction fin as s rule: spec_exception.induct) (simp_all add: visit_def)

lemma chst_fields [simp]:
  "cs_transport (visit k e s) = cs_transport s" "cs_pipeline (visit k e s) = cs_pipeline s" "cs_sent (visit k e s) = cs_sent s"
  "cs_tasks (visit k e s) = cs_tasks s" "cs_effects (visit k e s) = cs_effects s" "cs_visits (visit k e s) = cs_visits s @ [(k, e)]"
  "cs_transport (effect f s) = cs_transport s" "cs_pipeline (effect f s) = cs_pipeline s" "cs_sent (effect f s) = cs_sent s"
  "cs_tasks (effect f s) = cs_tasks s" "cs_effects (effect f s) = cs_effects s @ [f]" "cs_visits (effect f s) = cs_visits s"
  by (simp_all add: visit_def effect_def)

lemma told_fields [simp]:
  "cs_closed (told b bs s) = cs_closed s" "cs_transport (told b bs s) = cs_transport s" "cs_sent (told b bs s) = cs_sent s"
  "cs_tasks (told b bs s) = cs_tasks s" "cs_pipeline (told b bs s) = cs_pipeline s"
  by (induction b bs s rule: told.induct) simp_all

lemma told_visits:
  "list_all inner bs \<Longrightarrow> cs_visits (told b bs s) = cs_visits s @ map (\<lambda>k. (k, EvInactive b)) (filter wants_inactive bs @ [KHead])"
  by (induction b bs s rule: told.induct) (simp_all add: wants_inactive_def inner_def)

lemma told_effects: "cs_effects (told b bs s) = cs_effects s @ replicate (count_list bs KIdle) TimerOff"
  by (induction b bs s rule: told.induct) (simp_all add: replicate_app_Cons_same)

lemma returned_fields [simp]:
  "cs_closed (returned bs s) = cs_closed s" "cs_transport (returned bs s) = cs_transport s" "cs_sent (returned bs s) = cs_sent s"
  "cs_tasks (returned bs s) = cs_tasks s" "cs_pipeline (returned bs s) = cs_pipeline s" "cs_visits (returned bs s) = cs_visits s"
  by (induction bs s rule: returned.induct) (simp_all add: off_def)

lemma returned_effects: "cs_effects (returned bs s) = cs_effects s @ replicate (count_list bs (KApp ServerMsg)) ConnectedOff"
  by (induction bs s rule: returned.induct) (simp_all add: off_def replicate_append_same)

lemma exception_handlers: "list_all inner ks \<Longrightarrow> filter (\<lambda>k. \<exists>r. k = KApp r) ks = filter wants_exception ks"
proof (rule filter_cong [OF HOL.refl])
  fix k assume "list_all inner ks" "k \<in> set ks"
  then show "(\<exists>r. k = KApp r) = wants_exception k"
    by (cases k) (auto simp: list_all_iff inner_def wants_exception_def)
qed

text \<open>(C12) A failure closes a channel once. When an exception is fired on an open channel, every handler for
  exceptions is told, in order; then every handler for closing is told twice, from the back, first with
  the exception and, because closing fires again, a second time without; the transport is closed exactly
  once, nothing is sent, no task is made, each idle timer is stopped at each of the two rounds, and the
  server's handler is marked disconnected.\<close>

theorem failure_closes_once:
  assumes "pipeline_wf p (headHandler # map handler_of ks @ [tailHandler])" "list_all inner ks" "\<not> cs_closed s"
  shows "\<exists>t. run_event R p (fireChannelException p) s = Some t \<and> cs_closed t \<and> cs_transport t = cs_transport s + 1 \<and>
    \<not> cs_pipeline t \<and> cs_sent t = cs_sent s \<and> cs_tasks t = cs_tasks s \<and>
    cs_visits t = cs_visits s @ map (\<lambda>k. (k, EvException)) (filter wants_exception ks @ [KTail]) @
      map (\<lambda>k. (k, EvInactive True)) (rev (filter wants_inactive ks) @ [KHead]) @
      map (\<lambda>k. (k, EvInactive False)) (rev (filter wants_inactive ks) @ [KHead]) \<and>
    cs_effects t = cs_effects s @ replicate (2 * count_list ks KIdle) TimerOff @ replicate (3 * count_list ks (KApp ServerMsg)) ConnectedOff"
proof -
  obtain ns where h: "holds p ns ks" using wf_holds [OF assms(1,2)] .
  have inn: "list_all inner (rev ks)" using assms(2) by simp
  note fired(4) [OF h, of R s]
  moreover note spec_exception_returned [of "spec_inactive True (spec_close ks) (rev ks)" ks s]
  ultimately show ?thesis
    using assms(3) by (simp add: spec_inactive_told spec_close_def ch_down_def ch_forget_def told_visits [OF inn] told_effects
        returned_effects exception_handlers [OF assms(2)] rev_filter count_list_rev flip: replicate_add)
qed

theorem failure_closes_once_witness:
  "\<exists>p t. run_event sample_reply p (fireChannelException p) open_channel = Some t \<and> cs_transport t = 1 \<and>
     cs_effects t = [TimerOff, TimerOff, ConnectedOff, ConnectedOff, ConnectedOff]"
proof -
  obtain p where p: "pipeline_wf p (headHandler # map handler_of [KIdle, KCodec, KApp ServerMsg] @ [tailHandler])" by (rule sample_pipeline)
  have "\<not> cs_closed open_channel" "list_all inner [KIdle, KCodec, KApp ServerMsg]" by (simp_all add: open_channel_def inner_def)
  then obtain t where "run_event sample_reply p (fireChannelException p) open_channel = Some t" "cs_transport t = 1"
    "cs_effects t = replicate 2 TimerOff @ replicate 3 ConnectedOff"
    using failure_closes_once [OF p, of open_channel sample_reply] by (auto simp: open_channel_def)
  then show ?thesis by (auto simp: numeral_eq_Suc)
qed

section \<open>The pipelines of the program\<close>

text \<open>The initialisers: the port service and its clients, the sockets between peers, to the server, and for punching.
  Only the port service has an executor.\<close>

fun initializer :: "role \<Rightarrow> kind list" where
  "initializer SerialServer = [KCodec, KIdle, KApp SerialServer]"
| "initializer SerialClient = [KCodec, KIdle, KApp SerialClient]"
| "initializer PeerData = [KIdle, KCodec, KApp PeerData]"
| "initializer ServerMsg = [KIdle, KCodec, KApp ServerMsg]"
| "initializer PunchMsg = [KCodec, KApp PunchMsg]"

definition executor :: "role \<Rightarrow> kind option" where
  "executor r = (if r = SerialServer then Some KExecutor else None)"

text \<open>All initialisers end in the program's handler, which names itself a codec: so the executor comes behind it.\<close>

definition served_kinds :: "role \<Rightarrow> kind list" where
  "served_kinds r = initializer r @ (case executor r of None \<Rightarrow> [] | Some k \<Rightarrow> [k])"

lemma inner_served: "list_all inner (served_kinds r)"
  by (cases r) (simp_all add: served_kinds_def executor_def inner_def)

lemma known_handlers: "h \<in> set (map handler_of (initializer r)) \<Longrightarrow> known_handler h" "known_handler (handler_of KExecutor)"
  by (cases r, auto simp: known_handler_def)

lemma known_codec: "is_codec (handler_of KCodec)"
  by simp

lemma served_role:
  assumes "(if child then bs_child b else bs_client b) = Some (map handler_of (initializer r))"
    and "bs_executor b = map_option handler_of (executor r)"
  shows "\<exists>c p. serveTransport t child b = Some (Done c) \<and>
    bs_channels c = bs_channels b @ [\<lparr>sv_id = bs_id b + 1, sv_transport = t, sv_pipeline = p\<rparr>] \<and>
    pipeline_wf p (headHandler # map handler_of (served_kinds r) @ [tailHandler])"
proof -
  have k: "\<forall>h\<in>set (map handler_of (initializer r)). known_handler h" "\<forall>ex. bs_executor b = Some ex \<longrightarrow> known_handler ex"
    using known_handlers assms(2) by (auto simp: executor_def split: if_splits)
  note served = served_pipeline [OF assms(1) k, of t]
  have last: "xs @ k # ys = xs @ [k]" if "map handler_of (initializer SerialServer) = xs @ k # ys" "\<forall>h\<in>set ys. \<not> is_codec h" for xs k ys
    using that by (cases ys rule: rev_cases) (auto simp: append_eq_Cons_conv Cons_eq_append_conv)
  show ?thesis
  proof (cases "r = SerialServer")
    case True
    obtain c p xs k ys where c: "serveTransport t child b = Some (Done c)"
      "bs_channels c = bs_channels b @ [\<lparr>sv_id = bs_id b + 1, sv_transport = t, sv_pipeline = p\<rparr>]"
      "map handler_of (initializer SerialServer) = xs @ k # ys" "\<forall>h\<in>set ys. \<not> is_codec h"
      "pipeline_wf p (headHandler # xs @ k # handler_of KExecutor # ys @ [tailHandler])"
      using served assms(2) True known_codec by (auto simp: executor_def simp del: handler_of.simps split: if_splits)
    have "xs @ k # handler_of KExecutor # ys = map handler_of (served_kinds r)"
      using last [OF c(3,4)] c(3) True by (simp add: served_kinds_def executor_def del: handler_of.simps)
    with c(1,2,5) show ?thesis by (metis append_assoc append_Cons)
  next
    case False
    then show ?thesis using served assms(2) by (simp add: executor_def served_kinds_def)
  qed
qed

fun is_delivered :: "'m effect \<Rightarrow> bool" where
  "is_delivered (Delivered r m) = True"
| "is_delivered _ = False"

definition deliveries :: "'m chst \<Rightarrow> 'm effect list" where
  "deliveries s = filter is_delivered (cs_effects s)"

lemma deliveries_simps [simp]:
  "deliveries (visit k e s) = deliveries s" "deliveries (effect f s) = deliveries s @ filter is_delivered [f]"
  by (simp_all add: deliveries_def)

text \<open>One message handled: it is delivered, and \<open>out\<close> is sent.\<close>

definition handled :: "'m effect list \<Rightarrow> 'm list \<Rightarrow> 'm chst \<Rightarrow> 'm chst \<Rightarrow> bool" where
  "handled ds out s t \<longleftrightarrow> \<not> cs_closed t \<and> cs_sent t = cs_sent s @ out \<and> cs_tasks t = cs_tasks s \<and> deliveries t = deliveries s @ ds"

lemma handled_trans: "handled ds out s t \<Longrightarrow> handled ds' out' t u \<Longrightarrow> handled (ds @ ds') (out @ out') s u"
  by (simp add: handled_def)

definition encoded :: "'m replies \<Rightarrow> 'm list \<Rightarrow> 'm list" where
  "encoded R = List.map_filter (rp_encode R)"

lemma encoded_simps [simp]:
  "encoded R [] = []" "encoded R (m # ms) = (case rp_encode R m of None \<Rightarrow> [] | Some e \<Rightarrow> [e]) @ encoded R ms"
  "encoded R (xs @ ys) = encoded R xs @ encoded R ys"
  by (simp_all add: encoded_def map_filter_simps split: option.split) (simp add: List.map_filter_def)

definition before_app :: "kind list \<Rightarrow> bool" where
  "before_app bs \<longleftrightarrow> bs = [KIdle, KCodec] \<or> bs = [KCodec, KIdle] \<or> bs = [KCodec]"

lemma writes_handled:
  assumes "before_app bs" "\<not> cs_closed s"
  shows "handled [] (encoded R ms) s (spec_writes R bs ms s)"
  using assms(2)
proof (induction ms arbitrary: s)
  case Nil
  then show ?case by (simp add: spec_writes_def handled_def)
next
  case (Cons m ms)
  have one: "handled [] (encoded R [m]) s (spec_write R bs m s)"
    using assms(1) Cons.prems
    by (auto simp: before_app_def handled_def ch_write_def deliveries_def Let_def split: option.split)
  have "spec_writes R bs (m # ms) s = spec_writes R bs ms (spec_write R bs m s)" by (simp add: spec_writes_def)
  with handled_trans [OF one Cons.IH] one show ?case by (simp add: handled_def)
qed

lemma app_handled:
  assumes "before_app bs" "\<not> cs_closed s"
  shows "handled [Delivered r m] (encoded R (rp_read R r m)) s (spec_read R bs (KApp r # as) m s)"
  using writes_handled [OF assms(1), of "effect (Delivered r m) (visit (KApp r) (EvRead m) s)" R "rp_read R r m"] assms(2)
  by (simp add: handled_def)

lemma decoded_handled:
  assumes "\<And>x s. \<not> cs_closed s \<Longrightarrow> handled [Delivered r x] (encoded R (rp_read R r x)) s (f x s)" "\<not> cs_closed s"
  shows "handled (map (Delivered r) xs) (encoded R (concat (map (rp_read R r) xs))) s (fold f xs s)"
  using assms(2)
proof (induction xs arbitrary: s)
  case Nil
  then show ?case by (simp add: handled_def)
next
  case (Cons x xs)
  note one = assms(1) [OF Cons.prems, of x]
  from handled_trans [OF one Cons.IH] one show ?case by (simp add: handled_def)
qed

lemma handled_noise [simp]:
  "handled ds out s (effect TimerReset t) = handled ds out s t" "handled ds out (visit k e s) t = handled ds out s t"
  by (simp_all add: handled_def)

lemma role_read:
  assumes "\<not> cs_closed s"
  shows "handled (map (Delivered r) (rp_decode R m)) (encoded R (concat (map (rp_read R r) (rp_decode R m)))) s
    (spec_read R [] (served_kinds r) m s)"
proof -
  have b: "before_app [KIdle, KCodec]" "before_app [KCodec, KIdle]" "before_app [KCodec]" by (simp_all add: before_app_def)
  have idle: "handled [Delivered r x] (encoded R (rp_read R r x)) s (spec_read R [KCodec] (KIdle # KApp r # as) x s)"
    if "\<not> cs_closed s" for x s as
    using app_handled [OF b(1), of "visit KIdle (EvRead x) s" r x R as] that by simp
  let ?out = "\<lambda>xs. encoded R (concat (map (rp_read R r) xs))"
  have serial: "handled (map (Delivered r) xs) (?out xs) s (fold (spec_read R [KCodec] (KIdle # KApp r # as)) xs s)"
    if "\<not> cs_closed s" for xs as s by (rule decoded_handled [OF idle that])
  have app: "handled (map (Delivered r) xs) (?out xs) s (fold (spec_read R bs (KApp r # as)) xs s)"
    if "\<not> cs_closed s" "before_app bs" for xs bs as s by (rule decoded_handled [OF app_handled [OF that(2)] that(1)])
  show ?thesis
    using serial [of "visit KCodec (EvRead m) s"] app [OF _ b(2), of "visit KCodec (EvRead m) (visit KIdle (EvRead m) s)"]
      app [OF _ b(3), of "visit KCodec (EvRead m) s"] assms
    by (cases r) (simp_all add: served_kinds_def executor_def)
qed

lemma role_idle:
  assumes "\<not> cs_closed s"
  shows "handled [] (encoded R (rp_idle R r)) s (spec_idle R [] (served_kinds r) s)"
  using writes_handled [of _ "visit (KApp r) EvIdle s" R "rp_idle R r"] assms
  by (cases r) (simp_all add: served_kinds_def executor_def before_app_def)

lemma role_active:
  assumes "\<not> cs_closed s"
  shows "handled [] (encoded R (greeting R r)) s (spec_active R [] (served_kinds r) s)"
  using writes_handled [of _ "visit (KApp r) EvActive s" R "greeting R r"] 
    writes_handled [of _ "visit (KApp r) EvActive (effect TimerOn (visit KIdle EvActive s))" R "greeting R r"] assms
  by (cases r) (simp_all add: served_kinds_def executor_def before_app_def handled_def)

lemma role_write: "cs_sent (spec_write R (rev (served_kinds r)) m s) = cs_sent s"
  by (cases r) (simp_all add: served_kinds_def executor_def)

lemma role_trigger:
  assumes "holds p ns (served_kinds r)" "KIdle \<in> set (initializer r)"
  shows "\<exists>x. node_kind p x = KIdle \<and> (\<forall>(R :: 'm replies) s. run_event R p [(x, Pass EvIdle)] s = Some (spec_idle R [] (served_kinds r) s))"
proof -
  define i where "i = (if r = PeerData \<or> r = ServerMsg then 1 else 2 :: nat)"
  have i: "i \<le> length (served_kinds r)" "slot (served_kinds r) i = KIdle"
    using assms(2) by (cases r; simp add: i_def served_kinds_def executor_def slot_def numeral_2_eq_2)+
  have "spec_idle R (rev (take i (served_kinds r))) (drop i (served_kinds r)) s = spec_idle R [] (served_kinds r) s"
    for R :: "'m replies" and s
    using assms(2) by (cases r) (simp_all add: i_def served_kinds_def executor_def numeral_2_eq_2)
  then show ?thesis
    using run_idle [OF assms(1) i(1), where 'a = 'm] slot_handler(3) [OF assms(1), of i] i by (intro exI [of _ "ns ! i"]) simp
qed

text \<open>(C10) Messages on the program's connections. A connection that is served with one of the program's
  initialisers, the port service's with its executor: what the codec decodes is delivered to the program's
  handler, each message once and in order, and the handler's answers are sent encoded, in order; the
  messages it writes when the connection opens and when the idle handler reports silence are sent; the
  executor, which stands behind the handler, never gets a task, so the messages are handled on the
  reading goroutine; and what is written to the pipeline from its end is sent by nobody.\<close>

theorem program_messages:
  assumes "(if child then bs_child b else bs_client b) = Some (map handler_of (initializer r))"
    and "bs_executor b = map_option handler_of (executor r)"
  shows "\<exists>c p. serveTransport t child b = Some (Done c) \<and>
    bs_channels c = bs_channels b @ [\<lparr>sv_id = bs_id b + 1, sv_transport = t, sv_pipeline = p\<rparr>] \<and>
    (\<forall>(R :: 'm replies) s m. \<not> cs_closed s \<longrightarrow> (\<exists>s0 s1 s2 s3.
      run_event R p (fireChannelActive p) s = Some s0 \<and> handled [] (encoded R (greeting R r)) s s0 \<and>
      run_event R p (fireChannelRead p m) s = Some s1 \<and>
      handled (map (Delivered r) (rp_decode R m)) (encoded R (concat (map (rp_read R r) (rp_decode R m)))) s s1 \<and>
      run_event R p (fireChannelEvent p) s = Some s2 \<and> handled [] (encoded R (rp_idle R r)) s s2 \<and>
      run_event R p (fireChannelWrite p m) s = Some s3 \<and> cs_sent s3 = cs_sent s)) \<and>
    (KIdle \<in> set (initializer r) \<longrightarrow> (\<exists>x. node_kind p x = KIdle \<and>
      (\<forall>(R :: 'm replies) s. run_event R p [(x, Pass EvIdle)] s = run_event R p (fireChannelEvent p) s)))"
proof -
  obtain c p where c: "serveTransport t child b = Some (Done c)"
    "bs_channels c = bs_channels b @ [\<lparr>sv_id = bs_id b + 1, sv_transport = t, sv_pipeline = p\<rparr>]"
    "pipeline_wf p (headHandler # map handler_of (served_kinds r) @ [tailHandler])"
    using served_role [OF assms, of t] by blast
  obtain ns where h: "holds p ns (served_kinds r)" using wf_holds [OF c(3) inner_served] .
  have "run_event R p (fireChannelActive p) s = Some (spec_active R [] (served_kinds r) s)"
    "run_event R p (fireChannelRead p m) s = Some (spec_read R [] (served_kinds r) m s)"
    "run_event R p (fireChannelEvent p) s = Some (spec_idle R [] (served_kinds r) s)"
    "run_event R p (fireChannelWrite p m) s = Some (spec_write R (rev (served_kinds r)) m s)" for R :: "'m replies" and s m
    by (simp_all add: fired [OF h])
  moreover have "\<exists>x. node_kind p x = KIdle \<and>
      (\<forall>(R :: 'm replies) s. run_event R p [(x, Pass EvIdle)] s = run_event R p (fireChannelEvent p) s)"
    if "KIdle \<in> set (initializer r)"
    using role_trigger [OF h that, where 'm = 'm] by (simp add: fired [OF h])
  ultimately show ?thesis
    using c(1,2) role_active role_read role_idle role_write by (intro exI [of _ c] exI [of _ p] conjI) auto
qed

theorem program_messages_witness:
  "\<exists>c p s. serveTransport 7 False (NewBootstrap\<lparr>bs_client := Some (map handler_of (initializer PeerData))\<rparr>) = Some (Done c) \<and>
     map sv_pipeline (bs_channels c) = [p] \<and> run_event sample_reply p (fireChannelEvent p) open_channel = Some s \<and> cs_sent s = [102]"
proof -
  let ?b = "NewBootstrap\<lparr>bs_client := Some (map handler_of (initializer PeerData))\<rparr>"
  have a: "(if False then bs_child ?b else bs_client ?b) = Some (map handler_of (initializer PeerData))"
    "bs_executor ?b = map_option handler_of (executor PeerData)" by (simp_all add: NewBootstrap_def executor_def)
  have o: "\<not> cs_closed open_channel" by (simp add: open_channel_def)
  from program_messages [OF a, of 7, where 'm = nat] obtain c p where c: "serveTransport 7 False ?b = Some (Done c)"
    "bs_channels c = bs_channels ?b @ [\<lparr>sv_id = bs_id ?b + 1, sv_transport = 7, sv_pipeline = p\<rparr>]"
    and r: "\<forall>R s (m :: nat). \<not> cs_closed s \<longrightarrow> (\<exists>s0 s1 s2 s3.
      run_event R p (fireChannelActive p) s = Some s0 \<and> handled [] (encoded R (greeting R PeerData)) s s0 \<and>
      run_event R p (fireChannelRead p m) s = Some s1 \<and>
      handled (map (Delivered PeerData) (rp_decode R m)) (encoded R (concat (map (rp_read R PeerData) (rp_decode R m)))) s s1 \<and>
      run_event R p (fireChannelEvent p) s = Some s2 \<and> handled [] (encoded R (rp_idle R PeerData)) s s2 \<and>
      run_event R p (fireChannelWrite p m) s = Some s3 \<and> cs_sent s3 = cs_sent s)" by (elim exE conjE)
  obtain s where s: "run_event sample_reply p (fireChannelEvent p) open_channel = Some s"
    "handled [] (encoded sample_reply (rp_idle sample_reply PeerData)) open_channel s"
    using r [rule_format, OF o, of sample_reply 0] by (elim exE conjE)
  have "cs_sent s = [102]" using s(2) by (simp add: handled_def open_channel_def sample_reply_def)
  moreover have "map sv_pipeline (bs_channels c) = [p]" using c(2) by (simp add: NewBootstrap_def)
  ultimately show ?thesis using c(1) s(1) by (intro exI [of _ c] exI [of _ p] exI [of _ s]) simp
qed

end
