(* ===== verification/Udp_Acceptor.thy ===== *)
theory Udp_Acceptor
  imports Transport "HOL-Library.Sublist"
begin

text \<open>
  The UDP server, \<open>netty/transport/udp/factory.go\<close> and the server transport of \<open>netty/transport/udp/transport.go\<close>:
  one goroutine (\<open>mainLoop\<close>) reads datagrams and sorts them by sender into the queues of the server
  transports; each transport is read and closed by the channel that was accepted for it. The
  goroutines are interleaved by a step relation whose steps are the atomic actions of the source: a
  test of \<open>isClosed\<close>, one \<open>select\<close>, one \<open>close\<close> of a Go channel.
\<close>

section \<open>State\<close>

type_synonym raddr = string

text \<open>A server transport. \<open>st_pushed\<close> and \<open>st_read\<close> record what went into its queue and what was read;
  \<open>st_reading\<close> is a reader past the test of \<open>isClosed\<close>.\<close>

record udpServerTransport =
  st_raddr :: raddr
  st_queue :: "bytes list"
  st_closed :: bool
  st_isClosed :: bool
  st_qclosed :: bool
  st_pushed :: "bytes list"
  st_read :: "bytes list"
  st_reading :: bool

definition newUDPServerTransport :: "raddr \<Rightarrow> udpServerTransport" where
  "newUDPServerTransport a = \<lparr>st_raddr = a, st_queue = [], st_closed = False, st_isClosed = False, st_qclosed = False,
     st_pushed = [], st_read = [], st_reading = False\<rparr>"

abbreviation queue_cap :: nat where "queue_cap \<equiv> 128"

text \<open>The three actions of \<open>Close\<close> after its test, by the one that comes next.\<close>

datatype close_pc = SetFlag | CloseClosed | CloseQueue

text \<open>\<open>mainLoop\<close>, by the next thing it does. \<open>Parked\<close> is the \<open>select\<close> of \<open>received\<close> waiting for room; in \<open>Sweep\<close> the loop closes
  all transports after a read error.\<close>

datatype loop_pc = AtRead | Check nat raddr bytes | Select nat raddr bytes | Parked nat raddr bytes
  | Sweep | SweepClose nat close_pc

record udpAcceptor =
  ua_options :: UdpOptions
  ua_trans :: "udpServerTransport list"
  ua_transports :: "(raddr, nat) map"
  ua_incoming :: "nat list"
  ua_closed :: bool
  ua_loop :: loop_pc
  ua_closers :: "(nat \<times> close_pc) list"
  ua_arrived :: "(raddr \<times> bytes) list"
  ua_accepted :: "nat list"
  ua_crashed :: bool

definition udp_acceptor :: "UdpOptions \<Rightarrow> udpAcceptor" where
  "udp_acceptor o' = \<lparr>ua_options = o', ua_trans = [], ua_transports = Map.empty, ua_incoming = [], ua_closed = False,
     ua_loop = AtRead, ua_closers = [], ua_arrived = [], ua_accepted = [], ua_crashed = False\<rparr>"

definition upd :: "nat \<Rightarrow> (udpServerTransport \<Rightarrow> udpServerTransport) \<Rightarrow> udpAcceptor \<Rightarrow> udpAcceptor" where
  "upd t f u = u\<lparr>ua_trans := (ua_trans u)[t := f (ua_trans u ! t)]\<rparr>"

section \<open>Operations\<close>

text \<open>\<open>Read\<close>: what a reader gets of a packet for a buffer of \<open>n\<close> bytes. Each packet ends with an error, \<open>io.EOF\<close> when it
  fits.\<close>

datatype read_end = EOF | ErrShortBuffer

definition read_packet :: "nat \<Rightarrow> bytes \<Rightarrow> bytes \<times> read_end" where
  "read_packet n packet = (take n packet, if length packet \<noteq> length (take n packet) then ErrShortBuffer else EOF)"

text \<open>One action of \<open>Close\<close>; \<open>None\<close> is the panic of closing a closed channel.\<close>

fun close_action :: "close_pc \<Rightarrow> udpServerTransport \<Rightarrow> (udpServerTransport \<times> close_pc option) option" where
  "close_action SetFlag s = Some (s\<lparr>st_isClosed := True\<rparr>, Some CloseClosed)"
| "close_action CloseClosed s = (if st_closed s then None else Some (s\<lparr>st_closed := True\<rparr>, Some CloseQueue))"
| "close_action CloseQueue s = (if st_qclosed s then None else Some (s\<lparr>st_qclosed := True\<rparr>, None))"

text \<open>\<open>Accept\<close>: the choices of its \<open>select\<close>.\<close>

definition udp_Accept :: "udpAcceptor \<Rightarrow> (udpAcceptor \<times> nat option) list" where
  "udp_Accept u = (if ua_closed u then [(u, None)] else []) @
     (case ua_incoming u of [] \<Rightarrow> [] | t # ts \<Rightarrow> [(u\<lparr>ua_incoming := ts, ua_accepted := ua_accepted u @ [t]\<rparr>, Some t)])"

definition udp_Close :: "udpAcceptor \<Rightarrow> udpAcceptor \<times> bool" where
  "udp_Close u = (if ua_closed u then (u, False) else (u\<lparr>ua_closed := True\<rparr>, True))"

text \<open>A datagram is read: the transport of its sender is looked up or made, and offered to \<open>Accept\<close>; when
  the backlog is full the datagram is dropped.\<close>

definition route_datagram :: "raddr \<Rightarrow> bytes \<Rightarrow> udpAcceptor \<Rightarrow> udpAcceptor" where
  "route_datagram a d u =
     (let packet = take (nat (uo_MaxPacketSize (ua_options u))) d; u0 = u\<lparr>ua_arrived := ua_arrived u @ [(a, packet)]\<rparr> in
      case ua_transports u a of
        Some t \<Rightarrow> u0\<lparr>ua_loop := Check t a packet\<rparr>
      | None \<Rightarrow>
          if int (length (ua_incoming u)) < uo_MaxBacklog (ua_options u)
          then let t = length (ua_trans u) in
            u0\<lparr>ua_trans := ua_trans u @ [newUDPServerTransport a], ua_incoming := ua_incoming u @ [t],
               ua_transports := (ua_transports u)(a \<mapsto> t), ua_loop := Check t a packet\<rparr>
          else u0)"

definition push :: "nat \<Rightarrow> bytes \<Rightarrow> udpAcceptor \<Rightarrow> udpAcceptor" where
  "push t d u = (upd t (\<lambda>s. s\<lparr>st_queue := st_queue s @ [d], st_pushed := st_pushed s @ [d]\<rparr>) u)\<lparr>ua_loop := AtRead\<rparr>"

definition drop_transport :: "raddr \<Rightarrow> udpAcceptor \<Rightarrow> udpAcceptor" where
  "drop_transport a u = u\<lparr>ua_transports := (ua_transports u)(a := None), ua_loop := AtRead\<rparr>"

section \<open>Steps\<close>

text \<open>\<open>mainLoop\<close>. A datagram is read while the listener is open; a read error is possible at any time and is what every
  read gives once it is closed. A \<open>select\<close> that finds \<open>closed\<close> closed and a send on a closed queue takes
  either, and the second panics; one that waits is woken by the first.\<close>

inductive main_step :: "udpAcceptor \<Rightarrow> udpAcceptor \<Rightarrow> bool" where
  recv: "ua_loop u = AtRead \<Longrightarrow> \<not> ua_closed u \<Longrightarrow> main_step u (route_datagram a d u)"
| read_error: "ua_loop u = AtRead \<Longrightarrow> main_step u (u\<lparr>ua_loop := Sweep\<rparr>)"
| check_closed: "ua_loop u = Check t a d \<Longrightarrow> st_isClosed (ua_trans u ! t) \<Longrightarrow> main_step u (drop_transport a u)"
| check_open: "ua_loop u = Check t a d \<Longrightarrow> \<not> st_isClosed (ua_trans u ! t) \<Longrightarrow> main_step u (u\<lparr>ua_loop := Select t a d\<rparr>)"
| sel_closed: "ua_loop u = Select t a d \<Longrightarrow> st_closed (ua_trans u ! t) \<Longrightarrow> main_step u (drop_transport a u)"
| sel_panic: "ua_loop u = Select t a d \<Longrightarrow> st_qclosed (ua_trans u ! t) \<Longrightarrow> main_step u (u\<lparr>ua_crashed := True\<rparr>)"
| sel_push: "ua_loop u = Select t a d \<Longrightarrow> \<not> st_qclosed (ua_trans u ! t) \<Longrightarrow> length (st_queue (ua_trans u ! t)) < queue_cap \<Longrightarrow>
    main_step u (push t d u)"
| sel_park: "ua_loop u = Select t a d \<Longrightarrow> \<not> st_closed (ua_trans u ! t) \<Longrightarrow> \<not> st_qclosed (ua_trans u ! t) \<Longrightarrow>
    \<not> length (st_queue (ua_trans u ! t)) < queue_cap \<Longrightarrow> main_step u (u\<lparr>ua_loop := Parked t a d\<rparr>)"
| park_closed: "ua_loop u = Parked t a d \<Longrightarrow> st_closed (ua_trans u ! t) \<Longrightarrow> main_step u (drop_transport a u)"
| park_push: "ua_loop u = Parked t a d \<Longrightarrow> \<not> st_closed (ua_trans u ! t) \<Longrightarrow> length (st_queue (ua_trans u ! t)) < queue_cap \<Longrightarrow>
    main_step u (push t d u)"
| sweep_done: "ua_loop u = Sweep \<Longrightarrow> ua_transports u = Map.empty \<Longrightarrow> main_step u (u\<lparr>ua_loop := AtRead\<rparr>)"
| sweep: "ua_loop u = Sweep \<Longrightarrow> ua_transports u a = Some t \<Longrightarrow> main_step u
    (u\<lparr>ua_transports := (ua_transports u)(a := None),
       ua_loop := (if st_closed (ua_trans u ! t) then Sweep else SweepClose t SetFlag)\<rparr>)"
| sweep_close: "ua_loop u = SweepClose t pc \<Longrightarrow> close_action pc (ua_trans u ! t) = Some (s, nx) \<Longrightarrow> main_step u
    ((upd t (\<lambda>_. s) u)\<lparr>ua_loop := (case nx of None \<Rightarrow> Sweep | Some pc' \<Rightarrow> SweepClose t pc')\<rparr>)"
| sweep_panic: "ua_loop u = SweepClose t pc \<Longrightarrow> close_action pc (ua_trans u ! t) = None \<Longrightarrow> main_step u (u\<lparr>ua_crashed := True\<rparr>)"

text \<open>The users of the acceptor and of its transports. Only accepted transports are read or closed.\<close>

inductive user_step :: "udpAcceptor \<Rightarrow> udpAcceptor \<Rightarrow> bool" where
  accept: "(u', r) \<in> set (udp_Accept u) \<Longrightarrow> user_step u u'"
| close: "user_step u (fst (udp_Close u))"
| read_begin: "t \<in> set (ua_accepted u) \<Longrightarrow> \<not> st_reading (ua_trans u ! t) \<Longrightarrow> \<not> st_isClosed (ua_trans u ! t) \<Longrightarrow>
    user_step u (upd t (\<lambda>s. s\<lparr>st_reading := True\<rparr>) u)"
| read_packet: "t \<in> set (ua_accepted u) \<Longrightarrow> st_reading (ua_trans u ! t) \<Longrightarrow> st_queue (ua_trans u ! t) = p # ps \<Longrightarrow>
    user_step u (upd t (\<lambda>s. s\<lparr>st_reading := False, st_queue := ps, st_read := st_read s @ [p]\<rparr>) u)"
| read_broken: "t \<in> set (ua_accepted u) \<Longrightarrow> st_reading (ua_trans u ! t) \<Longrightarrow> st_queue (ua_trans u ! t) = [] \<Longrightarrow>
    st_qclosed (ua_trans u ! t) \<Longrightarrow> user_step u (upd t (\<lambda>s. s\<lparr>st_reading := False\<rparr>) u)"
| close_begin: "t \<in> set (ua_accepted u) \<Longrightarrow> \<not> st_closed (ua_trans u ! t) \<Longrightarrow>
    user_step u (u\<lparr>ua_closers := (t, SetFlag) # ua_closers u\<rparr>)"
| close_next: "ua_closers u = xs @ (t, pc) # ys \<Longrightarrow> close_action pc (ua_trans u ! t) = Some (s, nx) \<Longrightarrow> user_step u
    ((upd t (\<lambda>_. s) u)\<lparr>ua_closers := xs @ (case nx of None \<Rightarrow> [] | Some pc' \<Rightarrow> [(t, pc')]) @ ys\<rparr>)"
| close_panic: "ua_closers u = xs @ (t, pc) # ys \<Longrightarrow> close_action pc (ua_trans u ! t) = None \<Longrightarrow>
    user_step u (u\<lparr>ua_crashed := True\<rparr>)"

inductive ua_run :: "udpAcceptor \<Rightarrow> udpAcceptor \<Rightarrow> bool" where
  refl: "ua_run u u"
| main: "ua_run u v \<Longrightarrow> \<not> ua_crashed v \<Longrightarrow> main_step v w \<Longrightarrow> ua_run u w"
| user: "ua_run u v \<Longrightarrow> \<not> ua_crashed v \<Longrightarrow> user_step v w \<Longrightarrow> ua_run u w"

section \<open>Order of delivery\<close>

definition streams :: "udpAcceptor \<Rightarrow> (raddr \<times> bytes list) list" where
  "streams u = map (\<lambda>s. (st_raddr s, st_pushed s)) (ua_trans u)"

text \<open>What the transports of one sender were given, in the order they were made, and what it sent.\<close>

definition sent_to :: "raddr \<Rightarrow> (raddr \<times> bytes list) list \<Rightarrow> bytes list" where
  "sent_to a ss = concat (map snd (filter (\<lambda>p. fst p = a) ss))"

definition arrivals :: "raddr \<Rightarrow> udpAcceptor \<Rightarrow> bytes list" where
  "arrivals a u = map snd (filter (\<lambda>p. fst p = a) (ua_arrived u))"

fun in_transit :: "loop_pc \<Rightarrow> (nat \<times> raddr \<times> bytes) option" where
  "in_transit (Check t a d) = Some (t, a, d)"
| "in_transit (Select t a d) = Some (t, a, d)"
| "in_transit (Parked t a d) = Some (t, a, d)"
| "in_transit _ = None"

definition held_for :: "raddr \<Rightarrow> udpAcceptor \<Rightarrow> bytes list" where
  "held_for a u = (case in_transit (ua_loop u) of Some (t, b, d) \<Rightarrow> if a = b then [d] else [] | None \<Rightarrow> [])"

definition last_of :: "raddr \<Rightarrow> nat \<Rightarrow> (raddr \<times> bytes list) list \<Rightarrow> bool" where
  "last_of a t ss \<longleftrightarrow> t < length ss \<and> map fst ss ! t = a \<and> a \<notin> set (drop (Suc t) (map fst ss))"

definition order_inv :: "udpAcceptor \<Rightarrow> bool" where
  "order_inv u \<longleftrightarrow> (\<forall>a t. ua_transports u a = Some t \<longrightarrow> last_of a t (streams u)) \<and>
     (\<forall>t a d. in_transit (ua_loop u) = Some (t, a, d) \<longrightarrow> ua_transports u a = Some t) \<and>
     (\<forall>a. subseq (sent_to a (streams u) @ held_for a u) (arrivals a u))"

lemma streams_upd:
  assumes "\<And>s. st_raddr (f s) = st_raddr s" "\<And>s. st_pushed (f s) = st_pushed s"
  shows "streams (upd t f u) = streams u"
proof -
  have "(map (\<lambda>s. (st_raddr s, st_pushed s)) (ua_trans u))[t := (st_raddr (ua_trans u ! t), st_pushed (ua_trans u ! t))] =
    map (\<lambda>s. (st_raddr s, st_pushed s)) (ua_trans u)"
    by (cases "t < length (ua_trans u)") (simp_all add: list_update_same_conv list_update_beyond)
  then show ?thesis by (simp add: streams_def upd_def map_update assms)
qed

lemma close_action_keeps:
  assumes "close_action pc s = Some (s', nx)"
  shows "st_raddr s' = st_raddr s \<and> st_pushed s' = st_pushed s \<and> st_read s' = st_read s \<and> st_queue s' = st_queue s"
  using assms by (cases pc) (auto split: if_splits)

lemma streams_close:
  assumes "close_action pc (ua_trans u ! t) = Some (s, nx)"
  shows "streams (upd t (\<lambda>_. s) u) = streams u"
proof -
  let ?f = "\<lambda>x. x\<lparr>st_isClosed := st_isClosed s, st_closed := st_closed s, st_qclosed := st_qclosed s\<rparr>"
  have "upd t (\<lambda>_. s) u = upd t ?f u"
    using assms by (cases pc) (auto simp: upd_def split: if_splits)
  then show ?thesis using streams_upd [of ?f t u] by simp
qed

lemma upd_simps [simp]:
  "ua_options (upd t f u) = ua_options u" "ua_transports (upd t f u) = ua_transports u" "ua_incoming (upd t f u) = ua_incoming u"
  "ua_closed (upd t f u) = ua_closed u" "ua_loop (upd t f u) = ua_loop u" "ua_closers (upd t f u) = ua_closers u"
  "ua_arrived (upd t f u) = ua_arrived u" "ua_accepted (upd t f u) = ua_accepted u" "ua_crashed (upd t f u) = ua_crashed u"
  "length (ua_trans (upd t f u)) = length (ua_trans u)"
  by (simp_all add: upd_def)

lemma streams_record [simp]:
  "streams (u\<lparr>ua_loop := l\<rparr>) = streams u" "streams (u\<lparr>ua_closers := c\<rparr>) = streams u" "streams (u\<lparr>ua_crashed := x\<rparr>) = streams u"
  "streams (u\<lparr>ua_transports := m\<rparr>) = streams u" "streams (u\<lparr>ua_arrived := r\<rparr>) = streams u"
  "streams (u\<lparr>ua_incoming := i\<rparr>) = streams u" "streams (u\<lparr>ua_closed := x\<rparr>) = streams u" "streams (u\<lparr>ua_accepted := y\<rparr>) = streams u"
  by (simp_all add: streams_def)

lemma order_inv_cong:
  assumes "streams v = streams u" "ua_transports v = ua_transports u" "in_transit (ua_loop v) = in_transit (ua_loop u)"
    "ua_arrived v = ua_arrived u"
  shows "order_inv v = order_inv u"
  using assms by (simp add: order_inv_def held_for_def arrivals_def)

lemma order_inv_user: "user_step u v \<Longrightarrow> order_inv u \<Longrightarrow> order_inv v"
proof (induction rule: user_step.induct)
  case (accept u' r u)
  then show ?case by (subst order_inv_cong [of _ u]) (auto simp: udp_Accept_def split: list.splits if_splits)
next
  case (close u)
  then show ?case by (subst order_inv_cong [of _ u]) (auto simp: udp_Close_def)
qed (subst order_inv_cong, auto simp: streams_upd streams_close)+

lemma subseq_appendL: "subseq (xs @ ys) zs \<Longrightarrow> subseq xs zs"
  using prefix_imp_subseq [of xs "xs @ ys"] by (auto intro: subseq_order.trans)

lemma order_inv_leave:
  assumes "order_inv u" "\<And>b t. m b = Some t \<Longrightarrow> ua_transports u b = Some t" "in_transit l = None"
  shows "order_inv (u\<lparr>ua_transports := m, ua_loop := l\<rparr>)"
proof -
  have "subseq (sent_to a (streams u)) (arrivals a u)" for a
    using assms(1) by (auto simp: order_inv_def intro: subseq_appendL)
  then show ?thesis using assms by (auto simp: order_inv_def held_for_def arrivals_def)
qed

lemma last_of_split:
  assumes "last_of a t ss"
  shows "\<exists>xs ds ys. ss = xs @ (a, ds) # ys \<and> length xs = t \<and> (\<forall>p\<in>set ys. fst p \<noteq> a)"
proof -
  have t: "t < length ss" "fst (ss ! t) = a" "a \<notin> fst ` set (drop (Suc t) ss)"
    using assms by (auto simp: last_of_def drop_map)
  then have "ss = take t ss @ (a, snd (ss ! t)) # drop (Suc t) ss" using id_take_nth_drop [of t ss] by (metis prod.collapse)
  moreover have "\<forall>p\<in>set (drop (Suc t) ss). fst p \<noteq> a" using t(3) by auto
  moreover have "length (take t ss) = t" using t(1) by simp
  ultimately show ?thesis by blast
qed

lemma streams_push:
  assumes "last_of a t (streams u)"
  shows "\<exists>xs ds ys. streams u = xs @ (a, ds) # ys \<and> length xs = t \<and> (\<forall>p\<in>set ys. fst p \<noteq> a) \<and>
    streams (push t d u) = xs @ (a, ds @ [d]) # ys"
proof -
  obtain xs ds ys where x: "streams u = xs @ (a, ds) # ys" "length xs = t" "\<forall>p\<in>set ys. fst p \<noteq> a"
    using last_of_split [OF assms] by blast
  have "length (streams u) = length (ua_trans u)" by (simp add: streams_def)
  moreover have "t < length (streams u)" using x by simp
  ultimately have "streams u ! t = (st_raddr (ua_trans u ! t), st_pushed (ua_trans u ! t))" by (simp add: streams_def)
  moreover have "streams u ! t = (a, ds)" using x by auto
  ultimately have "st_raddr (ua_trans u ! t) = a" "st_pushed (ua_trans u ! t) = ds" by simp_all
  then have "streams (push t d u) = (streams u)[t := (a, ds @ [d])]"
    by (simp add: push_def upd_def streams_def map_update)
  with x show ?thesis by (auto simp: list_update_append)
qed

lemma order_inv_push:
  assumes "order_inv u" "in_transit (ua_loop u) = Some (t, a, d)"
  shows "order_inv (push t d u)"
proof -
  have tr: "ua_transports u a = Some t" and la: "last_of a t (streams u)" using assms by (auto simp: order_inv_def)
  obtain xs ds ys where x: "streams u = xs @ (a, ds) # ys" "length xs = t" "\<forall>p\<in>set ys. fst p \<noteq> a"
    "streams (push t d u) = xs @ (a, ds @ [d]) # ys"
    using streams_push [OF la] by blast
  have ys: "filter (\<lambda>p. fst p = a) ys = []" using x(3) by (simp add: filter_empty_conv)
  have "sent_to b (streams (push t d u)) = sent_to b (streams u) @ held_for b u" for b
    using x assms(2) ys by (auto simp: sent_to_def held_for_def)
  moreover have "last_of b k (streams (push t d u))" if "ua_transports u b = Some k" for b k
  proof -
    have "map fst (streams (push t d u)) = map fst (streams u)" "length (streams (push t d u)) = length (streams u)" using x by simp_all
    then show ?thesis using assms(1) that by (auto simp: order_inv_def last_of_def simp del: nth_map)
  qed
  ultimately show ?thesis using assms(1) by (auto simp: order_inv_def push_def held_for_def arrivals_def)
qed

lemma order_inv_arrive:
  assumes "order_inv u" "ua_loop u = AtRead"
  shows "order_inv (u\<lparr>ua_arrived := ua_arrived u @ [(a, d)]\<rparr>)"
proof -
  have "subseq (sent_to b (streams u)) (arrivals b u @ xs)" for b xs
    using assms by (auto simp: order_inv_def held_for_def intro: list_emb_append2 subseq_appendL)
  then show ?thesis using assms by (auto simp: order_inv_def held_for_def arrivals_def)
qed

lemma last_of_append: "last_of b t ss \<Longrightarrow> b \<noteq> a \<Longrightarrow> last_of b t (ss @ [(a, x)])"
  by (auto simp: last_of_def nth_append)

lemma last_of_new: "last_of a (length ss) (ss @ [(a, x)])"
  by (simp add: last_of_def nth_append)

lemma order_inv_route:
  assumes "order_inv u" "ua_loop u = AtRead"
  shows "order_inv (route_datagram a d u)"
proof -
  define packet where "packet = take (nat (uo_MaxPacketSize (ua_options u))) d"
  let ?u0 = "u\<lparr>ua_arrived := ua_arrived u @ [(a, packet)]\<rparr>"
  have sub: "subseq (sent_to b (streams u) @ (if a = b then [packet] else [])) (arrivals b ?u0)" for b
    using assms by (auto simp: order_inv_def held_for_def arrivals_def intro: list_emb_append_mono)
  have base: "subseq (sent_to b (streams u)) (arrivals b u)" for b using assms by (auto simp: order_inv_def held_for_def)
  show ?thesis
  proof (cases "ua_transports u a")
    case (Some t)
    then show ?thesis using assms sub
      by (auto simp: route_datagram_def packet_def [symmetric] order_inv_def held_for_def arrivals_def)
  next
    case None
    have st: "sent_to b (streams u @ [(a, [])]) = sent_to b (streams u)" for b by (simp add: sent_to_def)
    have la: "last_of b t (streams u @ [(a, [])])" if "((ua_transports u)(a \<mapsto> length (streams u))) b = Some t" for b t
      using that assms(1) last_of_append [of b t "streams u" a "[]"] last_of_new [of a "streams u" "[]"]
      by (auto simp: order_inv_def split: if_splits)
    have le: "length (streams u) = length (ua_trans u)" by (simp add: streams_def)
    have ss: "streams (u\<lparr>ua_trans := ua_trans u @ [newUDPServerTransport a]\<rparr>) = streams u @ [(a, [])]"
      by (simp add: streams_def newUDPServerTransport_def)
    show ?thesis
    proof (cases "int (length (ua_incoming u)) < uo_MaxBacklog (ua_options u)")
      case True
      then show ?thesis using None base st la le ss
        by (auto simp: route_datagram_def packet_def [symmetric] order_inv_def held_for_def arrivals_def Let_def streams_def newUDPServerTransport_def)
    next
      case False
      then show ?thesis using None order_inv_arrive [OF assms] by (simp add: route_datagram_def packet_def)
    qed
  qed
qed

lemma order_inv_main: "main_step u v \<Longrightarrow> order_inv u \<Longrightarrow> order_inv v"
proof (induction rule: main_step.induct)
  case (recv u a d)
  then show ?case by (blast intro: order_inv_route)
next
  case (read_error u)
  then show ?case by (subst order_inv_cong [of _ u]) auto
next
  case (check_open u t a d)
  then show ?case by (subst order_inv_cong [of _ u]) auto
next
  case (sel_panic u t a d)
  then show ?case by (subst order_inv_cong [of _ u]) auto
next
  case (sel_park u t a d)
  then show ?case by (subst order_inv_cong [of _ u]) auto
next
  case (sweep_done u)
  then show ?case by (subst order_inv_cong [of _ u]) auto
next
  case (sweep_close u t pc s nx)
  then show ?case by (subst order_inv_cong [of _ u]) (auto simp: streams_close split: option.split)
next
  case (sweep_panic u t pc)
  then show ?case by (subst order_inv_cong [of _ u]) auto
qed (auto simp: drop_transport_def intro!: order_inv_leave order_inv_push split: if_splits)

section \<open>Queues and closing\<close>

text \<open>Each transport holds what was queued and not yet read, within its capacity; \<open>closed\<close> and the queue are closed only after
  \<open>isClosed\<close> is set.\<close>

definition trans_ok :: "udpServerTransport \<Rightarrow> bool" where
  "trans_ok s \<longleftrightarrow> st_pushed s = st_read s @ st_queue s \<and> length (st_queue s) \<le> queue_cap \<and>
     (st_closed s \<or> st_qclosed s \<longrightarrow> st_isClosed s)"

fun loop_target :: "loop_pc \<Rightarrow> (nat \<times> close_pc) list" where
  "loop_target (SweepClose t pc) = [(t, pc)]"
| "loop_target _ = []"

definition closing :: "udpAcceptor \<Rightarrow> (nat \<times> close_pc) set" where
  "closing u = set (loop_target (ua_loop u) @ ua_closers u)"

definition ids_ok :: "udpAcceptor \<Rightarrow> bool" where
  "ids_ok u \<longleftrightarrow> ua_accepted u @ ua_incoming u = [0..<length (ua_trans u)] \<and>
     int (length (ua_incoming u)) \<le> max 0 (uo_MaxBacklog (ua_options u)) \<and>
     (\<forall>t pc. (t, pc) \<in> closing u \<longrightarrow> t < length (ua_trans u) \<and> (pc \<noteq> SetFlag \<longrightarrow> st_isClosed (ua_trans u ! t))) \<and>
     (\<forall>a t. ua_transports u a = Some t \<longrightarrow> t < length (ua_trans u)) \<and>
     (ua_crashed u \<longrightarrow> (\<exists>s\<in>set (ua_trans u). st_isClosed s))"

definition ua_inv :: "udpAcceptor \<Rightarrow> bool" where
  "ua_inv u \<longleftrightarrow> order_inv u \<and> (\<forall>s\<in>set (ua_trans u). trans_ok s) \<and> ids_ok u"

lemma closing_simps [simp]:
  "closing (upd t f u) = closing u" "closing (u\<lparr>ua_closed := x\<rparr>) = closing u" "closing (u\<lparr>ua_crashed := x\<rparr>) = closing u"
  "closing (u\<lparr>ua_incoming := i, ua_accepted := y\<rparr>) = closing u" "closing (u\<lparr>ua_transports := m\<rparr>) = closing u"
  "closing (u\<lparr>ua_closers := c\<rparr>) = set (loop_target (ua_loop u)) \<union> set c"
  "closing (u\<lparr>ua_loop := l\<rparr>) = set (loop_target l) \<union> set (ua_closers u)"
  by (simp_all add: closing_def)

lemma trans_ok_upd:
  assumes "\<forall>s\<in>set (ua_trans u). trans_ok s" "t < length (ua_trans u) \<Longrightarrow> trans_ok (f (ua_trans u ! t))"
  shows "\<forall>s\<in>set (ua_trans (upd t f u)). trans_ok s"
  using assms by (cases "t < length (ua_trans u)") (auto simp: upd_def list_update_beyond dest: set_update_subset_insert [THEN subsetD])

lemma trans_ok_close:
  assumes "close_action pc s = Some (s', nx)" "trans_ok s" "pc \<noteq> SetFlag \<Longrightarrow> st_isClosed s"
  shows "trans_ok s' \<and> st_isClosed s'"
  using assms by (cases pc) (auto simp: trans_ok_def split: if_splits)

lemma ids_okD:
  assumes "ids_ok u"
  shows "t \<in> set (ua_accepted u) \<Longrightarrow> t < length (ua_trans u)"
    "(t, pc) \<in> closing u \<Longrightarrow> t < length (ua_trans u)" "(t, pc) \<in> closing u \<Longrightarrow> pc \<noteq> SetFlag \<Longrightarrow> st_isClosed (ua_trans u ! t)"
proof -
  have "set (ua_accepted u) \<subseteq> {..<length (ua_trans u)}"
    using assms by (metis ids_ok_def set_append set_upt Un_upper1 atLeast0LessThan)
  then show "t \<in> set (ua_accepted u) \<Longrightarrow> t < length (ua_trans u)" by auto
qed (use assms in \<open>auto simp: ids_ok_def\<close>)

lemma ids_ok_upd:
  assumes "ids_ok u" "st_isClosed (ua_trans u ! t) \<Longrightarrow> st_isClosed (f (ua_trans u ! t))"
  shows "ids_ok (upd t f u)"
proof -
  have c: "st_isClosed (ua_trans (upd t f u) ! k)" if "st_isClosed (ua_trans u ! k)" "k < length (ua_trans u)" for k
    using that assms(2) by (cases "k = t") (auto simp: upd_def)
  moreover have "\<exists>s\<in>set (ua_trans (upd t f u)). st_isClosed s" if "\<exists>s\<in>set (ua_trans u). st_isClosed s"
    using that c by (metis in_set_conv_nth upd_simps(10))
  moreover have "closing (upd t f u) = closing u" by (simp add: closing_def)
  ultimately show ?thesis using assms(1) by (fastforce simp: ids_ok_def)
qed

text \<open>Only the transports, the queues of ids and the goroutines that close matter for \<open>ids_ok\<close>.\<close>

lemma ids_ok_frame:
  assumes "ids_ok u" "ua_trans v = ua_trans u" "ua_accepted v @ ua_incoming v = ua_accepted u @ ua_incoming u"
    "length (ua_incoming v) \<le> length (ua_incoming u)" "ua_options v = ua_options u" "ua_transports v \<subseteq>\<^sub>m ua_transports u"
    "\<And>t pc. (t, pc) \<in> closing v \<Longrightarrow> (t, pc) \<in> closing u \<or> t < length (ua_trans u) \<and> (pc = SetFlag \<or> st_isClosed (ua_trans u ! t))"
    "ua_crashed v \<Longrightarrow> ua_crashed u \<or> (\<exists>s\<in>set (ua_trans u). st_isClosed s)"
  shows "ids_ok v"
proof -
  have "ua_transports u a = Some t" if "ua_transports v a = Some t" for a t
    using that assms(6) by (metis domI map_le_def)
  moreover have "t < length (ua_trans u) \<and> (pc \<noteq> SetFlag \<longrightarrow> st_isClosed (ua_trans u ! t))" if "(t, pc) \<in> closing v" for t pc
    using that assms(1) assms(7) [OF that] unfolding ids_ok_def by blast
  ultimately show ?thesis using assms(1-5,8) by (fastforce simp: ids_ok_def)
qed

lemma close_action_flag: "close_action pc s = Some (s', nx) \<Longrightarrow> pc \<noteq> SetFlag \<Longrightarrow> st_isClosed s' = st_isClosed s"
  "close_action SetFlag s = Some (s', nx) \<Longrightarrow> st_isClosed s'"
  by (cases pc; auto split: if_splits) auto

lemma ids_ok_closing:
  assumes "ids_ok u" "(t, pc) \<in> closing u" "close_action pc (ua_trans u ! t) = Some (s, nx)"
    "\<And>k q. (k, q) \<in> closing v \<Longrightarrow> (k, q) \<in> closing u \<or> k = t \<and> nx = Some q"
    "ua_trans v = (ua_trans u)[t := s]" "ua_accepted v = ua_accepted u" "ua_incoming v = ua_incoming u" "ua_options v = ua_options u"
    "ua_transports v = ua_transports u" "ua_crashed v = ua_crashed u"
  shows "ids_ok v"
proof -
  let ?u = "upd t (\<lambda>_. s) u"
  have t: "t < length (ua_trans u)" using ids_okD(2) [OF assms(1,2)] .
  have fl: "st_isClosed s" using close_action_flag(2) [of "ua_trans u ! t" s nx] close_action_flag(1) [OF assms(3)] assms(3) ids_okD(3) [OF assms(1,2)]
    by (cases "pc = SetFlag") simp_all
  have ok: "ids_ok ?u" using assms(1) by (rule ids_ok_upd) (rule fl)
  have cl: "st_isClosed (ua_trans ?u ! t)" using fl t by (simp add: upd_def)
  have "(k, q) \<in> closing ?u \<or> k < length (ua_trans ?u) \<and> (q = SetFlag \<or> st_isClosed (ua_trans ?u ! k))" if "(k, q) \<in> closing v" for k q
    using assms(4) [OF that] cl t by (auto simp: closing_def)
  then show ?thesis using assms(5-10) by (intro ids_ok_frame [OF ok]) (simp_all add: upd_def)
qed

lemma closing_crash:
  assumes "ids_ok u" "(t, pc) \<in> closing u" "close_action pc (ua_trans u ! t) = None"
  shows "\<exists>s\<in>set (ua_trans u). st_isClosed s"
proof -
  have "pc \<noteq> SetFlag" using assms(3) by auto
  then show ?thesis using ids_okD(2,3) [OF assms(1,2)] nth_mem by blast
qed

lemma ids_ok_crash: "ids_ok u \<Longrightarrow> \<exists>s\<in>set (ua_trans u). st_isClosed s \<Longrightarrow> ids_ok (u\<lparr>ua_crashed := True\<rparr>)"
  by (rule ids_ok_frame) auto

lemma ids_ok_user: "user_step u v \<Longrightarrow> ids_ok u \<Longrightarrow> ids_ok v"
proof (induction rule: user_step.induct)
  case (accept u' r u)
  then have "u' = u \<or> (\<exists>t ts. ua_incoming u = t # ts \<and> u' = u\<lparr>ua_incoming := ts, ua_accepted := ua_accepted u @ [t]\<rparr>)"
    by (cases "ua_incoming u") (auto simp: udp_Accept_def split: if_splits)
  then show ?case
  proof
    assume "\<exists>t ts. ua_incoming u = t # ts \<and> u' = u\<lparr>ua_incoming := ts, ua_accepted := ua_accepted u @ [t]\<rparr>"
    then show ?thesis by (intro ids_ok_frame [OF accept(2)]) auto
  qed (use accept in simp)
next
  case (close u)
  then have "ids_ok (u\<lparr>ua_closed := True\<rparr>)" by (rule ids_ok_frame) auto
  with close show ?case by (simp add: udp_Close_def)
next
  case (close_begin t u)
  show ?case using close_begin(3)
    by (rule ids_ok_frame) (use close_begin ids_okD(1) [of u t] in \<open>auto simp: closing_def\<close>)
next
  case (close_next u xs t pc ys s nx)
  show ?case
    by (rule ids_ok_closing [OF close_next(3) _ close_next(2)])
      (use close_next(1) in \<open>auto simp: closing_def upd_def split: option.splits\<close>)
next
  case (close_panic u xs t pc ys)
  then have "(t, pc) \<in> closing u" by (simp add: closing_def)
  then show ?case using close_panic(2,3) closing_crash by (intro ids_ok_crash) blast+
qed (rule ids_ok_upd; simp)+

lemma ids_ok_new:
  assumes "ids_ok u" "int (length (ua_incoming u)) < uo_MaxBacklog (ua_options u)"
  shows "ids_ok (u\<lparr>ua_trans := ua_trans u @ [newUDPServerTransport a], ua_incoming := ua_incoming u @ [length (ua_trans u)],
    ua_transports := (ua_transports u)(a \<mapsto> length (ua_trans u))\<rparr>)" (is "ids_ok ?v")
proof -
  have "t < length (ua_trans ?v) \<and> (pc \<noteq> SetFlag \<longrightarrow> st_isClosed (ua_trans ?v ! t))" if "(t, pc) \<in> closing ?v" for t pc
  proof -
    have "(t, pc) \<in> closing u" using that by (simp add: closing_def)
    then show ?thesis using ids_okD(2,3) [OF assms(1)] by (fastforce simp: nth_append)
  qed
  moreover have "ua_accepted ?v @ ua_incoming ?v = [0..<length (ua_trans ?v)]"
    using assms(1) by (simp add: ids_ok_def append_assoc [symmetric] del: append_assoc)
  moreover have "t < length (ua_trans ?v)" if "ua_transports ?v b = Some t" for b t
    using that assms(1) by (auto simp: ids_ok_def less_Suc_eq split: if_splits)
  moreover have "\<exists>s\<in>set (ua_trans ?v). st_isClosed s" if "ua_crashed ?v" using that assms(1) by (auto simp: ids_ok_def)
  ultimately show ?thesis using assms(2) unfolding ids_ok_def by simp
qed

lemma ids_ok_route:
  assumes "ids_ok u" "ua_loop u = AtRead"
  shows "ids_ok (route_datagram a d u)"
proof -
  have "ids_ok (u\<lparr>ua_arrived := x\<rparr>)" for x using assms(1) by (rule ids_ok_frame) (auto simp: closing_def)
  moreover have "ids_ok (u\<lparr>ua_arrived := x, ua_loop := Check t a y\<rparr>)" for x t y
    using assms(1) by (rule ids_ok_frame) (auto simp: closing_def)
  moreover have "ids_ok (u\<lparr>ua_arrived := x, ua_trans := ua_trans u @ [newUDPServerTransport a],
      ua_incoming := ua_incoming u @ [length (ua_trans u)], ua_transports := (ua_transports u)(a \<mapsto> length (ua_trans u)),
      ua_loop := Check (length (ua_trans u)) a y\<rparr>)"
    if "int (length (ua_incoming u)) < uo_MaxBacklog (ua_options u)" for x y
    using ids_ok_new [OF assms(1) that, of a] by (rule ids_ok_frame) (auto simp: closing_def)
  ultimately show ?thesis by (simp add: route_datagram_def Let_def split: option.split)
qed

lemma ids_ok_push:
  assumes "ids_ok u" "in_transit (ua_loop u) \<noteq> None"
  shows "ids_ok (push t d u)"
proof -
  have "ids_ok (upd t (\<lambda>s. s\<lparr>st_queue := st_queue s @ [d], st_pushed := st_pushed s @ [d]\<rparr>) u)" using assms(1) by (rule ids_ok_upd) simp
  then show ?thesis unfolding push_def by (rule ids_ok_frame) (auto simp: closing_def)
qed

lemma ids_ok_main: "main_step u v \<Longrightarrow> ids_ok u \<Longrightarrow> order_inv u \<Longrightarrow> \<forall>s\<in>set (ua_trans u). trans_ok s \<Longrightarrow> ids_ok v"
proof (induction rule: main_step.induct)
  case (recv u a d)
  then show ?case by (simp add: ids_ok_route)
next
  case (sel_panic u t a d)
  have "t < length (ua_trans u)" using sel_panic by (auto simp: order_inv_def ids_ok_def)
  then have "\<exists>s\<in>set (ua_trans u). st_isClosed s" using sel_panic(2,5) by (auto simp: trans_ok_def intro!: bexI [of _ "ua_trans u ! t"])
  with sel_panic(3) show ?case by (rule ids_ok_crash)
next
  case (sel_push u t a d)
  then show ?case by (simp add: ids_ok_push)
next
  case (park_push u t a d)
  then show ?case by (simp add: ids_ok_push)
next
  case (sweep u a t)
  have t: "t < length (ua_trans u)" using sweep by (auto simp: ids_ok_def)
  show ?case using sweep(3) by (rule ids_ok_frame) (use sweep t in \<open>auto simp: closing_def map_le_def split: if_splits\<close>)
next
  case (sweep_close u t pc s nx)
  show ?case
    by (rule ids_ok_closing [OF sweep_close(3) _ sweep_close(2)])
      (use sweep_close(1) in \<open>auto simp: closing_def upd_def split: option.splits\<close>)
next
  case (sweep_panic u t pc)
  then have "(t, pc) \<in> closing u" by (simp add: closing_def)
  then show ?case using sweep_panic(2,3) closing_crash by (intro ids_ok_crash) blast+
next
  case (check_closed u t a d)
  show ?case using check_closed(3) unfolding drop_transport_def by (rule ids_ok_frame) (auto simp: closing_def map_le_def)
next
  case (sel_closed u t a d)
  show ?case using sel_closed(3) unfolding drop_transport_def by (rule ids_ok_frame) (auto simp: closing_def map_le_def)
next
  case (park_closed u t a d)
  show ?case using park_closed(3) unfolding drop_transport_def by (rule ids_ok_frame) (auto simp: closing_def map_le_def)
qed (erule ids_ok_frame; simp add: closing_def)+

lemma trans_ok_closing:
  assumes "\<forall>s\<in>set (ua_trans u). trans_ok s" "ids_ok u" "(t, pc) \<in> closing u" "close_action pc (ua_trans u ! t) = Some (s, nx)"
  shows "\<forall>s\<in>set (ua_trans (upd t (\<lambda>_. s) u)). trans_ok s"
proof -
  have "trans_ok (ua_trans u ! t)" using assms(1) ids_okD(2) [OF assms(2,3)] by simp
  then have "trans_ok s" using trans_ok_close [OF assms(4)] ids_okD(3) [OF assms(2,3)] by blast
  with assms(1) show ?thesis by (intro trans_ok_upd) auto
qed

lemma trans_ok_user: "user_step u v \<Longrightarrow> \<forall>s\<in>set (ua_trans u). trans_ok s \<Longrightarrow> ids_ok u \<Longrightarrow> \<forall>s\<in>set (ua_trans v). trans_ok s"
proof (induction rule: user_step.induct)
  case (accept u' r u)
  then show ?case by (auto simp: udp_Accept_def split: list.splits if_splits)
next
  case (close u)
  then show ?case by (simp add: udp_Close_def)
next
  case (close_next u xs t pc ys s nx)
  then have "\<forall>s\<in>set (ua_trans (upd t (\<lambda>_. s) u)). trans_ok s" by (intro trans_ok_closing) (auto simp: closing_def)
  then show ?case by simp
next
  case (read_packet t u p ps)
  have "trans_ok (ua_trans u ! t)" if "t < length (ua_trans u)" using that read_packet(4) by simp
  with read_packet(3,4) show ?case by (intro trans_ok_upd) (auto simp: trans_ok_def)
next
  case (read_begin t u)
  from read_begin(4) show ?case
    by (rule trans_ok_upd) (use read_begin nth_mem [of t "ua_trans u"] in \<open>auto simp: trans_ok_def\<close>)
next
  case (read_broken t u)
  from read_broken(5) show ?case
    by (rule trans_ok_upd) (use read_broken nth_mem [of t "ua_trans u"] in \<open>auto simp: trans_ok_def\<close>)
qed simp_all

lemma trans_ok_push:
  assumes "\<forall>s\<in>set (ua_trans u). trans_ok s" "length (st_queue (ua_trans u ! t)) < queue_cap"
  shows "\<forall>s\<in>set (ua_trans (push t d u)). trans_ok s"
proof -
  have "\<forall>s\<in>set (ua_trans (upd t (\<lambda>s. s\<lparr>st_queue := st_queue s @ [d], st_pushed := st_pushed s @ [d]\<rparr>) u)). trans_ok s"
    using assms(1) by (rule trans_ok_upd) (use assms nth_mem [of t "ua_trans u"] in \<open>auto simp: trans_ok_def\<close>)
  then show ?thesis by (simp add: push_def)
qed

lemma trans_ok_main: "main_step u v \<Longrightarrow> \<forall>s\<in>set (ua_trans u). trans_ok s \<Longrightarrow> ids_ok u \<Longrightarrow> \<forall>s\<in>set (ua_trans v). trans_ok s"
proof (induction rule: main_step.induct)
  case (recv u a d)
  then show ?case by (auto simp: route_datagram_def Let_def trans_ok_def newUDPServerTransport_def split: option.splits)
next
  case (sweep_close u t pc s nx)
  then have "\<forall>s\<in>set (ua_trans (upd t (\<lambda>_. s) u)). trans_ok s" by (intro trans_ok_closing) (auto simp: closing_def)
  then show ?case by simp
next
  case (sel_push u t a d)
  then show ?case by (intro trans_ok_push)
next
  case (park_push u t a d)
  then show ?case by (intro trans_ok_push)
qed (simp_all add: drop_transport_def)

lemma ua_inv_main: "main_step u v \<Longrightarrow> ua_inv u \<Longrightarrow> ua_inv v"
  using order_inv_main [of u v] trans_ok_main [of u v] ids_ok_main [of u v] by (simp add: ua_inv_def)

lemma ua_inv_user: "user_step u v \<Longrightarrow> ua_inv u \<Longrightarrow> ua_inv v"
  using order_inv_user [of u v] trans_ok_user [of u v] ids_ok_user [of u v] by (simp add: ua_inv_def)

lemma ua_inv_run: "ua_run u v \<Longrightarrow> ua_inv u \<Longrightarrow> ua_inv v"
  by (induction rule: ua_run.induct) (blast intro: ua_inv_main ua_inv_user)+

lemma ua_inv_new: "ua_inv (udp_acceptor o')"
  by (simp add: ua_inv_def udp_acceptor_def order_inv_def held_for_def arrivals_def sent_to_def streams_def ids_ok_def closing_def)

lemma ua_run_options: "ua_run u v \<Longrightarrow> ua_options v = ua_options u"
  by (induction rule: ua_run.induct)
    (auto elim!: main_step.cases user_step.cases simp: route_datagram_def push_def drop_transport_def udp_Accept_def udp_Close_def Let_def
      split: option.splits list.splits if_splits)

text \<open>(C7) What the UDP server delivers. In every interleaving, what the transports of one sender are given is, over all
  the transports made for it one after the other, a subsequence of what it sent: nothing is
  duplicated, reordered or given to another sender. A reader gets what was queued from the front, a queue
  holds at most 128 packets, the accepted transports are those made, in order and each once, with at
  most \<open>MaxBacklog\<close> waiting.\<close>

theorem datagrams_in_order:
  assumes "ua_run (udp_acceptor o') u"
  shows "subseq (concat (map st_pushed (filter (\<lambda>s. st_raddr s = a) (ua_trans u)))) (map snd (filter (\<lambda>p. fst p = a) (ua_arrived u))) \<and>
    (\<forall>s\<in>set (ua_trans u). st_pushed s = st_read s @ st_queue s \<and> length (st_queue s) \<le> 128) \<and>
    ua_accepted u @ ua_incoming u = [0..<length (ua_trans u)] \<and>
    int (length (ua_incoming u)) \<le> max 0 (uo_MaxBacklog o')"
proof -
  have inv: "ua_inv u" using ua_inv_run [OF assms ua_inv_new] .
  have "ua_options u = o'" using ua_run_options [OF assms] by (simp add: udp_acceptor_def)
  moreover have "concat (map st_pushed (filter (\<lambda>s. st_raddr s = a) (ua_trans u))) = sent_to a (streams u)"
    by (simp add: sent_to_def streams_def filter_map comp_def)
  ultimately show ?thesis using inv
    by (auto simp: ua_inv_def order_inv_def arrivals_def trans_ok_def ids_ok_def intro: subseq_appendL)
qed

text \<open>A run in which a transport is made for the first datagram of a sender, accepted, and closed while the loop is about to
  queue that datagram.\<close>

definition late_state :: "UdpOptions \<Rightarrow> raddr \<Rightarrow> bytes \<Rightarrow> udpServerTransport \<Rightarrow> (nat \<times> close_pc) list \<Rightarrow> udpAcceptor" where
  "late_state o' a p s cl = \<lparr>ua_options = o', ua_trans = [s], ua_transports = [a \<mapsto> 0], ua_incoming = [], ua_closed = False,
     ua_loop = Select 0 a p, ua_closers = cl, ua_arrived = [(a, p)], ua_accepted = [0], ua_crashed = False\<rparr>"

lemma late_accepted:
  assumes "0 < uo_MaxBacklog o'"
  shows "ua_run (udp_acceptor o') (late_state o' a (take (nat (uo_MaxPacketSize o')) d) (newUDPServerTransport a) [])"
proof -
  let ?u = "udp_acceptor o'" and ?p = "take (nat (uo_MaxPacketSize o')) d"
  let ?v = "route_datagram a d ?u" and ?w = "(route_datagram a d ?u)\<lparr>ua_loop := Select 0 a ?p\<rparr>"
  have v: "?v = \<lparr>ua_options = o', ua_trans = [newUDPServerTransport a], ua_transports = [a \<mapsto> 0], ua_incoming = [0], ua_closed = False,
     ua_loop = Check 0 a ?p, ua_closers = [], ua_arrived = [(a, ?p)], ua_accepted = [], ua_crashed = False\<rparr>"
    using assms by (simp add: route_datagram_def udp_acceptor_def Let_def)
  have "ua_run ?u ?v" by (rule ua_run.main [OF ua_run.refl]) (auto simp: udp_acceptor_def intro: main_step.recv)
  then have "ua_run ?u ?w"
    by (rule ua_run.main [OF _ _ main_step.check_open [of _ 0 a ?p]]) (simp_all add: v newUDPServerTransport_def)
  then show ?thesis
    by (rule ua_run.user)
      (use v in \<open>auto simp: udp_Accept_def late_state_def intro!: user_step.accept [of _ "Some 0"]\<close>)
qed

lemma late_close_step:
  assumes "ua_run u (late_state o' a p s [(0, pc)])" "close_action pc s = Some (s', nx)"
  shows "ua_run u (late_state o' a p s' (case nx of None \<Rightarrow> [] | Some pc' \<Rightarrow> [(0, pc')]))"
  using assms(1)
  by (rule ua_run.user)
    (use assms(2) user_step.close_next [of "late_state o' a p s [(0, pc)]" "[]" 0 pc "[]" s' nx] in
      \<open>auto simp: late_state_def upd_def\<close>)

text \<open>(C37) A datagram that arrives while the channel of its sender closes can bring the server down: \<open>received\<close> tests \<open>isClosed\<close>, and
  when \<open>Close\<close> runs between that test and the \<open>select\<close>, the \<open>select\<close> may send on the closed queue, which panics;
  \<open>mainLoop\<close> calls \<open>recover\<close> where it has no effect. No run crashes before some transport is closed.\<close>

theorem late_datagram_crashes:
  assumes "0 < uo_MaxBacklog o'"
  shows "(\<exists>u. ua_run (udp_acceptor o') u \<and> \<not> ua_closed u \<and> ua_crashed u) \<and>
    (\<forall>u. ua_run (udp_acceptor o') u \<and> ua_crashed u \<longrightarrow> (\<exists>s\<in>set (ua_trans u). st_isClosed s))"
proof -
  let ?s = "newUDPServerTransport [CHR ''a'']" and ?p = "take (nat (uo_MaxPacketSize o')) [1]"
  let ?S = "late_state o' [CHR ''a''] ?p"
  have "ua_run (udp_acceptor o') (?S ?s [(0, SetFlag)])"
    by (rule ua_run.user [OF late_accepted [OF assms]])
      (use user_step.close_begin [of 0 "?S ?s []"] in \<open>auto simp: late_state_def newUDPServerTransport_def\<close>)
  from late_close_step [OF this, of "?s\<lparr>st_isClosed := True\<rparr>" "Some CloseClosed"]
  have "ua_run (udp_acceptor o') (?S (?s\<lparr>st_isClosed := True\<rparr>) [(0, CloseClosed)])" by simp
  from late_close_step [OF this, of "?s\<lparr>st_isClosed := True, st_closed := True\<rparr>" "Some CloseQueue"]
  have "ua_run (udp_acceptor o') (?S (?s\<lparr>st_isClosed := True, st_closed := True\<rparr>) [(0, CloseQueue)])"
    by (simp add: newUDPServerTransport_def)
  from late_close_step [OF this, of "?s\<lparr>st_isClosed := True, st_closed := True, st_qclosed := True\<rparr>" None]
  have r: "ua_run (udp_acceptor o') (?S (?s\<lparr>st_isClosed := True, st_closed := True, st_qclosed := True\<rparr>) [])"
    by (simp add: newUDPServerTransport_def)
  have "ua_run (udp_acceptor o') ((?S (?s\<lparr>st_isClosed := True, st_closed := True, st_qclosed := True\<rparr>) [])\<lparr>ua_crashed := True\<rparr>)"
    by (rule ua_run.main [OF r _ main_step.sel_panic [of _ 0 "''a''" ?p]]) (simp_all add: late_state_def)
  moreover have "\<exists>s\<in>set (ua_trans u). st_isClosed s" if "ua_run (udp_acceptor o') u" "ua_crashed u" for u
    using ua_inv_run [OF that(1) ua_inv_new] that(2) by (simp add: ua_inv_def ids_ok_def)
  ultimately show ?thesis by (intro conjI exI allI impI) (auto simp: late_state_def)
qed

theorem late_datagram_crashes_witness:
  "\<exists>u. ua_run (udp_acceptor DefaultOptions) u \<and> \<not> ua_closed u \<and> ua_crashed u"
  using late_datagram_crashes [of DefaultOptions] by (simp add: DefaultOptions_def)

theorem datagrams_in_order_witness:
  "\<exists>u. ua_run (udp_acceptor DefaultOptions) u \<and> ua_arrived u = [(''a'', [7])] \<and>
     subseq (concat (map st_pushed (filter (\<lambda>s. st_raddr s = ''a'') (ua_trans u)))) [[7]] \<and> ua_accepted u @ ua_incoming u = [0]"
proof -
  let ?u = "late_state DefaultOptions ''a'' [7] (newUDPServerTransport ''a'') []"
  have "ua_run (udp_acceptor DefaultOptions) ?u" using late_accepted [of DefaultOptions "''a''" "[7]"] by (simp add: DefaultOptions_def)
  then show ?thesis using datagrams_in_order [of DefaultOptions ?u "''a''"]
    by (intro exI [of _ ?u]) (simp add: late_state_def newUDPServerTransport_def)
qed

section \<open>The acceptor contract\<close>

definition udp_refuses :: "udpAcceptor \<Rightarrow> unit \<Rightarrow> bool" where
  "udp_refuses u s \<longleftrightarrow> None \<in> set (map snd (udp_Accept u))"

interpretation udp: acceptor "\<lambda>u s. \<not> ua_closed u" "\<lambda>u s. (fst (udp_Close u), s)" udp_refuses
  by unfold_locales (auto simp: udp_Close_def udp_refuses_def udp_Accept_def)

end
