(* ===== verification/Logger.thy ===== *)
theory Logger
  imports Addr_Utils "HOL-Library.Sublist"
begin

text \<open>
  The logger, \<open>common/logger.go\<close>: levels, the switch, the console, the callback to the user interface
  and the daily log file. The date, the time, the call site that \<open>runtime.Caller\<close> reports and the
  outcome of \<open>os.OpenFile\<close> are inputs of a call; console, files and callback are logs of entries in the
  state, an entry being what the format string is filled with.
\<close>

section \<open>State\<close>

type_synonym LogType = u8

definition Error :: LogType where "Error = 0"
definition Warn :: LogType where "Warn = 1"
definition Info :: LogType where "Info = 2"
definition Debug :: LogType where "Debug = 3"

lemmas level_defs = Error_def Warn_def Info_def Debug_def

record entry =
  en_type :: LogType
  en_time :: string
  en_file :: string
  en_method :: string
  en_line :: nat
  en_msg :: string

record Logger =
  lg_enable :: bool
  lg_save :: bool
  lg_filter :: LogType
  lg_file :: "string option"
  lg_path :: string
  lg_date :: string
  lg_logger :: "string option"
  lg_onLog :: bool
  lg_console :: "entry list"
  lg_calls :: "(LogType \<times> string \<times> string) list"
  lg_disk :: "(string \<times> entry) list"
  lg_opened :: "string list"
  lg_closed :: "string list"

record log_env =
  le_day :: string
  le_time :: string
  le_file :: string
  le_pcName :: string
  le_line :: nat
  le_logPath :: string
  le_opens :: "string \<Rightarrow> bool"

section \<open>Operations\<close>

definition NewLogger :: "bool \<Rightarrow> bool \<Rightarrow> LogType \<Rightarrow> Logger go" where
  "NewLogger enable save filter' =
     (if filter' > Debug \<or> filter' < Error then Panicked AssertFailed
      else Done \<lparr>lg_enable = enable, lg_save = save, lg_filter = filter', lg_file = None, lg_path = [], lg_date = [],
        lg_logger = None, lg_onLog = False, lg_console = [], lg_calls = [], lg_disk = [], lg_opened = [],
        lg_closed = []\<rparr>)"

definition Enable :: "Logger \<Rightarrow> Logger" where "Enable l = l\<lparr>lg_enable := True\<rparr>"
definition Disable :: "Logger \<Rightarrow> Logger" where "Disable l = l\<lparr>lg_enable := False\<rparr>"
definition SetLogLevel :: "LogType \<Rightarrow> Logger \<Rightarrow> Logger" where "SetLogLevel level l = l\<lparr>lg_filter := level\<rparr>"
definition SetFunc :: "Logger \<Rightarrow> Logger" where "SetFunc l = l\<lparr>lg_onLog := True\<rparr>"

text \<open>The last part of a path or of a qualified name.\<close>

definition base_name :: "char \<Rightarrow> string \<Rightarrow> string" where
  "base_name c s = (let temp = go_split c s in temp ! (length temp - 1))"

definition log_entry :: "LogType \<Rightarrow> log_env \<Rightarrow> string \<Rightarrow> entry" where
  "log_entry ty e msg = \<lparr>en_type = ty, en_time = le_time e, en_file = base_name CHR ''/'' (le_file e),
     en_method = base_name CHR ''.'' (le_pcName e), en_line = le_line e, en_msg = msg\<rparr>"

text \<open>The file of the day: on the first message of a new day the old one is closed; the date is kept even
  when the new one cannot be opened.\<close>

definition change_day :: "log_env \<Rightarrow> Logger \<Rightarrow> Logger" where
  "change_day e l =
     (let l1 = (case lg_file l of
            None \<Rightarrow> l
          | Some f \<Rightarrow> l\<lparr>lg_closed := lg_closed l @ [f], lg_file := None, lg_logger := None\<rparr>);
          p = le_logPath e @ le_day e @ ''.log'';
          l2 = l1\<lparr>lg_date := le_day e, lg_path := p\<rparr>
      in if le_opens e p then l2\<lparr>lg_file := Some p, lg_logger := Some p, lg_opened := lg_opened l2 @ [p]\<rparr> else l2)"

definition saveToFile :: "LogType \<Rightarrow> log_env \<Rightarrow> string \<Rightarrow> Logger \<Rightarrow> Logger" where
  "saveToFile logType e msg l =
     (let l1 = (if lg_date l \<noteq> le_day e then change_day e l else l) in
      case lg_logger l1 of
        None \<Rightarrow> l1
      | Some f \<Rightarrow>
          if lg_filter l1 < logType then l1
          else l1\<lparr>lg_disk := lg_disk l1 @ [(f, log_entry logType e msg)]\<rparr>)"

text \<open>The body the four level methods share: what differs is the level.\<close>

definition log_at :: "LogType \<Rightarrow> log_env \<Rightarrow> string \<Rightarrow> Logger \<Rightarrow> Logger" where
  "log_at ty e msg l =
     (if \<not> lg_enable l then l
      else if lg_filter l < ty then l
      else
        (let l1 = (if lg_save l then saveToFile ty e msg l else l);
             en = log_entry ty e msg;
             l2 = l1\<lparr>lg_console := lg_console l1 @ [en]\<rparr>
         in if lg_onLog l2 then l2\<lparr>lg_calls := lg_calls l2 @ [(ty, en_time en, msg)]\<rparr> else l2))"

definition log_Debug :: "log_env \<Rightarrow> string \<Rightarrow> Logger \<Rightarrow> Logger" where "log_Debug = log_at Debug"
definition log_Info :: "log_env \<Rightarrow> string \<Rightarrow> Logger \<Rightarrow> Logger" where "log_Info = log_at Info"
definition log_Warn :: "log_env \<Rightarrow> string \<Rightarrow> Logger \<Rightarrow> Logger" where "log_Warn = log_at Warn"
definition log_Error :: "log_env \<Rightarrow> string \<Rightarrow> Logger \<Rightarrow> Logger" where "log_Error = log_at Error"

lemmas log_defs = log_Debug_def log_Info_def log_Warn_def log_Error_def

section \<open>Runs of a logger\<close>

text \<open>A run is a list of operations; the mutex of the logger makes each message one step.\<close>

datatype log_op = OpMsg LogType log_env string | OpEnable | OpDisable | OpLevel LogType | OpFunc

fun log_exec :: "log_op \<Rightarrow> Logger \<Rightarrow> Logger" where
  "log_exec (OpMsg ty e msg) l = log_at ty e msg l"
| "log_exec OpEnable l = Enable l"
| "log_exec OpDisable l = Disable l"
| "log_exec (OpLevel k) l = SetLogLevel k l"
| "log_exec OpFunc l = SetFunc l"

definition log_run :: "log_op list \<Rightarrow> Logger \<Rightarrow> Logger" where
  "log_run ops l = fold log_exec ops l"

text \<open>The invariant of the file: file and writer go together, they belong to the day that was recorded, and
  every file that was opened is closed or is the current one.\<close>

definition log_inv :: "Logger \<Rightarrow> bool" where
  "log_inv l \<longleftrightarrow> lg_logger l = lg_file l \<and> (\<forall>f. lg_file l = Some f \<longrightarrow> f = lg_path l) \<and>
     lg_opened l = lg_closed l @ (case lg_file l of None \<Rightarrow> [] | Some f \<Rightarrow> [f]) \<and>
     set (map fst (lg_disk l)) \<subseteq> set (lg_opened l)"

lemma NewLogger_inv: "NewLogger en sv k = Done l \<Longrightarrow> log_inv l"
  by (auto simp: NewLogger_def log_inv_def split: if_splits)

lemma change_day_inv: "log_inv l \<Longrightarrow> log_inv (change_day e l)"
  by (auto simp: log_inv_def change_day_def Let_def split: option.splits)

lemma saveToFile_inv:
  assumes "log_inv l"
  shows "log_inv (saveToFile ty e msg l)"
proof -
  have *: "log_inv (l'\<lparr>lg_disk := lg_disk l' @ [(f, en)]\<rparr>)" if "log_inv l'" "lg_logger l' = Some f" for l' f en
    using that by (auto simp: log_inv_def)
  show ?thesis
    using assms change_day_inv [OF assms, of e]
    by (auto simp: saveToFile_def Let_def * split: option.splits)
qed

lemma log_inv_other [simp]:
  "log_inv (l\<lparr>lg_console := c\<rparr>) = log_inv l" "log_inv (l\<lparr>lg_calls := d\<rparr>) = log_inv l"
  "log_inv (Enable l) = log_inv l" "log_inv (Disable l) = log_inv l"
  "log_inv (SetLogLevel k l) = log_inv l" "log_inv (SetFunc l) = log_inv l"
  by (simp_all add: log_inv_def Enable_def Disable_def SetLogLevel_def SetFunc_def)

lemma log_exec_inv: "log_inv l \<Longrightarrow> log_inv (log_exec op l)"
  by (cases op) (simp_all add: log_at_def Let_def saveToFile_inv)

lemma log_run_inv: "log_inv l \<Longrightarrow> log_inv (log_run ops l)"
  by (induction ops arbitrary: l) (simp_all add: log_run_def log_exec_inv)

lemma saveToFile_keeps [simp]:
  "lg_console (saveToFile ty e msg l) = lg_console l" "lg_calls (saveToFile ty e msg l) = lg_calls l"
  "lg_onLog (saveToFile ty e msg l) = lg_onLog l" "lg_filter (saveToFile ty e msg l) = lg_filter l"
  "lg_enable (saveToFile ty e msg l) = lg_enable l" "lg_save (saveToFile ty e msg l) = lg_save l"
  by (simp_all add: saveToFile_def change_day_def Let_def split: option.splits)

section \<open>What is logged\<close>

text \<open>The messages that the switch and the level in force let through, in order.\<close>

fun visible :: "bool \<Rightarrow> LogType \<Rightarrow> log_op list \<Rightarrow> entry list" where
  "visible en k [] = []"
| "visible en k (OpMsg ty e msg # ops) = (if en \<and> ty \<le> k then [log_entry ty e msg] else []) @ visible en k ops"
| "visible en k (OpEnable # ops) = visible True k ops"
| "visible en k (OpDisable # ops) = visible False k ops"
| "visible en k (OpLevel j # ops) = visible en j ops"
| "visible en k (OpFunc # ops) = visible en k ops"

lemma log_run_simps [simp]: "log_run [] l = l" "log_run (op # ops) l = log_run ops (log_exec op l)"
  by (simp_all add: log_run_def)

lemma log_run_console: "lg_console (log_run ops l) = lg_console l @ visible (lg_enable l) (lg_filter l) ops"
proof (induction ops arbitrary: l)
  case (Cons op ops)
  then show ?case
    by (cases op) (auto simp: log_at_def Let_def Enable_def Disable_def SetLogLevel_def SetFunc_def not_less)
qed simp

lemma saveToFile_disk:
  "map snd (lg_disk (saveToFile ty e msg l)) = map snd (lg_disk l) \<or>
   map snd (lg_disk (saveToFile ty e msg l)) = map snd (lg_disk l) @ [log_entry ty e msg]"
  by (auto simp: saveToFile_def change_day_def Let_def split: option.splits)

lemma subseq_snoc: "subseq xs ys \<Longrightarrow> subseq (xs @ [a]) (ys @ [a])" "subseq xs ys \<Longrightarrow> subseq xs (ys @ zs)"
  by (auto intro: list_emb_append_mono list_emb_prefix)

lemma log_exec_disk:
  assumes "subseq (map snd (lg_disk l)) (lg_console l)"
  shows "subseq (map snd (lg_disk (log_exec op l))) (lg_console (log_exec op l))"
proof (cases op)
  case (OpMsg ty e msg)
  then show ?thesis
    using assms saveToFile_disk [of ty e msg l] by (auto simp: log_at_def Let_def intro: subseq_snoc)
qed (use assms in \<open>simp_all add: Enable_def Disable_def SetLogLevel_def SetFunc_def\<close>)

lemma log_run_disk:
  "subseq (map snd (lg_disk l)) (lg_console l) \<Longrightarrow>
   subseq (map snd (lg_disk (log_run ops l))) (lg_console (log_run ops l))"
  by (induction ops arbitrary: l) (simp_all add: log_exec_disk)

text \<open>(C29) Whatever happens to a logger, the console shows exactly the messages that the switch and the level
  in force let through, in order, with the last parts of the call site; the log files hold messages of the
  console in their order and nothing else; and every file that was opened has been closed, except the file
  of the current day.\<close>

theorem logger_run:
  assumes "NewLogger en sv k = Done l"
  shows "lg_console (log_run ops l) = visible en k ops \<and>
    subseq (map snd (lg_disk (log_run ops l))) (lg_console (log_run ops l)) \<and>
    set (map fst (lg_disk (log_run ops l))) \<subseteq> set (lg_opened (log_run ops l)) \<and>
    lg_opened (log_run ops l) = lg_closed (log_run ops l) @ (case lg_file (log_run ops l) of None \<Rightarrow> [] | Some f \<Rightarrow> [f])"
proof -
  have l: "lg_enable l = en" "lg_filter l = k" "lg_console l = []" "lg_disk l = []"
    using assms by (auto simp: NewLogger_def split: if_splits)
  have "log_inv (log_run ops l)" using assms by (intro log_run_inv NewLogger_inv)
  moreover have "subseq (map snd (lg_disk (log_run ops l))) (lg_console (log_run ops l))"
    using l by (intro log_run_disk) simp
  moreover have "lg_console (log_run ops l) = visible en k ops"
    using l by (simp add: log_run_console)
  ultimately show ?thesis unfolding log_inv_def by blast
qed

definition sample_log_env :: "string \<Rightarrow> log_env" where
  "sample_log_env d = \<lparr>le_day = d, le_time = ''12:00:00.000'', le_file = ''src/main.go'', le_pcName = ''main.run'', le_line = 7,
     le_logPath = ''log/'', le_opens = (\<lambda>_. True)\<rparr>"

definition sample_logger :: Logger where
  "sample_logger = \<lparr>lg_enable = True, lg_save = True, lg_filter = Info, lg_file = None, lg_path = [], lg_date = [],
     lg_logger = None, lg_onLog = False, lg_console = [], lg_calls = [], lg_disk = [], lg_opened = [], lg_closed = []\<rparr>"

theorem logger_run_witness:
  "let l' = log_run [OpMsg Info (sample_log_env ''d1'') ''a'', OpMsg Debug (sample_log_env ''d1'') ''b''] sample_logger in
    map en_msg (lg_console l') = [''a''] \<and> subseq (map snd (lg_disk l')) (lg_console l') \<and>
    set (map fst (lg_disk l')) \<subseteq> set (lg_opened l') \<and>
    lg_opened l' = lg_closed l' @ (case lg_file l' of None \<Rightarrow> [] | Some f \<Rightarrow> [f])"
proof -
  let ?ops = "[OpMsg Info (sample_log_env ''d1'') ''a'', OpMsg Debug (sample_log_env ''d1'') ''b'']"
  have "NewLogger True True Info = Done sample_logger"
    by (simp add: NewLogger_def sample_logger_def level_defs)
  note run = logger_run [OF this, of ?ops]
  moreover have "map en_msg (visible True Info ?ops) = [''a'']"
    by (simp add: level_defs log_entry_def)
  ultimately show ?thesis unfolding Let_def by metis
qed

text \<open>A file that cannot be opened is not tried again that day: the messages go to the console only.\<close>

lemma unopened_day_not_saved:
  assumes "lg_logger l = None" "lg_date l = le_day e" "lg_enable l" "ty \<le> lg_filter l"
  shows "lg_disk (log_at ty e msg l) = lg_disk l \<and> lg_logger (log_at ty e msg l) = None"
  using assms by (simp add: log_at_def saveToFile_def Let_def)

end
