(* ===== verification/Peer_List.thy ===== *)
theory Peer_List
  imports App_Model "HOL-Library.Multiset"
begin

text \<open>
  The list of peers the user interface shows: the conversion of a protocol message to displayed text
  (\<open>model/peer_info.go\<close>) and the order of the list (\<open>sortPeers\<close>, \<open>compareIP\<close> of \<open>wails-app.go\<close>). Numbers
  that the code prints through floating point are rounded here as IEEE 754 and \<open>%.2f\<close> round them: to the
  nearest value, ties to even.
\<close>

section \<open>Sizes\<close>

text \<open>The integer nearest to \<open>a / b\<close>, a tie going to the even neighbour.\<close>

definition half_even :: "nat \<Rightarrow> nat \<Rightarrow> nat" where
  "half_even a b = (let q = a div b; r = a mod b in
     if 2 * r < b then q else if 2 * r > b then q + 1 else if even q then q else q + 1)"

definition bit_len :: "nat \<Rightarrow> nat" where
  "bit_len n = length (takeWhile (\<lambda>k. 2 ^ k \<le> n) [0..<65])"

text \<open>A 64-bit integer converted to \<open>float64\<close>: exact up to 53 significant bits.\<close>

definition to_float64 :: "nat \<Rightarrow> nat" where
  "to_float64 n = (if n < 2 ^ 53 then n else let k = bit_len n - 53 in half_even n (2 ^ k) * 2 ^ k)"

text \<open>\<open>%.2f\<close> of \<open>a / b\<close>.\<close>

definition fixed2 :: "nat \<Rightarrow> nat \<Rightarrow> string" where
  "fixed2 a b = (let h = half_even (100 * a) b in
     dec (h div 100) @ ''.'' @ [char_of (48 + h mod 100 div 10), char_of (48 + h mod 10)])"

definition sizeFormat :: "u64 \<Rightarrow> string" where
  "sizeFormat sz = (let n = unat sz in
     if n < 1024 then dec n @ '' B''
     else if n < 1048576 then fixed2 n 1024 @ '' KB''
     else if n < 1073741824 then fixed2 (to_float64 n) 1048576 @ '' MB''
     else fixed2 (to_float64 n) 1073741824 @ '' GB'')"

section \<open>The displayed peer\<close>

record PeerModel =
  pm_PeerName :: string
  pm_PeerMac :: string
  pm_DevType :: string
  pm_NetAddr :: string
  pm_InterAddr :: string
  pm_Online :: bool
  pm_LinkMode :: u32
  pm_LinkQuality :: u32
  pm_ConnectType :: nat
  pm_TotalRxTx :: string
  pm_P2PRxTx :: string
  pm_TransRxTx :: string

definition rx_tx :: "u64 \<Rightarrow> u64 \<Rightarrow> string" where
  "rx_tx snd' rcv = sizeFormat snd' @ '' / '' @ sizeFormat rcv"

definition ProtoToModel :: "PeerInfo \<Rightarrow> PeerModel" where
  "ProtoToModel info =
     \<lparr>pm_PeerName = pi_PeerName info, pm_PeerMac = dec (unat (pi_PeerMac info)), pm_DevType = pi_DevType info,
      pm_NetAddr = uint2IpV4 (pi_NetAddr info) @ ''/'' @ dec (unat (pi_NetBitLen info)),
      pm_InterAddr = uint2IpV4 (pi_InterAddr info) @ ''/'' @ dec (unat (pi_InterNetBitLen info)),
      pm_Online = pi_Online info, pm_LinkMode = pi_LinkMode info, pm_LinkQuality = pi_LinkQuality info,
      pm_ConnectType = 0,
      pm_TotalRxTx = (case pi_Stats info of None \<Rightarrow> []
        | Some s \<Rightarrow> rx_tx (TransSend s + P2PSend s) (TransReceive s + P2PReceive s)),
      pm_P2PRxTx = (case pi_Stats info of None \<Rightarrow> [] | Some s \<Rightarrow> rx_tx (P2PSend s) (P2PReceive s)),
      pm_TransRxTx = (case pi_Stats info of None \<Rightarrow> [] | Some s \<Rightarrow> rx_tx (TransSend s) (TransReceive s))\<rparr>"

section \<open>The order\<close>

text \<open>The number that \<open>compareIP\<close> compares: the digits of the text with \<open>/\<close> and \<open>.\<close> taken out.\<close>

definition ip_key :: "string \<Rightarrow> nat option" where
  "ip_key s = ParseUint 64 (filter (\<lambda>c. c \<noteq> CHR ''.'') (filter (\<lambda>c. c \<noteq> CHR ''/'') s))"

definition compareIP :: "string \<Rightarrow> string \<Rightarrow> bool" where
  "compareIP ip0 ip1 =
     (case ip_key ip0 of None \<Rightarrow> False
      | Some ipVal0 \<Rightarrow> (case ip_key ip1 of None \<Rightarrow> False | Some ipVal1 \<Rightarrow> ipVal0 > ipVal1))"

text \<open>The two loops of the bubble sort: \<open>j\<close> runs up to \<open>m\<close>, swapping neighbours; \<open>i\<close> counts the rounds.\<close>

function bubble_inner :: "nat \<Rightarrow> nat \<Rightarrow> PeerModel list \<Rightarrow> PeerModel list" where
  "bubble_inner j m xs =
     (if j < m then
        bubble_inner (j + 1) m
          (if compareIP (pm_NetAddr (xs ! j)) (pm_NetAddr (xs ! (j + 1)))
           then xs[j := xs ! (j + 1), j + 1 := xs ! j] else xs)
      else xs)"
  by pat_completeness auto
termination by (relation "measure (\<lambda>(j, m, xs). m - j)") auto

declare bubble_inner.simps [simp del]

function bubble_outer :: "nat \<Rightarrow> nat \<Rightarrow> PeerModel list \<Rightarrow> PeerModel list" where
  "bubble_outer i num xs =
     (if i < num - 1 then bubble_outer (i + 1) num (bubble_inner 0 (num - i - 1) xs) else xs)"
  by pat_completeness auto
termination by (relation "measure (\<lambda>(i, num, xs). num - i)") auto

declare bubble_outer.simps [simp del]

definition bubble_sort :: "PeerModel list \<Rightarrow> PeerModel list" where
  "bubble_sort xs = (if length xs > 0 then bubble_outer 0 (length xs) xs else xs)"

definition sortPeers :: "PeerModel list \<Rightarrow> PeerModel list" where
  "sortPeers peers =
     (if peers = [] then peers
      else bubble_sort (filter pm_Online peers) @ bubble_sort (filter (\<lambda>p. \<not> pm_Online p) peers))"

section \<open>Correctness of the sort\<close>

text \<open>The key of a peer whose address can be read.\<close>

definition peer_key :: "PeerModel \<Rightarrow> nat" where
  "peer_key p = the (ip_key (pm_NetAddr p))"

definition keyed :: "PeerModel list \<Rightarrow> bool" where
  "keyed xs \<longleftrightarrow> (\<forall>p\<in>set xs. ip_key (pm_NetAddr p) \<noteq> None)"

lemma compareIP_key:
  "ip_key (pm_NetAddr p) \<noteq> None \<Longrightarrow> ip_key (pm_NetAddr q) \<noteq> None \<Longrightarrow>
   compareIP (pm_NetAddr p) (pm_NetAddr q) \<longleftrightarrow> peer_key p > peer_key q"
  by (auto simp: compareIP_def peer_key_def)

text \<open>Exchanging two neighbours, the first with the larger key, keeps the multiset and the order of
  elements with equal keys.\<close>

definition reordered :: "PeerModel list \<Rightarrow> PeerModel list \<Rightarrow> bool" where
  "reordered xs ys \<longleftrightarrow> mset ys = mset xs \<and> (\<forall>k. filter (\<lambda>p. peer_key p = k) ys = filter (\<lambda>p. peer_key p = k) xs)"

lemma reordered_refl [simp]: "reordered xs xs"
  by (simp add: reordered_def)

lemma reordered_trans: "reordered xs ys \<Longrightarrow> reordered ys zs \<Longrightarrow> reordered xs zs"
  by (simp add: reordered_def)

lemma reordered_set: "reordered xs ys \<Longrightarrow> set ys = set xs" "reordered xs ys \<Longrightarrow> length ys = length xs"
  by (auto simp: reordered_def dest: mset_eq_setD mset_eq_length)

lemma swap_split:
  assumes "j + 1 < length xs"
  shows "xs = take j xs @ xs ! j # xs ! (j + 1) # drop (j + 2) xs \<and>
    xs[j := xs ! (j + 1), j + 1 := xs ! j] = take j xs @ xs ! (j + 1) # xs ! j # drop (j + 2) xs"
proof -
  have "xs = take j xs @ xs ! j # xs ! (j + 1) # drop (j + 2) xs"
    using assms by (metis Suc_eq_plus1 Suc_lessD add_2_eq_Suc' append_take_drop_id Cons_nth_drop_Suc)
  moreover have "(take j xs @ xs ! j # xs ! (j + 1) # drop (j + 2) xs)[j := b, j + 1 := a] =
      take j xs @ b # a # drop (j + 2) xs" for a b
    using assms by (simp add: list_update_append)
  ultimately show ?thesis by metis
qed

lemma reordered_swap:
  assumes "j + 1 < length xs" "peer_key (xs ! j) > peer_key (xs ! (j + 1))"
  shows "reordered xs (xs[j := xs ! (j + 1), j + 1 := xs ! j])"
proof -
  let ?l = "take j xs" and ?r = "drop (j + 2) xs" and ?a = "xs ! j" and ?b = "xs ! (j + 1)"
  from swap_split [OF assms(1)]
  have xs: "xs = ?l @ ?a # ?b # ?r" and ys: "xs[j := ?b, j + 1 := ?a] = ?l @ ?b # ?a # ?r" by blast+
  have "reordered (?l @ ?a # ?b # ?r) (?l @ ?b # ?a # ?r)"
    using assms(2) by (simp add: reordered_def)
  with xs ys show ?thesis by metis
qed

text \<open>One round moves a largest element of the first \<open>m + 1\<close> to position \<open>m\<close> and leaves the rest.\<close>

lemma bubble_inner_round:
  assumes "j \<le> m" "m < length xs" "keyed xs" "\<forall>i\<le>j. peer_key (xs ! i) \<le> peer_key (xs ! j)"
  shows "reordered xs (bubble_inner j m xs) \<and> drop (m + 1) (bubble_inner j m xs) = drop (m + 1) xs \<and>
    (\<forall>i\<le>m. peer_key (bubble_inner j m xs ! i) \<le> peer_key (bubble_inner j m xs ! m))"
  using assms
proof (induction j m xs rule: bubble_inner.induct)
  case (1 j m xs)
  show ?case
  proof (cases "j < m")
    case True
    define ys where "ys = (if compareIP (pm_NetAddr (xs ! j)) (pm_NetAddr (xs ! (j + 1)))
      then xs[j := xs ! (j + 1), j + 1 := xs ! j] else xs)"
    have cmp: "compareIP (pm_NetAddr (xs ! j)) (pm_NetAddr (xs ! (j + 1))) \<longleftrightarrow> peer_key (xs ! j) > peer_key (xs ! (j + 1))"
      using 1(3,4) True by (intro compareIP_key) (auto simp: keyed_def)
    have r: "reordered xs ys"
      using reordered_swap [of j xs] 1(3) True cmp by (simp add: ys_def)
    have d: "drop (m + 1) ys = drop (m + 1) xs" using True by (auto simp: ys_def)
    have mx: "\<forall>i\<le>j + 1. peer_key (ys ! i) \<le> peer_key (ys ! (j + 1))"
    proof (intro allI impI)
      fix i assume "i \<le> j + 1"
      then consider "i < j" | "i = j" | "i = j + 1" by linarith
      moreover have "i < j \<Longrightarrow> peer_key (xs ! i) \<le> peer_key (xs ! j)" using 1(5) by simp
      ultimately show "peer_key (ys ! i) \<le> peer_key (ys ! (j + 1))"
        using 1(3) True cmp by cases (auto simp: ys_def nth_list_update not_less)
    qed
    have "keyed ys" using 1(4) reordered_set(1) [OF r] by (simp add: keyed_def)
    moreover have "m < length ys" using 1(3) reordered_set(2) [OF r] by simp
    ultimately have IH: "reordered ys (bubble_inner (j + 1) m ys) \<and>
        drop (m + 1) (bubble_inner (j + 1) m ys) = drop (m + 1) ys \<and>
        (\<forall>i\<le>m. peer_key (bubble_inner (j + 1) m ys ! i) \<le> peer_key (bubble_inner (j + 1) m ys ! m))"
      using 1(1) [OF True] True mx by (simp add: ys_def)
    moreover have "bubble_inner j m xs = bubble_inner (j + 1) m ys"
      using True by (simp add: bubble_inner.simps [of j m xs] ys_def)
    ultimately show ?thesis using r d by (simp add: reordered_trans [OF r])
  next
    case False
    with 1(2,5) show ?thesis by (simp add: bubble_inner.simps)
  qed
qed

text \<open>After \<open>i\<close> rounds the last \<open>i\<close> elements are in their final places.\<close>

definition settled :: "nat \<Rightarrow> PeerModel list \<Rightarrow> bool" where
  "settled k xs \<longleftrightarrow> sorted (map peer_key (drop k xs)) \<and>
     (\<forall>x\<in>set (take k xs). \<forall>y\<in>set (drop k xs). peer_key x \<le> peer_key y)"

lemma settled_round:
  assumes "settled (Suc m) xs" "m < length xs" "keyed xs"
  shows "settled m (bubble_inner 0 m xs) \<and> reordered xs (bubble_inner 0 m xs)"
proof -
  let ?ys = "bubble_inner 0 m xs"
  have r: "reordered xs ?ys" and d: "drop (Suc m) ?ys = drop (Suc m) xs"
    and mx: "\<forall>i\<le>m. peer_key (?ys ! i) \<le> peer_key (?ys ! m)"
    using bubble_inner_round [of 0 m xs] assms(2,3) by auto
  have len: "m < length ?ys" using assms(2) reordered_set(2) [OF r] by simp
  have "mset (take (Suc m) ?ys) + mset (drop (Suc m) ?ys) = mset (take (Suc m) xs) + mset (drop (Suc m) xs)"
    using r by (simp add: reordered_def flip: mset_append)
  with d have t: "set (take (Suc m) ?ys) = set (take (Suc m) xs)"
    by (metis add_right_cancel mset_eq_setD)
  have dm: "drop m ?ys = ?ys ! m # drop (Suc m) xs" using len d by (simp add: Cons_nth_drop_Suc flip: d)
  have tm: "take (Suc m) ?ys = take m ?ys @ [?ys ! m]" using len by (simp add: take_Suc_conv_app_nth)
  have le: "peer_key x \<le> peer_key (?ys ! m)" if "x \<in> set (take m ?ys)" for x
    using that mx len by (auto simp: in_set_conv_nth)
  have ge: "peer_key x \<le> peer_key y" if "x \<in> set (take (Suc m) ?ys)" "y \<in> set (drop (Suc m) xs)" for x y
    using that assms(1) t by (auto simp: settled_def)
  show ?thesis
    using r assms(1) le ge by (auto simp: settled_def dm tm)
qed

lemma bubble_outer_sorts:
  assumes "length xs = n" "settled (n - i) xs" "keyed xs" "i \<le> n - 1" "0 < n"
  shows "reordered xs (bubble_outer i n xs) \<and> sorted (map peer_key (bubble_outer i n xs))"
  using assms
proof (induction i n xs rule: bubble_outer.induct)
  case (1 i n xs)
  show ?case
  proof (cases "i < n - 1")
    case True
    define ys where "ys = bubble_inner 0 (n - i - 1) xs"
    have "Suc (n - i - 1) = n - i" using True by simp
    with 1(3) have "settled (Suc (n - i - 1)) xs" by (simp only:)
    then have s: "settled (n - i - 1) ys" and r: "reordered xs ys"
      using settled_round [of "n - i - 1" xs] 1(2,4) True by (auto simp: ys_def)
    have "keyed ys" using 1(4) reordered_set(1) [OF r] by (simp add: keyed_def)
    then have "reordered ys (bubble_outer (i + 1) n ys) \<and> sorted (map peer_key (bubble_outer (i + 1) n ys))"
      using 1(1) [OF True] s 1(2,6) True reordered_set(2) [OF r] by (simp add: ys_def)
    moreover have "bubble_outer i n xs = bubble_outer (i + 1) n ys"
      using True by (simp add: bubble_outer.simps [of i] ys_def)
    ultimately show ?thesis by (simp add: reordered_trans [OF r])
  next
    case False
    with 1(5,6) have i: "n - i = 1" by simp
    obtain x zs where xs: "xs = x # zs" using 1(2,6) by (cases xs) auto
    have "sorted (map peer_key xs)"
      using 1(3) unfolding i xs by (auto simp: settled_def)
    with False show ?thesis by (simp add: bubble_outer.simps)
  qed
qed

lemma bubble_sort_sorts:
  assumes "keyed xs"
  shows "bubble_sort xs = sort_key peer_key xs"
proof (cases "xs = []")
  case False
  have "reordered xs (bubble_sort xs)" "sorted (map peer_key (bubble_sort xs))"
    using bubble_outer_sorts [of xs "length xs" 0] False assms by (auto simp: bubble_sort_def settled_def)
  then show ?thesis
    by (intro properties_for_sort_key [symmetric]) (auto simp: reordered_def eq_commute)
qed (simp add: bubble_sort_def)

text \<open>The addresses that \<open>ProtoToModel\<close> prints can be read: an address has at most twelve digits, a prefix
  length two.\<close>

lemma digits_acc_bound: "digits_acc a s = Some v \<Longrightarrow> v < (a + 1) * 10 ^ length s"
proof (induction s arbitrary: a)
  case (Cons c s)
  then obtain d where d: "digit_val c = Some d" "digits_acc (10 * a + d) s = Some v" by (auto split: option.splits)
  then have "d < 10" by (auto simp: digit_val_def Let_def split: if_splits)
  have "v < (10 * a + d + 1) * 10 ^ length s" by (rule Cons.IH [OF d(2)])
  also have "\<dots> \<le> (10 * (a + 1)) * 10 ^ length s" using \<open>d < 10\<close> by (intro mult_right_mono) auto
  finally show ?case by (simp add: algebra_simps)
qed simp

lemma digits_acc_total: "\<forall>c\<in>set s. digit_val c \<noteq> None \<Longrightarrow> digits_acc a s \<noteq> None"
  by (induction s arbitrary: a) auto

lemma ParseUint_digits:
  assumes "s \<noteq> []" "\<forall>c\<in>set s. digit_val c \<noteq> None" "length s \<le> 19"
  shows "ParseUint 64 s \<noteq> None"
proof -
  obtain v where v: "digits_acc 0 s = Some v" using digits_acc_total [OF assms(2)] by blast
  have "v < 10 ^ length s" using digits_acc_bound [OF v] by simp
  also have "\<dots> \<le> 10 ^ 19" using assms(3) by (intro power_increasing) auto
  finally show ?thesis using v assms(1) by (simp add: ParseUint_def parse_digits_def)
qed

lemma length_dec: "n < 10 ^ k \<Longrightarrow> 0 < k \<Longrightarrow> length (dec n) \<le> k"
proof (induction n arbitrary: k rule: dec.induct)
  case (1 n)
  show ?case
  proof (cases "n < 10")
    case False
    then obtain j where k: "k = Suc j" "0 < j" using 1(2,3) by (cases k; cases "k = 1") auto
    with 1(2) have "n div 10 < 10 ^ j" by (simp add: less_mult_imp_div_less mult.commute)
    with 1(1) [OF False, of j] False k show ?thesis by (simp add: dec.simps [of n])
  qed (use 1(3) in \<open>simp add: dec.simps\<close>)
qed

lemma filter_dec: "filter (\<lambda>c. c \<noteq> CHR ''.'') (dec n) = dec n" "filter (\<lambda>c. c \<noteq> CHR ''/'') (dec n) = dec n"
  by (auto simp: filter_id_conv dest: dec_digits simp: digit_val_def)

lemma ProtoToModel_key:
  assumes "unat (pi_NetBitLen i) \<le> 32"
  shows "ip_key (pm_NetAddr (ProtoToModel i)) \<noteq> None"
proof -
  let ?a = "pi_NetAddr i"
  let ?s = "dec (unat (drop_bit 24 ?a)) @ dec (unat (drop_bit 16 ?a AND 0xFF)) @ dec (unat (drop_bit 8 ?a AND 0xFF)) @
    dec (unat (?a AND 0xFF)) @ dec (unat (pi_NetBitLen i))"
  have o: "length (dec (unat (take_bit 8 x))) \<le> 3" for x :: u32
    by (rule length_dec) (use octet_bound [of x] in simp_all)
  have "length (dec (unat (drop_bit 24 ?a))) \<le> 3"
    by (rule length_dec) (use drop_bit_24_bound [of ?a] in simp_all)
  moreover have "length (dec (unat (pi_NetBitLen i))) \<le> 2" using assms by (intro length_dec) auto
  ultimately have "length ?s \<le> 19"
    using o [of "drop_bit 16 ?a"] o [of "drop_bit 8 ?a"] o [of ?a] by (simp add: and_FF)
  moreover have "\<forall>c\<in>set ?s. digit_val c \<noteq> None" using dec_digits by auto
  ultimately have "ParseUint 64 ?s \<noteq> None" by (intro ParseUint_digits) auto
  then show ?thesis by (simp add: ip_key_def ProtoToModel_def uint2IpV4_def filter_dec)
qed

lemma sortPeers_keyed:
  "keyed ps \<Longrightarrow> sortPeers ps = sort_key peer_key (filter pm_Online ps) @ sort_key peer_key (filter (\<lambda>p. \<not> pm_Online p) ps)"
  by (auto simp: sortPeers_def keyed_def intro!: bubble_sort_sorts arg_cong2 [where f = "(@)"])

lemma keyed_infos: "\<forall>i\<in>set infos. unat (pi_NetBitLen i) \<le> 32 \<Longrightarrow> keyed (map ProtoToModel infos)"
  using ProtoToModel_key by (auto simp: keyed_def simp del: not_None_eq)


definition sample_shown_peer :: "u32 \<Rightarrow> bool \<Rightarrow> PeerInfo" where
  "sample_shown_peer a on = \<lparr>pi_PeerName = ''p'', pi_DevType = [], pi_NetAddr = a, pi_InterAddr = 0, pi_PeerMac = 1,
     pi_NetBitLen = 24, pi_InterNetBitLen = 24, pi_Online = on, pi_LinkMode = 0, pi_LinkQuality = 0,
     pi_Stats = None, pi_Sock = None\<rparr>"


text \<open>The comment above \<open>sortPeers\<close> says "by IP, ascending"; the digits without their dots do not order that
  way: 10.0.1.2 comes before 10.0.0.10.\<close>

lemma digit_chars:
  "char_of (48::nat) = CHR ''0''" "char_of (49::nat) = CHR ''1''" "char_of (50::nat) = CHR ''2''" "char_of (52::nat) = CHR ''4''"
  by (simp_all add: char_of_def bit_Suc_0_iff)

lemma digit_keys:
  "peer_key (ProtoToModel (sample_shown_peer 0x0A00000A True)) = 10001024"
  "peer_key (ProtoToModel (sample_shown_peer 0x0A000102 True)) = 1001224"
  by (simp_all add: peer_key_def ip_key_def ProtoToModel_def sample_shown_peer_def uint2IpV4_def dec.simps digit_chars
    ParseUint_def parse_digits_def digit_val_def)

lemma peers_not_in_ip_order:
  "pi_NetAddr (sample_shown_peer 0x0A00000A True) < pi_NetAddr (sample_shown_peer 0x0A000102 True) \<and>
   sortPeers (map ProtoToModel [sample_shown_peer 0x0A00000A True, sample_shown_peer 0x0A000102 True]) =
     map ProtoToModel [sample_shown_peer 0x0A000102 True, sample_shown_peer 0x0A00000A True]"
proof -
  have on: "pm_Online (ProtoToModel (sample_shown_peer a on)) = on" for a on
    by (simp add: ProtoToModel_def sample_shown_peer_def)
  have "keyed (map ProtoToModel [sample_shown_peer 0x0A00000A True, sample_shown_peer 0x0A000102 True])"
    by (rule keyed_infos) (simp add: sample_shown_peer_def)
  from sortPeers_keyed [OF this] show ?thesis by (simp add: on digit_keys) (simp add: sample_shown_peer_def)
qed

text \<open>The text of a size is exact below one KiB and otherwise within half a hundredth of the unit.\<close>

lemma half_even_near:
  assumes "0 < b"
  shows "2 * a \<le> 2 * half_even a b * b + b \<and> 2 * half_even a b * b \<le> 2 * a + b"
proof -
  define q r where "q = a div b" and "r = a mod b"
  have a: "a = q * b + r" and r: "r < b" using assms by (simp_all add: q_def r_def)
  have "half_even a b = (if 2 * r < b then q else if 2 * r > b then q + 1 else if even q then q else q + 1)"
    by (simp add: half_even_def q_def r_def)
  then show ?thesis unfolding a using r by (auto simp: algebra_simps)
qed

end
