(* ===== verification/Wails_App.thy ===== *)
theory Wails_App
  imports Peer_List Logger App_Config Runtime_Properties Serial_Service
begin

text \<open>
  The application, \<open>wails-app.go\<close>: start-up, which loads the configuration and creates and starts the
  services in order; shut-down; the settings dialog (\<open>GetConfig\<close>, \<open>SaveConfig\<close>); the list of peers; and the
  history of log messages. This is where the components meet: the state is the services' state with the
  logger and the flags that say whether the global variables have been set. The windows, dialogs and
  events of the Wails runtime are inputs (the button pressed) and outputs (a list of events); messages
  that an operation logs are not repeated here.
\<close>

section \<open>State\<close>

datatype ui_event = UiPeerState PeerState | UiPeers "PeerModel list" | UiLog LogType string string

text \<open>\<open>wa_loaded\<close>: \<open>config.AppConfig\<close> is not nil; \<open>wa_created\<close>: the services are not nil.\<close>

record WailsApp =
  wa_isInit :: bool
  wa_logEvents :: "(LogType \<times> string \<times> string) list"
  wa_logger :: "Logger option"
  wa_loaded :: bool
  wa_created :: bool
  wa_app :: app
  wa_ser :: ser
  wa_ui :: "ui_event list"
  wa_file :: "string option"

record start_env =
  st_marshal :: "AppConfig \<Rightarrow> string option"
  st_unmarshal :: "string \<Rightarrow> parsed_config option"
  st_hostname :: "string option"
  st_zero :: AppConfig
  st_tap :: tap_env
  st_lib :: crypt_lib
  st_listens :: bool
  st_ports :: config_file

definition ui_emit :: "ui_event \<Rightarrow> WailsApp \<Rightarrow> WailsApp" where
  "ui_emit v w = w\<lparr>wa_ui := wa_ui w @ [v]\<rparr>"

definition NewWailsApp :: "start_env \<Rightarrow> string option \<Rightarrow> WailsApp" where
  "NewWailsApp e file = \<lparr>wa_isInit = False, wa_logEvents = [], wa_logger = None, wa_loaded = False, wa_created = False,
     wa_app = new_app (st_zero e), wa_ser = NewPortService 0 (st_ports e), wa_ui = [], wa_file = file\<rparr>"

section \<open>Start-up\<close>

text \<open>The services as their constructors leave them. \<open>NewRuntimeService\<close> copies the configuration.\<close>

definition create_services :: "start_env \<Rightarrow> AppConfig \<Rightarrow> WailsApp \<Rightarrow> WailsApp" where
  "create_services e c w = w\<lparr>wa_created := True,
     wa_app := (new_app c)\<lparr>runtime := NewRuntimeService (CopyAppConfigTo c (st_zero e))\<rparr>,
     wa_ser := NewPortService (tc_HwMac (ac_TapConfig c)) (st_ports e)\<rparr>"

text \<open>The card with a static address, then the runtime service, hole punching and the port service. The error
  of \<open>Start\<close> ends the sequence.\<close>

definition start_services :: "start_env \<Rightarrow> AppConfig \<Rightarrow> WailsApp \<Rightarrow> WailsApp go" where
  "start_services e c w =
     (let a0 = wa_app w;
          a1 = (if tc_IpMode (ac_TapConfig c) = Static \<and> tc_HwMac (ac_TapConfig c) \<noteq> 0 then fst (tun_Start (st_tap e) a0) else a0);
          (a2, err) = rt_Start (st_lib e) (rt_Init a1)
      in if err \<noteq> None then Done (w\<lparr>wa_app := a2\<rparr>)
         else let w1 = w\<lparr>wa_app := p2p_Start a2\<rparr> in
           go_map (\<lambda>s. ui_emit (UiPeerState (rt_peerState (runtime a2)))
               (w1\<lparr>wa_ser := s, wa_app := (wa_app w1)\<lparr>serial_started := sp_serverCtx s \<noteq> None\<rparr>\<rparr>))
             (if ac_AllowVisitPort c then service_Start (st_listens e) (wa_ser w1) else Done (wa_ser w1)))"

text \<open>\<open>domReady\<close>: without a configuration \<open>NewRuntimeService\<close> follows the nil pointer \<open>config.AppConfig\<close>.\<close>

definition domReady :: "start_env \<Rightarrow> WailsApp \<Rightarrow> WailsApp go" where
  "domReady e w =
     (if wa_isInit w then
        Done (if wa_created w then ui_emit (UiPeerState (rt_peerState (runtime (wa_app w)))) w else w)
      else
        let w1 = w\<lparr>wa_isInit := True\<rparr> in
        go_bind (NewLogger True False Error) (\<lambda>l0.
          let (conf, file', err) = InitAppConfig (st_marshal e) (st_unmarshal e) (st_hostname e) (wa_file w1) (st_zero e)
          in go_bind (case (err, conf) of
                 (None, Some c) \<Rightarrow> NewLogger (ac_EnableLog c) (ac_SaveLog c) (ac_LogLevel c)
               | _ \<Rightarrow> Done l0) (\<lambda>l.
            let w2 = w1\<lparr>wa_logger := Some (SetFunc l), wa_file := file'\<rparr> in
            case conf of
              None \<Rightarrow> Panicked NilDeref
            | Some c \<Rightarrow> start_services e c (create_services e c (w2\<lparr>wa_loaded := True\<rparr>)))))"

section \<open>Shut-down\<close>

datatype answer = DialogError | AnswerYes | AnswerOther

definition beforeClose :: "answer \<Rightarrow> WailsApp \<Rightarrow> (WailsApp \<times> bool) go" where
  "beforeClose d w = (case d of
       DialogError \<Rightarrow> Done (w, False)
     | AnswerOther \<Rightarrow> Done (w, True)
     | AnswerYes \<Rightarrow>
         if \<not> wa_created w then Done (w, False)
         else go_bind (service_Stop (wa_ser w)) (\<lambda>s.
           go_bind (rt_Stop (wa_app w)) (\<lambda>a1.
           go_map (\<lambda>a2. (w\<lparr>wa_ser := s, wa_app := a2\<rparr>, False)) (p2p_Stop a1))))"

section \<open>Settings\<close>

record UiConfig =
  uc_ServerIp :: string
  uc_ServerPort :: int
  uc_PeerName :: string
  uc_GroupName :: string
  uc_GroupPwd :: string
  uc_CryptType :: CryptType
  uc_PeerPwd :: string
  uc_TabName :: string
  uc_HwMac :: string
  uc_IpMode :: nat
  uc_IpAddr :: string
  uc_IpMask :: string
  uc_AllowVisitPort :: bool
  uc_EnableLog :: bool
  uc_LogLevel :: u8

definition ip_mode_num :: "IpMode \<Rightarrow> nat" where
  "ip_mode_num m = (case m of AutoAssign \<Rightarrow> 1 | Static \<Rightarrow> 2)"

text \<open>\<open>dev_name\<close> is what the card, when there is one, answers to \<open>Name()\<close>.\<close>

definition TapName :: "string \<Rightarrow> app \<Rightarrow> string" where
  "TapName dev_name a = (case tt_tapper (tun a) of None \<Rightarrow> [] | Some _ \<Rightarrow> dev_name)"

text \<open>A panic in \<open>GetConfig\<close> is recovered and nothing is returned.\<close>

definition GetConfig :: "string \<Rightarrow> WailsApp \<Rightarrow> UiConfig option" where
  "GetConfig dev_name w =
     (if \<not> wa_created w then None
      else if \<not> wa_loaded w then None
      else let c = config (wa_app w); tap = ac_TapConfig c; pc = ac_PeerConfig c;
               mask = push_bit (unat (32 - tc_IpMask tap)) (0xFFFFFFFF :: u32)
           in Some \<lparr>uc_ServerIp = ac_ServerIp c, uc_ServerPort = ac_ServerPort c, uc_PeerName = pc_Name pc,
                uc_GroupName = pc_GroupName pc, uc_GroupPwd = pc_GroupPwd pc, uc_CryptType = pc_CryptType pc,
                uc_PeerPwd = pc_PeerPwd pc,
                uc_TabName = (if rt_peerState (runtime (wa_app w)) \<ge> StateInitOk then TapName dev_name (wa_app w) else []),
                uc_HwMac = Uint64ToMacStr (tc_HwMac tap), uc_IpMode = ip_mode_num (tc_IpMode tap),
                uc_IpAddr = Uint32toIpV4 (tc_IpAddr tap), uc_IpMask = Uint32toIpV4 mask,
                uc_AllowVisitPort = False, uc_EnableLog = ac_EnableLog c, uc_LogLevel = ac_LogLevel c\<rparr>)"

datatype save_tip = TipNilConfig | TipNoName | TipNoGroup | TipNoPeerPwd | TipServerIp | TipIpAddr | TipIpMask
  | TipMac | TipSaveFailed | TipSaved

text \<open>The configuration that the settings describe, or the complaint. \<open>IpV4toUint32\<close> returns 0 with an error.\<close>

definition or_zero :: "addr_error + u32 \<Rightarrow> u32" where
  "or_zero r = (case r of Inl _ \<Rightarrow> 0 | Inr x \<Rightarrow> x)"

definition is_err :: "'a + 'b \<Rightarrow> bool" where
  "is_err r = (case r of Inl _ \<Rightarrow> True | Inr _ \<Rightarrow> False)"

definition checked_config :: "AppConfig \<Rightarrow> AppConfig \<Rightarrow> UiConfig \<Rightarrow> save_tip + AppConfig" where
  "checked_config zero cur conf =
     (if uc_PeerName conf = [] then Inl TipNoName
      else if uc_GroupName conf = [] then Inl TipNoGroup
      else if uc_CryptType conf \<noteq> CryptNone \<and> uc_PeerPwd conf = [] then Inl TipNoPeerPwd
      else if is_err (IpV4toUint32 (uc_ServerIp conf)) then Inl TipServerIp
      else let ipMode = (if uc_IpMode conf = 2 then Static else AutoAssign);
               peerIp = IpV4toUint32 (uc_IpAddr conf); peerMask = IpV4toUint32 (uc_IpMask conf)
           in if is_err peerIp \<and> ipMode \<noteq> AutoAssign then Inl TipIpAddr
              else if is_err peerMask \<and> ipMode \<noteq> AutoAssign then Inl TipIpMask
              else case MacStrToUint64 (uc_HwMac conf) of Inl _ \<Rightarrow> Inl TipMac
              | Inr mac \<Rightarrow>
                  Inr (upd_tap (\<lambda>t. t\<lparr>tc_HwMac := mac, tc_IpMode := ipMode, tc_IpAddr := or_zero peerIp,
                          tc_IpMask := MaskBitLen (or_zero peerMask)\<rparr>)
                        (upd_peer (\<lambda>p. p\<lparr>pc_Name := uc_PeerName conf, pc_CryptType := uc_CryptType conf,
                           pc_PeerPwd := uc_PeerPwd conf, pc_GroupName := uc_GroupName conf,
                           pc_GroupPwd := uc_GroupPwd conf\<rparr>)
                        ((CopyAppConfigTo cur zero)\<lparr>ac_ServerIp := uc_ServerIp conf, ac_ServerPort := uc_ServerPort conf,
                           ac_EnableLog := uc_EnableLog conf, ac_LogLevel := uc_LogLevel conf\<rparr>))))"

definition needRestart :: "AppConfig \<Rightarrow> AppConfig \<Rightarrow> bool" where
  "needRestart old c \<longleftrightarrow>
     (let ot = ac_TapConfig old; t = ac_TapConfig c; op = ac_PeerConfig old; pc = ac_PeerConfig c in
      (if tc_HwMac ot \<noteq> tc_HwMac t \<or> pc_CryptType op \<noteq> pc_CryptType pc \<or>
          (pc_CryptType op \<noteq> CryptNone \<and> pc_PeerPwd op \<noteq> pc_PeerPwd pc) \<or> tc_IpMode ot \<noteq> tc_IpMode t then True
       else (tc_IpAddr ot \<noteq> tc_IpAddr t \<or> tc_IpMask ot \<noteq> tc_IpMask t) \<and> tc_IpMode t \<noteq> AutoAssign) \<or>
      ac_ServerIp old \<noteq> ac_ServerIp c \<or> ac_ServerPort old \<noteq> ac_ServerPort c \<or>
      pc_GroupName op \<noteq> pc_GroupName pc \<or> pc_GroupPwd op \<noteq> pc_GroupPwd pc)"

text \<open>\<open>config.SaveConfig\<close> is \<open>SaveAppConfig\<close> on another record; \<open>writes\<close> is the outcome of \<open>WriteFile\<close>.\<close>

definition config_SaveConfig :: "(AppConfig \<Rightarrow> string option) \<Rightarrow> bool \<Rightarrow> AppConfig \<Rightarrow> string option \<Rightarrow>
    AppConfig \<times> string option \<times> bool" where
  "config_SaveConfig marshal writes c file =
     (let (c1, content) = SaveAppConfig marshal c in
      case content of None \<Rightarrow> (c1, file, False)
      | Some s \<Rightarrow> if writes then (c1, Some s, True) else (c1, file, False))"

text \<open>\<open>Restart\<close> recovers panics: the state is then what the steps before the panic left.\<close>

definition restart_left :: "app \<Rightarrow> app" where
  "restart_left a = (case p2p_Stop a of
       Panicked _ \<Rightarrow> upd_p2p (\<lambda>s. s\<lparr>pp_running := False\<rparr>) a
     | Done a1 \<Rightarrow> (case SendUnAuth a1 of
           Panicked _ \<Rightarrow> a1
         | Done (a2, _) \<Rightarrow> upd_rt (\<lambda>r. r\<lparr>rt_running := False\<rparr>) (CleanRoutes a2)))"

definition recovered_Restart :: "crypt_lib \<Rightarrow> tap_env \<Rightarrow> app \<Rightarrow> app" where
  "recovered_Restart lib tenv a = (case rt_Restart lib tenv a of Done (b, _) \<Rightarrow> b | Panicked _ \<Rightarrow> restart_left a)"

definition apply_log :: "AppConfig \<Rightarrow> Logger \<Rightarrow> Logger" where
  "apply_log c l = SetLogLevel (ac_LogLevel c) (if ac_EnableLog c then Enable l else Disable l)"

definition wails_SaveConfig :: "start_env \<Rightarrow> bool \<Rightarrow> UiConfig option \<Rightarrow> WailsApp \<Rightarrow> (WailsApp \<times> save_tip) go" where
  "wails_SaveConfig e writes conf w = (case conf of None \<Rightarrow> Done (w, TipNilConfig) | Some cf \<Rightarrow>
     (if \<not> wa_loaded w \<and> \<not> is_err (checked_config (st_zero e) (st_zero e) cf) then Panicked NilDeref
      else case checked_config (st_zero e) (config (wa_app w)) cf of Inl t \<Rightarrow> Done (w, t)
      | Inr c \<Rightarrow>
          (case config_SaveConfig (st_marshal e) writes c (wa_file w) of
             (c1, file', False) \<Rightarrow> Done (w, TipSaveFailed)
           | (c1, file', True) \<Rightarrow>
               (let old = config (wa_app w);
                    w1 = w\<lparr>wa_file := file', wa_app := (wa_app w)\<lparr>config := c1\<rparr>\<rparr>
                in case wa_logger w of None \<Rightarrow> Panicked NilDeref
                   | Some l \<Rightarrow>
                       (let w2 = w1\<lparr>wa_logger := Some (apply_log c1 l)\<rparr> in
                        if needRestart old c1
                        then if wa_created w2
                             then Done (w2\<lparr>wa_app := recovered_Restart (st_lib e) (st_tap e) (wa_app w2)\<rparr>, TipSaved)
                             else Panicked NilDeref
                        else Done (w2, TipSaved))))))"

section \<open>Peers and log\<close>

definition show_peer :: "app \<Rightarrow> PeerInfo \<Rightarrow> PeerModel" where
  "show_peer a i = (if IsP2P (pi_PeerMac i) a then (ProtoToModel i)\<lparr>pm_ConnectType := 1\<rparr> else ProtoToModel i)"

definition RequestGroupPeers :: "WailsApp \<Rightarrow> (WailsApp \<times> PeerModel list option) go" where
  "RequestGroupPeers w =
     (if \<not> wa_created w then Done (w, None)
      else go_map (\<lambda>(a, infos). (w\<lparr>wa_app := a\<rparr>, map_option (\<lambda>is. sortPeers (map (show_peer a) is)) infos))
        (GetGroupPeers (pc_GroupName (ac_PeerConfig (config (wa_app w)))) True (wa_app w)))"

definition UpdatePeers :: "WailsApp \<Rightarrow> WailsApp go" where
  "UpdatePeers w = (if \<not> wa_created w then Panicked NilDeref else go_map (\<lambda>(a, infos). case infos of
       None \<Rightarrow> w\<lparr>wa_app := a\<rparr>
     | Some is \<Rightarrow> ui_emit (UiPeers (sortPeers (map (show_peer a) is))) (w\<lparr>wa_app := a\<rparr>))
     (GetGroupPeers (pc_GroupName (ac_PeerConfig (config (wa_app w)))) False (wa_app w)))"

definition ui_GetLinkInfos :: "LinkInfo list list \<Rightarrow> string \<Rightarrow> WailsApp \<Rightarrow> (WailsApp \<times> LinkInfo list option) go" where
  "ui_GetLinkInfos obs macStr w = (case ParseUint 64 macStr of
       None \<Rightarrow> Done (w, None)
     | Some mac \<Rightarrow>
         if \<not> wa_created w then Panicked NilDeref
         else go_map (\<lambda>(a, r). (w\<lparr>wa_app := a\<rparr>, r)) (GetLinkInfos obs (of_nat mac) (wa_app w)))"

definition SelectPeer :: "bool \<Rightarrow> string \<Rightarrow> WailsApp \<Rightarrow> (WailsApp \<times> bool) go" where
  "SelectPeer ok macStr w = (case ParseUint 64 macStr of
       None \<Rightarrow> Done (w, False)
     | Some mac \<Rightarrow>
         if \<not> wa_created w then Panicked NilDeref
         else let (a, r) = AddRoute ok (of_nat mac) (wa_app w) in Done (w\<lparr>wa_app := a\<rparr>, r))"

definition onLog :: "LogType \<Rightarrow> string \<Rightarrow> string \<Rightarrow> WailsApp \<Rightarrow> WailsApp" where
  "onLog logType time content w =
     (let evts = (if length (wa_logEvents w) > 100 then take 90 (wa_logEvents w) else wa_logEvents w) in
      ui_emit (UiLog logType time content) (w\<lparr>wa_logEvents := (logType, time, content) # evts\<rparr>))"

definition GetHisLog :: "WailsApp \<Rightarrow> (LogType \<times> string \<times> string) list" where
  "GetHisLog w = wa_logEvents w"

definition ClearHisLog :: "WailsApp \<Rightarrow> WailsApp" where
  "ClearHisLog w = w\<lparr>wa_logEvents := []\<rparr>"

section \<open>Start-up and shut-down\<close>

text \<open>What a start with the configuration \<open>c\<close> leads to.\<close>

definition started_app :: "start_env \<Rightarrow> AppConfig \<Rightarrow> app" where
  "started_app e c =
     (let a0 = (new_app c)\<lparr>runtime := NewRuntimeService (CopyAppConfigTo c (st_zero e))\<rparr>;
          a1 = (if tc_IpMode (ac_TapConfig c) = Static \<and> tc_HwMac (ac_TapConfig c) \<noteq> 0 then fst (tun_Start (st_tap e) a0) else a0)
      in p2p_Start (fst (rt_Start (st_lib e) (rt_Init a1))))"

lemma rt_Start_fresh:
  assumes "\<not> rt_running (runtime a)" "pc_CryptType (rtPeer a) \<noteq> CryptUnknown"
  shows "snd (rt_Start lib a) = None \<and> p2p (fst (rt_Start lib a)) = p2p a \<and> config (fst (rt_Start lib a)) = config a \<and>
    peerHeap (fst (rt_Start lib a)) = peerHeap a \<and> punchHeap (fst (rt_Start lib a)) = punchHeap a \<and>
    tun (fst (rt_Start lib a)) = tun a \<and>
    (\<exists>c. runtime (fst (rt_Start lib a)) = (runtime a)\<lparr>rt_running := True, rt_cancel := Some False, rt_crypt := c\<rparr>)"
  using assms by (cases "pc_CryptType (rtPeer a)") (auto simp: rt_Start_def initCrypt_def Let_def)

lemma p2p_Start_frame [simp]:
  "runtime (p2p_Start a) = runtime a" "config (p2p_Start a) = config a" "tun (p2p_Start a) = tun a"
  "peerHeap (p2p_Start a) = peerHeap a" "punchHeap (p2p_Start a) = punchHeap a"
  by (simp_all add: p2p_Start_def)

lemma copied_crypt: "pc_CryptType (ac_PeerConfig (CopyAppConfigTo c z)) = pc_CryptType (ac_PeerConfig c)"
  by (simp add: CopyAppConfigTo_def Let_def)

lemma rt_Init_frame [simp]:
  "p2p (rt_Init a) = p2p a" "config (rt_Init a) = config a" "tun (rt_Init a) = tun a"
  "peerHeap (rt_Init a) = peerHeap a" "punchHeap (rt_Init a) = punchHeap a"
  "rt_running (runtime (rt_Init a)) = rt_running (runtime a)" "rt_appConfig (runtime (rt_Init a)) = rt_appConfig (runtime a)"
  "rt_peerState (runtime (rt_Init a)) = StateInitOk"
  "rt_serverSock (runtime (rt_Init a)) \<noteq> None" "rt_groupPeers (runtime (rt_Init a)) \<noteq> None"
  "rt_lastRoute (runtime (rt_Init a)) = rt_lastRoute (runtime a)"
  by (simp_all add: rt_Init_def SetPeerState_def)

lemma started_app_facts:
  assumes "pc_CryptType (ac_PeerConfig c) \<noteq> CryptUnknown"
  shows "rt_inv (started_app e c) \<and> rt_running (runtime (started_app e c)) \<and> pp_running (p2p (started_app e c)) \<and>
    rt_peerState (runtime (started_app e c)) = StateInitOk \<and> config (started_app e c) = c \<and>
    rt_appConfig (runtime (started_app e c)) = CopyAppConfigTo c (st_zero e) \<and>
    rt_cancel (runtime (started_app e c)) = Some False \<and> pp_cancel (p2p (started_app e c)) = Some False"
proof -
  define a0 where "a0 = (new_app c)\<lparr>runtime := NewRuntimeService (CopyAppConfigTo c (st_zero e))\<rparr>"
  define a1 where "a1 = (if tc_IpMode (ac_TapConfig c) = Static \<and> tc_HwMac (ac_TapConfig c) \<noteq> 0
    then fst (tun_Start (st_tap e) a0) else a0)"
  define a2 where "a2 = fst (rt_Start (st_lib e) (rt_Init a1))"
  have a0: "config a0 = c" "p2p a0 = NewP2pService" "runtime a0 = NewRuntimeService (CopyAppConfigTo c (st_zero e))"
    by (simp_all add: a0_def new_app_def)
  have a1: "config a1 = c" "p2p a1 = NewP2pService" "runtime a1 = runtime a0"
    using a0 by (simp_all add: a1_def)
  have "\<not> rt_running (runtime (rt_Init a1))" "pc_CryptType (rtPeer (rt_Init a1)) \<noteq> CryptUnknown"
    using a0 a1 assms by (simp_all add: NewRuntimeService_def copied_crypt)
  from rt_Start_fresh [OF this, of "st_lib e"] obtain k where
    a2: "p2p a2 = NewP2pService" "config a2 = c"
      "runtime a2 = (runtime (rt_Init a1))\<lparr>rt_running := True, rt_cancel := Some False, rt_crypt := k\<rparr>"
    using a1 by (auto simp: a2_def)
  have st: "started_app e c = p2p_Start a2"
    by (simp add: started_app_def a0_def a1_def a2_def Let_def)
  have "p2p_inv (p2p_Start a2)"
    using a2(1) by (intro p2p_reachable_inv p2p_reachable.init) (simp add: NewP2pService_def)
  then show ?thesis
    using a0 a1 a2 unfolding st
    by (auto simp: rt_inv_def p2p_Start_def NewP2pService_def NewRuntimeService_def)
qed

lemma rt_Start_err: "snd (rt_Start lib a) = None"
  if "\<not> rt_running (runtime a)" "pc_CryptType (rtPeer a) \<noteq> CryptUnknown"
  using rt_Start_fresh [OF that] by blast

lemma domReady_started:
  assumes "InitAppConfig (st_marshal e) (st_unmarshal e) (st_hostname e) file (st_zero e) = (Some c, file', None)"
    and "ac_LogLevel c \<le> Debug" "pc_CryptType (ac_PeerConfig c) \<noteq> CryptUnknown"
  shows "\<exists>w. domReady e (NewWailsApp e file) = Done w \<and>
    wa_app w = (started_app e c)\<lparr>serial_started := ac_AllowVisitPort c \<and> st_listens e\<rparr> \<and>
    (if ac_AllowVisitPort c
     then service_Start (st_listens e) (NewPortService (tc_HwMac (ac_TapConfig c)) (st_ports e)) = Done (wa_ser w)
     else wa_ser w = NewPortService (tc_HwMac (ac_TapConfig c)) (st_ports e)) \<and>
    wa_created w \<and> wa_loaded w \<and> wa_isInit w \<and> wa_logger w \<noteq> None \<and> wa_file w = file'"
proof -
  define a0 where "a0 = (new_app c)\<lparr>runtime := NewRuntimeService (CopyAppConfigTo c (st_zero e))\<rparr>"
  define a1 where "a1 = (if tc_IpMode (ac_TapConfig c) = Static \<and> tc_HwMac (ac_TapConfig c) \<noteq> 0
    then fst (tun_Start (st_tap e) a0) else a0)"
  define s0 where "s0 = NewPortService (tc_HwMac (ac_TapConfig c)) (st_ports e)"
  have r: "runtime a1 = NewRuntimeService (CopyAppConfigTo c (st_zero e))"
    by (simp add: a1_def a0_def new_app_def)
  have err: "snd (rt_Start (st_lib e) (rt_Init a1)) = None"
    using r assms(3) by (intro rt_Start_err) (simp_all add: NewRuntimeService_def copied_crypt)
  have st: "started_app e c = p2p_Start (fst (rt_Start (st_lib e) (rt_Init a1)))"
    by (simp add: started_app_def a0_def a1_def Let_def)
  obtain s where s: "(if ac_AllowVisitPort c then service_Start (st_listens e) s0 else Done s0) = Done s"
      "sp_serverCtx s \<noteq> None \<longleftrightarrow> ac_AllowVisitPort c \<and> st_listens e"
    by (cases "ac_AllowVisitPort c") (auto simp: service_Start_def s0_def NewPortService_def Let_def)
  have l: "\<not> Debug < ac_LogLevel c" using assms(2) by simp
  show ?thesis
    using assms(1) l err s
    by (auto simp: domReady_def NewWailsApp_def NewLogger_def start_services_def create_services_def Let_def
      case_prod_beta st s0_def [symmetric] a0_def [symmetric] a1_def [symmetric] ui_emit_def level_defs go_map_Done_iff
      split: if_splits)
qed


lemma SendUnAuth_done:
  assumes "rt_serverSock (runtime a) \<noteq> None"
  shows "\<exists>b x. SendUnAuth a = Done (b, x) \<and> p2p b = p2p a \<and> runtime b = runtime a"
proof -
  obtain s where "rt_serverSock (runtime a) = Some s" using assms by blast
  then show ?thesis
    by (cases "ss_Handler s") (simp_all add: SendUnAuth_def send_guard_def with_server_def forwardMessage_def Let_def)
qed

lemma rt_Stop_done:
  assumes "rt_serverSock (runtime a) \<noteq> None" "rt_cancel (runtime a) \<noteq> None"
  shows "\<exists>b. rt_Stop a = Done b \<and> p2p b = p2p a"
proof -
  obtain b x where "SendUnAuth a = Done (b, x)" "p2p b = p2p a" "runtime b = runtime a"
    using SendUnAuth_done [OF assms(1)] by blast
  with assms(2) show ?thesis
    by (auto simp: rt_Stop_def Let_def CleanRoutes_def tun_DelRoute_def SetPeerState_def split: option.splits)
qed

lemma fresh_service_Stop:
  "service_Stop (NewPortService m f) = Panicked NilDeref"
  "service_Start False (NewPortService m f) = Done s \<Longrightarrow> service_Stop s = Panicked NilDeref"
  "service_Start True (NewPortService m f) = Done s \<Longrightarrow> \<exists>s'. service_Stop s = Done s'"
proof -
  show "service_Stop (NewPortService m f) = Panicked NilDeref"
    by (simp add: service_Stop_def NewPortService_def need_def)
  show "service_Stop s = Panicked NilDeref" if "service_Start False (NewPortService m f) = Done s"
  proof -
    have "sp_serverCtx s = None" using that by (auto simp: service_Start_def NewPortService_def Let_def)
    then show ?thesis by (simp add: service_Stop_def need_def)
  qed
  show "\<exists>s'. service_Stop s = Done s'" if "service_Start True (NewPortService m f) = Done s"
  proof -
    have "sp_serverCtx s = Some []" "sp_clientCtx s = Some []" "sp_bootstrap s"
      using that by (auto simp: service_Start_def NewPortService_def Let_def sm_empty_def)
    then show ?thesis by (simp add: service_Stop_def need_def Let_def)
  qed
qed

text \<open>Confirming the exit dialog after a start: the services are stopped, and the peer signs off at the
  server, only if the port service is up. Otherwise - the default, with visitors not allowed, or when
  the port could not be bound - \<open>SerialService.Stop\<close> follows a nil pointer and the exit panics first.\<close>

lemma exit_needs_port_service:
  assumes "InitAppConfig (st_marshal e) (st_unmarshal e) (st_hostname e) file (st_zero e) = (Some c, file', None)"
    and "ac_LogLevel c \<le> Debug" "pc_CryptType (ac_PeerConfig c) \<noteq> CryptUnknown"
  shows "\<exists>w. domReady e (NewWailsApp e file) = Done w \<and>
    (if ac_AllowVisitPort c \<and> st_listens e
     then \<exists>w'. beforeClose AnswerYes w = Done (w', False)
     else beforeClose AnswerYes w = Panicked NilDeref)"
proof -
  from domReady_started [OF assms] obtain w where w: "domReady e (NewWailsApp e file) = Done w"
      "wa_app w = (started_app e c)\<lparr>serial_started := ac_AllowVisitPort c \<and> st_listens e\<rparr>" "wa_created w"
      "if ac_AllowVisitPort c
       then service_Start (st_listens e) (NewPortService (tc_HwMac (ac_TapConfig c)) (st_ports e)) = Done (wa_ser w)
       else wa_ser w = NewPortService (tc_HwMac (ac_TapConfig c)) (st_ports e)" by blast
  have a: "rt_serverSock (runtime (wa_app w)) \<noteq> None" "rt_cancel (runtime (wa_app w)) \<noteq> None" "pp_cancel (p2p (wa_app w)) = Some False"
    using w(2) started_app_facts [OF assms(3), of e] by (auto simp: rt_inv_def)
  obtain a1 where a1: "rt_Stop (wa_app w) = Done a1" "pp_cancel (p2p a1) = Some False"
    using rt_Stop_done [OF a(1,2)] a(3) by auto
  have "if ac_AllowVisitPort c \<and> st_listens e
     then \<exists>w'. beforeClose AnswerYes w = Done (w', False) else beforeClose AnswerYes w = Panicked NilDeref"
    using w(3,4) a1 fresh_service_Stop
    by (cases "st_listens e") (auto simp: beforeClose_def p2p_Stop_def Let_def split: if_splits, fastforce)
  with w(1) show ?thesis by blast
qed

text \<open>Without a configuration file the start does not fall back to defaults, it panics.\<close>

lemma missing_file_panics: "domReady e (NewWailsApp e None) = Panicked NilDeref"
  by (simp add: domReady_def NewWailsApp_def InitAppConfig_def NewLogger_def level_defs Let_def)

section \<open>Settings\<close>

lemma CleanRoutes_frame [simp]: "config (CleanRoutes a) = config a"
  by (simp add: CleanRoutes_def tun_DelRoute_def split: option.splits)

lemma SendUnAuth_config: "SendUnAuth a = Done (b, x) \<Longrightarrow> config b = config a"
  by (auto simp: SendUnAuth_def send_guard_def with_server_def forwardMessage_def Let_def split: option.splits if_splits)

lemma rt_Stop_config: "rt_Stop a = Done b \<Longrightarrow> config b = config a"
  by (auto simp: rt_Stop_def go_bind_Done_iff Let_def SetPeerState_def dest: SendUnAuth_config split: option.splits)

lemma p2p_Stop_config: "p2p_Stop a = Done b \<Longrightarrow> config b = config a"
  by (auto simp: p2p_Stop_def Let_def split: option.splits)

lemma rt_Start_config: "config (fst (rt_Start lib a)) = config a"
  by (simp add: rt_Start_def initCrypt_def Let_def split: CryptType.split)

lemma rt_Restart_config:
  assumes "rt_Restart lib tenv a = Done (b, x)"
  shows "config b = config a"
proof -
  from assms obtain a1 a2 where a: "p2p_Stop a = Done a1" "rt_Stop a1 = Done a2"
    by (auto simp: rt_Restart_def go_bind_Done_iff)
  have "config a2 = config a" using rt_Stop_config [OF a(2)] p2p_Stop_config [OF a(1)] by simp
  moreover have "config b = config a2"
    using assms a by (auto simp: rt_Restart_def Let_def case_prod_beta rt_Start_config split: if_splits)
  ultimately show ?thesis by simp
qed

lemma restart_left_config: "config (restart_left a) = config a"
  using p2p_Stop_config SendUnAuth_config by (fastforce simp: restart_left_def split: go.split)

lemma recovered_Restart_config [simp]: "config (recovered_Restart lib tenv a) = config a"
  by (auto simp: recovered_Restart_def restart_left_config split: go.split dest: rt_Restart_config)

text \<open>Settings as the dialog produces them: addresses printed the way the program prints them.\<close>

definition proper_settings :: "UiConfig \<Rightarrow> bool" where
  "proper_settings conf \<longleftrightarrow> uc_PeerName conf \<noteq> [] \<and> uc_GroupName conf \<noteq> [] \<and>
     (uc_CryptType conf \<noteq> CryptNone \<longrightarrow> uc_PeerPwd conf \<noteq> []) \<and> uc_CryptType conf \<noteq> CryptUnknown \<and>
     \<not> is_err (IpV4toUint32 (uc_ServerIp conf)) \<and> uc_IpMode conf \<in> {1, 2} \<and>
     (\<exists>ip. uc_IpAddr conf = Uint32toIpV4 ip) \<and> (\<exists>n. unat n \<le> 32 \<and> uc_IpMask conf = Uint32toIpV4 (prefix_mask n)) \<and>
     (\<exists>mac. uc_HwMac conf = Uint64ToMacStr mac) \<and>
     ascii (uc_ServerIp conf) \<and> ascii (uc_PeerName conf) \<and> ascii (uc_GroupName conf)"

lemma is_err_simps [simp]: "is_err (Inl x)" "\<not> is_err (Inr y)" "or_zero (Inr z) = z"
  by (simp_all add: is_err_def or_zero_def)

lemma mac_print_stable:
  obtains m where "MacStrToUint64 (Uint64ToMacStr mac) = Inr m" "Uint64ToMacStr m = Uint64ToMacStr mac"
proof -
  let ?bs = "take 6 (PutUint64_le mac) @ [0, 0]"
  have "MacStrToUint64 (Uint64ToMacStr mac) = Inr (Uint64_le ?bs)"
    by (simp add: MacStrToUint64_def scan_mac_print)
  moreover have "PutUint64_le (Uint64_le ?bs) = ?bs" by (rule PutUint64_le_Uint) simp
  then have "Uint64ToMacStr (Uint64_le ?bs) = Uint64ToMacStr mac"
    by (simp add: Uint64ToMacStr_def Let_def nth_append)
  ultimately show ?thesis by (rule that)
qed

lemma checked_settings:
  assumes "proper_settings conf"
  obtains c where "checked_config zero cur conf = Inr c" "pc_Name (ac_PeerConfig c) = uc_PeerName conf"
    "ascii (tc_Name (ac_TapConfig cur)) \<Longrightarrow> plain_config (written_config c)"
    "ac_LogLevel c = uc_LogLevel conf" "pc_CryptType (ac_PeerConfig c) = uc_CryptType conf"
    "\<And>w dev. wa_loaded w \<Longrightarrow> wa_created w \<Longrightarrow> config (wa_app w) = upd_tap refresh_tap c \<Longrightarrow>
      \<exists>t. GetConfig dev w = Some (conf\<lparr>uc_TabName := t, uc_AllowVisitPort := False\<rparr>)"
proof -
  obtain ip n mac where p: "uc_IpAddr conf = Uint32toIpV4 ip" "unat n \<le> 32" "uc_IpMask conf = Uint32toIpV4 (prefix_mask n)"
      "uc_HwMac conf = Uint64ToMacStr mac"
    using assms by (auto simp: proper_settings_def)
  obtain m where m: "MacStrToUint64 (Uint64ToMacStr mac) = Inr m" "Uint64ToMacStr m = Uint64ToMacStr mac"
    by (rule mac_print_stable)
  define c where "c = upd_tap (\<lambda>t. t\<lparr>tc_HwMac := m, tc_IpMode := if uc_IpMode conf = 2 then Static else AutoAssign,
      tc_IpAddr := ip, tc_IpMask := n\<rparr>)
    (upd_peer (\<lambda>p. p\<lparr>pc_Name := uc_PeerName conf, pc_CryptType := uc_CryptType conf, pc_PeerPwd := uc_PeerPwd conf,
       pc_GroupName := uc_GroupName conf, pc_GroupPwd := uc_GroupPwd conf\<rparr>)
    ((CopyAppConfigTo cur zero)\<lparr>ac_ServerIp := uc_ServerIp conf, ac_ServerPort := uc_ServerPort conf,
       ac_EnableLog := uc_EnableLog conf, ac_LogLevel := uc_LogLevel conf\<rparr>))"
  show ?thesis
  proof (rule that)
    show "checked_config zero cur conf = Inr c"
      using assms p(2) m(1)
      by (auto simp add: checked_config_def p(1,3,4) proper_settings_def Let_def IpV4toUint32_print MaskBitLen_prefix_mask c_def)
    show "plain_config (written_config c)" if "ascii (tc_Name (ac_TapConfig cur))"
      using assms that
      by (simp add: plain_config_def written_config_def c_def upd_tap_def upd_peer_def encode_passwords_def refresh_tap_def
        config_Uint32toIpV4_def CopyAppConfigTo_def Let_def proper_settings_def)
    show "\<exists>t. GetConfig dev w = Some (conf\<lparr>uc_TabName := t, uc_AllowVisitPort := False\<rparr>)"
      if "wa_loaded w" "wa_created w" "config (wa_app w) = upd_tap refresh_tap c" for w dev
    proof -
      have "uc_IpMode conf = (case if uc_IpMode conf = 2 then Static else AutoAssign of AutoAssign \<Rightarrow> 1 | Static \<Rightarrow> 2)"
        using assms by (auto simp: proper_settings_def)
      with that p m(2) show ?thesis
        by (cases conf) (simp add: GetConfig_def Let_def c_def upd_tap_def upd_peer_def refresh_tap_def ip_mode_num_def
          prefix_mask_def CopyAppConfigTo_def)
    qed
  qed (simp_all add: c_def upd_tap_def upd_peer_def)
qed

lemma config_SaveConfig_written:
  assumes "marshal (written_config c) = Some s"
  shows "config_SaveConfig marshal True c file = (upd_tap refresh_tap c, Some s, True)"
  using assms
  by (simp add: config_SaveConfig_def SaveAppConfig_def Let_def written_config_def upd_peer_def upd_tap_def encode_passwords_def)

lemma saved_settings:
  assumes "wa_loaded w" "wa_created w" "wa_logger w = Some l" "checked_config (st_zero e) (config (wa_app w)) conf = Inr c"
    and "st_marshal e (written_config c) = Some s"
  obtains w' where "wails_SaveConfig e True (Some conf) w = Done (w', TipSaved)" "wa_loaded w'" "wa_created w'"
    "config (wa_app w') = upd_tap refresh_tap c" "wa_file w' = Some s"
proof -
  have sv: "config_SaveConfig (st_marshal e) True c (wa_file w) = (upd_tap refresh_tap c, Some s, True)"
    by (rule config_SaveConfig_written [of "st_marshal e", OF assms(5)])
  have "\<exists>w'. wails_SaveConfig e True (Some conf) w = Done (w', TipSaved) \<and> wa_loaded w' \<and> wa_created w' \<and>
      config (wa_app w') = upd_tap refresh_tap c \<and> wa_file w' = Some s"
    using assms(1-4) sv by (cases "needRestart (config (wa_app w)) (upd_tap refresh_tap c)")
      (auto simp: wails_SaveConfig_def Let_def)
  with that show ?thesis by blast
qed


section \<open>Examples\<close>

text \<open>A concrete environment: JSON that hands records through, for one configuration at a time.\<close>

definition sample_conf :: AppConfig where
  "sample_conf = sample_config\<lparr>ac_LogLevel := Info\<rparr>"

definition sample_start :: "parsed_config \<Rightarrow> start_env" where
  "sample_start p = \<lparr>st_marshal = (\<lambda>_. Some ''{}''), st_unmarshal = (\<lambda>_. Some p), st_hostname = None, st_zero = sample_conf,
     st_tap = sample_tap, st_lib = \<lparr>cl_aes = mirror 16, cl_des = mirror 8, cl_rsa = None\<rparr>, st_listens = True, st_ports = None\<rparr>"

lemma sample_Init:
  "InitAppConfig (st_marshal (sample_start (carried (written_config sample_conf))))
     (st_unmarshal (sample_start (carried (written_config sample_conf))))
     (st_hostname (sample_start (carried (written_config sample_conf)))) (Some ''{}'')
     (st_zero (sample_start (carried (written_config sample_conf)))) = (Some (upd_tap refresh_tap sample_conf), Some ''{}'', None)"
  by (simp add: sample_start_def loaded_config sample_conf_def sample_config_def)

lemma sample_conf_facts:
  "ac_LogLevel (upd_tap refresh_tap sample_conf) \<le> Debug"
  "pc_CryptType (ac_PeerConfig (upd_tap refresh_tap sample_conf)) \<noteq> CryptUnknown"
  "\<not> ac_AllowVisitPort (upd_tap refresh_tap sample_conf)"
  by (simp_all add: upd_tap_def sample_conf_def sample_config_def level_defs)


definition sample_settings :: "u8 \<Rightarrow> UiConfig" where
  "sample_settings level = \<lparr>uc_ServerIp = ''10.0.0.1'', uc_ServerPort = 7000, uc_PeerName = ''me'', uc_GroupName = ''g'',
     uc_GroupPwd = [], uc_CryptType = CryptNone, uc_PeerPwd = [], uc_TabName = [], uc_HwMac = Uint64ToMacStr 0x0504,
     uc_IpMode = 2, uc_IpAddr = Uint32toIpV4 0x0A000005, uc_IpMask = Uint32toIpV4 (prefix_mask 24),
     uc_AllowVisitPort = False, uc_EnableLog = True, uc_LogLevel = level\<rparr>"

lemma sample_settings_proper: "proper_settings (sample_settings level)"
proof -
  have "unat (24 :: u32) \<le> 32" by simp
  then have "\<exists>n. unat n \<le> 32 \<and> Uint32toIpV4 (prefix_mask 24) = Uint32toIpV4 (prefix_mask n)" by blast
  moreover have "\<not> is_err (IpV4toUint32 ''10.0.0.1'')"
    by (simp add: IpV4toUint32_def ParseInt_def parse_digits_def digit_val_def Let_def)
  ultimately show ?thesis by (auto simp: proper_settings_def sample_settings_def)
qed

text \<open>The program started with the sample configuration, and the settings saved in it.\<close>

definition sample_saved :: AppConfig where
  "sample_saved = (case checked_config sample_conf sample_conf (sample_settings 7) of Inr c \<Rightarrow> c | Inl _ \<Rightarrow> sample_conf)"

definition sample_wails :: WailsApp where
  "sample_wails = (NewWailsApp (sample_start (carried (written_config sample_saved))) (Some ''{}''))
     \<lparr>wa_loaded := True, wa_created := True, wa_logger := Some sample_logger\<rparr>"


section \<open>History of the log\<close>

text \<open>The history shown is the newest messages first, never more than 101 of them, and at least the newest 91.\<close>

lemma wa_logEvents_onLog:
  "wa_logEvents (onLog ty t m w) = (ty, t, m) # (if length (wa_logEvents w) > 100 then take 90 (wa_logEvents w) else wa_logEvents w)"
  by (simp add: onLog_def ui_emit_def Let_def)

lemma onLog_history:
  fixes w :: WailsApp and msgs :: "(LogType \<times> string \<times> string) list"
  defines "h \<equiv> wa_logEvents (fold (\<lambda>(ty, t, m). onLog ty t m) msgs (ClearHisLog w))"
  shows "prefix h (rev msgs) \<and> length h \<le> 101 \<and> min (length msgs) 91 \<le> length h"
  unfolding h_def
proof (induction msgs rule: rev_induct)
  case (snoc x msgs)
  let ?h = "wa_logEvents (fold (\<lambda>(ty, t, m). onLog ty t m) msgs (ClearHisLog w))"
  obtain ty t m where x: "x = (ty, t, m)" by (cases x)
  have "prefix (take 90 ?h) (rev msgs)" using snoc take_is_prefix prefix_order.order_trans by blast
  with snoc show ?case by (auto simp: x wa_logEvents_onLog)
qed (simp add: ClearHisLog_def)

text \<open>A new name alone does not restart the services: the runtime service, which reports the name to the
  server, keeps the old one in its copy until the next start.\<close>

lemma rename_not_applied:
  assumes "wa_loaded w" "wa_created w" "wa_logger w = Some l"
    and "checked_config (st_zero e) (config (wa_app w)) conf = Inr c" "st_marshal e (written_config c) = Some s"
    and "\<not> needRestart (config (wa_app w)) (upd_tap refresh_tap c)"
  shows "\<exists>w'. wails_SaveConfig e True (Some conf) w = Done (w', TipSaved) \<and>
    runtime (wa_app w') = runtime (wa_app w) \<and> pc_Name (ac_PeerConfig (config (wa_app w'))) = pc_Name (ac_PeerConfig c)"
  using assms config_SaveConfig_written [of "st_marshal e", OF assms(5)]
  by (auto simp: wails_SaveConfig_def Let_def upd_tap_def)

lemma needRestart_name: "\<not> needRestart c (upd_peer (\<lambda>p. p\<lparr>pc_Name := n\<rparr>) c)"
  by (simp add: needRestart_def upd_peer_def Let_def)

end
