(* ===== verification/Virtual_Com.thy ===== *)
theory Virtual_Com
  imports Serial_Service
begin

text \<open>
  Pairs of virtual serial ports, \<open>serial/virtual_com.go\<close>, and the calls of the window for serial ports, \<open>serial-app.go\<close>. The pairs
  are kept by an external program; \<open>tool\<close> is what it answers to a command line, \<open>None\<close> when it fails.
\<close>

section \<open>Text\<close>

text \<open>\<open>strings.Trim(s, cutset)\<close>, \<open>strings.Split(s, "\r\n")\<close> and the first run of digits.\<close>

definition go_trim :: "char set \<Rightarrow> string \<Rightarrow> string" where
  "go_trim cs s = rev (dropWhile (\<lambda>c. c \<in> cs) (rev (dropWhile (\<lambda>c. c \<in> cs) s)))"

fun split_crlf :: "string \<Rightarrow> string list" where
  "split_crlf [] = [[]]"
| "split_crlf [c] = [[c]]"
| "split_crlf (c # d # s) =
     (if c = CHR 0x0D \<and> d = CHR 0x0A then [] # split_crlf s
      else (case split_crlf (d # s) of [] \<Rightarrow> [[c]] | y # ys \<Rightarrow> (c # y) # ys))"

fun has_crlf :: "string \<Rightarrow> bool" where
  "has_crlf (c # d # s) = (c = CHR 0x0D \<and> d = CHR 0x0A \<or> has_crlf (d # s))"
| "has_crlf _ = False"

definition first_digits :: "string \<Rightarrow> string" where
  "first_digits s = takeWhile (\<lambda>c. digit_val c \<noteq> None) (dropWhile (\<lambda>c. digit_val c = None) s)"

definition is_prefix :: "string \<Rightarrow> string \<Rightarrow> bool" where
  "is_prefix p s \<longleftrightarrow> take (length p) s = p"

section \<open>Port pairs\<close>

record CommPair =
  cp_Index :: nat
  cp_ComA :: string
  cp_ComB :: string

record com_tool =
  ct_initOk :: bool
  ct_exePath :: string
  ct_run :: "string \<Rightarrow> string option"

datatype com_error = DriverError | ToolFailed | BadIndex | AddFailed

text \<open>\<open>exeCmd\<close>: the whole text is one argument of the program; the working directory is the path with every character of
  \<open>setupc.exe\<close> cut from both of its ends.\<close>

definition exe_dir :: "com_tool \<Rightarrow> string" where
  "exe_dir t = go_trim (set ''setupc.exe'') (ct_exePath t)"

definition exeCmd :: "com_tool \<Rightarrow> string \<Rightarrow> string option" where
  "exeCmd t cmdText = ct_run t cmdText"

definition split_lines :: "string \<Rightarrow> string list" where
  "split_lines content = (if has_crlf content then split_crlf content else go_split (CHR 0x0A) content)"

definition blank :: "char set" where
  "blank = {CHR '' ''}"

text \<open>\<open>init\<close>: the tool is looked for beside the program; first the database of port numbers in the registry is overwritten with
  zeros. The result is the tool and what was written.\<close>

record com_host =
  hk_OpenKey :: bool
  hk_dir :: "string option"
  hk_32bit :: bool
  hk_exists :: "string \<Rightarrow> bool"

definition com_path :: "bool \<Rightarrow> string \<Rightarrow> string" where
  "com_path b32 dir = dir @ (if b32 then [CHR 0x5C] @ ''serialport'' @ [CHR 0x5C] @ ''x86'' @ [CHR 0x5C]
     else [CHR 0x5C] @ ''serialport'' @ [CHR 0x5C] @ ''x64'' @ [CHR 0x5C]) @ ''setupc.exe''"

definition com_init :: "com_host \<Rightarrow> (string \<Rightarrow> string option) \<Rightarrow> com_tool \<times> bytes option" where
  "com_init h run =
     (if \<not> hk_OpenKey h then (\<lparr>ct_initOk = False, ct_exePath = [], ct_run = run\<rparr>, None)
      else case hk_dir h of
        None \<Rightarrow> (\<lparr>ct_initOk = False, ct_exePath = [], ct_run = run\<rparr>, Some (replicate 48 0))
      | Some dir \<Rightarrow> (let path = com_path (hk_32bit h) dir in
          (\<lparr>ct_initOk = hk_exists h path, ct_exePath = path, ct_run = run\<rparr>, Some (replicate 48 0))))"

text \<open>One line of the list: its index text and its port name.\<close>

definition com_line :: "string \<Rightarrow> (string \<times> string) option" where
  "com_line line =
     (let str = go_trim blank line in
      if is_prefix ''CNC'' str then
        (case go_split (CHR ''='') str of [l, r] \<Rightarrow> Some (l, go_trim blank r) | _ \<Rightarrow> None)
      else None)"

definition com_pair :: "string \<Rightarrow> string \<Rightarrow> CommPair option" where
  "com_pair a b = (case com_line a of None \<Rightarrow> None
     | Some (l, comA) \<Rightarrow> (case ParseUint 16 (first_digits l) of None \<Rightarrow> None
         | Some v \<Rightarrow> map_option (\<lambda>(l', comB). \<lparr>cp_Index = v, cp_ComA = comA, cp_ComB = comB\<rparr>) (com_line b)))"

fun com_pairs :: "string list \<Rightarrow> CommPair list" where
  "com_pairs (a # b # ls) = (case com_pair a b of None \<Rightarrow> com_pairs ls | Some p \<Rightarrow> p # com_pairs ls)"
| "com_pairs _ = []"

definition LoadComPairs :: "com_tool \<Rightarrow> com_error + CommPair list" where
  "LoadComPairs t =
     (if \<not> ct_initOk t then Inl DriverError
      else case exeCmd t ''list'' of None \<Rightarrow> Inl ToolFailed | Some content \<Rightarrow> Inr (com_pairs (split_lines content)))"

definition AddComPair :: "com_tool \<Rightarrow> string \<Rightarrow> string \<Rightarrow> com_error + CommPair" where
  "AddComPair t comA comB =
     (if \<not> ct_initOk t then Inl DriverError
      else case exeCmd t (''install PortName='' @ comA @ '' PortName='' @ comB) of
        None \<Rightarrow> Inl AddFailed
      | Some res \<Rightarrow>
          (let r = go_trim blank res in
           if res \<noteq> [] \<and> is_prefix ''CNC'' r then
             (case ParseUint 16 (first_digits (hd (go_split (CHR '' '') r))) of
                None \<Rightarrow> Inl BadIndex | Some v \<Rightarrow> Inr \<lparr>cp_Index = v, cp_ComA = comA, cp_ComB = comB\<rparr>)
           else Inl AddFailed))"

definition DelComPair :: "com_tool \<Rightarrow> nat \<Rightarrow> com_error option" where
  "DelComPair t index =
     (if \<not> ct_initOk t then Some DriverError
      else case exeCmd t (''remove '' @ dec index) of None \<Rightarrow> Some ToolFailed | Some _ \<Rightarrow> None)"

section \<open>The window's calls\<close>

text \<open>Each call first reads the peer's number; what it answers when that fails differs. \<open>conf\<close> is the parsed configuration text, \<open>None\<close> when
  \<open>json.Unmarshal\<close> fails.\<close>

datatype app_tip = BadId | BadConfig | ServiceTip tip

datatype app_result = AppNil | AppFailed "app_tip option" | AppDone op_result

definition with_id :: "app_result \<Rightarrow> string \<Rightarrow> (u64 \<Rightarrow> ser \<Rightarrow> (ser \<times> op_result) go) \<Rightarrow> ser \<Rightarrow> (ser \<times> app_result) go" where
  "with_id bad idStr op s = (case ParseUint 64 idStr of
     None \<Rightarrow> Done (s, bad) | Some n \<Rightarrow> go_map (\<lambda>(s1, r). (s1, AppDone r)) (op (of_nat n) s))"

definition app_ConnectRemote :: "serial_env \<Rightarrow> app \<Rightarrow> client_io \<Rightarrow> string \<Rightarrow> int \<Rightarrow> ser \<Rightarrow> (ser \<times> app_result) go" where
  "app_ConnectRemote env a io idStr now = with_id (AppFailed None) idStr (\<lambda>n. ConnectRemote env a io n now)"

definition app_DisConnectRemote :: "string \<Rightarrow> ser \<Rightarrow> (ser \<times> app_result) go" where
  "app_DisConnectRemote idStr = with_id (AppFailed None) idStr DisConnectRemote"

definition app_OpenPort :: "serial_env \<Rightarrow> app \<Rightarrow> (nat \<Rightarrow> client_io) \<Rightarrow> string \<Rightarrow> string \<Rightarrow> string \<Rightarrow> string \<Rightarrow> string \<Rightarrow> Config option \<Rightarrow>
    int \<Rightarrow> ser \<Rightarrow> (ser \<times> app_result) go" where
  "app_OpenPort env a ios idStr remote local user cfgText conf now s =
     (case ParseUint 64 idStr of None \<Rightarrow> Done (s, AppFailed (Some BadId))
      | Some n \<Rightarrow>
          if cfgText \<noteq> [] \<and> conf = None then Done (s, AppFailed (Some BadConfig))
          else go_map (\<lambda>(s1, r). (s1, AppDone r))
            (service_OpenPort env a ios (of_nat n) remote local user (if cfgText = [] then None else conf) now s))"

definition app_ClosePort :: "client_io \<Rightarrow> string \<Rightarrow> string \<Rightarrow> ser \<Rightarrow> (ser \<times> app_result) go" where
  "app_ClosePort io idStr name = with_id (AppFailed (Some BadId)) idStr (\<lambda>n. service_ClosePort io n name)"

definition app_GetPortConfig :: "serial_env \<Rightarrow> app \<Rightarrow> (nat \<Rightarrow> client_io) \<Rightarrow> string \<Rightarrow> string \<Rightarrow> int \<Rightarrow> ser \<Rightarrow> (ser \<times> app_result) go" where
  "app_GetPortConfig env a ios idStr name now = with_id AppNil idStr (\<lambda>n. service_GetPortConfig env a ios n name now)"

definition app_SetPortConfig :: "serial_env \<Rightarrow> app \<Rightarrow> (nat \<Rightarrow> client_io) \<Rightarrow> string \<Rightarrow> string \<Rightarrow> Config option \<Rightarrow> int \<Rightarrow> ser \<Rightarrow>
    (ser \<times> app_result) go" where
  "app_SetPortConfig env a ios idStr remote conf now s =
     (case ParseUint 64 idStr of None \<Rightarrow> Done (s, AppNil)
      | Some n \<Rightarrow> (case conf of None \<Rightarrow> Done (s, AppFailed (Some BadConfig))
          | Some c \<Rightarrow> go_map (\<lambda>(s1, r). (s1, AppDone r)) (service_SetPortConfig env a ios (of_nat n) remote (Some c) now s)))"

definition app_GetConnectedPorts :: "serial_env \<Rightarrow> app \<Rightarrow> (nat \<Rightarrow> client_io) \<Rightarrow> string \<Rightarrow> int \<Rightarrow> ser \<Rightarrow> (ser \<times> app_result) go" where
  "app_GetConnectedPorts env a ios idStr now = with_id (AppFailed (Some BadId)) idStr (\<lambda>n. service_GetConnectedPorts env a ios n now)"

definition app_GetRemotePortList :: "serial_env \<Rightarrow> app \<Rightarrow> (nat \<Rightarrow> client_io) \<Rightarrow> string \<Rightarrow> int \<Rightarrow> ser \<Rightarrow> (ser \<times> app_result) go" where
  "app_GetRemotePortList env a ios idStr now = with_id (AppFailed (Some BadId)) idStr (\<lambda>n. GetRemotePortList env a ios n now)"

text \<open>The virtual ports of this computer.\<close>

definition app_GetLocalPortList :: "com_tool \<Rightarrow> com_error + CommPair list" where
  "app_GetLocalPortList t = (case LoadComPairs t of Inl e \<Rightarrow> Inl e | Inr ps \<Rightarrow> Inr ps)"

definition app_AddLocalPort :: "com_tool \<Rightarrow> string \<Rightarrow> string \<Rightarrow> com_error + CommPair" where
  "app_AddLocalPort t comA comB = (case AddComPair t comA comB of Inl e \<Rightarrow> Inl e | Inr p \<Rightarrow> Inr p)"

definition app_DelLocalPort :: "com_tool \<Rightarrow> u64 \<Rightarrow> com_error option" where
  "app_DelLocalPort t index = (case DelComPair t (unat index) of Some e \<Rightarrow> Some e | None \<Rightarrow> None)"

section \<open>Reading the list of pairs\<close>

text \<open>The list as the tool prints it: two indented lines for each pair.\<close>

definition pair_lines :: "CommPair \<Rightarrow> string list" where
  "pair_lines p = [''       CNCA'' @ dec (cp_Index p) @ '' PortName='' @ cp_ComA p, ''       CNCB'' @ dec (cp_Index p) @ '' PortName='' @ cp_ComB p]"

definition print_pairs :: "CommPair list \<Rightarrow> string" where
  "print_pairs ps = concat (map (\<lambda>l. l @ [CHR 0x0D, CHR 0x0A]) (concat (map pair_lines ps)))"

definition plain_name :: "string \<Rightarrow> bool" where
  "plain_name n \<longleftrightarrow> n \<noteq> [] \<and> list_all (\<lambda>c. c \<notin> {CHR '' '', CHR ''='', CHR 0x0D, CHR 0x0A}) n"

lemma split_crlf_line: "CHR 0x0D \<notin> set l \<Longrightarrow> split_crlf (l @ CHR 0x0D # CHR 0x0A # s) = l # split_crlf s"
proof (induction l)
  case (Cons c l)
  then show ?case by (cases l) auto
qed simp

lemma split_crlf_lines: "\<forall>l\<in>set ls. CHR 0x0D \<notin> set l \<Longrightarrow> split_crlf (concat (map (\<lambda>l. l @ [CHR 0x0D, CHR 0x0A]) ls)) = ls @ [[]]"
  by (induction ls) (auto simp: split_crlf_line)

lemma has_crlf_line: "has_crlf (l @ CHR 0x0D # CHR 0x0A # s)"
proof (induction l)
  case (Cons c l)
  then show ?case by (cases l) auto
qed simp

lemma plain_trim: "plain_name n \<Longrightarrow> go_trim blank n = n"
proof -
  assume n: "plain_name n"
  have "dropWhile (\<lambda>c. c \<in> blank) m = m" if "m \<noteq> []" "list_all (\<lambda>c. c \<notin> {CHR '' ''}) m" for m
    using that by (cases m) (auto simp: blank_def)
  from this [of n] this [of "rev n"] show ?thesis using n by (auto simp: go_trim_def plain_name_def list_all_iff)
qed

lemma trim_line:
  assumes "plain_name n"
  shows "go_trim blank (''       CNC'' @ c # dec i @ '' PortName='' @ n) = ''CNC'' @ c # dec i @ '' PortName='' @ n"
proof -
  obtain m x where m: "n = m @ [x]" "x \<noteq> CHR '' ''" using assms by (cases n rule: rev_cases) (auto simp: plain_name_def)
  then show ?thesis by (simp add: go_trim_def blank_def)
qed

lemma com_line_print:
  assumes "plain_name n" "c \<noteq> CHR ''=''"
  shows "com_line (''       CNC'' @ c # dec i @ '' PortName='' @ n) = Some (''CNC'' @ c # dec i @ '' PortName'', n)"
proof -
  have e: "CHR ''='' \<notin> set (dec i)" using dec_digits [of "CHR ''=''" i] by (auto simp: digit_val_def)
  have n: "CHR ''='' \<notin> set n" using assms(1) by (auto simp: plain_name_def list_all_iff)
  have "go_split (CHR ''='') ((''CNC'' @ c # dec i @ '' PortName'') @ CHR ''='' # n) = [''CNC'' @ c # dec i @ '' PortName'', n]"
    using assms(2) e n by (subst go_split_cons) (auto simp: go_split_single)
  then show ?thesis using trim_line [OF assms(1), of c i] plain_trim [OF assms(1)]
    by (simp add: com_line_def is_prefix_def)
qed

lemma first_digits_line: "digit_val c = None \<Longrightarrow> first_digits (''CNC'' @ c # dec i @ '' PortName'') = dec i"
proof -
  assume c: "digit_val c = None"
  have d: "\<And>x. x \<in> set (dec i) \<Longrightarrow> digit_val x \<noteq> None" using dec_digits by blast
  have "dropWhile (\<lambda>c. digit_val c = None) (dec i @ '' PortName'') = dec i @ '' PortName''"
    using d [of "hd (dec i)"] dec_nonempty [of i] by (cases "dec i") auto
  moreover have "takeWhile (\<lambda>c. digit_val c \<noteq> None) (dec i @ '' PortName'') = dec i"
    using d by (simp add: takeWhile_append2 digit_val_def)
  moreover have "digit_val CHR ''C'' = None" "digit_val CHR ''N'' = None" by (simp_all add: digit_val_def)
  ultimately show ?thesis using c by (simp add: first_digits_def)
qed

lemma com_pair_print:
  assumes "plain_name (cp_ComA p)" "plain_name (cp_ComB p)" "cp_Index p < 2 ^ 16"
  shows "com_pair (pair_lines p ! 0) (pair_lines p ! 1) = Some p"
  using com_line_print [OF assms(1), of "CHR ''A''" "cp_Index p"] com_line_print [OF assms(2), of "CHR ''B''" "cp_Index p"]
    first_digits_line [of "CHR ''A''" "cp_Index p"] ParseUint_dec [OF assms(3)]
  by (simp add: com_pair_def pair_lines_def digit_val_def)

lemma com_pairs_print:
  assumes "\<forall>p\<in>set ps. plain_name (cp_ComA p) \<and> plain_name (cp_ComB p) \<and> cp_Index p < 2 ^ 16"
  shows "com_pairs (concat (map pair_lines ps) @ [[]]) = ps"
  using assms
proof (induction ps)
  case (Cons p ps)
  obtain x y where xy: "pair_lines p = [x, y]" by (simp add: pair_lines_def)
  then have "com_pair x y = Some p" using Cons.prems com_pair_print [of p] by simp
  then show ?case using Cons xy by simp
qed simp

lemma pair_lines_no_cr:
  assumes "\<forall>p\<in>set ps. plain_name (cp_ComA p) \<and> plain_name (cp_ComB p) \<and> cp_Index p < 2 ^ 16"
  shows "\<forall>l\<in>set (concat (map pair_lines ps)). CHR 0x0D \<notin> set l"
proof -
  have "CHR 0x0D \<notin> set (dec i)" for i using dec_digits [of "CHR 0x0D" i] by (auto simp: digit_val_def)
  then show ?thesis using assms by (auto simp: pair_lines_def plain_name_def list_all_iff)
qed

text \<open>The list of virtual port pairs is read back as it was printed: for any list of pairs with plain port names and numbers below
  65536, what the tool prints for them is loaded as exactly these pairs, in order.\<close>

lemma com_pairs_round_trip:
  assumes "ct_initOk t" "ct_run t ''list'' = Some (print_pairs ps)"
    "\<forall>p\<in>set ps. plain_name (cp_ComA p) \<and> plain_name (cp_ComB p) \<and> cp_Index p < 2 ^ 16"
  shows "LoadComPairs t = Inr ps"
proof (cases ps)
  case Nil
  then show ?thesis using assms by (simp add: LoadComPairs_def exeCmd_def print_pairs_def split_lines_def)
next
  case (Cons p qs)
  then have "has_crlf (print_pairs ps)" using has_crlf_line [of "pair_lines p ! 0"] by (simp add: print_pairs_def pair_lines_def)
  then have "split_lines (print_pairs ps) = concat (map pair_lines ps) @ [[]]"
    using split_crlf_lines [OF pair_lines_no_cr [OF assms(3)]] by (simp add: split_lines_def print_pairs_def)
  then show ?thesis using assms com_pairs_print [OF assms(3)] by (simp add: LoadComPairs_def exeCmd_def)
qed

text \<open>The working directory loses more than the file name when the path begins with one of its letters.\<close>

lemma exe_dir_cut: "exe_dir \<lparr>ct_initOk = True, ct_exePath = ''epsilon/setupc.exe'', ct_run = r\<rparr> = ''ilon/''"
  by (simp add: exe_dir_def go_trim_def)

text \<open>The working directory is the tool's own when the program's path begins with another character, for example a drive letter in upper
  case.\<close>

lemma com_init_dir:
  assumes "hk_OpenKey h" "hk_dir h = Some (c # d)" "c \<notin> set ''setupc.exe''"
  shows "exe_dir (fst (com_init h run)) @ ''setupc.exe'' = ct_exePath (fst (com_init h run))"
  using assms by (simp add: com_init_def com_path_def exe_dir_def go_trim_def Let_def)

text \<open>The calls fail at once unless the registry could be written and the tool is there.\<close>

lemma com_init_needed:
  "LoadComPairs (fst (com_init h run)) = Inl DriverError \<longleftrightarrow>
    \<not> (hk_OpenKey h \<and> (\<exists>dir. hk_dir h = Some dir \<and> hk_exists h (com_path (hk_32bit h) dir)))"
  by (auto simp: com_init_def LoadComPairs_def Let_def split: option.splits)

end
