(* ===== verification/Host_Info.thy ===== *)
theory Host_Info
  imports Addr_Utils Sync_Map
begin

text \<open>
  What the program learns of its host: the neighbour tables of \<open>arp/\<close> with their cache, and the rest of \<open>common/utils.go\<close>: the
  local address, the kind of an interface, the paths and the system version. Files, commands and system calls
  are arguments: the text they give, or \<open>None\<close> when they fail.
\<close>

section \<open>Text\<close>

definition is_space :: "char \<Rightarrow> bool" where
  "is_space c \<longleftrightarrow> c \<in> {CHR '' '', CHR 0x09, CHR 0x0A, CHR 0x0B, CHR 0x0C, CHR 0x0D}"

text \<open>\<open>strings.Fields\<close> of ASCII text.\<close>

function go_fields :: "string \<Rightarrow> string list" where
  "go_fields s = (let t = dropWhile is_space s in
     if t = [] then [] else takeWhile (\<lambda>c. \<not> is_space c) t # go_fields (dropWhile (\<lambda>c. \<not> is_space c) t))"
  by pat_completeness auto
termination
proof (relation "measure length")
  fix s t
  assume t: "t = dropWhile is_space s" "t \<noteq> []"
  then obtain c cs where c: "t = c # cs" "\<not> is_space c" by (metis hd_dropWhile list.collapse)
  then have "length (dropWhile (\<lambda>c. \<not> is_space c) t) < length t" by (simp add: le_imp_less_Suc length_dropWhile_le)
  also have "\<dots> \<le> length s" using t by (simp add: length_dropWhile_le)
  finally show "(dropWhile (\<lambda>c. \<not> is_space c) t, s) \<in> measure length" by simp
qed simp

declare go_fields.simps [simp del]

fun contains :: "string \<Rightarrow> string \<Rightarrow> bool" where
  "contains [] p = (p = [])"
| "contains (c # s) p = (take (length p) (c # s) = p \<or> contains s p)"

section \<open>Neighbour tables\<close>

type_synonym ArpTable = "(string, string) smap"

text \<open>Linux: \<open>/proc/net/arp\<close>, its lines; the first one is skipped.\<close>

fun linux_rows :: "string list \<Rightarrow> ArpTable \<Rightarrow> ArpTable go" where
  "linux_rows [] t = Done t"
| "linux_rows (l # ls) t = go_bind (go_nth (go_fields l) 0) (\<lambda>ip. go_bind (go_nth (go_fields l) 3) (\<lambda>mac. linux_rows ls (sm_store ip mac t)))"

definition arp_Table_linux :: "string list option \<Rightarrow> ArpTable option go" where
  "arp_Table_linux file = (case file of None \<Rightarrow> Done None | Some ls \<Rightarrow> go_map Some (linux_rows (drop 1 ls) sm_empty))"

text \<open>Other Unix systems: the output of \<open>arp -an\<close>.\<close>

definition strip_brackets :: "string \<Rightarrow> string" where
  "strip_brackets s = filter (\<lambda>c. c \<noteq> CHR ''('' \<and> c \<noteq> CHR '')'') s"

fun unix_rows :: "string list \<Rightarrow> ArpTable \<Rightarrow> ArpTable go" where
  "unix_rows [] t = Done t"
| "unix_rows (l # ls) t =
     (let fs = go_fields l in
      if length fs < 3 then unix_rows ls t
      else go_bind (go_nth fs 3) (\<lambda>mac. unix_rows ls (sm_store (strip_brackets (fs ! 1)) mac t)))"

definition arp_Table_unix :: "string option \<Rightarrow> ArpTable option go" where
  "arp_Table_unix out = (case out of None \<Rightarrow> Done None | Some d \<Rightarrow> go_map Some (unix_rows (go_split (CHR 0x0A) d) sm_empty))"

text \<open>Windows: the output of \<open>arp -a\<close>; a line that does not begin with a blank starts a section, whose next line is a heading.\<close>

definition colons :: "string \<Rightarrow> string" where
  "colons s = map (\<lambda>c. if c = CHR ''-'' then CHR '':'' else c) s"

fun windows_rows :: "bool \<Rightarrow> string list \<Rightarrow> ArpTable \<Rightarrow> ArpTable" where
  "windows_rows skipNext [] t = t"
| "windows_rows skipNext (l # ls) t =
     (if l = [] then windows_rows skipNext ls t
      else if hd l \<noteq> CHR '' '' then windows_rows True ls t
      else if skipNext then windows_rows False ls t
      else let fs = go_fields l in
        if length fs < 2 then windows_rows False ls t
        else windows_rows False ls (sm_store (fs ! 0) (colons (fs ! 1)) t))"

definition arp_Table_windows :: "string option \<Rightarrow> ArpTable option" where
  "arp_Table_windows out = map_option (\<lambda>d. windows_rows False (go_split (CHR 0x0A) d) sm_empty) out"

record arp_cache =
  ac_table :: "ArpTable option"
  ac_Updated :: int
  ac_UpdatedCount :: nat

definition cache_Refresh :: "ArpTable option \<Rightarrow> int \<Rightarrow> arp_cache \<Rightarrow> arp_cache" where
  "cache_Refresh table now c = c\<lparr>ac_table := table, ac_Updated := now, ac_UpdatedCount := ac_UpdatedCount c + 1\<rparr>"

definition cache_lookup :: "arp_cache \<Rightarrow> string \<Rightarrow> string option" where
  "cache_lookup c ip = (case ac_table c of None \<Rightarrow> None | Some t \<Rightarrow> sm_load t ip)"

definition cache_Search :: "ArpTable option \<Rightarrow> int \<Rightarrow> string \<Rightarrow> arp_cache \<Rightarrow> arp_cache \<times> string" where
  "cache_Search table now ip c = (case cache_lookup c ip of
       Some mac \<Rightarrow> (c, mac)
     | None \<Rightarrow> (let c1 = cache_Refresh table now c in (c1, case cache_lookup c1 ip of None \<Rightarrow> [] | Some mac \<Rightarrow> mac)))"

text \<open>\<open>AutoRefresh\<close> starts a goroutine that refreshes on every tick until it receives a stop; \<open>StopAutoRefresh\<close> sends one on an
  unbuffered channel, so it waits for a goroutine to receive it: \<open>None\<close> when none runs. The state is the cache and the number of
  goroutines.\<close>

datatype arp_event = StartRefresh | Tick "ArpTable option" int | StopRefresh | Update "ArpTable option" int

fun arp_step :: "arp_event \<Rightarrow> arp_cache \<times> nat \<Rightarrow> (arp_cache \<times> nat) option" where
  "arp_step StartRefresh (c, n) = Some (c, n + 1)"
| "arp_step (Tick table now) (c, n) = (if n = 0 then None else Some (cache_Refresh table now c, n))"
| "arp_step StopRefresh (c, n) = (if n = 0 then None else Some (c, n - 1))"
| "arp_step (Update table now) (c, n) = Some (cache_Refresh table now c, n)"

fun arp_run :: "arp_event list \<Rightarrow> arp_cache \<times> nat \<Rightarrow> (arp_cache \<times> nat) option" where
  "arp_run [] s = Some s"
| "arp_run (e # es) s = Option.bind (arp_step e s) (arp_run es)"

section \<open>The host\<close>

record host_addr =
  ha_net :: bool        \<comment> \<open>the address is an \<open>IPNet\<close>\<close>
  ha_v4 :: bool
  ha_loopback :: bool
  ha_text :: string

record host_iface =
  hi_Name :: string
  hi_addrs :: "host_addr list option"

text \<open>\<open>GetLocalIP\<close>: \<open>dialled\<close> is the local address of a probing connection.\<close>

definition first_v4 :: "host_addr list \<Rightarrow> host_addr option" where
  "first_v4 as = find (\<lambda>a. ha_net a \<and> ha_v4 a) as"

fun local_loop :: "string \<Rightarrow> host_iface list \<Rightarrow> host_addr option" where
  "local_loop localAddr [] = None"
| "local_loop localAddr (i # is') = (case hi_addrs i of None \<Rightarrow> local_loop localAddr is'
     | Some as \<Rightarrow>
         (let bridge = (if hi_Name i = ''br-lan'' then first_v4 as else None);
              match = find (\<lambda>a. ha_net a \<and> \<not> ha_loopback a \<and> ha_v4 a \<and> contains (ha_text a) localAddr) as
          in case bridge of Some a \<Rightarrow> Some a | None \<Rightarrow> (case match of Some a \<Rightarrow> Some a | None \<Rightarrow> local_loop localAddr is')))"

definition GetLocalIP :: "host_iface list option \<Rightarrow> string option \<Rightarrow> string \<Rightarrow> host_addr option" where
  "GetLocalIP faces dialled ipAddr = (case faces of None \<Rightarrow> None
     | Some fs \<Rightarrow> local_loop (if ipAddr \<noteq> [] then ipAddr
         else case dialled of None \<Rightarrow> [] | Some a \<Rightarrow> hd (go_split (CHR '':'') a)) fs)"

text \<open>\<open>adapterAddresses\<close>: the buffer grows to what the system asks for; an answer that asks for no more ends it.\<close>

datatype 'a adapter_answer = AaOk u32 "'a list" | AaOverflow u32 | AaError

function adapter_loop :: "(u32 \<Rightarrow> 'a adapter_answer) \<Rightarrow> u32 \<Rightarrow> 'a list option" where
  "adapter_loop ask l = (case ask l of
       AaOk l' as \<Rightarrow> Some (if l' = 0 then [] else as)
     | AaError \<Rightarrow> None
     | AaOverflow l' \<Rightarrow> if l' \<le> l then None else adapter_loop ask l')"
  by pat_completeness auto
termination
proof (relation "measure (\<lambda>(ask, l). 2 ^ 32 - unat l)")
  fix ask :: "u32 \<Rightarrow> 'a adapter_answer" and l l' :: u32
  assume "\<not> l' \<le> l"
  then have "unat l < unat l'" by (simp add: word_le_nat_alt)
  moreover have "unat l' < 2 ^ 32" using unsigned_less [of l', where ?'a = nat] by simp
  ultimately show "((ask, l'), (ask, l)) \<in> measure (\<lambda>(ask, l). 2 ^ 32 - unat l)" by simp
qed simp

declare adapter_loop.simps [simp del]

definition adapterAddresses :: "(u32 \<Rightarrow> 'a adapter_answer) \<Rightarrow> 'a list option" where
  "adapterAddresses ask = adapter_loop ask 15000"

text \<open>The kinds of interface: \<open>kind\<close> are the numbers of the system's constants for Ethernet, WiFi, PPP and ATM.\<close>

record if_kinds =
  ik_ethernet :: nat
  ik_wifi :: nat
  ik_ppp :: nat
  ik_atm :: nat

definition GetIfType :: "if_kinds \<Rightarrow> (u32 \<Rightarrow> (int \<times> nat) adapter_answer) \<Rightarrow> int \<Rightarrow> nat option" where
  "GetIfType kind ask ifIndex = (case adapterAddresses ask of None \<Rightarrow> None
     | Some as \<Rightarrow> (case find (\<lambda>a. fst a = ifIndex) as of None \<Rightarrow> Some 0
         | Some (i, t) \<Rightarrow> Some (if t = ik_ethernet kind then 1 else if t = ik_wifi kind then 2
             else if t = ik_ppp kind then 3 else if t = ik_atm kind then 3 else 0)))"

definition GetProjectPath :: "string option \<Rightarrow> string \<Rightarrow> string" where
  "GetProjectPath dir wd = (case dir of None \<Rightarrow> wd | Some d \<Rightarrow> d)"

definition GetConfigPath :: "bool \<Rightarrow> string \<Rightarrow> string" where
  "GetConfigPath windows path = (if windows then path @ [CHR 0x5C] @ ''config'' @ [CHR 0x5C] else path @ ''/'' @ ''config/'')"

definition GetLogPath :: "bool \<Rightarrow> string \<Rightarrow> string" where
  "GetLogPath windows path = (if windows then path @ [CHR 0x5C] @ ''log'' @ [CHR 0x5C] else path @ ''/log/'')"

text \<open>\<open>GetSystemVersion\<close>: on Windows the major and the minor number are added as bytes.\<close>

definition GetSystemVersion :: "bool \<Rightarrow> u32 option \<Rightarrow> u32" where
  "GetSystemVersion windows version = (if \<not> windows then 10
     else case version of None \<Rightarrow> 7 | Some v \<Rightarrow> ucast (ucast v + (ucast (drop_bit 8 v) :: u8)))"

section \<open>Facts\<close>

definition word_ok :: "string \<Rightarrow> bool" where
  "word_ok w \<longleftrightarrow> w \<noteq> [] \<and> list_all (\<lambda>c. \<not> is_space c) w"

definition row_text :: "string list \<Rightarrow> string" where
  "row_text ws = concat (map (\<lambda>w. w @ '' '') ws)"

lemma go_fields_row: "list_all word_ok ws \<Longrightarrow> go_fields (row_text ws) = ws"
proof (induction ws)
  case Nil
  then show ?case by (simp add: row_text_def go_fields.simps)
next
  case (Cons w ws)
  have w: "w \<noteq> []" "\<forall>c\<in>set w. \<not> is_space c" using Cons.prems by (auto simp: word_ok_def list_all_iff)
  have r: "row_text (w # ws) = w @ CHR '' '' # row_text ws" by (simp add: row_text_def)
  have d: "dropWhile is_space (row_text (w # ws)) = row_text (w # ws)" using w unfolding r by (cases w) auto
  have sp: "is_space CHR '' ''" by (simp add: is_space_def)
  have t: "takeWhile (\<lambda>c. \<not> is_space c) (row_text (w # ws)) = w" "dropWhile (\<lambda>c. \<not> is_space c) (row_text (w # ws)) = CHR '' '' # row_text ws"
    using w sp unfolding r by (simp_all add: takeWhile_append2 dropWhile_append2)
  have b: "go_fields (CHR '' '' # row_text ws) = go_fields (row_text ws)" using sp by (simp add: go_fields.simps [of "_ # _"] go_fields.simps [of "row_text ws"])
  have ne: "row_text (w # ws) \<noteq> []" using w r by simp
  show ?case using Cons b by (subst go_fields.simps) (simp add: d t ne Let_def)
qed

lemma linux_rows_print:
  assumes "\<forall>r\<in>set rs. list_all word_ok r \<and> 4 \<le> length r"
  shows "\<exists>t. linux_rows (map row_text rs) t0 = Done t \<and> (\<forall>ip. sm_load t ip =
    (case map_of (rev (map (\<lambda>r. (r ! 0, r ! 3)) rs)) ip of Some mac \<Rightarrow> Some mac | None \<Rightarrow> sm_load t0 ip))"
  using assms
proof (induction rs arbitrary: t0)
  case (Cons r rs)
  then have r: "go_fields (row_text r) = r" "4 \<le> length r" by (simp_all add: go_fields_row)
  obtain t where "linux_rows (map row_text rs) (sm_store (r ! 0) (r ! 3) t0) = Done t" "\<forall>ip. sm_load t ip =
    (case map_of (rev (map (\<lambda>r. (r ! 0, r ! 3)) rs)) ip of Some mac \<Rightarrow> Some mac | None \<Rightarrow> sm_load (sm_store (r ! 0) (r ! 3) t0) ip)"
    using Cons.IH [of "sm_store (r ! 0) (r ! 3) t0"] Cons.prems by auto
  then show ?case using r by (auto simp: go_nth_def map_add_def split: option.split)
qed simp

text \<open>The neighbour table of Linux: for a file of rows of at least four words behind its heading, an address is mapped to the fourth
  word of the last row that begins with it, and other addresses are not in the table.\<close>

lemma arp_table_rows:
  assumes "\<forall>r\<in>set rs. list_all word_ok r \<and> 4 \<le> length r"
  shows "\<exists>t. arp_Table_linux (Some (heading # map row_text rs)) = Done (Some t) \<and>
    (\<forall>ip. sm_load t ip = map_of (rev (map (\<lambda>r. (r ! 0, r ! 3)) rs)) ip)"
proof -
  obtain t where "linux_rows (map row_text rs) sm_empty = Done t" "\<forall>ip. sm_load t ip =
    (case map_of (rev (map (\<lambda>r. (r ! 0, r ! 3)) rs)) ip of Some mac \<Rightarrow> Some mac | None \<Rightarrow> sm_load sm_empty ip)"
    using linux_rows_print [OF assms, of sm_empty] by blast
  then show ?thesis by (auto simp: arp_Table_linux_def split: option.split)
qed

text \<open>A row of three words ends the program on other Unix systems: the fourth is read after a test for three.\<close>

lemma short_row_panics: "length (go_fields l) = 3 \<Longrightarrow> unix_rows (l # ls) t = Panicked IndexOutOfRange"
  by (simp add: go_nth_def)

text \<open>The local address is compared by substring, so an address that only begins like the one asked for is taken.\<close>

lemma local_ip_substring:
  "GetLocalIP (Some [\<lparr>hi_Name = ''eth0'', hi_addrs = Some [\<lparr>ha_net = True, ha_v4 = True, ha_loopback = False, ha_text = ''10.0.0.12''\<rparr>]\<rparr>,
      \<lparr>hi_Name = ''eth1'', hi_addrs = Some [\<lparr>ha_net = True, ha_v4 = True, ha_loopback = False, ha_text = ''10.0.0.1''\<rparr>]\<rparr>]) d ''10.0.0.1'' =
    Some \<lparr>ha_net = True, ha_v4 = True, ha_loopback = False, ha_text = ''10.0.0.12''\<rparr>"
  by (simp add: GetLocalIP_def)

text \<open>A search that misses reads the table again, once, and a search that hits changes nothing.\<close>

lemma cache_Search_refresh:
  "fst (cache_Search table now ip c) = (if cache_lookup c ip = None then cache_Refresh table now c else c)"
  by (simp add: cache_Search_def Let_def split: option.split)

text \<open>The number of refreshers is the number of starts less the stops, and the counter of the cache counts every refresh; a stop without a
  refresher waits forever.\<close>

fun refreshes :: "arp_event \<Rightarrow> nat" where
  "refreshes (Tick _ _) = 1"
| "refreshes (Update _ _) = 1"
| "refreshes _ = 0"

lemma arp_run_counts:
  assumes "arp_run es (c, n) = Some (c1, n1)"
  shows "n1 + count_list es StopRefresh = n + count_list es StartRefresh \<and>
    ac_UpdatedCount c1 = ac_UpdatedCount c + sum_list (map refreshes es)"
  using assms
proof (induction es arbitrary: c n)
  case (Cons e es)
  then show ?case
    by (cases e) (force simp: cache_Refresh_def split: if_splits)+
qed simp

lemma stop_without_refresher: "arp_step StopRefresh (c, n) = None \<longleftrightarrow> n = 0"
  by simp

end
