(* ===== verification/Wifi.thy ===== *)
theory Wifi
  imports Addr_Utils
begin

text \<open>
  The WiFi client for Linux, \<open>sys/wifi/wifi.go\<close> and \<open>sys/wifi/client_linux.go\<close>: the requests sent to nl80211 and the parsing
  of its answers into interfaces, stations and the associated network. The netlink packages are not
  part of the program: attribute lists, the fixed-width readers, the encoder, the exchange with the kernel
  and the numbers of the nl80211 constants are the fields of the record \<open>netlink\<close>, an argument of every definition
  that uses them.
\<close>

section \<open>Data\<close>

record attribute =
  at_Type :: u16
  at_Data :: bytes

text \<open>The names of the nl80211 constants the source uses, group by group: commands, attributes, BSS attributes, station
  attributes, rate attributes.\<close>

datatype nl_name = CMD_GET_INTERFACE | CMD_CONNECT | CMD_DISCONNECT | CMD_GET_SCAN | CMD_GET_STATION
  | ATTR_IFINDEX | ATTR_IFNAME | ATTR_MAC | ATTR_WIPHY | ATTR_IFTYPE | ATTR_WDEV | ATTR_WIPHY_FREQ | ATTR_BSS | ATTR_STA_INFO
  | ATTR_SSID | ATTR_AUTH_TYPE | ATTR_WPA_VERSIONS | ATTR_CIPHER_SUITE_GROUP | ATTR_CIPHER_SUITES_PAIRWISE | ATTR_AKM_SUITES
  | ATTR_WANT_1X_4WAY_HS | ATTR_PMK
  | BSS_BSSID | BSS_FREQUENCY | BSS_BEACON_INTERVAL | BSS_SEEN_MS_AGO | BSS_STATUS | BSS_INFORMATION_ELEMENTS
  | STA_CONNECTED_TIME | STA_INACTIVE_TIME | STA_RX_BYTES64 | STA_TX_BYTES64 | STA_SIGNAL | STA_RX_PACKETS | STA_TX_PACKETS
  | STA_TX_RETRIES | STA_TX_FAILED | STA_BEACON_LOSS | STA_RX_BITRATE | STA_TX_BITRATE | STA_RX_BYTES | STA_TX_BYTES
  | RATE_BITRATE32 | RATE_BITRATE | AUTHTYPE_OPEN_SYSTEM | WPA_VERSION_2 | FLAG_REQUEST | FLAG_DUMP | FLAG_ACK

datatype ae_item = AeBytes u16 bytes | AeUint32 u16 u32 | AeFlag u16 bool

record request =
  rq_Command :: u16
  rq_Version :: u8
  rq_family :: u16
  rq_Data :: bytes
  rq_flags :: u16

record client =
  cl_open :: bool
  cl_familyID :: u16
  cl_familyVersion :: u8

record netlink =
  nl_const :: "nl_name \<Rightarrow> u16"
  nl_unmarshal :: "bytes \<Rightarrow> attribute list option"
  nl_Uint16 :: "bytes \<Rightarrow> u16 go"
  nl_Uint32 :: "bytes \<Rightarrow> u32 go"
  nl_Uint64 :: "bytes \<Rightarrow> u64 go"
  nl_String :: "bytes \<Rightarrow> bytes"
  nl_Uint32Bytes :: "u32 \<Rightarrow> bytes"
  nl_Encode :: "ae_item list \<Rightarrow> bytes option"
  nl_Execute :: "request \<Rightarrow> bytes list option"
  nl_pbkdf2 :: "bytes \<Rightarrow> bytes \<Rightarrow> bytes"

record Interface =
  if_Index :: u64
  if_Name :: bytes
  if_HardwareAddr :: "bytes option"
  if_PHY :: u64
  if_Device :: u64
  if_Type :: u64
  if_Frequency :: u64

record StationInfo =
  si_HardwareAddr :: "bytes option"
  si_Connected :: u64
  si_Inactive :: u64
  si_ReceivedBytes :: u64
  si_TransmittedBytes :: u64
  si_ReceivedPackets :: u64
  si_TransmittedPackets :: u64
  si_ReceiveBitrate :: u64
  si_TransmitBitrate :: u64
  si_Signal :: u64
  si_TransmitRetries :: u64
  si_TransmitFailed :: u64
  si_BeaconLoss :: u64

record BSS =
  bs_SSID :: bytes
  bs_BSSID :: "bytes option"
  bs_Frequency :: u64
  bs_BeaconInterval :: u64
  bs_LastSeen :: u64
  bs_Status :: u64

definition zero_Interface :: Interface where
  "zero_Interface = \<lparr>if_Index = 0, if_Name = [], if_HardwareAddr = None, if_PHY = 0, if_Device = 0, if_Type = 0, if_Frequency = 0\<rparr>"

definition zero_StationInfo :: StationInfo where
  "zero_StationInfo = \<lparr>si_HardwareAddr = None, si_Connected = 0, si_Inactive = 0, si_ReceivedBytes = 0, si_TransmittedBytes = 0,
     si_ReceivedPackets = 0, si_TransmittedPackets = 0, si_ReceiveBitrate = 0, si_TransmitBitrate = 0, si_Signal = 0,
     si_TransmitRetries = 0, si_TransmitFailed = 0, si_BeaconLoss = 0\<rparr>"

definition zero_BSS :: BSS where
  "zero_BSS = \<lparr>bs_SSID = [], bs_BSSID = None, bs_Frequency = 0, bs_BeaconInterval = 0, bs_LastSeen = 0, bs_Status = 0\<rparr>"

text \<open>The enumerations are integers in the source; what is not one of the constants prints as unknown.\<close>

definition unknown_text :: "u64 \<Rightarrow> string" where
  "unknown_text n = ''unknown('' @ (if sint n < 0 then CHR ''-'' # dec (nat (- sint n)) else dec (unat n)) @ '')''"

definition InterfaceType_String :: "u64 \<Rightarrow> string" where
  "InterfaceType_String t =
     (if t = 0 then ''unspecified'' else if t = 1 then ''ad-hoc'' else if t = 2 then ''station'' else if t = 3 then ''access point''
      else if t = 5 then ''wireless distribution'' else if t = 6 then ''monitor'' else if t = 7 then ''mesh point''
      else if t = 8 then ''P2P client'' else if t = 9 then ''P2P group owner'' else if t = 10 then ''P2P device''
      else if t = 11 then ''outside context of BSS'' else if t = 12 then ''near-me area network'' else unknown_text t)"

definition BSSStatus_String :: "u64 \<Rightarrow> string" where
  "BSSStatus_String s =
     (if s = 0 then ''authenticated'' else if s = 1 then ''associated'' else if s = 2 then ''IBSS joined'' else unknown_text s)"

section \<open>Outcomes\<close>

datatype wifi_error = BadAttributes | InvalidIE | NotExist | EncodeFailed | ExecuteFailed

type_synonym 'a wifi = "(wifi_error + 'a) go"

definition wbind :: "'a wifi \<Rightarrow> ('a \<Rightarrow> 'b wifi) \<Rightarrow> 'b wifi" where
  "wbind m f = go_bind m (\<lambda>r. case r of Inl e \<Rightarrow> Done (Inl e) | Inr a \<Rightarrow> f a)"

definition wret :: "'a \<Rightarrow> 'a wifi" where
  "wret a = Done (Inr a)"

definition wfail :: "wifi_error \<Rightarrow> 'a wifi" where
  "wfail e = Done (Inl e)"

definition wgo :: "'a go \<Rightarrow> 'a wifi" where
  "wgo m = go_map Inr m"

definition unmarshal :: "netlink \<Rightarrow> bytes \<Rightarrow> attribute list wifi" where
  "unmarshal nl b = (case nl_unmarshal nl b of None \<Rightarrow> wfail BadAttributes | Some as \<Rightarrow> wret as)"

text \<open>A \<open>for\<close> loop whose body may return an error.\<close>

fun wfold :: "('a \<Rightarrow> 's \<Rightarrow> 's wifi) \<Rightarrow> 'a list \<Rightarrow> 's \<Rightarrow> 's wifi" where
  "wfold f [] s = wret s"
| "wfold f (x # xs) s = wbind (f x s) (wfold f xs)"

section \<open>Information elements\<close>

record ie =
  ie_ID :: u8
  ie_Data :: bytes

text \<open>\<open>parseIEs\<close>: the loop on what is left of the slice.\<close>

function parseIEs :: "bytes \<Rightarrow> ie list option" where
  "parseIEs b =
     (if b = [] then Some []
      else if length b < 2 then None
      else let l = unat (b ! 1) in
        if length (drop 2 b) < l then None
        else map_option (\<lambda>ies. \<lparr>ie_ID = b ! 0, ie_Data = take l (drop 2 b)\<rparr> # ies) (parseIEs (drop (2 + l) b)))"
  by pat_completeness auto
termination by (relation "measure length") auto

declare parseIEs.simps [simp del]

section \<open>UTF-8\<close>

text \<open>\<open>utf8.DecodeRune\<close> of a non-empty slice: the rune and its width; an invalid sequence gives the replacement character, one byte
  wide. \<open>accept_range\<close> is the range of the second byte.\<close>

definition rune_error :: nat where
  "rune_error = 65533"

definition accept_range :: "nat \<Rightarrow> nat \<times> nat" where
  "accept_range p = (if p = 224 then (160, 191) else if p = 237 then (128, 159) else if p = 240 then (144, 191)
     else if p = 244 then (128, 143) else (128, 191))"

definition rune_size :: "nat \<Rightarrow> nat" where
  "rune_size p = (if p < 128 then 1 else if p < 194 then 0 else if p < 224 then 2 else if p < 240 then 3 else if p < 245 then 4 else 0)"

definition cont :: "nat \<Rightarrow> bool" where
  "cont c \<longleftrightarrow> 128 \<le> c \<and> c \<le> 191"

definition DecodeRune :: "nat list \<Rightarrow> nat \<times> nat" where
  "DecodeRune b =
     (let p0 = b ! 0; sz = rune_size p0; (lo, hi) = accept_range p0 in
      if sz = 1 then (p0, 1)
      else if sz = 0 \<or> length b < sz \<or> b ! 1 < lo \<or> hi < b ! 1 then (rune_error, 1)
      else if sz = 2 then ((p0 mod 32) * 64 + b ! 1 mod 64, 2)
      else if \<not> cont (b ! 2) then (rune_error, 1)
      else if sz = 3 then ((p0 mod 16) * 4096 + (b ! 1 mod 64) * 64 + b ! 2 mod 64, 3)
      else if \<not> cont (b ! 3) then (rune_error, 1)
      else ((p0 mod 8) * 262144 + (b ! 1 mod 64) * 4096 + (b ! 2 mod 64) * 64 + b ! 3 mod 64, 4))"

text \<open>\<open>WriteRune\<close>.\<close>

definition scalar :: "nat \<Rightarrow> bool" where
  "scalar r \<longleftrightarrow> r < 55296 \<or> 57344 \<le> r \<and> r \<le> 1114111"

definition EncodeRune :: "nat \<Rightarrow> nat list" where
  "EncodeRune r0 =
     (let r = (if scalar r0 then r0 else rune_error) in
      if r < 128 then [r]
      else if r < 2048 then [192 + r div 64, 128 + r mod 64]
      else if r < 65536 then [224 + r div 4096, 128 + r div 64 mod 64, 128 + r mod 64]
      else [240 + r div 262144, 128 + r div 4096 mod 64, 128 + r div 64 mod 64, 128 + r mod 64])"

lemma DecodeRune_pos: "0 < snd (DecodeRune b)"
  by (simp add: DecodeRune_def Let_def split: prod.split)

function decode_runes :: "nat list \<Rightarrow> nat list" where
  "decode_runes b = (if b = [] then [] else let (r, size) = DecodeRune b in EncodeRune r @ decode_runes (drop size b))"
  by pat_completeness auto
termination
proof (relation "measure length")
  fix b :: "nat list" and x r size
  assume "b \<noteq> []" "x = DecodeRune b" "(r, size) = x"
  then have "0 < size" using DecodeRune_pos [of b] by (metis snd_conv)
  with \<open>b \<noteq> []\<close> show "(drop size b, b) \<in> measure length" by simp
qed simp

declare decode_runes.simps [simp del]

definition decodeSSID :: "bytes \<Rightarrow> bytes" where
  "decodeSSID b = map of_nat (decode_runes (map unat b))"

section \<open>Parsing attributes\<close>

definition is_type :: "netlink \<Rightarrow> nl_name \<Rightarrow> attribute \<Rightarrow> bool" where
  "is_type nl n a \<longleftrightarrow> at_Type a = nl_const nl n"

abbreviation u32_of :: "netlink \<Rightarrow> attribute \<Rightarrow> u64 wifi" where
  "u32_of nl a \<equiv> wgo (go_map ucast (nl_Uint32 nl (at_Data a)))"

abbreviation u16_of :: "netlink \<Rightarrow> attribute \<Rightarrow> u64 wifi" where
  "u16_of nl a \<equiv> wgo (go_map ucast (nl_Uint16 nl (at_Data a)))"

abbreviation u64_of :: "netlink \<Rightarrow> attribute \<Rightarrow> u64 wifi" where
  "u64_of nl a \<equiv> wgo (nl_Uint64 nl (at_Data a))"

definition wmap :: "('a \<Rightarrow> 'b) \<Rightarrow> 'a wifi \<Rightarrow> 'b wifi" where
  "wmap f m = wbind m (\<lambda>a. wret (f a))"

definition interface_attribute :: "netlink \<Rightarrow> attribute \<Rightarrow> Interface \<Rightarrow> Interface wifi" where
  "interface_attribute nl a ifi =
     (if is_type nl ATTR_IFINDEX a then wmap (\<lambda>v. ifi\<lparr>if_Index := v\<rparr>) (u32_of nl a)
      else if is_type nl ATTR_IFNAME a then wret (ifi\<lparr>if_Name := nl_String nl (at_Data a)\<rparr>)
      else if is_type nl ATTR_MAC a then wret (ifi\<lparr>if_HardwareAddr := Some (at_Data a)\<rparr>)
      else if is_type nl ATTR_WIPHY a then wmap (\<lambda>v. ifi\<lparr>if_PHY := v\<rparr>) (u32_of nl a)
      else if is_type nl ATTR_IFTYPE a then wmap (\<lambda>v. ifi\<lparr>if_Type := v\<rparr>) (u32_of nl a)
      else if is_type nl ATTR_WDEV a then wmap (\<lambda>v. ifi\<lparr>if_Device := v\<rparr>) (u64_of nl a)
      else if is_type nl ATTR_WIPHY_FREQ a then wmap (\<lambda>v. ifi\<lparr>if_Frequency := v\<rparr>) (u32_of nl a)
      else wret ifi)"

definition interface_parseAttributes :: "netlink \<Rightarrow> attribute list \<Rightarrow> Interface \<Rightarrow> Interface wifi" where
  "interface_parseAttributes nl = wfold (interface_attribute nl)"

definition parseInterfaces :: "netlink \<Rightarrow> bytes list \<Rightarrow> Interface list wifi" where
  "parseInterfaces nl msgs = wfold (\<lambda>m ifis. wbind (unmarshal nl m) (\<lambda>attrs.
     wmap (\<lambda>ifi. ifis @ [ifi]) (interface_parseAttributes nl attrs zero_Interface))) msgs []"

definition attrsContain :: "netlink \<Rightarrow> attribute list \<Rightarrow> nl_name \<Rightarrow> bool" where
  "attrsContain nl attrs n \<longleftrightarrow> list_ex (is_type nl n) attrs"

definition ieSSID :: u8 where
  "ieSSID = 0"

definition set_ssids :: "ie list \<Rightarrow> BSS \<Rightarrow> BSS" where
  "set_ssids ies b = fold (\<lambda>i b. if ie_ID i = ieSSID then b\<lparr>bs_SSID := decodeSSID (ie_Data i)\<rparr> else b) ies b"

definition bss_attribute :: "netlink \<Rightarrow> attribute \<Rightarrow> BSS \<Rightarrow> BSS wifi" where
  "bss_attribute nl a b =
     (if is_type nl BSS_BSSID a then wret (b\<lparr>bs_BSSID := Some (at_Data a)\<rparr>)
      else if is_type nl BSS_FREQUENCY a then wmap (\<lambda>v. b\<lparr>bs_Frequency := v\<rparr>) (u32_of nl a)
      else if is_type nl BSS_BEACON_INTERVAL a then wmap (\<lambda>v. b\<lparr>bs_BeaconInterval := v * 1024 * 1000\<rparr>) (u16_of nl a)
      else if is_type nl BSS_SEEN_MS_AGO a then wmap (\<lambda>v. b\<lparr>bs_LastSeen := v * 1000000\<rparr>) (u32_of nl a)
      else if is_type nl BSS_STATUS a then wmap (\<lambda>v. b\<lparr>bs_Status := v\<rparr>) (u32_of nl a)
      else if is_type nl BSS_INFORMATION_ELEMENTS a then
        (case parseIEs (at_Data a) of None \<Rightarrow> wfail InvalidIE | Some ies \<Rightarrow> wret (set_ssids ies b))
      else wret b)"

definition bss_parseAttributes :: "netlink \<Rightarrow> attribute list \<Rightarrow> BSS \<Rightarrow> BSS wifi" where
  "bss_parseAttributes nl = wfold (bss_attribute nl)"

text \<open>The two nested loops of \<open>parseBSS\<close>: the first BSS attribute with a status ends both.\<close>

fun bss_of_attrs :: "netlink \<Rightarrow> attribute list \<Rightarrow> BSS option wifi" where
  "bss_of_attrs nl [] = wret None"
| "bss_of_attrs nl (a # as) =
     (if \<not> is_type nl ATTR_BSS a then bss_of_attrs nl as
      else wbind (unmarshal nl (at_Data a)) (\<lambda>nattrs.
        if \<not> attrsContain nl nattrs BSS_STATUS then bss_of_attrs nl as
        else wmap Some (bss_parseAttributes nl nattrs zero_BSS)))"

fun parseBSS :: "netlink \<Rightarrow> bytes list \<Rightarrow> BSS wifi" where
  "parseBSS nl [] = wfail NotExist"
| "parseBSS nl (m # ms) =
     wbind (unmarshal nl m) (\<lambda>attrs. wbind (bss_of_attrs nl attrs) (\<lambda>r.
       case r of Some bss \<Rightarrow> wret bss | None \<Rightarrow> parseBSS nl ms))"

text \<open>\<open>parseRateInfo\<close>.\<close>

definition rate_attribute :: "netlink \<Rightarrow> attribute \<Rightarrow> u64 \<Rightarrow> u64 wifi" where
  "rate_attribute nl a r =
     wbind (if is_type nl RATE_BITRATE32 a then u32_of nl a else wret r) (\<lambda>r1.
       if r1 = 0 \<and> is_type nl RATE_BITRATE a then u16_of nl a else wret r1)"

definition parseRateInfo :: "netlink \<Rightarrow> bytes \<Rightarrow> u64 wifi" where
  "parseRateInfo nl b = wbind (unmarshal nl b) (\<lambda>attrs. wmap (\<lambda>r. r * (100 * 1000)) (wfold (rate_attribute nl) attrs 0))"

definition station_switch :: "netlink \<Rightarrow> attribute \<Rightarrow> StationInfo \<Rightarrow> StationInfo wifi" where
  "station_switch nl a info =
     (if is_type nl STA_CONNECTED_TIME a then wmap (\<lambda>v. info\<lparr>si_Connected := v * 1000000000\<rparr>) (u32_of nl a)
      else if is_type nl STA_INACTIVE_TIME a then wmap (\<lambda>v. info\<lparr>si_Inactive := v * 1000000\<rparr>) (u32_of nl a)
      else if is_type nl STA_RX_BYTES64 a then wmap (\<lambda>v. info\<lparr>si_ReceivedBytes := v\<rparr>) (u64_of nl a)
      else if is_type nl STA_TX_BYTES64 a then wmap (\<lambda>v. info\<lparr>si_TransmittedBytes := v\<rparr>) (u64_of nl a)
      else if is_type nl STA_SIGNAL a then wmap (\<lambda>v. info\<lparr>si_Signal := scast (v :: u8)\<rparr>) (wgo (go_nth (at_Data a) 0))
      else if is_type nl STA_RX_PACKETS a then wmap (\<lambda>v. info\<lparr>si_ReceivedPackets := v\<rparr>) (u32_of nl a)
      else if is_type nl STA_TX_PACKETS a then wmap (\<lambda>v. info\<lparr>si_TransmittedPackets := v\<rparr>) (u32_of nl a)
      else if is_type nl STA_TX_RETRIES a then wmap (\<lambda>v. info\<lparr>si_TransmitRetries := v\<rparr>) (u32_of nl a)
      else if is_type nl STA_TX_FAILED a then wmap (\<lambda>v. info\<lparr>si_TransmitFailed := v\<rparr>) (u32_of nl a)
      else if is_type nl STA_BEACON_LOSS a then wmap (\<lambda>v. info\<lparr>si_BeaconLoss := v\<rparr>) (u32_of nl a)
      else if is_type nl STA_RX_BITRATE a then wmap (\<lambda>v. info\<lparr>si_ReceiveBitrate := v\<rparr>) (parseRateInfo nl (at_Data a))
      else if is_type nl STA_TX_BITRATE a then wmap (\<lambda>v. info\<lparr>si_TransmitBitrate := v\<rparr>) (parseRateInfo nl (at_Data a))
      else wret info)"

definition station_attribute :: "netlink \<Rightarrow> attribute \<Rightarrow> StationInfo \<Rightarrow> StationInfo wifi" where
  "station_attribute nl a info =
     wbind (station_switch nl a info) (\<lambda>i1.
     wbind (if si_ReceivedBytes i1 = 0 \<and> is_type nl STA_RX_BYTES a then wmap (\<lambda>v. i1\<lparr>si_ReceivedBytes := v\<rparr>) (u32_of nl a) else wret i1) (\<lambda>i2.
       if si_TransmittedBytes i2 = 0 \<and> is_type nl STA_TX_BYTES a then wmap (\<lambda>v. i2\<lparr>si_TransmittedBytes := v\<rparr>) (u32_of nl a) else wret i2))"

definition station_parseAttributes :: "netlink \<Rightarrow> attribute list \<Rightarrow> StationInfo \<Rightarrow> StationInfo wifi" where
  "station_parseAttributes nl = wfold (station_attribute nl)"

fun station_loop :: "netlink \<Rightarrow> attribute list \<Rightarrow> StationInfo \<Rightarrow> StationInfo wifi" where
  "station_loop nl [] info = wfail NotExist"
| "station_loop nl (a # as) info =
     (if is_type nl ATTR_MAC a then station_loop nl as (info\<lparr>si_HardwareAddr := Some (at_Data a)\<rparr>)
      else if is_type nl ATTR_STA_INFO a then
        wbind (unmarshal nl (at_Data a)) (\<lambda>nattrs. station_parseAttributes nl nattrs info)
      else station_loop nl as info)"

definition parseStationInfo :: "netlink \<Rightarrow> bytes \<Rightarrow> StationInfo wifi" where
  "parseStationInfo nl b = wbind (unmarshal nl b) (\<lambda>attrs. station_loop nl attrs zero_StationInfo)"

section \<open>Requests\<close>

definition encode_ifi :: "netlink \<Rightarrow> Interface option \<Rightarrow> ae_item list" where
  "encode_ifi nl ifi = (case ifi of None \<Rightarrow> [] | Some i \<Rightarrow> [AeUint32 (nl_const nl ATTR_IFINDEX) (ucast (if_Index i))])"

definition idAttrs :: "netlink \<Rightarrow> Interface \<Rightarrow> attribute list" where
  "idAttrs nl ifi = [\<lparr>at_Type = nl_const nl ATTR_IFINDEX, at_Data = nl_Uint32Bytes nl (ucast (if_Index ifi))\<rparr>,
     \<lparr>at_Type = nl_const nl ATTR_MAC, at_Data = (case if_HardwareAddr ifi of None \<Rightarrow> [] | Some mac \<Rightarrow> mac)\<rparr>]"

text \<open>\<open>newClient\<close> and \<open>initClient\<close>: \<open>dialled\<close> and \<open>family\<close> are the answers of the kernel; the socket is closed when nl80211 is missing. The result
  is whether a socket stays open, and the client.\<close>

definition initClient :: "(u16 \<times> u8) option \<Rightarrow> bool \<times> client option" where
  "initClient family = (case family of None \<Rightarrow> (False, None)
     | Some (fid, ver) \<Rightarrow> (True, Some \<lparr>cl_open = True, cl_familyID = fid, cl_familyVersion = ver\<rparr>))"

definition newClient :: "bool \<Rightarrow> (u16 \<times> u8) option \<Rightarrow> bool \<times> client option" where
  "newClient dialled family = (if \<not> dialled then (False, None) else initClient family)"

definition client_Close :: "client \<Rightarrow> client" where
  "client_Close c = c\<lparr>cl_open := False\<rparr>"

definition execute :: "netlink \<Rightarrow> client \<Rightarrow> u16 \<Rightarrow> u16 \<Rightarrow> ae_item list \<Rightarrow> bytes list wifi" where
  "execute nl c cmd flags ae = (case nl_Encode nl ae of None \<Rightarrow> wfail EncodeFailed
     | Some b \<Rightarrow> (case nl_Execute nl \<lparr>rq_Command = cmd, rq_Version = cl_familyVersion c, rq_family = cl_familyID c, rq_Data = b,
            rq_flags = nl_const nl FLAG_REQUEST OR flags\<rparr> of
          None \<Rightarrow> wfail ExecuteFailed | Some ms \<Rightarrow> wret ms))"

definition wifi_get :: "netlink \<Rightarrow> client \<Rightarrow> nl_name \<Rightarrow> nl_name \<Rightarrow> Interface option \<Rightarrow> ae_item list \<Rightarrow> bytes list wifi" where
  "wifi_get nl c cmd flags ifi params = execute nl c (nl_const nl cmd) (nl_const nl flags) (encode_ifi nl ifi @ params)"

definition Interfaces :: "netlink \<Rightarrow> client \<Rightarrow> Interface list wifi" where
  "Interfaces nl c = wbind (wifi_get nl c CMD_GET_INTERFACE FLAG_DUMP None []) (parseInterfaces nl)"

definition wifi_Connect :: "netlink \<Rightarrow> client \<Rightarrow> Interface \<Rightarrow> bytes \<Rightarrow> unit wifi" where
  "wifi_Connect nl c ifi ssid = wmap (\<lambda>_. ()) (wifi_get nl c CMD_CONNECT FLAG_ACK (Some ifi)
     [AeBytes (nl_const nl ATTR_SSID) ssid, AeUint32 (nl_const nl ATTR_AUTH_TYPE) (ucast (nl_const nl AUTHTYPE_OPEN_SYSTEM))])"

definition wifi_Disconnect :: "netlink \<Rightarrow> client \<Rightarrow> Interface \<Rightarrow> unit wifi" where
  "wifi_Disconnect nl c ifi = wmap (\<lambda>_. ()) (wifi_get nl c CMD_DISCONNECT FLAG_ACK (Some ifi) [])"

definition wpaPassphrase :: "netlink \<Rightarrow> bytes \<Rightarrow> bytes \<Rightarrow> bytes" where
  "wpaPassphrase nl ssid psk = nl_pbkdf2 nl psk ssid"

definition ConnectWPAPSK :: "netlink \<Rightarrow> client \<Rightarrow> Interface \<Rightarrow> bytes \<Rightarrow> bytes \<Rightarrow> unit wifi" where
  "ConnectWPAPSK nl c ifi ssid psk = wmap (\<lambda>_. ()) (wifi_get nl c CMD_CONNECT FLAG_ACK (Some ifi)
     [AeBytes (nl_const nl ATTR_SSID) ssid, AeUint32 (nl_const nl ATTR_WPA_VERSIONS) (ucast (nl_const nl WPA_VERSION_2)),
      AeUint32 (nl_const nl ATTR_CIPHER_SUITE_GROUP) 0xfac04, AeUint32 (nl_const nl ATTR_CIPHER_SUITES_PAIRWISE) 0xfac04,
      AeUint32 (nl_const nl ATTR_AKM_SUITES) 0xfac02, AeFlag (nl_const nl ATTR_WANT_1X_4WAY_HS) True,
      AeBytes (nl_const nl ATTR_PMK) (wpaPassphrase nl ssid psk),
      AeUint32 (nl_const nl ATTR_AUTH_TYPE) (ucast (nl_const nl AUTHTYPE_OPEN_SYSTEM))])"

definition mac_param :: "netlink \<Rightarrow> Interface \<Rightarrow> ae_item list" where
  "mac_param nl ifi = (case if_HardwareAddr ifi of None \<Rightarrow> [] | Some mac \<Rightarrow> [AeBytes (nl_const nl ATTR_MAC) mac])"

definition wifi_BSS :: "netlink \<Rightarrow> client \<Rightarrow> Interface \<Rightarrow> BSS wifi" where
  "wifi_BSS nl c ifi = wbind (wifi_get nl c CMD_GET_SCAN FLAG_DUMP (Some ifi) (mac_param nl ifi)) (parseBSS nl)"

definition wifi_StationInfo :: "netlink \<Rightarrow> client \<Rightarrow> Interface \<Rightarrow> StationInfo list wifi" where
  "wifi_StationInfo nl c ifi = wbind (wifi_get nl c CMD_GET_STATION FLAG_DUMP (Some ifi) (mac_param nl ifi)) (\<lambda>msgs.
     if msgs = [] then wfail NotExist
     else wfold (\<lambda>m stations. wmap (\<lambda>st. stations @ [st]) (parseStationInfo nl m)) msgs [])"

section \<open>Information elements, both ways\<close>

definition encode_ies :: "ie list \<Rightarrow> bytes" where
  "encode_ies ies = concat (map (\<lambda>i. ie_ID i # of_nat (length (ie_Data i)) # ie_Data i) ies)"

lemma parseIEs_sound: "parseIEs b = Some ies \<Longrightarrow> b = encode_ies ies \<and> (\<forall>i\<in>set ies. length (ie_Data i) < 256)"
proof (induction b arbitrary: ies rule: parseIEs.induct)
  case (1 b)
  show ?case
  proof (cases "b = []")
    case False
    with 1(2) obtain x l rest where b: "b = x # l # rest" by (cases b; cases "tl b") (auto simp: parseIEs.simps)
    with 1(2) obtain js where i: "unat l \<le> length rest" "parseIEs (drop (unat l) rest) = Some js"
      "ies = \<lparr>ie_ID = x, ie_Data = take (unat l) rest\<rparr> # js"
      by (auto simp: parseIEs.simps [of "x # l # rest"] Let_def split: if_splits)
    have "drop (unat l) rest = encode_ies js \<and> (\<forall>i\<in>set js. length (ie_Data i) < 256)"
      using 1(1) [of "unat l" js] b i by simp
    then show ?thesis using b i unsigned_less [of l, where ?'a = nat] by (auto simp: encode_ies_def min_def) (metis append_take_drop_id)
  qed (use 1 in \<open>simp add: parseIEs.simps encode_ies_def\<close>)
qed

lemma parseIEs_complete:
  assumes "\<forall>i\<in>set ies. length (ie_Data i) < 256"
  shows "parseIEs (encode_ies ies) = Some ies"
  using assms
proof (induction ies)
  case Nil
  then show ?case by (simp add: encode_ies_def parseIEs.simps)
next
  case (Cons i ies)
  have u: "unat (of_nat (length (ie_Data i)) :: u8) = length (ie_Data i)" using Cons.prems by (simp add: unat_of_nat take_bit_nat_eq_self)
  have e: "encode_ies (i # ies) = ie_ID i # of_nat (length (ie_Data i)) # ie_Data i @ encode_ies ies" by (simp add: encode_ies_def)
  show ?case using Cons by (simp add: e parseIEs.simps [of "ie_ID i # _"] u)
qed

text \<open>Information elements are read exactly: \<open>parseIEs\<close> gives a list of elements if and only if the bytes are the encoding of that
  list, id, length and data of each in order with no data longer than a length byte can say. So what it
  accepts it reads completely, it refuses only bytes that encode no list, and it always ends.\<close>

lemma ies_round_trip:
  "parseIEs b = Some ies \<longleftrightarrow> b = encode_ies ies \<and> (\<forall>i\<in>set ies. length (ie_Data i) < 256)"
  using parseIEs_sound [of b ies] parseIEs_complete [of ies] by blast

section \<open>The network name is text\<close>

definition valid_utf8 :: "nat list \<Rightarrow> bool" where
  "valid_utf8 b \<longleftrightarrow> (\<exists>rs. list_all scalar rs \<and> b = concat (map EncodeRune rs))"

text \<open>A rune in base 64: its digits, and what the masks of the decoder leave of the bytes.\<close>

lemma masks:
  fixes d :: nat
  shows "d < 64 \<Longrightarrow> (128 + d) mod 64 = d" "d < 32 \<Longrightarrow> (192 + d) mod 32 = d" "d < 16 \<Longrightarrow> (224 + d) mod 16 = d" "d < 8 \<Longrightarrow> (240 + d) mod 8 = d"
proof -
  have "(128 + d) mod 64 = d mod 64" using mod_mult_self3 [of 2 64 d] by simp
  then show "d < 64 \<Longrightarrow> (128 + d) mod 64 = d" by simp
  have "(192 + d) mod 32 = d mod 32" using mod_mult_self3 [of 6 32 d] by simp
  then show "d < 32 \<Longrightarrow> (192 + d) mod 32 = d" by simp
  have "(224 + d) mod 16 = d mod 16" using mod_mult_self3 [of 14 16 d] by simp
  then show "d < 16 \<Longrightarrow> (224 + d) mod 16 = d" by simp
  have "(240 + d) mod 8 = d mod 8" using mod_mult_self3 [of 30 8 d] by simp
  then show "d < 8 \<Longrightarrow> (240 + d) mod 8 = d" by simp
qed

lemma digits64:
  fixes r :: nat
  shows "r div 64 * 64 + r mod 64 = r" "r div 4096 * 4096 + r div 64 mod 64 * 64 + r mod 64 = r"
    "r div 262144 * 262144 + r div 4096 mod 64 * 4096 + r div 64 mod 64 * 64 + r mod 64 = r"
proof -
  have q: "r div 4096 = r div 64 div 64" "r div 262144 = r div 64 div 64 div 64" by (simp_all flip: div_mult2_eq)
  have 1: "r div 64 * 64 + r mod 64 = r" by (rule div_mult_mod_eq)
  have 2: "r div 64 div 64 * 64 + r div 64 mod 64 = r div 64" by (rule div_mult_mod_eq)
  have 3: "r div 64 div 64 div 64 * 64 + r div 64 div 64 mod 64 = r div 64 div 64" by (rule div_mult_mod_eq)
  show "r div 64 * 64 + r mod 64 = r" by (fact 1)
  show "r div 4096 * 4096 + r div 64 mod 64 * 64 + r mod 64 = r" unfolding q using 1 2 by linarith
  show "r div 262144 * 262144 + r div 4096 mod 64 * 4096 + r div 64 mod 64 * 64 + r mod 64 = r" unfolding q using 1 2 3 by linarith
qed

lemma second_byte:
  assumes "scalar r" "128 \<le> r"
  shows "2048 \<le> r \<Longrightarrow> r < 65536 \<Longrightarrow> fst (accept_range (224 + r div 4096)) \<le> 128 + r div 64 mod 64 \<and>
      128 + r div 64 mod 64 \<le> snd (accept_range (224 + r div 4096))"
    "65536 \<le> r \<Longrightarrow> fst (accept_range (240 + r div 262144)) \<le> 128 + r div 4096 mod 64 \<and>
      128 + r div 4096 mod 64 \<le> snd (accept_range (240 + r div 262144))"
proof -
  define q where "q = r div 64"
  define p where "p = r div 4096"
  have m: "q mod 64 < 64" "p mod 64 < 64" by simp_all
  have "p = q div 64" by (simp add: p_def q_def flip: div_mult2_eq)
  then have q: "q = 64 * p + q mod 64" by simp
  show "fst (accept_range (224 + r div 4096)) \<le> 128 + r div 64 mod 64 \<and> 128 + r div 64 mod 64 \<le> snd (accept_range (224 + r div 4096))"
    if "2048 \<le> r" "r < 65536"
  proof -
    have "32 \<le> q" using that by (simp add: q_def)
    moreover have "p < 16" using that by (simp add: p_def)
    moreover have "p = 13 \<Longrightarrow> q < 864" using that assms(1) by (auto simp: q_def p_def scalar_def)
    ultimately show ?thesis using q m unfolding q_def [symmetric] p_def [symmetric] by (auto simp: accept_range_def)
  qed
  show "fst (accept_range (240 + r div 262144)) \<le> 128 + r div 4096 mod 64 \<and> 128 + r div 4096 mod 64 \<le> snd (accept_range (240 + r div 262144))"
    if "65536 \<le> r"
  proof -
    define o' where "o' = r div 262144"
    have "o' = p div 64" by (simp add: o'_def p_def flip: div_mult2_eq)
    then have o': "p = 64 * o' + p mod 64" by simp
    have "16 \<le> p" "p < 272" using that assms(1) by (auto simp: p_def scalar_def)
    then show ?thesis using o' m unfolding p_def [symmetric] o'_def [symmetric] by (auto simp: accept_range_def)
  qed
qed

lemma DecodeRune_EncodeRune:
  assumes "scalar r"
  shows "DecodeRune (EncodeRune r @ rest) = (r, length (EncodeRune r))"
proof -
  consider "r < 128" | "128 \<le> r" "r < 2048" | "2048 \<le> r" "r < 65536" | "65536 \<le> r" by linarith
  then show ?thesis
  proof cases
    case 1
    with assms show ?thesis by (simp add: EncodeRune_def DecodeRune_def rune_size_def Let_def split: prod.split)
  next
    case 2
    have q: "r div 64 < 32" "2 \<le> r div 64" using 2 by auto
    then have "rune_size (192 + r div 64) = 2" "accept_range (192 + r div 64) = (128, 191)" by (auto simp: rune_size_def accept_range_def)
    moreover have "128 + r mod 64 \<le> 191" by (simp add: less_Suc_eq_le [symmetric])
    moreover have e: "EncodeRune r = [192 + r div 64, 128 + r mod 64]" using 2 assms by (simp add: EncodeRune_def)
    ultimately show ?thesis unfolding e using q digits64(1) [of r] by (simp add: DecodeRune_def masks)
  next
    case 3
    have q: "r div 4096 < 16" using 3 by auto
    then have "rune_size (224 + r div 4096) = 3" by (auto simp: rune_size_def)
    moreover have "128 + r mod 64 \<le> 191" by (simp add: less_Suc_eq_le [symmetric])
    moreover have e: "EncodeRune r = [224 + r div 4096, 128 + r div 64 mod 64, 128 + r mod 64]" using 3 assms by (simp add: EncodeRune_def)
    ultimately show ?thesis unfolding e using 3 q digits64(2) [of r] second_byte(1) [OF assms]
      by (auto simp: DecodeRune_def Let_def cont_def masks split: prod.split)
  next
    case 4
    have q: "r div 262144 < 5" using 4 assms by (auto simp: scalar_def)
    then have "rune_size (240 + r div 262144) = 4" by (auto simp: rune_size_def)
    moreover have "128 + r mod 64 \<le> 191" "128 + r div 64 mod 64 \<le> 191" by (simp_all add: less_Suc_eq_le [symmetric])
    moreover have e: "EncodeRune r = [240 + r div 262144, 128 + r div 4096 mod 64, 128 + r div 64 mod 64, 128 + r mod 64]"
      using 4 assms by (simp add: EncodeRune_def)
    ultimately show ?thesis unfolding e using 4 q digits64(3) [of r] second_byte(2) [OF assms]
      by (auto simp: DecodeRune_def Let_def cont_def masks split: prod.split)
  qed
qed

lemma DecodeRune_scalar: "scalar (fst (DecodeRune b))"
proof -
  define p where "p = b ! 0"
  define c where "c = b ! 1"
  have e: "scalar rune_error" by (simp add: scalar_def rune_error_def)
  have one: "scalar p" if "rune_size p = 1" using that by (auto simp: rune_size_def scalar_def split: if_splits)
  have two: "scalar ((p mod 32) * 64 + c mod 64)" if "rune_size p = 2"
  proof -
    have "p mod 32 \<le> 31" "c mod 64 \<le> 63" by (simp_all add: less_Suc_eq_le [symmetric])
    then show ?thesis by (simp add: scalar_def)
  qed
  have three: "scalar ((p mod 16) * 4096 + (c mod 64) * 64 + d mod 64)"
    if h: "rune_size p = 3" "fst (accept_range p) \<le> c" "c \<le> snd (accept_range p)" for d
  proof -
    define k where "k = p - 224"
    define m where "m = c - 128"
    have k: "p = 224 + k" "k < 16" using h(1) by (auto simp: k_def rune_size_def split: if_splits)
    have m: "c = 128 + m" "m < 64" using h(2,3) by (auto simp: m_def accept_range_def split: if_splits)
    have "k = 13 \<Longrightarrow> m < 32" using h(3) k m by (auto simp: accept_range_def)
    moreover have "d mod 64 \<le> 63" by (simp add: less_Suc_eq_le [symmetric])
    moreover have "k \<le> 12 \<or> k = 13 \<or> 14 \<le> k" by linarith
    ultimately have "scalar (k * 4096 + m * 64 + d mod 64)" using m(2) k(2) by (auto simp: scalar_def)
    then show ?thesis using k m by (simp add: masks)
  qed
  have four: "scalar ((p mod 8) * 262144 + (c mod 64) * 4096 + (d mod 64) * 64 + f mod 64)"
    if h: "rune_size p = 4" "fst (accept_range p) \<le> c" "c \<le> snd (accept_range p)" for d f
  proof -
    define k where "k = p - 240"
    define m where "m = c - 128"
    have k: "p = 240 + k" "k < 5" using h(1) by (auto simp: k_def rune_size_def split: if_splits)
    have m: "c = 128 + m" "m < 64" using h(2,3) by (auto simp: m_def accept_range_def split: if_splits)
    have "k = 0 \<Longrightarrow> 16 \<le> m" "k = 4 \<Longrightarrow> m < 16" using h(2,3) k m by (auto simp: accept_range_def)
    moreover have "d mod 64 \<le> 63" "f mod 64 \<le> 63" by (simp_all add: less_Suc_eq_le [symmetric])
    moreover have "k = 0 \<or> 1 \<le> k \<and> k \<le> 3 \<or> k = 4" using k(2) by linarith
    ultimately have "scalar (k * 262144 + m * 4096 + (d mod 64) * 64 + f mod 64)" using m(2) by (auto simp: scalar_def)
    then show ?thesis using k m by (simp add: masks)
  qed
  have "rune_size p \<in> {0, 1, 2, 3, 4}" by (simp add: rune_size_def)
  then show ?thesis using e one two three four
    unfolding DecodeRune_def Let_def p_def [symmetric] c_def [symmetric] by (auto split: prod.split)
qed

lemma decode_runes_valid: "valid_utf8 (decode_runes b)"
proof (induction b rule: decode_runes.induct)
  case (1 b)
  show ?case
  proof (cases "b = []")
    case True
    then show ?thesis by (auto simp: decode_runes.simps valid_utf8_def intro: exI [of _ "[]"])
  next
    case False
    obtain r size where d: "DecodeRune b = (r, size)" by (cases "DecodeRune b")
    have "scalar r" using DecodeRune_scalar [of b] d by simp
    moreover obtain rs where "list_all scalar rs" "decode_runes (drop size b) = concat (map EncodeRune rs)"
      using 1 [OF False d [symmetric] refl] by (auto simp: valid_utf8_def)
    ultimately show ?thesis using False d
      by (auto simp: decode_runes.simps [of b] valid_utf8_def intro!: exI [of _ "r # rs"])
  qed
qed

lemma decode_runes_id: "list_all scalar rs \<Longrightarrow> decode_runes (concat (map EncodeRune rs)) = concat (map EncodeRune rs)"
proof (induction rs)
  case (Cons r rs)
  have "EncodeRune r \<noteq> []" by (simp add: EncodeRune_def Let_def)
  then show ?case using Cons DecodeRune_EncodeRune [of r "concat (map EncodeRune rs)"]
    by (simp add: decode_runes.simps [of "EncodeRune r @ _"])
qed (simp add: decode_runes.simps)

lemma EncodeRune_bytes: "\<forall>x\<in>set (EncodeRune r). x < 256"
proof -
  define q where "q = (if scalar r then r else rune_error)"
  have "scalar q" by (simp add: q_def scalar_def rune_error_def)
  then have "q < 2048 \<Longrightarrow> q div 64 < 64" "q < 65536 \<Longrightarrow> q div 4096 < 32" "q div 262144 < 16" by (auto simp: scalar_def)
  moreover have "k mod 64 < 128" for k :: nat using mod_less_divisor [of 64 k] by linarith
  ultimately show ?thesis by (simp add: EncodeRune_def q_def [symmetric] Let_def)
qed

text \<open>(C31) The network name is always text: whatever bytes an access point announces, \<open>decodeSSID\<close> gives valid UTF-8, and a name that is
  valid UTF-8 is kept as it is.\<close>

theorem ssid_utf8:
  "valid_utf8 (map unat (decodeSSID b)) \<and> (valid_utf8 (map unat b) \<longrightarrow> decodeSSID b = b)"
proof -
  have lt: "x < 256" if "x \<in> set (decode_runes (map unat b))" for x
    using that decode_runes_valid [of "map unat b"] EncodeRune_bytes by (auto simp: valid_utf8_def)
  then have "map unat (decodeSSID b) = decode_runes (map unat b)"
    by (auto simp: decodeSSID_def unat_of_nat take_bit_nat_eq_self intro: map_idI)
  moreover have "decodeSSID b = b" if "valid_utf8 (map unat b)"
  proof -
    have "decode_runes (map unat b) = map unat b" using that decode_runes_id by (auto simp: valid_utf8_def)
    then show ?thesis by (simp add: decodeSSID_def comp_def)
  qed
  ultimately show ?thesis using decode_runes_valid by simp
qed

theorem ssid_utf8_witness: "decodeSSID [67, 195, 169] = [67, 195, 169] \<and> valid_utf8 (map unat (decodeSSID [195]))"
proof -
  have "list_all scalar [67, 233]" "map unat [67, 195, 169 :: u8] = concat (map EncodeRune [67, 233])"
    by (simp_all add: scalar_def EncodeRune_def)
  then have "valid_utf8 (map unat [67, 195, 169 :: u8])" unfolding valid_utf8_def by blast
  then show ?thesis using ssid_utf8 [of "[67, 195, 169]"] ssid_utf8 [of "[195]"] by blast
qed

section \<open>Statistics of a station\<close>

lemma wbind_simps [simp]: "wbind (wret a) f = f a" "wbind (wfail e) f = wfail e"
  by (simp_all add: wbind_def wret_def wfail_def)

lemma wbind_ok: "wbind m f = Done (Inr b) \<longleftrightarrow> (\<exists>a. m = Done (Inr a) \<and> f a = Done (Inr b))"
proof (cases m)
  case (Done r)
  then show ?thesis by (cases r) (auto simp: wbind_def)
qed (simp add: wbind_def)

lemma wret_ok: "wret a = Done (Inr b) \<longleftrightarrow> a = b"
  by (simp add: wret_def)

lemma wmap_ok: "wmap f m = Done (Inr b) \<longleftrightarrow> (\<exists>a. m = Done (Inr a) \<and> b = f a)"
  by (auto simp: wmap_def wbind_ok wret_ok)

lemma wgo_ok: "wgo m = Done (Inr b) \<longleftrightarrow> m = Done b"
  by (auto simp: wgo_def go_map_Done_iff)

lemmas wifi_ok = wbind_ok wret_ok wmap_ok wgo_ok go_map_Done_iff

text \<open>The values the fixed-width readers give, and what one attribute makes of a counter that exists in two widths.\<close>

definition val32 :: "netlink \<Rightarrow> attribute \<Rightarrow> u64" where
  "val32 nl a = (case nl_Uint32 nl (at_Data a) of Done v \<Rightarrow> ucast v | Panicked _ \<Rightarrow> 0)"

definition val64 :: "netlink \<Rightarrow> attribute \<Rightarrow> u64" where
  "val64 nl a = (case nl_Uint64 nl (at_Data a) of Done v \<Rightarrow> v | Panicked _ \<Rightarrow> 0)"

definition counter :: "netlink \<Rightarrow> nl_name \<Rightarrow> nl_name \<Rightarrow> attribute \<Rightarrow> u64 \<Rightarrow> u64" where
  "counter nl wide narrow a r = (let r1 = (if is_type nl wide a then val64 nl a else r)
     in if r1 = 0 \<and> is_type nl narrow a then val32 nl a else r1)"

definition station_names :: "nl_name set" where
  "station_names = {STA_CONNECTED_TIME, STA_INACTIVE_TIME, STA_RX_BYTES64, STA_TX_BYTES64, STA_SIGNAL, STA_RX_PACKETS, STA_TX_PACKETS,
     STA_TX_RETRIES, STA_TX_FAILED, STA_BEACON_LOSS, STA_RX_BITRATE, STA_TX_BITRATE, STA_RX_BYTES, STA_TX_BYTES}"

lemma is_type_unique:
  assumes "inj_on (nl_const nl) station_names" "is_type nl n a" "n \<in> station_names" "m \<in> station_names"
  shows "is_type nl m a \<longleftrightarrow> m = n"
  using assms by (auto simp: is_type_def inj_on_def)

lemma station_switch_counters:
  assumes "inj_on (nl_const nl) station_names" "station_switch nl a i = Done (Inr j)"
  shows "si_ReceivedBytes j = (if is_type nl STA_RX_BYTES64 a then val64 nl a else si_ReceivedBytes i) \<and>
    si_TransmittedBytes j = (if is_type nl STA_TX_BYTES64 a then val64 nl a else si_TransmittedBytes i)"
proof (cases "is_type nl STA_RX_BYTES64 a \<or> is_type nl STA_TX_BYTES64 a")
  case True
  then show ?thesis
    using assms(2) is_type_unique [OF assms(1), of _ a]
    by (elim disjE) (auto simp: station_switch_def wifi_ok val64_def station_names_def)
next
  case False
  then show ?thesis using assms(2) by (auto simp: station_switch_def wifi_ok split: if_splits)
qed

lemma station_attribute_counters:
  assumes "inj_on (nl_const nl) station_names" "station_attribute nl a i = Done (Inr j)"
  shows "si_ReceivedBytes j = counter nl STA_RX_BYTES64 STA_RX_BYTES a (si_ReceivedBytes i) \<and>
    si_TransmittedBytes j = counter nl STA_TX_BYTES64 STA_TX_BYTES a (si_TransmittedBytes i)"
proof -
  obtain i1 where i1: "station_switch nl a i = Done (Inr i1)" using assms(2) by (auto simp: station_attribute_def wbind_ok)
  then show ?thesis using station_switch_counters [OF assms(1) i1] assms(2)
    by (auto simp: station_attribute_def counter_def wifi_ok val32_def Let_def split: if_splits)
qed

lemma station_counters_fold:
  assumes "inj_on (nl_const nl) station_names" "wfold (station_attribute nl) attrs i = Done (Inr j)"
  shows "si_ReceivedBytes j = fold (counter nl STA_RX_BYTES64 STA_RX_BYTES) attrs (si_ReceivedBytes i) \<and>
    si_TransmittedBytes j = fold (counter nl STA_TX_BYTES64 STA_TX_BYTES) attrs (si_TransmittedBytes i)"
  using assms(2)
proof (induction attrs arbitrary: i)
  case (Cons a attrs)
  then obtain k where "station_attribute nl a i = Done (Inr k)" "wfold (station_attribute nl) attrs k = Done (Inr j)" by (auto simp: wbind_ok)
  then show ?case using Cons.IH station_attribute_counters [OF assms(1)] by simp
qed (simp add: wret_ok)

text \<open>The wide counter wins.\<close>

lemma counter_wide:
  assumes "\<forall>a\<in>set attrs. \<not> (is_type nl wide a \<and> is_type nl narrow a)"
    "filter (is_type nl wide) attrs = xs @ [w]" "val64 nl w \<noteq> 0"
  shows "fold (counter nl wide narrow) attrs r = val64 nl w"
proof -
  obtain us vs where at: "attrs = us @ w # vs" "filter (is_type nl wide) vs = []" "is_type nl wide w"
  proof -
    have "\<exists>a\<in>set attrs. is_type nl wide a" using assms(2) by (metis filter_empty_conv snoc_eq_iff_butlast)
    from split_list_last_prop [OF this]
    obtain us u vs where "attrs = us @ u # vs" "is_type nl wide u" "\<forall>z\<in>set vs. \<not> is_type nl wide z" by blast
    moreover from this have "filter (is_type nl wide) vs = []" by (simp add: filter_empty_conv)
    ultimately show thesis using assms(2) that [of us vs] by simp
  qed
  have "fold (counter nl wide narrow) vs v = v" if "v \<noteq> 0" for v
    using at(2) that by (induction vs) (auto simp: counter_def split: if_splits)
  moreover have "counter nl wide narrow w v = val64 nl w" for v using at assms(1,3) by (simp add: counter_def)
  ultimately show ?thesis using at(1) assms(3) by simp
qed

lemma counter_narrow:
  assumes "filter (is_type nl wide) attrs = []"
  shows "fold (counter nl wide narrow) attrs 0 =
    (case find (\<lambda>v. v \<noteq> 0) (map (val32 nl) (filter (is_type nl narrow) attrs)) of None \<Rightarrow> 0 | Some v \<Rightarrow> v)"
proof -
  have k: "fold (counter nl wide narrow) as v = v" if "v \<noteq> 0" "filter (is_type nl wide) as = []" for v as
    using that by (induction as) (auto simp: counter_def split: if_splits)
  show ?thesis using assms by (induction attrs) (auto simp: counter_def Let_def k split: if_splits)
qed

text \<open>(C33) The byte counters of a station. nl80211 gives them in 64 and in 32 bits, in any order and number. When the attributes are read,
  each counter is the last 64-bit value if that is not zero, whatever 32-bit attributes stand before or behind it; without a
  64-bit attribute it is the first 32-bit value that is not zero.\<close>

theorem station_counters:
  assumes "inj_on (nl_const nl) station_names" "station_parseAttributes nl attrs zero_StationInfo = Done (Inr info)"
  shows "(\<forall>xs w. filter (is_type nl STA_RX_BYTES64) attrs = xs @ [w] \<and> val64 nl w \<noteq> 0 \<longrightarrow> si_ReceivedBytes info = val64 nl w) \<and>
    (\<forall>xs w. filter (is_type nl STA_TX_BYTES64) attrs = xs @ [w] \<and> val64 nl w \<noteq> 0 \<longrightarrow> si_TransmittedBytes info = val64 nl w) \<and>
    (filter (is_type nl STA_RX_BYTES64) attrs = [] \<longrightarrow> si_ReceivedBytes info =
      (case find (\<lambda>v. v \<noteq> 0) (map (val32 nl) (filter (is_type nl STA_RX_BYTES) attrs)) of None \<Rightarrow> 0 | Some v \<Rightarrow> v)) \<and>
    (filter (is_type nl STA_TX_BYTES64) attrs = [] \<longrightarrow> si_TransmittedBytes info =
      (case find (\<lambda>v. v \<noteq> 0) (map (val32 nl) (filter (is_type nl STA_TX_BYTES) attrs)) of None \<Rightarrow> 0 | Some v \<Rightarrow> v))"
proof -
  have f: "si_ReceivedBytes info = fold (counter nl STA_RX_BYTES64 STA_RX_BYTES) attrs 0"
    "si_TransmittedBytes info = fold (counter nl STA_TX_BYTES64 STA_TX_BYTES) attrs 0"
    using station_counters_fold [OF assms(1), of attrs zero_StationInfo info] assms(2)
    by (simp_all add: station_parseAttributes_def zero_StationInfo_def)
  have d: "\<forall>a\<in>set attrs. \<not> (is_type nl STA_RX_BYTES64 a \<and> is_type nl STA_RX_BYTES a)"
    "\<forall>a\<in>set attrs. \<not> (is_type nl STA_TX_BYTES64 a \<and> is_type nl STA_TX_BYTES a)"
    using is_type_unique [OF assms(1)] by (auto simp: station_names_def)
  show ?thesis unfolding f using counter_wide [OF d(1)] counter_wide [OF d(2)] counter_narrow by blast
qed

text \<open>A concrete netlink: constants numbered in order, attributes as pairs of a type byte and a value byte, and fixed-width readers that
  panic on the wrong length.\<close>

definition sample_const :: "nl_name \<Rightarrow> u16" where
  "sample_const n = (case n of STA_CONNECTED_TIME \<Rightarrow> 1 | STA_INACTIVE_TIME \<Rightarrow> 2 | STA_RX_BYTES64 \<Rightarrow> 3 | STA_TX_BYTES64 \<Rightarrow> 4 | STA_SIGNAL \<Rightarrow> 5
     | STA_RX_PACKETS \<Rightarrow> 6 | STA_TX_PACKETS \<Rightarrow> 7 | STA_TX_RETRIES \<Rightarrow> 8 | STA_TX_FAILED \<Rightarrow> 9 | STA_BEACON_LOSS \<Rightarrow> 10 | STA_RX_BITRATE \<Rightarrow> 11
     | STA_TX_BITRATE \<Rightarrow> 12 | STA_RX_BYTES \<Rightarrow> 13 | STA_TX_BYTES \<Rightarrow> 14 | ATTR_BSS \<Rightarrow> 15 | BSS_STATUS \<Rightarrow> 16 | BSS_BSSID \<Rightarrow> 17 | _ \<Rightarrow> 99)"

definition sample_netlink :: netlink where
  "sample_netlink = \<lparr>nl_const = sample_const, nl_unmarshal = (\<lambda>b. Some (map (\<lambda>x. \<lparr>at_Type = ucast x, at_Data = [16]\<rparr>) b)),
     nl_Uint16 = (\<lambda>b. if length b = 2 then Done 0 else Panicked StdlibPanic),
     nl_Uint32 = (\<lambda>b. if length b = 4 then Done (ucast (b ! 0)) else Panicked StdlibPanic),
     nl_Uint64 = (\<lambda>b. if length b = 8 then Done (ucast (b ! 0)) else Panicked StdlibPanic),
     nl_String = (\<lambda>b. b), nl_Uint32Bytes = (\<lambda>x. [ucast x]), nl_Encode = (\<lambda>_. Some []), nl_Execute = (\<lambda>_. Some []), nl_pbkdf2 = (\<lambda>p s. p)\<rparr>"

definition sample_station :: "attribute list" where
  "sample_station = [\<lparr>at_Type = 13, at_Data = [7, 0, 0, 0]\<rparr>, \<lparr>at_Type = 3, at_Data = [9, 0, 0, 0, 0, 0, 0, 0]\<rparr>]"

theorem station_counters_witness:
  "\<exists>info. station_parseAttributes sample_netlink sample_station zero_StationInfo = Done (Inr info) \<and> si_ReceivedBytes info = 9"
proof -
  have inj: "inj_on (nl_const sample_netlink) station_names"
    by (simp add: inj_on_def station_names_def sample_netlink_def sample_const_def)
  have "\<exists>info. station_parseAttributes sample_netlink sample_station zero_StationInfo = Done (Inr info)"
    by (simp add: station_parseAttributes_def sample_station_def station_attribute_def station_switch_def is_type_def sample_netlink_def
        sample_const_def wgo_def wmap_def wret_def wbind_def)
  then obtain info where i: "station_parseAttributes sample_netlink sample_station zero_StationInfo = Done (Inr info)" by blast
  have "filter (is_type sample_netlink STA_RX_BYTES64) sample_station = [] @ [\<lparr>at_Type = 3, at_Data = [9, 0, 0, 0, 0, 0, 0, 0]\<rparr>] \<and>
      val64 sample_netlink \<lparr>at_Type = 3, at_Data = [9, 0, 0, 0, 0, 0, 0, 0]\<rparr> = 9"
    by (simp add: is_type_def sample_netlink_def sample_const_def sample_station_def val64_def)
  then show ?thesis using station_counters [OF inj i] i by fastforce
qed

text \<open>A signal attribute without data ends the program: its first byte is read without a test.\<close>

lemma empty_signal_panics:
  assumes "inj_on (nl_const nl) station_names" "is_type nl STA_SIGNAL a" "at_Data a = []"
  shows "station_attribute nl a info = Panicked IndexOutOfRange"
proof -
  have "\<not> is_type nl STA_CONNECTED_TIME a" "\<not> is_type nl STA_INACTIVE_TIME a" "\<not> is_type nl STA_RX_BYTES64 a" "\<not> is_type nl STA_TX_BYTES64 a"
    using is_type_unique [OF assms(1,2)] by (simp_all add: station_names_def)
  then show ?thesis using assms
    by (simp add: station_attribute_def station_switch_def wmap_def wbind_def wgo_def go_nth_def)
qed

text \<open>The units: scaling a 32-bit number of seconds, milliseconds or 100 kbit/s to nanoseconds and bit/s stays within a signed 64-bit integer.\<close>

lemma scaled_exact:
  fixes x :: u32
  assumes "k \<le> 1000000000"
  shows "unat (ucast x * of_nat k :: u64) = unat x * k \<and> unat x * k < 2 ^ 63"
proof -
  have x: "unat x < 2 ^ 32" using unsigned_less [of x, where ?'a = nat] by simp
  then have "unat x * k \<le> 2 ^ 32 * 1000000000" using assms by (intro mult_mono) simp_all
  then have b: "unat x * k < 2 ^ 63" by simp
  have "(ucast x * of_nat k :: u64) = of_nat (unat x * k)" by (simp add: of_nat_mult)
  then show ?thesis using b by (simp add: unat_of_nat take_bit_nat_eq_self del: of_nat_mult)
qed

section \<open>The associated network\<close>

text \<open>When every attribute list can be read, \<open>parseBSS\<close> takes the first BSS with a status, over all messages in order.\<close>

definition with_status :: "netlink \<Rightarrow> (bytes \<Rightarrow> attribute list) \<Rightarrow> attribute list \<Rightarrow> attribute list list" where
  "with_status nl f attrs = filter (\<lambda>n. attrsContain nl n BSS_STATUS) (map (\<lambda>a. f (at_Data a)) (filter (is_type nl ATTR_BSS) attrs))"

lemma bss_of_attrs_first:
  assumes "\<And>b. nl_unmarshal nl b = Some (f b)"
  shows "bss_of_attrs nl attrs = (case with_status nl f attrs of [] \<Rightarrow> wret None | n # _ \<Rightarrow> wmap Some (bss_parseAttributes nl n zero_BSS))"
  by (induction attrs) (simp_all add: with_status_def unmarshal_def assms)

lemma parseBSS_first:
  assumes "\<And>b. nl_unmarshal nl b = Some (f b)"
  shows "parseBSS nl msgs = (case concat (map (\<lambda>m. with_status nl f (f m)) msgs) of
    [] \<Rightarrow> wfail NotExist | n # _ \<Rightarrow> bss_parseAttributes nl n zero_BSS)"
proof (induction msgs)
  case (Cons m msgs)
  have "wbind (wmap Some x) (\<lambda>r. case r of Some b \<Rightarrow> wret b | None \<Rightarrow> y) = x" for x :: "BSS wifi" and y
    by (cases x) (auto simp: wmap_def wbind_def wret_def split: sum.splits)
  then show ?case using Cons
    by (cases "with_status nl f (f m)") (simp_all add: unmarshal_def assms bss_of_attrs_first [OF assms])
qed simp

end
