(* ===== verification/Tap_Drivers.thy ===== *)
theory Tap_Drivers
  imports Addr_Utils
begin

text \<open>
  The drivers of the virtual card, \<open>tuntap/tap_linux.go\<close> and \<open>tuntap/tap_windows.go\<close>: how a device is created, configured, read
  and closed. The operating systems are parameters: what a system call answers and does to the system is a field of
  the records \<open>linux\<close> and \<open>windows\<close>, and the system's state is a type variable. What the drivers themselves keep, the file
  descriptors and handles of the process, is explicit.
\<close>

section \<open>Descriptors of the process\<close>

record 'k process =
  pr_kernel :: 'k
  pr_open :: "nat list"
  pr_next :: nat

definition fd_open :: "'k process \<Rightarrow> nat \<times> 'k process" where
  "fd_open s = (pr_next s, s\<lparr>pr_open := pr_next s # pr_open s, pr_next := pr_next s + 1\<rparr>)"

definition fd_close :: "nat \<Rightarrow> 'k process \<Rightarrow> 'k process" where
  "fd_close fd s = s\<lparr>pr_open := removeAll fd (pr_open s)\<rparr>"

lemma fd_simps [simp]:
  "pr_kernel (fd_close fd s) = pr_kernel s" "pr_open (fd_close fd s) = removeAll fd (pr_open s)" "pr_next (fd_close fd s) = pr_next s"
  by (simp_all add: fd_close_def)

section \<open>Linux\<close>

datatype tap_error = BadName | OpenFailed | CreateFailed string | BadMac | SetMacFailed | GetMacFailed int | CommandFailed | BadCidr
  | NoAdapter | StartFailed | EventFailed | EmptyName | IoFailed | NoAddress

type_synonym ('k, 'a) tap = "'k process \<Rightarrow> 'k process \<times> (tap_error + 'a)"

text \<open>\<open>lx_run name args\<close> runs a command: its success, its output and what it does to the system. \<open>lx_tun\<close> is the \<open>TUNSETIFF\<close>
  request, \<open>lx_set_hw\<close> and \<open>lx_get_hw\<close> are the two address requests on a socket.\<close>

record 'k linux =
  lx_root :: bool
  lx_tun_opens :: bool
  lx_sockets :: bool
  lx_tun :: "string \<Rightarrow> u16 \<Rightarrow> 'k \<Rightarrow> bool \<times> 'k"
  lx_set_hw :: "string \<Rightarrow> bytes \<Rightarrow> 'k \<Rightarrow> bool \<times> 'k"
  lx_get_hw :: "string \<Rightarrow> 'k \<Rightarrow> bytes option"
  lx_run :: "string \<Rightarrow> string list \<Rightarrow> 'k \<Rightarrow> bool \<times> string \<times> 'k"
  lx_ParseCIDR :: "string \<Rightarrow> (string \<times> string) option"

record TapLinux =
  tl_fd :: nat
  tl_devName :: string

definition run_cmd :: "'k linux \<Rightarrow> string \<Rightarrow> string list \<Rightarrow> 'k process \<Rightarrow> 'k process \<times> bool \<times> string" where
  "run_cmd os name args s = (let (ok, out, k) = lx_run os name args (pr_kernel s) in (s\<lparr>pr_kernel := k\<rparr>, ok, out))"

definition done_or_failed :: "'k process \<times> bool \<times> string \<Rightarrow> 'k process \<times> tap_error option" where
  "done_or_failed r = (let (s, ok, out) = r in (s, if ok then None else Some CommandFailed))"

text \<open>The interface name of a request has 15 characters at most.\<close>

abbreviation if_name :: "string \<Rightarrow> string" where "if_name name \<equiv> take 15 name"

definition linux_CreateTapDevice :: "'k linux \<Rightarrow> string \<Rightarrow> ('k, TapLinux) tap" where
  "linux_CreateTapDevice os name s =
     (if name = [] then (s, Inl BadName)
      else if \<not> lx_tun_opens os then (s, Inl OpenFailed)
      else let (fd, s1) = fd_open s; (ok, k) = lx_tun os (if_name name) (0x1000 OR 0x0002 OR 0x0100) (pr_kernel s1); s2 = s1\<lparr>pr_kernel := k\<rparr>
        in if \<not> ok then (s2, Inl (CreateFailed name)) else (s2, Inr \<lparr>tl_fd = fd, tl_devName = name\<rparr>))"

definition linux_Up :: "'k linux \<Rightarrow> TapLinux \<Rightarrow> 'k process \<Rightarrow> 'k process \<times> tap_error option" where
  "linux_Up os t s = done_or_failed (run_cmd os ''ip'' [''link'', ''set'', ''dev'', tl_devName t, ''up''] s)"

definition linux_Down :: "'k linux \<Rightarrow> TapLinux \<Rightarrow> 'k process \<Rightarrow> 'k process \<times> tap_error option" where
  "linux_Down os t s = done_or_failed (run_cmd os ''ip'' [''link'', ''set'', ''dev'', tl_devName t, ''down''] s)"

text \<open>The two C functions. Both leave the socket open when the request fails.\<close>

definition setPermMac :: "'k linux \<Rightarrow> string \<Rightarrow> bytes \<Rightarrow> 'k process \<Rightarrow> 'k process \<times> int" where
  "setPermMac os name mac s =
     (if \<not> lx_root os then (s, -1)
      else if \<not> lx_sockets os then (s, -2)
      else let (fd, s1) = fd_open s; (ok, k) = lx_set_hw os (if_name name) (take 6 mac) (pr_kernel s1); s2 = s1\<lparr>pr_kernel := k\<rparr>
        in if \<not> ok then (s2, -3) else (fd_close fd s2, 0))"

text \<open>\<open>strcpy\<close> of the name into a request of 40 bytes: a longer name is written past it, which is \<open>None\<close>.\<close>

definition getPermMac :: "'k linux \<Rightarrow> string \<Rightarrow> 'k process \<Rightarrow> ('k process \<times> int \<times> bytes) option" where
  "getPermMac os name s =
     (if \<not> lx_root os then Some (s, -1, [])
      else if \<not> lx_sockets os then Some (s, -2, [])
      else if 40 \<le> length name then None
      else let (fd, s1) = fd_open s in
        case lx_get_hw os (if_name name) (pr_kernel s1) of
          None \<Rightarrow> Some (s1, -3, [])
        | Some mac \<Rightarrow> Some (fd_close fd s1, 0, take 6 mac))"

definition linux_SetMac :: "'k linux \<Rightarrow> TapLinux \<Rightarrow> u64 \<Rightarrow> 'k process \<Rightarrow> 'k process \<times> tap_error option" where
  "linux_SetMac os t mac s =
     (if tl_devName t = [] \<or> mac = 0 then (s, Some BadMac)
      else let s1 = fst (linux_Down os t s); (s2, r) = setPermMac os (tl_devName t) (PutUint64_le mac) s1
        in if r < 0 then (s2, Some SetMacFailed) else (fst (linux_Up os t s2), None))"

definition linux_GetMac :: "'k linux \<Rightarrow> TapLinux \<Rightarrow> 'k process \<Rightarrow> ('k process \<times> (tap_error + u64)) option" where
  "linux_GetMac os t s =
     (if tl_devName t = [] then Some (s, Inl BadName)
      else map_option (\<lambda>(s1, r, mac). (s1, if r < 0 then Inl (GetMacFailed r)
        else Inr (Uint64_le (mac @ replicate (8 - length mac) 0)))) (getPermMac os (tl_devName t) s))"

definition linux_SetIpAddr :: "'k linux \<Rightarrow> TapLinux \<Rightarrow> string \<Rightarrow> string \<Rightarrow> 'k process \<Rightarrow> 'k process \<times> tap_error option" where
  "linux_SetIpAddr os t ip msk s = done_or_failed (run_cmd os ''ifconfig'' [tl_devName t, ip, ''netmask'', msk] s)"

text \<open>\<open>GetIpAddr\<close>: an output that is no address returns \<open>err\<close>, the error of the command, which is nil there.\<close>

definition trim_newlines :: "string \<Rightarrow> string" where
  "trim_newlines x = rev (dropWhile (\<lambda>c. c = CHR 0x0A) (rev (dropWhile (\<lambda>c. c = CHR 0x0A) x)))"

definition linux_GetIpAddr :: "'k linux \<Rightarrow> TapLinux \<Rightarrow> 'k process \<Rightarrow> 'k process \<times> string \<times> string \<times> tap_error option" where
  "linux_GetIpAddr os t s =
     (let (s1, ok, out) = run_cmd os ''sh'' [''-c'', ''ip addr show dev '' @ tl_devName t @ '' | grep '' @ [CHR 0x27] @ ''inet '' @ [CHR 0x27] @
        '' | awk '' @ [CHR 0x27] @ ''{print $2}'' @ [CHR 0x27]] s
      in if \<not> ok then (s1, [], [], Some CommandFailed)
         else case lx_ParseCIDR os (trim_newlines out) of None \<Rightarrow> (s1, [], [], None) | Some (ip, msk) \<Rightarrow> (s1, ip, msk, None))"

definition linux_SetMtu :: "'k linux \<Rightarrow> TapLinux \<Rightarrow> nat \<Rightarrow> 'k process \<Rightarrow> 'k process \<times> tap_error option" where
  "linux_SetMtu os t mtu s = done_or_failed (run_cmd os ''ip'' [''link'', ''set'', tl_devName t, ''mtu'', dec mtu] s)"

definition linux_Close :: "TapLinux \<Rightarrow> 'k process \<Rightarrow> 'k process" where
  "linux_Close t s = fd_close (tl_fd t) s"

definition linux_AddRoute :: "'k linux \<Rightarrow> string \<Rightarrow> string \<Rightarrow> string \<Rightarrow> 'k process \<Rightarrow> 'k process \<times> bool \<times> string" where
  "linux_AddRoute os dst msk gw = run_cmd os ''route'' [''add'', ''-net'', dst, ''netmask'', msk, ''gw'', gw]"

definition linux_DelRoute :: "'k linux \<Rightarrow> string \<Rightarrow> string \<Rightarrow> string \<Rightarrow> 'k process \<Rightarrow> 'k process \<times> bool \<times> string" where
  "linux_DelRoute os dst msk gw = run_cmd os ''route'' [''del'', ''-net'', dst, ''netmask'', msk, ''gw'', gw]"

section \<open>Windows\<close>

definition CtlCode :: "u32 \<Rightarrow> u32 \<Rightarrow> u32 \<Rightarrow> u32 \<Rightarrow> u32" where
  "CtlCode DeviceType Function Method Access = push_bit 16 DeviceType OR push_bit 14 Access OR push_bit 2 Function OR Method"

definition TapControlCode :: "u32 \<Rightarrow> u32 \<Rightarrow> u32" where
  "TapControlCode request method = CtlCode 0x22 request method 0"

definition TapIoctlGetMac :: u32 where "TapIoctlGetMac = TapControlCode 1 0"
definition TapIoctlSetMediaStatus :: u32 where "TapIoctlSetMediaStatus = TapControlCode 6 0"

definition tapDriverKey :: string where
  "tapDriverKey = ''SYSTEM'' @ [CHR 0x5C] @ ''CurrentControlSet'' @ [CHR 0x5C] @ ''Control'' @ [CHR 0x5C] @ ''Class'' @ [CHR 0x5C] @
     ''{4D36E972-E325-11CE-BFC1-08002BE10318}''"

definition netConfigKey :: string where
  "netConfigKey = ''SYSTEM'' @ [CHR 0x5C] @ ''CurrentControlSet'' @ [CHR 0x5C] @ ''Control'' @ [CHR 0x5C] @ ''Network'' @ [CHR 0x5C] @
     ''{4D36E972-E325-11CE-BFC1-08002BE10318}''"

text \<open>\<open>wn_key\<close> opens a registry key: its subkeys and its named strings. \<open>wn_file\<close> opens a device, \<open>wn_ioctl\<close> sends it a control code with
  an input buffer, \<open>wn_event\<close> says whether an event can be made.\<close>

record reg_key =
  rk_subkeys :: "string list"
  rk_string :: "string \<Rightarrow> string"

record 'k windows =
  wn_key :: "string \<Rightarrow> reg_key option"
  wn_file :: "string \<Rightarrow> 'k \<Rightarrow> bool \<times> 'k"
  wn_ioctl :: "u32 \<Rightarrow> bytes \<Rightarrow> 'k \<Rightarrow> bytes option \<times> 'k"
  wn_event :: "nat \<Rightarrow> bool"
  wn_run :: "string \<Rightarrow> string list \<Rightarrow> 'k \<Rightarrow> bool \<times> string \<times> 'k"
  wn_read :: "'k \<Rightarrow> (bytes option) \<times> 'k"
  wn_write :: "bytes \<Rightarrow> 'k \<Rightarrow> (nat option) \<times> 'k"
  wn_find_ip :: "string \<Rightarrow> string"
  wn_find_mask :: "string \<Rightarrow> string"

record TapWindows =
  tw_handler :: "nat option"  \<comment> \<open>\<open>None\<close> is \<open>InvalidHandle\<close>\<close>
  tw_ro :: "nat option"
  tw_wo :: "nat option"
  tw_devName :: string
  tw_deviceRegistry :: string

definition win_cmd :: "'k windows \<Rightarrow> string \<Rightarrow> string list \<Rightarrow> 'k process \<Rightarrow> 'k process \<times> bool \<times> string" where
  "win_cmd os name args s = (let (ok, out, k) = wn_run os name args (pr_kernel s) in (s\<lparr>pr_kernel := k\<rparr>, ok, out))"

definition handle_open :: "nat option \<Rightarrow> 'k process \<Rightarrow> bool" where
  "handle_open h s = (case h of None \<Rightarrow> False | Some x \<Rightarrow> x \<in> set (pr_open s))"

definition close_handle :: "nat option \<Rightarrow> 'k process \<Rightarrow> 'k process" where
  "close_handle h s = (case h of None \<Rightarrow> s | Some x \<Rightarrow> fd_close x s)"

text \<open>A control request on a handle that is not open fails.\<close>

definition win_ioctl :: "'k windows \<Rightarrow> nat option \<Rightarrow> u32 \<Rightarrow> bytes \<Rightarrow> 'k process \<Rightarrow> 'k process \<times> bytes option" where
  "win_ioctl os h code inp s =
     (if \<not> handle_open h s then (s, None)
      else let (r, k) = wn_ioctl os code inp (pr_kernel s) in (s\<lparr>pr_kernel := k\<rparr>, r))"

definition setStatus :: "'k windows \<Rightarrow> nat option \<Rightarrow> bool \<Rightarrow> 'k process \<Rightarrow> 'k process \<times> tap_error option" where
  "setStatus os h status s =
     (let (s1, r) = win_ioctl os h TapIoctlSetMediaStatus [if status then 1 else 0, 0, 0, 0] s
      in (s1, if r = None then Some IoFailed else None))"

text \<open>\<open>lookupAdapterRegPath\<close>: the key it finds, and the registry keys it leaves open.\<close>

fun find_adapter :: "'k windows \<Rightarrow> string \<Rightarrow> string list \<Rightarrow> string \<times> nat" where
  "find_adapter os reg [] = ([], 0)"
| "find_adapter os reg (subkey # keys) =
     (let keypath = tapDriverKey @ [CHR 0x5C] @ subkey in
      case wn_key os keypath of
        None \<Rightarrow> find_adapter os reg keys
      | Some key \<Rightarrow> if rk_string key ''NetCfgInstanceId'' = reg then (keypath, 1) else find_adapter os reg keys)"

definition lookupAdapterRegPath :: "'k windows \<Rightarrow> string \<Rightarrow> string \<times> nat" where
  "lookupAdapterRegPath os reg = (case wn_key os tapDriverKey of None \<Rightarrow> ([], 0) | Some key \<Rightarrow> find_adapter os reg (rk_subkeys key))"

definition createRWOverlapped :: "'k windows \<Rightarrow> TapWindows \<Rightarrow> 'k process \<Rightarrow> 'k process \<times> TapWindows \<times> tap_error option" where
  "createRWOverlapped os t s =
     (if \<not> wn_event os 0 then (s, t, Some EventFailed)
      else let (r, s1) = fd_open s; t1 = t\<lparr>tw_ro := Some r\<rparr> in
      if \<not> wn_event os 1 then (s1, t1, Some EventFailed)
      else let (w, s2) = fd_open s1 in (s2, t1\<lparr>tw_wo := Some w\<rparr>, None))"

definition tap_path :: "string \<Rightarrow> string" where
  "tap_path reg = [CHR 0x5C, CHR 0x5C, CHR ''.'', CHR 0x5C] @ ''Global'' @ [CHR 0x5C] @ reg @ ''.tap''"

definition open_device :: "'k windows \<Rightarrow> string \<Rightarrow> 'k process \<Rightarrow> 'k process \<times> nat option" where
  "open_device os path s =
     (let (ok, k) = wn_file os path (pr_kernel s); s1 = s\<lparr>pr_kernel := k\<rparr>
      in if ok then (let (h, s2) = fd_open s1 in (s2, Some h)) else (s1, None))"

text \<open>\<open>CreateTapDevice\<close> clears its argument, so the test on the name never excludes an adapter; the device is returned also when the
  events fail. The result carries the device and the error, as the code does.\<close>

fun win_create_loop :: "'k windows \<Rightarrow> string \<Rightarrow> string list \<Rightarrow> 'k process \<Rightarrow> 'k process \<times> TapWindows option \<times> tap_error option" where
  "win_create_loop os name [] s = (s, None, Some StartFailed)"
| "win_create_loop os name (subKey # keys) s =
     (case wn_key os (netConfigKey @ [CHR 0x5C] @ subKey @ [CHR 0x5C] @ ''Connection'') of
        None \<Rightarrow> win_create_loop os name keys s
      | Some key \<Rightarrow>
          if name \<noteq> [] \<and> rk_string key ''Name'' \<noteq> name then win_create_loop os name keys s
          else (case open_device os (tap_path subKey) s of
              (s1, None) \<Rightarrow> win_create_loop os name keys s1
            | (s1, Some h) \<Rightarrow>
                (let s2 = fst (setStatus os (Some h) True s1);
                     (s3, t, err) = createRWOverlapped os \<lparr>tw_handler = Some h, tw_ro = None, tw_wo = None,
                        tw_devName = rk_string key ''Name'', tw_deviceRegistry = subKey\<rparr> s2
                 in (s3, Some t, err))))"

definition win_CreateTapDevice :: "'k windows \<Rightarrow> string \<Rightarrow> 'k process \<Rightarrow> 'k process \<times> TapWindows option \<times> tap_error option" where
  "win_CreateTapDevice os name s =
     (case wn_key os netConfigKey of None \<Rightarrow> (s, None, Some NoAdapter) | Some key \<Rightarrow> win_create_loop os [] (rk_subkeys key) s)"

definition mac_text :: "u64 \<Rightarrow> string" where
  "mac_text mac = concat (map hex2 (take 6 (PutUint64_le mac)))"

text \<open>\<open>SetMac\<close>: of the four commands only the last one's error counts, and the handle is closed before the last two.\<close>

definition win_SetMac :: "'k windows \<Rightarrow> u64 \<Rightarrow> TapWindows \<Rightarrow> 'k process \<Rightarrow> 'k process \<times> TapWindows \<times> tap_error option" where
  "win_SetMac os mac t s =
     (let path = ''HKEY_LOCAL_MACHINE'' @ [CHR 0x5C] @ fst (lookupAdapterRegPath os (tw_deviceRegistry t));
          s1 = fst (win_cmd os ''reg'' [''add'', path, ''/v'', ''MAC'', ''/d'', mac_text mac, ''/f''] s);
          s2 = fst (win_cmd os ''reg'' [''add'', path, ''/v'', ''NetworkAddress'', ''/d'', mac_text mac, ''/f''] s1);
          s3 = close_handle (tw_handler t) s2;
          s4 = fst (win_cmd os ''netsh'' [''interface'', ''set'', ''interface'', tw_devName t, ''disabled''] s3);
          (s5, ok, out) = win_cmd os ''netsh'' [''interface'', ''set'', ''interface'', tw_devName t, ''enabled''] s4
      in if \<not> ok then (s5, t, Some CommandFailed)
         else (case open_device os (tap_path (tw_deviceRegistry t)) s5 of
             (s6, None) \<Rightarrow> (s6, t\<lparr>tw_handler := None\<rparr>, Some OpenFailed)
           | (s6, Some h) \<Rightarrow> (let t1 = t\<lparr>tw_handler := Some h\<rparr>; (s7, err) = setStatus os (Some h) True s6 in (s7, t1, err))))"

definition win_GetMac :: "'k windows \<Rightarrow> TapWindows \<Rightarrow> 'k process \<Rightarrow> 'k process \<times> (tap_error + u64)" where
  "win_GetMac os t s =
     (let (s1, r) = win_ioctl os (tw_handler t) TapIoctlGetMac (replicate 6 0) s in
      case r of None \<Rightarrow> (s1, Inl IoFailed)
      | Some b \<Rightarrow> let macBuf = take 6 b @ replicate (6 - length b) 0 in (s1, Inr (Uint64_le (macBuf @ [0, 0]))))"

definition win_SetIpAddr :: "'k windows \<Rightarrow> string \<Rightarrow> string \<Rightarrow> TapWindows \<Rightarrow> 'k process \<Rightarrow> 'k process \<times> tap_error option" where
  "win_SetIpAddr os addr msk t s = done_or_failed (win_cmd os ''netsh''
     [''interface'', ''ipv4'', ''set'', ''address'', tw_devName t, ''static'', addr, msk] s)"

text \<open>\<open>GetIpAddr\<close> looks for the two patterns in whatever the command wrote; each match ends with a character that is cut off.\<close>

definition win_GetIpAddr :: "'k windows \<Rightarrow> TapWindows \<Rightarrow> 'k process \<Rightarrow> 'k process \<times> string \<times> string \<times> tap_error option" where
  "win_GetIpAddr os t s =
     (let (s1, ok, out) = win_cmd os ''netsh'' [''interface'', ''ipv4'', ''show'', ''address'', tw_devName t] s;
          ipres = wn_find_ip os out; maskres = wn_find_mask os out
      in if ipres = [] \<or> maskres = [] then (s1, [], [], Some NoAddress)
         else (s1, butlast ipres, butlast maskres, if ok then None else Some CommandFailed))"

definition win_SetMtu :: "'k windows \<Rightarrow> nat \<Rightarrow> TapWindows \<Rightarrow> 'k process \<Rightarrow> 'k process \<times> tap_error option" where
  "win_SetMtu os mtu t s = done_or_failed (win_cmd os ''netsh''
     [''interface'', ''ipv4'', ''set'', ''subinterface'', ''name='' @ tw_devName t, ''mtu='' @ dec mtu] s)"

definition win_admin :: "string \<Rightarrow> 'k windows \<Rightarrow> TapWindows \<Rightarrow> 'k process \<Rightarrow> 'k process \<times> tap_error option" where
  "win_admin state os t s =
     (if tw_devName t = [] then (s, Some EmptyName)
      else done_or_failed (win_cmd os ''netsh'' [''interface'', ''set'', ''interface'', ''name='' @ tw_devName t, ''admin='' @ state] s))"

definition win_Up :: "'k windows \<Rightarrow> TapWindows \<Rightarrow> 'k process \<Rightarrow> 'k process \<times> tap_error option" where
  "win_Up = win_admin ''ENABLED''"

definition win_Down :: "'k windows \<Rightarrow> TapWindows \<Rightarrow> 'k process \<Rightarrow> 'k process \<times> tap_error option" where
  "win_Down = win_admin ''DISABLED''"

text \<open>\<open>Close\<close> sets the media status on the handle it has just closed.\<close>

definition win_Close :: "'k windows \<Rightarrow> TapWindows \<Rightarrow> 'k process \<Rightarrow> 'k process" where
  "win_Close os t s =
     (let s1 = close_handle (tw_handler t) s; s2 = fst (setStatus os (tw_handler t) False s1); s3 = fst (win_Down os t s2)
      in fst (win_Up os t s3))"

definition win_Read :: "'k windows \<Rightarrow> nat \<Rightarrow> TapWindows \<Rightarrow> 'k process \<Rightarrow> ('k process \<times> (tap_error + bytes)) go" where
  "win_Read os n t s = (case tw_ro t of None \<Rightarrow> Panicked NilDeref
     | Some ev \<Rightarrow>
         if ev \<notin> set (pr_open s) \<or> \<not> handle_open (tw_handler t) s then Done (s, Inl IoFailed)
         else let (r, k) = wn_read os (pr_kernel s)
           in Done (s\<lparr>pr_kernel := k\<rparr>, case r of None \<Rightarrow> Inl IoFailed | Some b \<Rightarrow> Inr (take n b)))"

definition win_Write :: "'k windows \<Rightarrow> bytes \<Rightarrow> TapWindows \<Rightarrow> 'k process \<Rightarrow> ('k process \<times> (tap_error + nat)) go" where
  "win_Write os b t s = (case tw_wo t of None \<Rightarrow> Panicked NilDeref
     | Some ev \<Rightarrow>
         if ev \<notin> set (pr_open s) \<or> \<not> handle_open (tw_handler t) s then Done (s, Inl IoFailed)
         else let (r, k) = wn_write os b (pr_kernel s)
           in Done (s\<lparr>pr_kernel := k\<rparr>, case r of None \<Rightarrow> Inl IoFailed | Some n \<Rightarrow> Inr n))"

definition win_AddRoute :: "'k windows \<Rightarrow> string \<Rightarrow> string \<Rightarrow> string \<Rightarrow> 'k process \<Rightarrow> 'k process \<times> bool \<times> string" where
  "win_AddRoute os dst msk gw = win_cmd os ''route'' [''add'', dst, ''mask'', msk, gw]"

definition win_DelRoute :: "'k windows \<Rightarrow> string \<Rightarrow> string \<Rightarrow> string \<Rightarrow> 'k process \<Rightarrow> 'k process \<times> bool \<times> string" where
  "win_DelRoute os dst msk gw = win_cmd os ''route'' [''delete'', dst, ''mask'', msk, gw]"

section \<open>Facts\<close>

lemma control_codes: "TapIoctlGetMac = 0x220004" "TapIoctlSetMediaStatus = 0x220018"
  by code_simp+

lemma six_bytes: "Uint64_le (take 6 (PutUint64_le mac) @ [0, 0]) = mac AND 0xFFFFFFFFFFFF"
proof -
  have "take m (le_put (m + n) v) = le_put m v" for m n v by (induction m arbitrary: v) auto
  from this [of 6 2] have "take 6 (PutUint64_le mac) = le_put 6 (unat mac)" by (simp add: PutUint64_le_def)
  then have "le_get (take 6 (PutUint64_le mac) @ [0, 0]) = unat mac mod 256 ^ 6" by (simp add: le_get_append le_get_put)
  moreover have "(of_nat (unat mac mod 2 ^ 48) :: u64) = take_bit 48 mac"
    unfolding take_bit_eq_mod [symmetric] unsigned_take_bit_eq [symmetric] by simp
  moreover have "take_bit 48 mac = mac AND 0xFFFFFFFFFFFF" by (simp add: take_bit_eq_mask mask_eq_exp_minus_1)
  ultimately show ?thesis by (simp add: Uint64_le_def)
qed

text \<open>What the drivers rely on: after a hardware address was set it is the one that is read, and the commands of the driver do not
  change it.\<close>

definition hw_kept :: "'k linux \<Rightarrow> string \<Rightarrow> bool" where
  "hw_kept os d \<longleftrightarrow> (\<forall>m k k'. lx_set_hw os d m k = (True, k') \<longrightarrow> lx_get_hw os d k' = Some m) \<and>
     (\<forall>args k. lx_get_hw os d (snd (snd (lx_run os ''ip'' args k))) = lx_get_hw os d k)"


text \<open>A small Linux: its state is the hardware address and whether the link is up.\<close>

definition sample_linux :: "(bytes \<times> bool) linux" where
  "sample_linux = \<lparr>lx_root = True, lx_tun_opens = True, lx_sockets = True, lx_tun = (\<lambda>n f k. (False, k)),
     lx_set_hw = (\<lambda>d m k. (True, (m, snd k))), lx_get_hw = (\<lambda>d k. Some (fst k)),
     lx_run = (\<lambda>c args k. (True, [], (fst k, last args = ''up''))), lx_ParseCIDR = (\<lambda>_. None)\<rparr>"

definition sample_process :: "(bytes \<times> bool) process" where
  "sample_process = \<lparr>pr_kernel = ([], True), pr_open = [0], pr_next = 1\<rparr>"


text \<open>A device that cannot be configured is not closed: each failed attempt to create one leaves a descriptor open.\<close>

lemma failed_create_leaks:
  assumes "linux_CreateTapDevice os name s = (s1, Inl (CreateFailed n))"
  shows "pr_open s1 = pr_next s # pr_open s"
  using assms by (auto simp: linux_CreateTapDevice_def fd_open_def Let_def split: if_splits prod.splits)

text \<open>A failed change of the address leaves the interface as \<open>Down\<close> made it: \<open>Up\<close> is not called.\<close>

lemma failed_SetMac_stays_down:
  assumes "linux_SetMac os t mac s = (s1, Some SetMacFailed)"
  shows "s1 = fst (setPermMac os (tl_devName t) (PutUint64_le mac) (fst (linux_Down os t s)))"
  using assms by (auto simp: linux_SetMac_def Let_def split: if_splits prod.splits)

text \<open>An interface without an address: no address and no error either.\<close>

lemma no_address_no_error:
  assumes "lx_run os ''sh'' args (pr_kernel s) = (True, out, k)" "lx_ParseCIDR os (trim_newlines out) = None"
    "args = [''-c'', ''ip addr show dev '' @ tl_devName t @ '' | grep '' @ [CHR 0x27] @ ''inet '' @ [CHR 0x27] @
        '' | awk '' @ [CHR 0x27] @ ''{print $2}'' @ [CHR 0x27]]"
  shows "linux_GetIpAddr os t s = (s\<lparr>pr_kernel := k\<rparr>, [], [], None)"
  using assms by (simp add: linux_GetIpAddr_def run_cmd_def)

text \<open>\<open>Close\<close> on Windows never reaches the driver with the media status.\<close>

lemma win_Close_status_lost:
  "win_Close os t s = fst (win_Up os t (fst (win_Down os t (close_handle (tw_handler t) s))))"
  by (simp add: win_Close_def setStatus_def win_ioctl_def handle_open_def close_handle_def split: option.split)

text \<open>After a failed \<open>SetMac\<close> the card can no longer be read: its handle is closed.\<close>

lemma failed_win_SetMac:
  assumes "win_SetMac os mac t s = (s1, t1, Some CommandFailed)"
  shows "t1 = t \<and> \<not> handle_open (tw_handler t) s1 \<and> (\<forall>n. win_Read os n t s1 \<in> {Panicked NilDeref, Done (s1, Inl IoFailed)})"
proof -
  have "t1 = t \<and> \<not> handle_open (tw_handler t) s1"
    using assms
    by (auto simp: win_SetMac_def Let_def win_cmd_def close_handle_def handle_open_def setStatus_def open_device_def
        split: prod.splits option.splits if_splits)
  then show ?thesis by (simp add: win_Read_def split: option.split)
qed

end
