(* ===== verification/Serial_Windows.thy ===== *)
theory Serial_Windows
  imports Serial_Port Tap_Drivers
begin

text \<open>
  Serial ports on Windows, \<open>sys/serial/serial_windows.go\<close>: the settings \<open>openPort\<close> gives a port, its time limits, the order in which
  it prepares the port and what it closes when a step fails, and the overlapped reads and writes. What a system call
  answers is a field of the record \<open>comm\<close>; the handles of the process are explicit, as in the card drivers.
\<close>

section \<open>Settings\<close>

record structDCB =
  dcb_DCBlength :: u32
  dcb_BaudRate :: u32
  dcb_flags0 :: u8
  dcb_ByteSize :: u8
  dcb_Parity :: u8
  dcb_StopBits :: u8

definition dcb_parity :: "u8 \<Rightarrow> u8 option" where
  "dcb_parity p = (if p = ParityNone then Some 0 else if p = ParityOdd then Some 1 else if p = ParityEven then Some 2
     else if p = ParityMark then Some 3 else if p = ParitySpace then Some 4 else None)"

definition dcb_stop :: "u8 \<Rightarrow> u8 option" where
  "dcb_stop b = (if b = Stop1 then Some 0 else if b = Stop1Half then Some 1 else if b = Stop2 then Some 2 else None)"

text \<open>\<open>setCommState\<close> up to the system call. The structure has 28 bytes.\<close>

definition comm_state :: "int \<Rightarrow> u8 \<Rightarrow> u8 \<Rightarrow> u8 \<Rightarrow> port_error + structDCB" where
  "comm_state baud databits parity stopbits =
     (case dcb_parity parity of None \<Rightarrow> Inl ErrBadParity
      | Some p \<Rightarrow> (case dcb_stop stopbits of None \<Rightarrow> Inl ErrBadStopBits
          | Some b \<Rightarrow> Inr \<lparr>dcb_DCBlength = 28, dcb_BaudRate = of_int baud, dcb_flags0 = 0x01 OR 0x10, dcb_ByteSize = databits,
              dcb_Parity = p, dcb_StopBits = b\<rparr>))"

record structTimeouts =
  ct_ReadIntervalTimeout :: u32
  ct_ReadTotalTimeoutMultiplier :: u32
  ct_ReadTotalTimeoutConstant :: u32
  ct_WriteTotalTimeoutMultiplier :: u32
  ct_WriteTotalTimeoutConstant :: u32

definition MAXDWORD :: int where "MAXDWORD = 4294967295"

definition comm_timeouts :: "u32 \<Rightarrow> structTimeouts" where
  "comm_timeouts readTimeoutMs =
     (let timeout = int (unat readTimeoutMs) * 1000000;
          timeoutMs = (if readTimeoutMs > 0 then
            (let ms = timeout div 1000000 in if ms < 1 then 1 else if ms > MAXDWORD - 1 then MAXDWORD - 1 else ms)
            else MAXDWORD - 1)
      in \<lparr>ct_ReadIntervalTimeout = of_int MAXDWORD, ct_ReadTotalTimeoutMultiplier = of_int MAXDWORD,
          ct_ReadTotalTimeoutConstant = of_int timeoutMs, ct_WriteTotalTimeoutMultiplier = 0, ct_WriteTotalTimeoutConstant = 0\<rparr>)"

section \<open>Opening and closing\<close>

record 'k comm =
  cm_file :: "string \<Rightarrow> 'k \<Rightarrow> bool \<times> 'k"
  cm_state :: "structDCB \<Rightarrow> 'k \<Rightarrow> bool \<times> 'k"
  cm_setup :: "nat \<Rightarrow> nat \<Rightarrow> 'k \<Rightarrow> bool \<times> 'k"
  cm_timeouts :: "structTimeouts \<Rightarrow> 'k \<Rightarrow> bool \<times> 'k"
  cm_mask :: "u32 \<Rightarrow> 'k \<Rightarrow> bool \<times> 'k"
  cm_purge :: "u32 \<Rightarrow> 'k \<Rightarrow> bool \<times> 'k"
  cm_event :: "nat \<Rightarrow> 'k \<Rightarrow> bool"
  cm_reset :: "nat \<Rightarrow> 'k \<Rightarrow> bool"
  cm_write :: "bytes \<Rightarrow> 'k \<Rightarrow> (nat + nat) \<times> 'k"
  cm_read :: "nat \<Rightarrow> 'k \<Rightarrow> (nat + bytes) \<times> 'k"

record win_port =
  wp_file :: nat
  wp_ro :: nat
  wp_wo :: nat

text \<open>One system call on the port: its success, and the system after it.\<close>

definition call :: "('k \<Rightarrow> bool \<times> 'k) \<Rightarrow> 'k process \<Rightarrow> bool \<times> 'k process" where
  "call f s = (let (ok, k) = f (pr_kernel s) in (ok, s\<lparr>pr_kernel := k\<rparr>))"

definition device_name :: "string \<Rightarrow> string" where
  "device_name name = (if name \<noteq> [] \<and> hd name \<noteq> CHR 0x5C then [CHR 0x5C, CHR 0x5C, CHR ''.'', CHR 0x5C] @ name else name)"

definition newOverlapped :: "'k comm \<Rightarrow> 'k process \<Rightarrow> 'k process \<times> nat option" where
  "newOverlapped os s = (if cm_event os (pr_next s) (pr_kernel s) then (let (e, s1) = fd_open s in (s1, Some e)) else (s, None))"

text \<open>The calls that prepare the port, in order; the first that fails ends them.\<close>

fun all_calls :: "('k \<Rightarrow> bool \<times> 'k) list \<Rightarrow> 'k process \<Rightarrow> bool \<times> 'k process" where
  "all_calls [] s = (True, s)"
| "all_calls (f # fs) s = (let (ok, s1) = call f s in if ok then all_calls fs s1 else (False, s1))"

definition prepare :: "'k comm \<Rightarrow> structDCB \<Rightarrow> u32 \<Rightarrow> ('k \<Rightarrow> bool \<times> 'k) list" where
  "prepare os dcb ms = [cm_state os dcb, cm_setup os 64 64, cm_timeouts os (comm_timeouts ms), cm_mask os 0x0001]"

definition win_openPort :: "'k comm \<Rightarrow> string \<Rightarrow> int \<Rightarrow> u8 \<Rightarrow> u8 \<Rightarrow> u8 \<Rightarrow> u32 \<Rightarrow> 'k process \<Rightarrow> 'k process \<times> (port_error + win_port)" where
  "win_openPort os name baud databits parity stopbits readTimeoutMs s =
     (let (ok, s1) = call (cm_file os (device_name name)) s in
      if \<not> ok then (s1, Inl port_error.OpenFailed)
      else let (f, s2) = fd_open s1 in
      case comm_state baud databits parity stopbits of
        Inl e \<Rightarrow> (fd_close f s2, Inl e)
      | Inr dcb \<Rightarrow>
          (let (ok1, s3) = all_calls (prepare os dcb readTimeoutMs) s2 in
           if \<not> ok1 then (fd_close f s3, Inl IoctlFailed)
           else let (s4, ro) = newOverlapped os s3 in
           case ro of None \<Rightarrow> (fd_close f s4, Inl IoctlFailed)
           | Some r \<Rightarrow>
               (let (s5, wo) = newOverlapped os s4 in
                case wo of None \<Rightarrow> (fd_close f s5, Inl IoctlFailed)
                | Some w \<Rightarrow> (s5, Inr \<lparr>wp_file = f, wp_ro = r, wp_wo = w\<rparr>))))"

definition port_Close :: "win_port \<Rightarrow> 'k process \<Rightarrow> 'k process" where
  "port_Close p s = fd_close (wp_file p) s"

text \<open>\<open>Write\<close> and \<open>Read\<close>: the event is reset, the call started and its result awaited. An error carries the bytes counted.\<close>

definition port_Write :: "'k comm \<Rightarrow> win_port \<Rightarrow> bytes \<Rightarrow> 'k process \<Rightarrow> 'k process \<times> (nat + nat)" where
  "port_Write os p buf s =
     (if \<not> cm_reset os (wp_wo p) (pr_kernel s) then (s, Inl 0)
      else let (r, k) = cm_write os buf (pr_kernel s) in (s\<lparr>pr_kernel := k\<rparr>, r))"

definition port_Read :: "'k comm \<Rightarrow> win_port option \<Rightarrow> nat \<Rightarrow> 'k process \<Rightarrow> 'k process \<times> (nat + bytes)" where
  "port_Read os port n s = (case port of None \<Rightarrow> (s, Inl 0)
     | Some p \<Rightarrow>
         if \<not> cm_reset os (wp_ro p) (pr_kernel s) then (s, Inl 0)
         else let (r, k) = cm_read os n (pr_kernel s) in (s\<lparr>pr_kernel := k\<rparr>, r))"

definition port_Flush :: "'k comm \<Rightarrow> 'k process \<Rightarrow> bool \<times> 'k process" where
  "port_Flush os s = call (cm_purge os (0x0001 OR 0x0002 OR 0x0004 OR 0x0008)) s"

text \<open>\<open>GetPortsList\<close>: the values of a registry key; one that cannot be read ends it.\<close>

fun ports_loop :: "(string \<Rightarrow> string option) \<Rightarrow> string list \<Rightarrow> string list option" where
  "ports_loop val [] = Some []"
| "ports_loop val (n # ns) = (case val n of None \<Rightarrow> None | Some v \<Rightarrow> map_option (\<lambda>vs. v # vs) (ports_loop val ns))"

definition GetPortsList :: "(string list \<times> (string \<Rightarrow> string option)) option \<Rightarrow> string list option" where
  "GetPortsList key = (case key of None \<Rightarrow> None | Some (names, val) \<Rightarrow> ports_loop val names)"

section \<open>Facts\<close>

text \<open>The time limit is always one with which a read waits: greater than zero and less than the largest value, the milliseconds asked
  for unless they are the largest value; no limit is the longest one.\<close>

lemma comm_timeouts_range:
  "unat (ct_ReadTotalTimeoutConstant (comm_timeouts ms)) = (if ms = 0 then 4294967294 else min 4294967294 (unat ms))"
proof -
  have lt: "unat ms < 4294967296" using unsigned_less [of ms, where ?'a = nat] by simp
  have e: "unat (of_int (int k) :: u32) = k" if "k < 4294967296" for k
    using that by (simp add: unsigned_of_nat take_bit_eq_mod)
  show ?thesis
  proof (cases "ms = 0")
    case True
    then show ?thesis using e [of 4294967294] by (simp add: comm_timeouts_def MAXDWORD_def)
  next
    case False
    have clamp: "(let d = int n * 1000000 div 1000000 in if d < 1 then 1 else if d > MAXDWORD - 1 then MAXDWORD - 1 else d) =
        int (min 4294967294 n)" if "0 < n" for n :: nat
      using that by (simp add: MAXDWORD_def min_def)
    have "0 < unat ms" "ms > 0" using False by (simp_all add: unat_gt_0 word_gt_0)
    then have "ct_ReadTotalTimeoutConstant (comm_timeouts ms) = of_int (int (min 4294967294 (unat ms)))"
      using clamp [of "unat ms"] unfolding comm_timeouts_def by (simp only: Let_def if_True structTimeouts.simps)
    moreover have "min 4294967294 (unat ms) < 4294967296" by simp
    ultimately show ?thesis using e False by simp
  qed
qed

lemma all_calls_open: "all_calls fs s = (ok, s1) \<Longrightarrow> pr_open s1 = pr_open s \<and> pr_next s1 = pr_next s"
proof (induction fs arbitrary: s)
  case (Cons f fs)
  then show ?case by (auto simp: call_def Let_def split: prod.splits if_splits)
qed simp

lemma newOverlapped_open:
  "newOverlapped os s = (s1, None) \<Longrightarrow> s1 = s"
  "newOverlapped os s = (s1, Some e) \<Longrightarrow> e = pr_next s \<and> pr_open s1 = pr_next s # pr_open s \<and> pr_next s1 = Suc (pr_next s)"
  by (auto simp: newOverlapped_def fd_open_def split: if_splits)

text \<open>What an attempt to open a port leaves open: nothing when it fails before the events are made, the first event when only the
  second one fails; and a port that is opened and closed leaves its two events.\<close>

lemma open_close_handles:
  assumes "win_openPort os name baud sz par stop ms s = (s1, r)" "\<forall>h\<in>set (pr_open s). h < pr_next s"
  shows "case r of Inl e \<Rightarrow> pr_open s1 = pr_open s \<or> pr_open s1 = Suc (pr_next s) # pr_open s
    | Inr p \<Rightarrow> pr_open (port_Close p s1) = [Suc (Suc (pr_next s)), Suc (pr_next s)] @ pr_open s"
proof -
  have fresh: "removeAll (pr_next s) (pr_open s) = pr_open s" using assms(2) by (auto intro!: removeAll_id)
  show ?thesis
    using assms(1) fresh
    by (auto simp: win_openPort_def port_Close_def call_def fd_open_def Let_def
        dest!: all_calls_open newOverlapped_open split: if_splits prod.splits sum.splits option.splits)
qed

end
