(* ===== verification/Serial_Linux.thy ===== *)
theory Serial_Linux
  imports Serial_Port Tap_Drivers
begin

text \<open>
  Serial ports on Linux, the calls of \<open>sys/serial/serial_linux.go\<close>: \<open>openPort\<close> with the descriptor it opens and closes, the operations of
  \<open>Port\<close>, and the search for ports in \<open>/dev\<close>. The kernel is a parameter of arbitrary state. \<open>openPort\<close> here refines the one of \<open>Serial_Port\<close>, which
  decides on the settings only.
\<close>

section \<open>Opening a port\<close>

record 'k tty =
  ty_open :: "string \<Rightarrow> 'k \<Rightarrow> bool \<times> 'k"
  ty_TCSETS :: "string \<Rightarrow> termios \<Rightarrow> 'k \<Rightarrow> bool \<times> 'k"
  ty_SetNonblock :: "string \<Rightarrow> 'k \<Rightarrow> bool \<times> 'k"
  ty_read :: "string \<Rightarrow> nat \<Rightarrow> 'k \<Rightarrow> (nat + bytes) \<times> 'k"
  ty_write :: "string \<Rightarrow> bytes \<Rightarrow> 'k \<Rightarrow> (nat + nat) \<times> 'k"
  ty_TCFLSH :: "string \<Rightarrow> 'k \<Rightarrow> bool \<times> 'k"

record Port =
  po_fd :: nat
  po_name :: string

definition kcall :: "('k \<Rightarrow> 'a \<times> 'k) \<Rightarrow> 'k process \<Rightarrow> 'a \<times> 'k process" where
  "kcall f s = (let (r, k) = f (pr_kernel s) in (r, s\<lparr>pr_kernel := k\<rparr>))"

text \<open>The checks in the order of the source, after the device was opened: every error closes it again.\<close>

definition port_settings :: "int \<Rightarrow> u8 \<Rightarrow> u8 \<Rightarrow> u8 \<Rightarrow> u32 \<Rightarrow> port_error + termios" where
  "port_settings baud databits parity stopbits ms =
     (if databits \<notin> {5, 6, 7, 8} then Inl ErrBadSize
      else if stopbits \<noteq> Stop1 \<and> stopbits \<noteq> Stop2 then Inl ErrBadStopBits
      else if parity \<noteq> ParityNone \<and> parity \<noteq> ParityOdd \<and> parity \<noteq> ParityEven then Inl ErrBadParity
      else let (vmin, vtime) = posixTimeoutValues ms in
        Inr \<lparr>tm_rate = baud, tm_bits = databits, tm_CSTOPB = (stopbits = Stop2),
          tm_PARENB = (parity = ParityOdd \<or> parity = ParityEven), tm_PARODD = (parity = ParityOdd), tm_VMIN = vmin, tm_VTIME = vtime\<rparr>)"

definition linux_openPort :: "'k tty \<Rightarrow> string \<Rightarrow> int \<Rightarrow> u8 \<Rightarrow> u8 \<Rightarrow> u8 \<Rightarrow> u32 \<Rightarrow> 'k process \<Rightarrow> 'k process \<times> (port_error + Port)" where
  "linux_openPort os name baud databits parity stopbits ms s =
     (if baud \<notin> set bauds then (s, Inl BadBaud)
      else let (ok, s1) = kcall (ty_open os name) s in
        if \<not> ok then (s1, Inl port_error.OpenFailed)
        else let (f, s2) = fd_open s1 in
          case port_settings baud databits parity stopbits ms of
            Inl e \<Rightarrow> (fd_close f s2, Inl e)
          | Inr t \<Rightarrow>
              (let (ok1, s3) = kcall (ty_TCSETS os name t) s2 in
               if \<not> ok1 then (fd_close f s3, Inl IoctlFailed)
               else let (ok2, s4) = kcall (ty_SetNonblock os name) s3 in
                 if \<not> ok2 then (fd_close f s4, Inl IoctlFailed)
                 else (s4, Inr \<lparr>po_fd = f, po_name = name\<rparr>)))"

section \<open>A port\<close>

text \<open>A port that was closed answers every call with an error and no longer reaches the kernel; closing it twice is an error too.\<close>

datatype file_error = ErrClosed | Errno nat

definition on_open :: "Port \<Rightarrow> ('k \<Rightarrow> (nat + 'a) \<times> 'k) \<Rightarrow> 'k process \<Rightarrow> (file_error + 'a) \<times> 'k process" where
  "on_open p f s =
     (if po_fd p \<notin> set (pr_open s) then (Inl ErrClosed, s)
      else let (r, s1) = kcall f s in (case r of Inl e \<Rightarrow> Inl (Errno e) | Inr a \<Rightarrow> Inr a, s1))"

definition linux_Read :: "'k tty \<Rightarrow> Port \<Rightarrow> nat \<Rightarrow> 'k process \<Rightarrow> (file_error + bytes) \<times> 'k process" where
  "linux_Read os p n = on_open p (ty_read os (po_name p) n)"

definition linux_Write :: "'k tty \<Rightarrow> Port \<Rightarrow> bytes \<Rightarrow> 'k process \<Rightarrow> (file_error + nat) \<times> 'k process" where
  "linux_Write os p b = on_open p (ty_write os (po_name p) b)"

text \<open>\<open>Fd()\<close> of a closed file is no descriptor, which the kernel refuses with \<open>EBADF\<close>.\<close>

definition linux_Flush :: "'k tty \<Rightarrow> Port \<Rightarrow> 'k process \<Rightarrow> bool \<times> 'k process" where
  "linux_Flush os p s = (if po_fd p \<notin> set (pr_open s) then (False, s) else kcall (ty_TCFLSH os (po_name p)) s)"

definition linux_port_Close :: "Port \<Rightarrow> 'k process \<Rightarrow> bool \<times> 'k process" where
  "linux_port_Close p s = (if po_fd p \<notin> set (pr_open s) then (False, s) else (True, fd_close (po_fd p) s))"

section \<open>The list of ports\<close>

text \<open>\<open>regexFilter\<close>, which is not anchored: one of the names followed by a digit, anywhere in the text.\<close>

definition tty_names :: "string list" where
  "tty_names = [''ttyS'', ''ttyUSB'', ''ttyACM'', ''ttyAMA'', ''rfcomm'', ''ttyO'', ''ttymxc'']"

definition has_prefix :: "string \<Rightarrow> string \<Rightarrow> bool" where
  "has_prefix p s \<longleftrightarrow> take (length p) s = p"

definition digit_char :: "char \<Rightarrow> bool" where
  "digit_char c = (let n = of_char c :: nat in 48 \<le> n \<and> n \<le> 57)"

definition names_port :: "string \<Rightarrow> bool" where
  "names_port s = list_ex (\<lambda>p. has_prefix p s \<and> (case drop (length p) s of [] \<Rightarrow> False | c # _ \<Rightarrow> digit_char c)) tty_names"

fun MatchString :: "string \<Rightarrow> bool" where
  "MatchString [] = False"
| "MatchString (c # cs) = (names_port (c # cs) \<or> MatchString cs)"

record dir_entry =
  de_Name :: string
  de_IsDir :: bool

definition candidate :: "dir_entry \<Rightarrow> bool" where
  "candidate f \<longleftrightarrow> \<not> de_IsDir f \<and> MatchString (de_Name f) \<and> de_Name f \<noteq> ''ttyS0''"

fun linux_ports_loop :: "'k tty \<Rightarrow> dir_entry list \<Rightarrow> 'k process \<Rightarrow> 'k process \<times> string list" where
  "linux_ports_loop os [] s = (s, [])"
| "linux_ports_loop os (f # fs) s =
     (if \<not> candidate f then linux_ports_loop os fs s
      else let portName = ''/dev/'' @ de_Name f in
        if has_prefix ''ttyS'' (de_Name f) then
          (case linux_openPort os portName 9600 8 ParityNone Stop1 20 s of
             (s1, Inl _) \<Rightarrow> linux_ports_loop os fs s1
           | (s1, Inr p) \<Rightarrow> (let (s2, ps) = linux_ports_loop os fs (snd (linux_port_Close p s1)) in (s2, portName # ps)))
        else (let (s2, ps) = linux_ports_loop os fs s in (s2, portName # ps)))"

definition linux_GetPortsList :: "'k tty \<Rightarrow> dir_entry list option \<Rightarrow> 'k process \<Rightarrow> 'k process \<times> string list option" where
  "linux_GetPortsList os dir s = (case dir of None \<Rightarrow> (s, None)
     | Some files \<Rightarrow> (let (s1, ps) = linux_ports_loop os files s in (s1, Some ps)))"

text \<open>The port service passes the list on.\<close>

definition service_GetLocalPorts :: "'k tty \<Rightarrow> dir_entry list option \<Rightarrow> 'k process \<Rightarrow> 'k process \<times> string list option" where
  "service_GetLocalPorts os dir = linux_GetPortsList os dir"

datatype list_result = ListFailed | PortList "string list"

definition service_GetLocalPortList :: "'k tty \<Rightarrow> dir_entry list option \<Rightarrow> 'k process \<Rightarrow> 'k process \<times> list_result" where
  "service_GetLocalPortList os dir s = (let (s1, r) = linux_GetPortsList os dir s in (s1, case r of None \<Rightarrow> ListFailed | Some ps \<Rightarrow> PortList ps))"

section \<open>Refinement and descriptors\<close>

text \<open>Against a kernel whose answers do not change, \<open>openPort\<close> gives what the decision of \<open>Serial_Port\<close> says.\<close>

definition steady :: "'k tty \<Rightarrow> port_os \<Rightarrow> bool" where
  "steady os o' \<longleftrightarrow> (\<forall>n k. fst (ty_open os n k) = os_open o' n) \<and>
     (\<forall>n t k k'. (fst (ty_TCSETS os n t k) \<and> fst (ty_SetNonblock os n k')) = os_set o' n t)"

lemma kcall_fields [simp]:
  "fst (kcall f s) = fst (f (pr_kernel s))" "pr_open (snd (kcall f s)) = pr_open s" "pr_next (snd (kcall f s)) = pr_next s"
  by (simp_all add: kcall_def split_beta)

lemma openPort_settings:
  "openPort o' name baud databits parity stopbits ms =
    (if baud \<notin> set bauds then Inl BadBaud else if \<not> os_open o' name then Inl port_error.OpenFailed
     else case port_settings baud databits parity stopbits ms of Inl e \<Rightarrow> Inl e
       | Inr t \<Rightarrow> if os_set o' name t then Inr t else Inl IoctlFailed)"
  by (simp add: openPort_def port_settings_def split_beta Let_def)

lemma openPort_refines:
  assumes "steady os o'"
  shows "case (snd (linux_openPort os name baud databits parity stopbits ms s), openPort o' name baud databits parity stopbits ms) of
      (Inl e, Inl e') \<Rightarrow> e = e'
    | (Inr p, Inr t) \<Rightarrow> port_settings baud databits parity stopbits ms = Inr t \<and> po_name p = name
    | _ \<Rightarrow> False"
proof -
  have o: "fst (ty_open os n k) = os_open o' n" for n k using assms by (simp add: steady_def)
  have t: "os_set o' n t = (fst (ty_TCSETS os n t k) \<and> fst (ty_SetNonblock os n k'))" for n t k k' using assms by (simp add: steady_def)
  show ?thesis
  proof (cases "port_settings baud databits parity stopbits ms")
    case (Inl e)
    then show ?thesis by (simp add: linux_openPort_def openPort_settings fd_open_def split_beta Let_def o)
  next
    case (Inr u)
    define s2 where "s2 = snd (fd_open (snd (kcall (ty_open os name) s)))"
    define s3 where "s3 = snd (kcall (ty_TCSETS os name u) s2)"
    note t [of name u "pr_kernel s2" "pr_kernel s3"]
    with Inr show ?thesis
      by (simp add: linux_openPort_def openPort_settings split_beta Let_def o s2_def [symmetric] s3_def [symmetric])
  qed
qed

text \<open>Opening keeps one descriptor when it succeeds and none when it fails.\<close>

definition fresh_fds :: "'k process \<Rightarrow> bool" where
  "fresh_fds s \<longleftrightarrow> (\<forall>fd\<in>set (pr_open s). fd < pr_next s)"

lemma openPort_fds:
  assumes "fresh_fds s" "linux_openPort os name baud databits parity stopbits ms s = (s1, r)"
  shows "fresh_fds s1 \<and> (case r of Inl e \<Rightarrow> pr_open s1 = pr_open s | Inr p \<Rightarrow> pr_open s1 = po_fd p # pr_open s \<and> po_fd p \<notin> set (pr_open s))"
proof -
  have n: "pr_next s \<notin> set (pr_open s)" and lt: "\<forall>fd\<in>set (pr_open s). fd < Suc (pr_next s)"
    using assms(1) by (auto simp: fresh_fds_def less_SucI)
  from assms(2) show ?thesis using assms(1) n lt
    by (auto simp: linux_openPort_def fd_open_def fresh_fds_def split_beta Let_def split: sum.splits if_splits)
qed

lemma port_close_fds:
  assumes "fresh_fds s" "pr_open s = po_fd p # fds" "po_fd p \<notin> set fds"
  shows "fresh_fds (snd (linux_port_Close p s)) \<and> pr_open (snd (linux_port_Close p s)) = fds"
  using assms by (auto simp: linux_port_Close_def fresh_fds_def)

lemma closed_port_answers:
  assumes "fresh_fds s" "linux_openPort os name baud databits parity stopbits ms s = (s1, Inr p)"
  shows "linux_port_Close p (snd (linux_port_Close p s1)) = (False, snd (linux_port_Close p s1)) \<and>
    fst (linux_Read os p n (snd (linux_port_Close p s1))) = Inl ErrClosed \<and>
    fst (linux_Write os p b (snd (linux_port_Close p s1))) = Inl ErrClosed \<and>
    \<not> fst (linux_Flush os p (snd (linux_port_Close p s1)))"
  using openPort_fds [OF assms] port_close_fds [of s1 p "pr_open s"]
  by (simp add: linux_port_Close_def linux_Read_def linux_Write_def linux_Flush_def on_open_def)

text \<open>Looking for ports leaves no descriptor behind, finds only devices whose name matches, and never \<open>ttyS0\<close>; a device that is not
  probed is always listed.\<close>

lemma ports_loop_facts:
  assumes "fresh_fds s" "linux_ports_loop os fs s = (s1, ps)"
  shows "fresh_fds s1 \<and> pr_open s1 = pr_open s \<and> set ps \<subseteq> (\<lambda>f. ''/dev/'' @ de_Name f) ` {f \<in> set fs. candidate f} \<and>
    (\<forall>f\<in>set fs. candidate f \<and> \<not> has_prefix ''ttyS'' (de_Name f) \<longrightarrow> ''/dev/'' @ de_Name f \<in> set ps)"
  using assms
proof (induction fs arbitrary: s ps)
  case (Cons f fs)
  show ?case
  proof (cases "candidate f \<and> has_prefix ''ttyS'' (de_Name f)")
    case True
    obtain s2 r where o: "linux_openPort os (''/dev/'' @ de_Name f) 9600 8 ParityNone Stop1 20 s = (s2, r)" by fastforce
    note fd = openPort_fds [OF Cons.prems(1) o]
    show ?thesis
    proof (cases r)
      case (Inl e)
      with Cons.prems(2) True o have "linux_ports_loop os fs s2 = (s1, ps)" by simp
      with Cons.IH [OF _ this] fd Inl True show ?thesis by auto
    next
      case (Inr p)
      with fd have c: "fresh_fds (snd (linux_port_Close p s2))" "pr_open (snd (linux_port_Close p s2)) = pr_open s"
        using port_close_fds [of s2 p "pr_open s"] by auto
      from Inr Cons.prems(2) True o obtain qs where "linux_ports_loop os fs (snd (linux_port_Close p s2)) = (s1, qs)"
        "ps = (''/dev/'' @ de_Name f) # qs" by (auto simp: Let_def split: prod.splits)
      with Cons.IH [OF c(1) this(1)] c(2) True show ?thesis by auto
    qed
  next
    case False
    then obtain qs where q: "linux_ports_loop os fs s = (s1, qs)" "ps = (if candidate f then (''/dev/'' @ de_Name f) # qs else qs)"
      using Cons.prems(2) by (auto simp: Let_def split: prod.splits if_splits)
    with Cons.IH [OF Cons.prems(1) q(1)] False show ?thesis by auto
  qed
qed simp

lemma GetPortsList_clean:
  assumes "fresh_fds s" "linux_GetPortsList os (Some files) s = (s1, Some ps)"
  shows "pr_open s1 = pr_open s \<and> ''/dev/ttyS0'' \<notin> set ps"
proof -
  have "linux_ports_loop os files s = (s1, ps)" using assms(2) by (simp add: linux_GetPortsList_def split: prod.splits)
  from ports_loop_facts [OF assms(1) this] show ?thesis by (auto simp: candidate_def)
qed

end
