(* ===== verification/Http_Codecs.thy ===== *)
theory Http_Codecs
  imports Message_Codecs
begin

text \<open>
  The HTTP and JSON codecs of the channel library, \<open>netty/codec/xhttp\<close> and \<open>netty/codec/format/json.go\<close>: the request and response
  codecs, the adapter that serves an \<open>http.Handler\<close>, the response writer it gives to it, and the JSON codec. The
  texts of requests, responses and JSON are read and written by \<open>net/http\<close> and \<open>encoding/json\<close>, which are
  parameters; an \<open>http.Handler\<close> is the list of calls it makes on its response writer.
\<close>

section \<open>Headers, requests and responses\<close>

type_synonym http_header = "(string, string list) map"

text \<open>\<open>http.CanonicalHeaderKey\<close> for names of letters and hyphens: the first letter and every letter after a hyphen in
  upper case, the others in lower case.\<close>

definition upper :: "char \<Rightarrow> char" where
  "upper c = (let n = of_char c :: nat in if 97 \<le> n \<and> n \<le> 122 then char_of (n - 32) else c)"

definition lower :: "char \<Rightarrow> char" where
  "lower c = (let n = of_char c :: nat in if 65 \<le> n \<and> n \<le> 90 then char_of (n + 32) else c)"

fun canonical_from :: "bool \<Rightarrow> string \<Rightarrow> string" where
  "canonical_from up [] = []"
| "canonical_from up (c # cs) = (if up then upper c else lower c) # canonical_from (c = CHR ''-'') cs"

definition CanonicalHeaderKey :: "string \<Rightarrow> string" where
  "CanonicalHeaderKey = canonical_from True"

definition header_Set :: "string \<Rightarrow> string \<Rightarrow> http_header \<Rightarrow> http_header" where
  "header_Set k v h = h(CanonicalHeaderKey k \<mapsto> [v])"

record 'q Request =
  rq_ProtoMajor :: int
  rq_ProtoMinor :: int
  rq_rest :: 'q

record Response =
  rs_ProtoMajor :: int
  rs_ProtoMinor :: int
  rs_StatusCode :: int
  rs_Header :: http_header
  rs_Body :: bytes
  rs_ContentLength :: int

section \<open>The response writer\<close>

record responseWriter =
  rw_protoMajor :: int
  rw_protoMinor :: int
  rw_statusCode :: int
  rw_header :: "http_header option"
  rw_body :: bytes

definition NewResponseWriter :: "int \<Rightarrow> int \<Rightarrow> responseWriter" where
  "NewResponseWriter major minor = \<lparr>rw_protoMajor = major, rw_protoMinor = minor, rw_statusCode = 0, rw_header = None, rw_body = []\<rparr>"

definition default_header :: http_header where
  "default_header = header_Set ''server'' ''go-netty'' Map.empty"

text \<open>\<open>Header\<close> makes the header on the first call; the map is shared with the caller.\<close>

definition rw_Header :: "responseWriter \<Rightarrow> http_header \<times> responseWriter" where
  "rw_Header r = (let h = (case rw_header r of None \<Rightarrow> default_header | Some h \<Rightarrow> h) in (h, r\<lparr>rw_header := Some h\<rparr>))"

definition rw_WriteHeader :: "int \<Rightarrow> responseWriter \<Rightarrow> responseWriter" where
  "rw_WriteHeader statusCode r = r\<lparr>rw_statusCode := statusCode\<rparr>"

definition rw_Write :: "bytes \<Rightarrow> responseWriter \<Rightarrow> responseWriter \<times> nat" where
  "rw_Write b r = (r\<lparr>rw_body := rw_body r @ b\<rparr>, length b)"

definition rw_response :: "responseWriter \<Rightarrow> Response \<times> responseWriter" where
  "rw_response r =
     (let r1 = (if rw_statusCode r = 0 then rw_WriteHeader 200 r else r); (h, r2) = rw_Header r1
      in (\<lparr>rs_ProtoMajor = rw_protoMajor r2, rs_ProtoMinor = rw_protoMinor r2, rs_StatusCode = rw_statusCode r2, rs_Header = h,
           rs_Body = rw_body r2, rs_ContentLength = int (length (rw_body r2))\<rparr>, r2))"

text \<open>The calls a handler can make; \<open>HandlerPanic\<close> is a panic of the handler.\<close>

datatype handler_call = SetHeader string string | WriteHeader int | WriteBody bytes | HandlerPanic

fun rw_call :: "handler_call \<Rightarrow> responseWriter \<Rightarrow> responseWriter go" where
  "rw_call (SetHeader k v) r = (let (h, r1) = rw_Header r in Done (r1\<lparr>rw_header := Some (header_Set k v h)\<rparr>))"
| "rw_call (WriteHeader n) r = Done (rw_WriteHeader n r)"
| "rw_call (WriteBody b) r = Done (fst (rw_Write b r))"
| "rw_call HandlerPanic r = Panicked AssertFailed"

fun ServeHTTP :: "handler_call list \<Rightarrow> responseWriter \<Rightarrow> responseWriter go" where
  "ServeHTTP [] r = Done r"
| "ServeHTTP (c # cs) r = go_bind (rw_call c r) (ServeHTTP cs)"

section \<open>The codecs\<close>

datatype ('q, 'j) obj = ORequest "'q Request" | OResponse Response | OWriter responseWriter | OJson 'j | OOther

type_synonym ('q, 'j) msg = "('q, 'j) obj message"

text \<open>\<open>net/http\<close>: \<open>None\<close> is an error. \<open>encoding/json\<close>: the decoder with its two switches, and \<open>Marshal\<close>.\<close>

record ('q, 'j) codec_lib =
  cl_ReadRequest :: "reader \<Rightarrow> 'q Request option"
  cl_WriteRequest :: "'q Request \<Rightarrow> bytes option"
  cl_ReadResponse :: "reader \<Rightarrow> Response option"
  cl_WriteResponse :: "Response \<Rightarrow> bytes option"
  cl_Decode :: "bool \<Rightarrow> bool \<Rightarrow> reader \<Rightarrow> 'j option"
  cl_Marshal :: "('q, 'j) msg \<Rightarrow> bytes option"

definition asserted :: "'a option \<Rightarrow> 'a go" where
  "asserted r = (case r of None \<Rightarrow> Panicked AssertFailed | Some a \<Rightarrow> Done a)"

definition buffered :: "bytes \<Rightarrow> ('q, 'j) msg" where
  "buffered b = MReader (reader_of [b])"

definition request_HandleRead :: "('q, 'j) codec_lib \<Rightarrow> ('q, 'j) msg \<Rightarrow> ('q, 'j) msg go" where
  "request_HandleRead L m = (case m of
       MReader r \<Rightarrow> go_map (\<lambda>q. MOther (ORequest q)) (asserted (cl_ReadRequest L r))
     | _ \<Rightarrow> Done m)"

definition request_HandleWrite :: "('q, 'j) codec_lib \<Rightarrow> ('q, 'j) msg \<Rightarrow> ('q, 'j) msg go" where
  "request_HandleWrite L m = (case m of
       MOther (ORequest q) \<Rightarrow> go_map buffered (asserted (cl_WriteRequest L q))
     | _ \<Rightarrow> Done m)"

definition response_HandleRead :: "('q, 'j) codec_lib \<Rightarrow> ('q, 'j) msg \<Rightarrow> ('q, 'j) msg go" where
  "response_HandleRead L m = go_bind (MustToReader m) (\<lambda>r. go_map (\<lambda>s. MOther (OResponse s)) (asserted (cl_ReadResponse L r)))"

definition response_HandleWrite :: "('q, 'j) codec_lib \<Rightarrow> ('q, 'j) msg \<Rightarrow> ('q, 'j) msg go" where
  "response_HandleWrite L m = (case m of
       MOther (OResponse s) \<Rightarrow> go_map buffered (asserted (cl_WriteResponse L s))
     | MOther (OWriter w) \<Rightarrow> go_map buffered (asserted (cl_WriteResponse L (fst (rw_response w))))
     | _ \<Rightarrow> Panicked AssertFailed)"

definition requestCodec :: "('q, 'j) codec_lib \<Rightarrow> ('q, 'j) obj codec" where
  "requestCodec L = \<lparr>co_name = [], co_read = request_HandleRead L, co_write = request_HandleWrite L\<rparr>"

definition responseCodec :: "('q, 'j) codec_lib \<Rightarrow> ('q, 'j) obj codec" where
  "responseCodec L = \<lparr>co_name = [], co_read = response_HandleRead L, co_write = response_HandleWrite L\<rparr>"

definition ClientCodec :: "('q, 'j) codec_lib \<Rightarrow> ('q, 'j) obj codec" where
  "ClientCodec L = Combine ''http-client-codec'' (responseCodec L) (requestCodec L)"

definition ServerCodec :: "('q, 'j) codec_lib \<Rightarrow> ('q, 'j) obj codec" where
  "ServerCodec L = Combine ''http-server-codec'' (requestCodec L) (responseCodec L)"

text \<open>\<open>Handler\<close>: no handler means the default multiplexer of \<open>net/http\<close>.\<close>

definition http_Handler :: "('q Request \<Rightarrow> handler_call list) \<Rightarrow> ('q Request \<Rightarrow> handler_call list) option \<Rightarrow> 'q Request \<Rightarrow> handler_call list" where
  "http_Handler DefaultServeMux handler = (case handler of None \<Rightarrow> DefaultServeMux | Some h \<Rightarrow> h)"

text \<open>The adapter answers a request with the writer its handler filled (the result is what it writes).\<close>

definition adapter_HandleRead :: "('q Request \<Rightarrow> handler_call list) \<Rightarrow> ('q, 'j) msg \<Rightarrow> ('q, 'j) msg go" where
  "adapter_HandleRead handler m = (case m of
       MOther (ORequest q) \<Rightarrow>
         go_map (\<lambda>w. MOther (OWriter w)) (ServeHTTP (handler q) (NewResponseWriter (rq_ProtoMajor q) (rq_ProtoMinor q)))
     | _ \<Rightarrow> Panicked AssertFailed)"

definition adapter_HandleWrite :: "('q, 'j) msg \<Rightarrow> ('q, 'j) msg" where
  "adapter_HandleWrite m = m"

text \<open>JSON.\<close>

record jsonCodec =
  jc_useNumber :: bool
  jc_disAllowUnknownFields :: bool

definition json_HandleRead :: "('q, 'j) codec_lib \<Rightarrow> jsonCodec \<Rightarrow> ('q, 'j) msg \<Rightarrow> ('q, 'j) msg go" where
  "json_HandleRead L j m = go_bind (MustToReader m) (\<lambda>r.
     go_map (\<lambda>x. MOther (OJson x)) (asserted (cl_Decode L (jc_useNumber j) (jc_disAllowUnknownFields j) r)))"

definition json_HandleWrite :: "('q, 'j) codec_lib \<Rightarrow> ('q, 'j) msg \<Rightarrow> ('q, 'j) msg go" where
  "json_HandleWrite L m = go_map MBytes (asserted (cl_Marshal L m))"

definition JSONCodec :: "('q, 'j) codec_lib \<Rightarrow> bool \<Rightarrow> bool \<Rightarrow> ('q, 'j) obj codec" where
  "JSONCodec L useNumber strict = \<lparr>co_name = ''json-codec'',
     co_read = json_HandleRead L \<lparr>jc_useNumber = useNumber, jc_disAllowUnknownFields = strict\<rparr>, co_write = json_HandleWrite L\<rparr>"

section \<open>What a handler's calls amount to\<close>

text \<open>The reference: the last status, or 200; the headers set, over the default one; the texts written, in order.\<close>

definition final_status :: "handler_call list \<Rightarrow> int" where
  "final_status cs = (let n = fold (\<lambda>c n. case c of WriteHeader k \<Rightarrow> k | _ \<Rightarrow> n) cs 0 in if n = 0 then 200 else n)"

definition final_header :: "handler_call list \<Rightarrow> http_header" where
  "final_header cs = fold (\<lambda>c h. case c of SetHeader k v \<Rightarrow> header_Set k v h | _ \<Rightarrow> h) cs default_header"

definition final_body :: "handler_call list \<Rightarrow> bytes" where
  "final_body cs = concat (map (\<lambda>c. case c of WriteBody b \<Rightarrow> b | _ \<Rightarrow> []) cs)"

definition expected :: "'q Request \<Rightarrow> handler_call list \<Rightarrow> Response" where
  "expected q cs = \<lparr>rs_ProtoMajor = rq_ProtoMajor q, rs_ProtoMinor = rq_ProtoMinor q, rs_StatusCode = final_status cs,
     rs_Header = final_header cs, rs_Body = final_body cs, rs_ContentLength = int (length (final_body cs))\<rparr>"

definition header_of :: "responseWriter \<Rightarrow> http_header" where
  "header_of r = (case rw_header r of None \<Rightarrow> default_header | Some h \<Rightarrow> h)"

lemma ServeHTTP_calls:
  assumes "HandlerPanic \<notin> set cs"
  shows "\<exists>w. ServeHTTP cs r = Done w \<and> rw_protoMajor w = rw_protoMajor r \<and> rw_protoMinor w = rw_protoMinor r \<and>
    rw_body w = rw_body r @ final_body cs \<and>
    rw_statusCode w = fold (\<lambda>c n. case c of WriteHeader k \<Rightarrow> k | _ \<Rightarrow> n) cs (rw_statusCode r) \<and>
    header_of w = fold (\<lambda>c h. case c of SetHeader k v \<Rightarrow> header_Set k v h | _ \<Rightarrow> h) cs (header_of r)"
  using assms
proof (induction cs arbitrary: r)
  case Nil
  then show ?case by (simp add: final_body_def)
next
  case (Cons c cs)
  then obtain r1 where "rw_call c r = Done r1" "rw_protoMajor r1 = rw_protoMajor r" "rw_protoMinor r1 = rw_protoMinor r"
    "rw_body r1 = rw_body r @ final_body [c]" "rw_statusCode r1 = (case c of WriteHeader k \<Rightarrow> k | _ \<Rightarrow> rw_statusCode r)"
    "header_of r1 = (case c of SetHeader k v \<Rightarrow> header_Set k v (header_of r) | _ \<Rightarrow> header_of r)"
    by (cases c) (auto simp: rw_Header_def rw_WriteHeader_def rw_Write_def final_body_def header_of_def Let_def)
  with Cons.IH [of r1] Cons.prems show ?case by (cases c) (auto simp: final_body_def)
qed

lemma rw_response_fields:
  "fst (rw_response w) = \<lparr>rs_ProtoMajor = rw_protoMajor w, rs_ProtoMinor = rw_protoMinor w,
     rs_StatusCode = (if rw_statusCode w = 0 then 200 else rw_statusCode w), rs_Header = header_of w, rs_Body = rw_body w,
     rs_ContentLength = int (length (rw_body w))\<rparr>"
  by (simp add: rw_response_def rw_Header_def rw_WriteHeader_def header_of_def Let_def split: option.split)

text \<open>A request answered: the adapter's writer becomes the response that the handler's calls describe; a handler that
  panics, and a message that is not a request, make the adapter panic.\<close>

lemma adapter_answers:
  assumes "HandlerPanic \<notin> set (handler q)"
  shows "\<exists>w. adapter_HandleRead handler (MOther (ORequest q)) = Done (MOther (OWriter w)) \<and> fst (rw_response w) = expected q (handler q)"
proof -
  obtain w where w: "ServeHTTP (handler q) (NewResponseWriter (rq_ProtoMajor q) (rq_ProtoMinor q)) = Done w"
    "fst (rw_response w) = expected q (handler q)"
    using ServeHTTP_calls [OF assms, of "NewResponseWriter (rq_ProtoMajor q) (rq_ProtoMinor q)"]
    by (auto simp: rw_response_fields expected_def final_status_def final_header_def NewResponseWriter_def header_of_def Let_def)
  then show ?thesis by (simp add: adapter_HandleRead_def)
qed

text \<open>One exchange between a client and a server, end to end: the request is written by the client's codec, read by
  the server's, answered by the adapter, written by the server's codec and read by the client's. \<open>received\<close> and \<open>s\<close> are what
  \<open>net/http\<close> reads back of the texts it wrote.\<close>

lemma http_exchange:
  assumes "cl_WriteRequest L q = Some w" "cl_ReadRequest L (reader_of [w]) = Some received"
    and "HandlerPanic \<notin> set (handler received)"
    and "cl_WriteResponse L (expected received (handler received)) = Some v" "cl_ReadResponse L (reader_of [v]) = Some s"
  shows "go_bind (co_write (ClientCodec L) (MOther (ORequest q))) (\<lambda>m1.
    go_bind (co_read (ServerCodec L) m1) (\<lambda>m2.
    go_bind (adapter_HandleRead handler m2) (\<lambda>m3.
    go_bind (co_write (ServerCodec L) m3) (co_read (ClientCodec L))))) = Done (MOther (OResponse s))"
proof -
  obtain u where "adapter_HandleRead handler (MOther (ORequest received) :: ('a, 'b) msg) = Done (MOther (OWriter u))"
    "fst (rw_response u) = expected received (handler received)"
    using adapter_answers [of handler received, OF assms(3)] by blast
  then show ?thesis
    using assms by (simp add: ClientCodec_def ServerCodec_def Combine_def requestCodec_def responseCodec_def request_HandleWrite_def
        request_HandleRead_def response_HandleWrite_def response_HandleRead_def asserted_def buffered_def MustToReader_def ToReader_def)
qed

text \<open>The contract of \<open>http.ResponseWriter\<close> fixes the status with the first \<open>WriteHeader\<close> or \<open>Write\<close>; this writer sends the last
  one, even when it comes after the body.\<close>

lemma late_status_sent:
  assumes "n \<noteq> 0"
  shows "final_status [WriteBody b, WriteHeader n] = n" "final_status [WriteHeader 200, WriteHeader n] = n"
  using assms by (simp_all add: final_status_def)

text \<open>JSON: what was marshalled is decoded again, when \<open>encoding/json\<close> reads its own text back.\<close>

lemma json_round_trip:
  assumes "cl_Marshal L (MOther (OJson x)) = Some b" "cl_Decode L un st (reader_of [b]) = Some x"
  shows "go_bind (co_write (JSONCodec L un st) (MOther (OJson x))) (co_read (JSONCodec L un st)) = Done (MOther (OJson x))"
  using assms by (simp add: JSONCodec_def json_HandleWrite_def json_HandleRead_def asserted_def MustToReader_def ToReader_def)

end
