(* ===== verification/Sockets.thy ===== *)
theory Sockets
  imports Transport Channel Serial_Linux
begin

text \<open>
  The sockets below the transports: \<open>netty/reuse\<close>, which makes sockets whose address can be used again, the buffered transport of
  \<open>netty/transport/buffered.go\<close>, and the writes of \<open>netty/transport/tcp/transport.go\<close>. The kernel and the name resolver are
  parameters; descriptors are counted in \<open>process\<close>. Of package \<open>net\<close> the order of its calls is modelled (make a
  socket, call \<open>Control\<close>, bind), of \<open>bufio\<close> the reader.
\<close>

section \<open>Reusable sockets\<close>

datatype reuse_opt = SO_REUSEADDR | SO_REUSEPORT

record 'k sock_os =
  so_socket :: "string \<Rightarrow> 'k \<Rightarrow> bool \<times> 'k"
  so_setopt :: "nat \<Rightarrow> reuse_opt \<Rightarrow> 'k \<Rightarrow> bool \<times> 'k"
  so_listen :: "nat \<Rightarrow> string \<Rightarrow> 'k \<Rightarrow> bool \<times> 'k"
  so_listen_packet :: "nat \<Rightarrow> string \<Rightarrow> 'k \<Rightarrow> bool \<times> 'k"

datatype control_result = ControlOk | ControlErr | ControlPanic

text \<open>\<open>Control\<close> for each system; \<open>raw\<close> is whether the descriptor can be used at all.\<close>

definition unix_Control :: "'k sock_os \<Rightarrow> bool \<Rightarrow> nat \<Rightarrow> 'k process \<Rightarrow> 'k process \<times> control_result" where
  "unix_Control os raw fd s =
     (if \<not> raw then (s, ControlErr)
      else let (ok1, s1) = kcall (so_setopt os fd SO_REUSEADDR) s in
        if \<not> ok1 then (s1, ControlPanic)
        else let (ok2, s2) = kcall (so_setopt os fd SO_REUSEPORT) s1 in (s2, if ok2 then ControlOk else ControlPanic))"

definition windows_Control :: "'k sock_os \<Rightarrow> bool \<Rightarrow> nat \<Rightarrow> 'k process \<Rightarrow> 'k process \<times> control_result" where
  "windows_Control os raw fd s =
     (if \<not> raw then (s, ControlErr)
      else let (ok, s1) = kcall (so_setopt os fd SO_REUSEADDR) s in (s1, if ok then ControlOk else ControlErr))"

definition other_Control :: "nat \<Rightarrow> 'k process \<Rightarrow> 'k process \<times> control_result" where
  "other_Control fd s = (s, ControlOk)"

datatype socket_result = Socket nat | SocketErr | SocketPanic

text \<open>A socket of package \<open>net\<close>: an error closes it again, a panic of \<open>Control\<close> goes through.\<close>

definition net_socket :: "'k sock_os \<Rightarrow> (nat \<Rightarrow> 'k process \<Rightarrow> 'k process \<times> control_result) \<Rightarrow> string \<Rightarrow>
    (nat \<Rightarrow> 'k \<Rightarrow> bool \<times> 'k) \<Rightarrow> 'k process \<Rightarrow> 'k process \<times> socket_result" where
  "net_socket os ctl network finish s =
     (let (ok, s1) = kcall (so_socket os network) s in
      if \<not> ok then (s1, SocketErr)
      else let (fd, s2) = fd_open s1 in
        case ctl fd s2 of
          (s3, ControlPanic) \<Rightarrow> (s3, SocketPanic)
        | (s3, ControlErr) \<Rightarrow> (fd_close fd s3, SocketErr)
        | (s3, ControlOk) \<Rightarrow>
            (let (ok1, s4) = kcall (finish fd) s3 in if ok1 then (s4, Socket fd) else (fd_close fd s4, SocketErr)))"

definition reuse_Listen :: "'k sock_os \<Rightarrow> (nat \<Rightarrow> 'k process \<Rightarrow> 'k process \<times> control_result) \<Rightarrow> string \<Rightarrow> string \<Rightarrow>
    'k process \<Rightarrow> 'k process \<times> socket_result" where
  "reuse_Listen os ctl network address = net_socket os ctl network (\<lambda>fd. so_listen os fd address)"

definition reuse_ListenPacket :: "'k sock_os \<Rightarrow> (nat \<Rightarrow> 'k process \<Rightarrow> 'k process \<times> control_result) \<Rightarrow> string \<Rightarrow> string \<Rightarrow>
    'k process \<Rightarrow> 'k process \<times> socket_result" where
  "reuse_ListenPacket os ctl network address = net_socket os ctl network (\<lambda>fd. so_listen_packet os fd address)"

text \<open>\<open>ResolveAddr\<close>: the resolver for the kind of the network; \<open>None\<close> is an error.\<close>

datatype addr_kind = IPKind | TCPKind | UDPKind | UnixKind

definition network_kind :: "string \<Rightarrow> addr_kind option" where
  "network_kind network =
     (if network \<in> {''ip'', ''ip4'', ''ip6''} then Some IPKind
      else if network \<in> {''tcp'', ''tcp4'', ''tcp6''} then Some TCPKind
      else if network \<in> {''udp'', ''udp4'', ''udp6''} then Some UDPKind
      else if network \<in> {''unix'', ''unixgram'', ''unixpacket''} then Some UnixKind
      else None)"

definition ResolveAddr :: "(addr_kind \<Rightarrow> string \<Rightarrow> string \<Rightarrow> 'a option) \<Rightarrow> string \<Rightarrow> string \<Rightarrow> 'a option" where
  "ResolveAddr resolve network address = (case network_kind network of None \<Rightarrow> None | Some k \<Rightarrow> resolve k network address)"

definition reuse_Dial :: "(addr_kind \<Rightarrow> string \<Rightarrow> string \<Rightarrow> 'a option) \<Rightarrow> (nat \<Rightarrow> 'a \<Rightarrow> string \<Rightarrow> 'k \<Rightarrow> bool \<times> 'k) \<Rightarrow> 'k sock_os \<Rightarrow>
    (nat \<Rightarrow> 'k process \<Rightarrow> 'k process \<times> control_result) \<Rightarrow> string \<Rightarrow> string \<Rightarrow> string \<Rightarrow> 'k process \<Rightarrow> 'k process \<times> socket_result" where
  "reuse_Dial resolve connect os ctl network laddr raddr s = (case ResolveAddr resolve network laddr of
     None \<Rightarrow> (s, SocketErr)
   | Some nla \<Rightarrow> net_socket os ctl network (\<lambda>fd. connect fd nla raddr) s)"

section \<open>The buffered transport\<close>

text \<open>\<open>bufio.Reader\<close>: the size of its buffer, the bytes that wait in it and a pending error.\<close>

record 'e bufio =
  bu_size :: nat
  bu_buf :: bytes
  bu_err :: "'e option"

type_synonym ('k, 'e) read_fn = "nat \<Rightarrow> 'k \<Rightarrow> (bytes \<times> 'e option) \<times> 'k"

definition bufio_Read :: "('k, 'e) read_fn \<Rightarrow> nat \<Rightarrow> 'e bufio \<times> 'k \<Rightarrow> (bytes \<times> 'e option) \<times> 'e bufio \<times> 'k" where
  "bufio_Read rd n = (\<lambda>(b, k).
     if n = 0 then
       (if bu_buf b \<noteq> [] then (([], None), b, k) else (([], bu_err b), b\<lparr>bu_err := None\<rparr>, k))
     else if bu_buf b \<noteq> [] then ((take n (bu_buf b), None), b\<lparr>bu_buf := drop n (bu_buf b)\<rparr>, k)
     else if bu_err b \<noteq> None then (([], bu_err b), b\<lparr>bu_err := None\<rparr>, k)
     else if bu_size b \<le> n then (let (r, k1) = rd n k in (r, b, k1))
     else (let ((bs, e), k1) = rd (bu_size b) k in
       if bs = [] then (([], e), b, k1)
       else ((take n bs, None), b\<lparr>bu_buf := drop n bs, bu_err := e\<rparr>, k1)))"

datatype 'e tran = Plain | Buffered "'e bufio"

definition NewReaderSize :: "int \<Rightarrow> 'e bufio" where
  "NewReaderSize sz = \<lparr>bu_size = nat (max sz 16), bu_buf = [], bu_err = None\<rparr>"

definition BufferedTransport :: "'e tran \<Rightarrow> int \<Rightarrow> 'e tran" where
  "BufferedTransport t sizeRead = (case t of Buffered b \<Rightarrow> t | Plain \<Rightarrow> Buffered (NewReaderSize sizeRead))"

definition tran_Read :: "('k, 'e) read_fn \<Rightarrow> nat \<Rightarrow> 'e tran \<times> 'k \<Rightarrow> (bytes \<times> 'e option) \<times> 'e tran \<times> 'k" where
  "tran_Read rd n = (\<lambda>(t, k). case t of
     Plain \<Rightarrow> (let (r, k1) = rd n k in (r, Plain, k1))
   | Buffered b \<Rightarrow> (let (r, b1, k1) = bufio_Read rd n (b, k) in (r, Buffered b1, k1)))"

fun tran_reads :: "('k, 'e) read_fn \<Rightarrow> nat list \<Rightarrow> 'e tran \<times> 'k \<Rightarrow> (bytes \<times> 'e option) list \<times> 'e tran \<times> 'k" where
  "tran_reads rd [] s = ([], s)"
| "tran_reads rd (n # ns) s = (let (r, s1) = tran_Read rd n s; (rs, s2) = tran_reads rd ns s1 in (r # rs, s2))"

text \<open>The factories of channels: a channel with the transport it reads from.\<close>

definition NewChannel :: "nat \<Rightarrow> 'e tran \<Rightarrow> chan \<times> 'e tran" where
  "NewChannel capacity t = (newChannelWith capacity, t)"

definition NewBufferedChannel :: "nat \<Rightarrow> int \<Rightarrow> 'e tran \<Rightarrow> chan \<times> 'e tran" where
  "NewBufferedChannel capacity sizeRead t = (newChannelWith capacity, BufferedTransport t sizeRead)"

section \<open>Writes of the TCP transport\<close>

text \<open>\<open>net.Buffers.WriteTo\<close>: the connection takes some of the bytes, and these are cut from the buffers.\<close>

fun consume :: "bytes list \<Rightarrow> nat \<Rightarrow> bytes list" where
  "consume [] n = []"
| "consume (v # vs) n = (if n < length v then drop n v # vs else consume vs (n - length v))"

definition tcp_Writev :: "(bytes \<Rightarrow> 'k \<Rightarrow> (nat \<times> bool) \<times> 'k) \<Rightarrow> bytes list \<Rightarrow> 'k \<Rightarrow> (nat \<times> bool) \<times> bytes list \<times> 'k" where
  "tcp_Writev write bufs k = (let ((n, ok), k1) = write (concat bufs) k in ((n, ok), consume bufs n, k1))"

definition tcp_Flush :: "'k \<Rightarrow> bool \<times> 'k" where
  "tcp_Flush k = (True, k)"

section \<open>Sockets are accounted for\<close>

text \<open>A control function keeps the descriptors.\<close>

definition keeps_fds :: "(nat \<Rightarrow> 'k process \<Rightarrow> 'k process \<times> control_result) \<Rightarrow> bool" where
  "keeps_fds ctl \<longleftrightarrow> (\<forall>fd s. pr_open (fst (ctl fd s)) = pr_open s \<and> pr_next (fst (ctl fd s)) = pr_next s)"

lemma controls_keep_fds [simp, intro]:
  "keeps_fds (unix_Control os raw)" "keeps_fds (windows_Control os raw)" "keeps_fds other_Control"
  by (simp_all add: keeps_fds_def unix_Control_def windows_Control_def other_Control_def split_beta Let_def)

lemma net_socket_fds:
  assumes "keeps_fds ctl" "fresh_fds s" "net_socket os ctl network finish s = (s1, r)"
  shows "fresh_fds s1 \<and> (case r of
      Socket fd \<Rightarrow> fd \<notin> set (pr_open s) \<and> pr_open s1 = fd # pr_open s
    | SocketErr \<Rightarrow> pr_open s1 = pr_open s
    | SocketPanic \<Rightarrow> \<exists>fd. fd \<notin> set (pr_open s) \<and> pr_open s1 = fd # pr_open s)"
proof -
  define s2 where "s2 = snd (fd_open (snd (kcall (so_socket os network) s)))"
  obtain s3 c where c: "ctl (pr_next s) s2 = (s3, c)" by fastforce
  have s2: "pr_open s2 = pr_next s # pr_open s" "pr_next s2 = Suc (pr_next s)" by (simp_all add: s2_def fd_open_def)
  have s3: "pr_open s3 = pr_open s2" "pr_next s3 = pr_next s2"
    using assms(1) c unfolding keeps_fds_def by (metis fst_conv)+
  have n: "pr_next s \<notin> set (pr_open s)" and lt: "\<forall>fd\<in>set (pr_open s). fd < Suc (pr_next s)"
    using assms(2) by (auto simp: fresh_fds_def less_SucI)
  have fo: "fd_open (snd (kcall (so_socket os network) s)) = (pr_next s, s2)" by (simp add: fd_open_def s2_def)
  from assms(3) have e: "(s1, r) = (if \<not> fst (so_socket os network (pr_kernel s)) then (snd (kcall (so_socket os network) s), SocketErr)
      else case c of ControlPanic \<Rightarrow> (s3, SocketPanic) | ControlErr \<Rightarrow> (fd_close (pr_next s) s3, SocketErr)
        | ControlOk \<Rightarrow> if fst (finish (pr_next s) (pr_kernel s3)) then (snd (kcall (finish (pr_next s)) s3), Socket (pr_next s))
            else (fd_close (pr_next s) (snd (kcall (finish (pr_next s)) s3)), SocketErr))"
    using c fo by (cases "fst (so_socket os network (pr_kernel s))"; cases c)
      (simp_all add: net_socket_def split_beta Let_def split: if_splits)
  show ?thesis using e assms(2) s2 s3 n lt
    by (auto simp: fresh_fds_def split: if_splits control_result.splits)
qed

text \<open>On Unix a socket that is handed out has both options, as the kernel granted them; where the kernel refuses one of them the
  call does not return, and its socket stays open. On Windows the refusal is an error and nothing stays open.\<close>

lemma Listen_reusable:
  assumes "reuse_Listen os (unix_Control os True) network address s = (s1, Socket fd)"
  shows "let k = snd (so_socket os network (pr_kernel s)) in
    fst (so_setopt os fd SO_REUSEADDR k) \<and> fst (so_setopt os fd SO_REUSEPORT (snd (so_setopt os fd SO_REUSEADDR k)))"
  using assms by (auto simp: fd_open_def reuse_Listen_def net_socket_def unix_Control_def kcall_def split_beta Let_def
      split: control_result.splits if_splits)

lemma refused_option_panics:
  assumes "fresh_fds s" "\<And>k. fst (so_socket os network k)" "\<And>fd k. \<not> fst (so_setopt os fd opt k)"
    and "reuse_Listen os (unix_Control os True) network address s = (s1, r)"
  shows "r = SocketPanic \<and> (\<exists>fd. fd \<notin> set (pr_open s) \<and> pr_open s1 = fd # pr_open s)"
proof -
  have "snd (unix_Control os True fd t) = ControlPanic" for fd t
    using assms(3) by (cases opt) (auto simp: unix_Control_def split_beta Let_def)
  with assms(2, 4) have "r = SocketPanic"
    by (auto simp: reuse_Listen_def net_socket_def split_beta Let_def split: control_result.splits prod.splits)
  with net_socket_fds [OF controls_keep_fds(1) assms(1) assms(4) [unfolded reuse_Listen_def]] show ?thesis by simp
qed

text \<open>Every scheme of the transports is a network that \<open>ResolveAddr\<close> knows.\<close>

lemma schemes_resolved:
  "n \<in> set tcp_Schemes \<Longrightarrow> network_kind n = Some TCPKind" "n \<in> set udp_Schemes \<Longrightarrow> network_kind n = Some UDPKind"
  by (auto simp: tcp_Schemes_def udp_Schemes_def network_kind_def)

section \<open>The buffer changes nothing but the sizes\<close>

text \<open>\<open>logged\<close> writes down what the transport below answered.\<close>

definition logged :: "('k, 'e) read_fn \<Rightarrow> ('k \<times> (bytes \<times> 'e option) list, 'e) read_fn" where
  "logged rd n = (\<lambda>(k, l). let (r, k1) = rd n k in (r, k1, l @ [r]))"

definition errors_of :: "(bytes \<times> 'e option) list \<Rightarrow> 'e list" where
  "errors_of rs = List.map_filter snd rs"

fun waiting :: "'e tran \<Rightarrow> bytes" where
  "waiting Plain = []"
| "waiting (Buffered b) = bu_buf b"

fun pending :: "'e tran \<Rightarrow> 'e list" where
  "pending Plain = []"
| "pending (Buffered b) = (case bu_err b of None \<Rightarrow> [] | Some e \<Rightarrow> [e])"

lemma errors_simps [simp]:
  "errors_of [] = []" "errors_of (r # rs) = (case snd r of None \<Rightarrow> [] | Some e \<Rightarrow> [e]) @ errors_of rs"
  "errors_of (rs @ rs') = errors_of rs @ errors_of rs'"
  by (simp_all add: errors_of_def map_filter_simps List.map_filter_def split: option.split)

lemma append_chain: "a @ b = c @ d \<Longrightarrow> e @ f = b @ g \<Longrightarrow> a @ e @ f = c @ d @ g"
  by (metis append_assoc)

lemma read_conserves:
  assumes "tran_Read (logged rd) n (t, k, l) = (r, t1, k1, l1)"
  shows "\<exists>new. l1 = l @ new \<and> fst r @ waiting t1 = waiting t @ concat (map fst new) \<and>
    errors_of [r] @ pending t1 = pending t @ errors_of new"
  using assms
  by (cases t) (auto simp: tran_Read_def bufio_Read_def logged_def split_beta Let_def split: if_splits option.splits)

lemma reads_conserve:
  assumes "tran_reads (logged rd) ns (t, k, l) = (rs, t1, k1, l1)"
  shows "\<exists>new. l1 = l @ new \<and> concat (map fst rs) @ waiting t1 = waiting t @ concat (map fst new) \<and>
    errors_of rs @ pending t1 = pending t @ errors_of new"
  using assms
proof (induction ns arbitrary: t k l rs)
  case (Cons n ns)
  obtain r t2 k2 l2 where r: "tran_Read (logged rd) n (t, k, l) = (r, t2, k2, l2)" by (metis prod_cases4)
  obtain qs where q: "tran_reads (logged rd) ns (t2, k2, l2) = (qs, t1, k1, l1)" "rs = r # qs"
    using Cons.prems r by (auto simp: Let_def split: prod.splits)
  from read_conserves [OF r] obtain n1 where n1: "l2 = l @ n1" "fst r @ waiting t2 = waiting t @ concat (map fst n1)"
    "errors_of [r] @ pending t2 = pending t @ errors_of n1" by blast
  from Cons.IH [OF q(1)] obtain n2 where n2: "l1 = l2 @ n2" "concat (map fst qs) @ waiting t1 = waiting t2 @ concat (map fst n2)"
    "errors_of qs @ pending t1 = pending t2 @ errors_of n2" by blast
  have "concat (map fst rs) @ waiting t1 = waiting t @ concat (map fst (n1 @ n2))"
    using append_chain [OF n1(2) n2(2)] q(2) by simp
  moreover have "errors_of rs @ pending t1 = pending t @ errors_of (n1 @ n2)"
    using append_chain [OF n1(3) n2(3)] q(2) by simp
  ultimately show ?case using n1(1) n2(1) by (intro exI [of _ "n1 @ n2"]) simp
qed simp

text \<open>Reads of any sizes through a fresh buffer: what they returned, with what still waits in the buffer, is what the transport below
  gave, in order; so are the errors, each reported once.\<close>

lemma buffered_stream:
  assumes "tran_reads (logged rd) ns (snd (NewBufferedChannel capacity sz Plain), k, []) = (rs, t1, k1, l1)"
  shows "concat (map fst rs) @ waiting t1 = concat (map fst l1) \<and> errors_of rs @ pending t1 = errors_of l1"
  using reads_conserve [OF assms] by (auto simp: NewBufferedChannel_def BufferedTransport_def NewReaderSize_def)

text \<open>A read never returns more than was asked for, when the transport below does not, and returns something when something waits.\<close>

lemma buffered_read_size:
  assumes "\<And>n k. length (fst (fst (rd n k))) \<le> n" "tran_Read rd n (t, k) = (r, s)"
  shows "length (fst r) \<le> n \<and> (0 < n \<and> waiting t \<noteq> [] \<longrightarrow> fst r \<noteq> [])"
proof (cases t)
  case Plain
  with assms(2) have "r = fst (rd n k)" by (auto simp: tran_Read_def split_beta Let_def)
  with assms(1) [of n k] Plain show ?thesis by simp
next
  case (Buffered b)
  with assms(2) have "r = fst (bufio_Read rd n (b, k))" by (auto simp: tran_Read_def split_beta Let_def)
  with assms(1) [of n k] Buffered show ?thesis by (auto simp: bufio_Read_def split_beta Let_def)
qed

lemma BufferedTransport_once: "BufferedTransport (BufferedTransport t n) m = BufferedTransport t n"
  by (cases t) (simp_all add: BufferedTransport_def)

text \<open>After a write, the buffers hold exactly the bytes that were not sent.\<close>

lemma consume_rest: "concat (consume vs n) = drop n (concat vs)"
  by (induction vs arbitrary: n) auto

lemma Writev_rest:
  "tcp_Writev write bufs k = ((n, ok), rest, k1) \<Longrightarrow> n \<le> length (concat bufs) \<Longrightarrow> take n (concat bufs) @ concat rest = concat bufs"
  by (auto simp: tcp_Writev_def consume_rest split_beta Let_def)

end
