(* ===== verification/Tray_Icon.thy ===== *)
theory Tray_Icon
  imports VPrelude
begin

text \<open>
  The icon in the notification area, \<open>tray-icon.go\<close>, and the start of it in \<open>startup\<close> of \<open>wails-app.go\<close>. The calls into the window system
  are effects in a trace; its messages are the input of the message loop. A text is the list of its code points.
\<close>

section \<open>Data\<close>

text \<open>\<open>windows.StringToUTF16\<close>: the code units and a terminating zero; a text with a zero in it makes it panic.\<close>

definition utf16_rune :: "nat \<Rightarrow> u16 list" where
  "utf16_rune r = (if r < 0x10000 then [of_nat r]
     else [of_nat (0xD800 + (r - 0x10000) div 0x400), of_nat (0xDC00 + (r - 0x10000) mod 0x400)])"

definition utf16_text :: "nat list \<Rightarrow> u16 list" where
  "utf16_text t = concat (map utf16_rune t)"

definition StringToUTF16 :: "nat list \<Rightarrow> u16 list go" where
  "StringToUTF16 t = (if 0 \<in> set t then Panicked StdlibPanic else Done (utf16_text t @ [0]))"

definition NIN_BALLOONUSERCLICK :: u16 where "NIN_BALLOONUSERCLICK = 0x0405"
definition WM_LBUTTONDOWN :: u16 where "WM_LBUTTONDOWN = 0x0201"
definition WM_DESTROY :: u32 where "WM_DESTROY = 0x0002"
definition TrayIconMsg :: u32 where "TrayIconMsg = 0x8001"

datatype notify_flag = NIF_MESSAGE | NIF_ICON | NIF_TIP | NIF_INFO | NIF_GUID

record NOTIFYICONDATA =
  nd_UFlags :: "notify_flag list"
  nd_HWnd :: nat
  nd_GuidItem :: bytes
  nd_HIcon :: nat
  nd_UCallbackMessage :: u32
  nd_SzTip :: "u16 list"
  nd_SzInfo :: "u16 list"
  nd_SzInfoTitle :: "u16 list"

datatype notify_message = NIM_ADD | NIM_MODIFY | NIM_DELETE

text \<open>\<open>'f\<close> names the functions a callback can be set to.\<close>

datatype 'f tray_effect = Shell_NotifyIcon notify_message NOTIFYICONDATA | Called 'f | PostQuitMessage | HideWindow | DefWindowProc u32

record 'f TrayIcon =
  ti_hwnd :: nat
  ti_guid :: bytes
  ti_BalloonClickFunc :: "'f option"
  ti_TrayClickFunc :: "'f option"

section \<open>Operations\<close>

text \<open>\<open>NewTrayIcon\<close> with the random bytes of \<open>newGUID\<close>; both callbacks are nil.\<close>

definition NewTrayIcon :: "bytes \<Rightarrow> 'f TrayIcon" where
  "NewTrayIcon guid = \<lparr>ti_hwnd = 0, ti_guid = guid, ti_BalloonClickFunc = None, ti_TrayClickFunc = None\<rparr>"

definition call_back :: "'f option \<Rightarrow> 'f tray_effect list go" where
  "call_back cb = (case cb of None \<Rightarrow> Panicked NilDeref | Some g \<Rightarrow> Done [Called g])"

definition wndProc :: "'f TrayIcon \<Rightarrow> u32 \<Rightarrow> u64 \<Rightarrow> 'f tray_effect list go" where
  "wndProc ti msg lParam =
     (if msg = TrayIconMsg then
        (let nmsg = ucast (ucast lParam :: u32) :: u16 in
         if nmsg = NIN_BALLOONUSERCLICK then call_back (ti_BalloonClickFunc ti)
         else if nmsg = WM_LBUTTONDOWN then call_back (ti_TrayClickFunc ti)
         else Done [])
      else if msg = WM_DESTROY then Done [PostQuitMessage]
      else Done [DefWindowProc msg])"

definition initData :: "'f TrayIcon \<Rightarrow> NOTIFYICONDATA" where
  "initData ti = \<lparr>nd_UFlags = [NIF_GUID], nd_HWnd = ti_hwnd ti, nd_GuidItem = ti_guid ti, nd_HIcon = 0, nd_UCallbackMessage = 0,
     nd_SzTip = replicate 128 0, nd_SzInfo = replicate 256 0, nd_SzInfoTitle = replicate 64 0\<rparr>"

definition Dispose :: "'f TrayIcon \<Rightarrow> 'f tray_effect list" where
  "Dispose ti = [Shell_NotifyIcon NIM_DELETE (initData ti)]"

definition SetIcon :: "'f TrayIcon \<Rightarrow> nat \<Rightarrow> 'f tray_effect list" where
  "SetIcon ti icon = [Shell_NotifyIcon NIM_MODIFY ((initData ti)\<lparr>nd_UFlags := [NIF_GUID, NIF_ICON], nd_HIcon := icon\<rparr>)]"

definition SetTooltip :: "'f TrayIcon \<Rightarrow> nat list \<Rightarrow> 'f tray_effect list go" where
  "SetTooltip ti tooltip = go_map (\<lambda>w.
     [Shell_NotifyIcon NIM_MODIFY ((initData ti)\<lparr>nd_UFlags := [NIF_GUID, NIF_TIP], nd_SzTip := go_copy (replicate 128 0) 0 w\<rparr>)])
     (StringToUTF16 tooltip)"

definition ShowBalloonNotification :: "'f TrayIcon \<Rightarrow> nat list \<Rightarrow> nat list \<Rightarrow> 'f tray_effect list go" where
  "ShowBalloonNotification ti title msg =
     (let data = (initData ti)\<lparr>nd_UFlags := [NIF_GUID, NIF_INFO]\<rparr> in
      go_bind (if title = [] then Done data
               else go_map (\<lambda>w. data\<lparr>nd_SzInfoTitle := go_copy (nd_SzInfoTitle data) 0 w\<rparr>) (StringToUTF16 title)) (\<lambda>d1.
      go_map (\<lambda>w. [Shell_NotifyIcon NIM_MODIFY (d1\<lparr>nd_SzInfo := go_copy (nd_SzInfo d1) 0 w\<rparr>)]) (StringToUTF16 msg)))"

text \<open>A round of the loop: \<open>Sent\<close> is a message handed to the window procedure inside \<open>GetMessage\<close>, \<open>Got r\<close> a return of \<open>GetMessage\<close>
  with the message that \<open>msg\<close> holds afterwards. The result is the effects and whether the loop has ended.\<close>

datatype tray_event = Sent u32 u64 | Got int u32 u64

fun tray_loop :: "'f TrayIcon \<Rightarrow> tray_event list \<Rightarrow> ('f tray_effect list \<times> bool) go" where
  "tray_loop ti [] = Done ([], False)"
| "tray_loop ti (Sent msg lParam # es) = go_bind (wndProc ti msg lParam) (\<lambda>a. go_map (\<lambda>(b, q). (a @ b, q)) (tray_loop ti es))"
| "tray_loop ti (Got r msg lParam # es) =
     (if r = 0 then Done (Dispose ti, True)
      else go_bind (wndProc ti msg lParam) (\<lambda>a. go_map (\<lambda>(b, q). (a @ b, q)) (tray_loop ti es)))"

text \<open>The tooltip is a text of eight characters of the basic plane.\<close>

definition tray_tooltip :: "nat list" where
  "tray_tooltip = [0x865A, 0x62DF, 0x5C40, 0x57DF, 0x7F51, 0x5BA2, 0x6237, 0x7AEF]"

definition RunTray :: "nat \<Rightarrow> nat \<Rightarrow> 'f TrayIcon \<Rightarrow> tray_event list \<Rightarrow> ('f tray_effect list \<times> bool) go" where
  "RunTray hwnd icon ti0 es =
     (let ti = ti0\<lparr>ti_hwnd := hwnd\<rparr>;
          data = (initData ti)\<lparr>nd_UFlags := [NIF_GUID, NIF_MESSAGE], nd_UCallbackMessage := TrayIconMsg\<rparr> in
      go_bind (SetTooltip ti tray_tooltip) (\<lambda>tip.
      go_map (\<lambda>(b, q). (Shell_NotifyIcon NIM_ADD data # SetIcon ti icon @ tip @ HideWindow # b, q)) (tray_loop ti es)))"

text \<open>\<open>startup\<close>: both clicks show the window.\<close>

datatype window_call = ShowWindow

definition startup_tray :: "bytes \<Rightarrow> window_call TrayIcon" where
  "startup_tray guid = (NewTrayIcon guid)\<lparr>ti_BalloonClickFunc := Some ShowWindow, ti_TrayClickFunc := Some ShowWindow\<rparr>"

text \<open>\<open>mutex\<close>: no other instance of the program runs; \<open>None\<close>: the program exits.\<close>

definition startup :: "bool \<Rightarrow> bytes \<Rightarrow> window_call TrayIcon option" where
  "startup mutex guid = (if \<not> mutex then None else Some (startup_tray guid))"

section \<open>Life of the icon\<close>

fun shell_calls :: "'f tray_effect list \<Rightarrow> (notify_message \<times> NOTIFYICONDATA) list" where
  "shell_calls [] = []"
| "shell_calls (Shell_NotifyIcon m d # es) = (m, d) # shell_calls es"
| "shell_calls (e # es) = shell_calls es"

lemma shell_calls_append [simp]: "shell_calls (a @ b) = shell_calls a @ shell_calls b"
  by (induction a rule: shell_calls.induct) simp_all

definition both_set :: "'f TrayIcon \<Rightarrow> bool" where
  "both_set ti \<longleftrightarrow> ti_BalloonClickFunc ti \<noteq> None \<and> ti_TrayClickFunc ti \<noteq> None"

lemma wndProc_quiet:
  assumes "both_set ti"
  shows "\<exists>a. wndProc ti msg l = Done a \<and> shell_calls a = []"
  using assms by (auto simp: wndProc_def both_set_def call_back_def Let_def)

lemma tray_loop_calls:
  assumes "both_set ti"
  shows "\<exists>a q. tray_loop ti es = Done (a, q) \<and> shell_calls a = (if q then shell_calls (Dispose ti) else [])
    \<and> q = (\<exists>e\<in>set es. case e of Got r _ _ \<Rightarrow> r = 0 | _ \<Rightarrow> False)"
proof (induction es)
  case (Cons e es)
  then obtain b q where b: "tray_loop ti es = Done (b, q)" "shell_calls b = (if q then shell_calls (Dispose ti) else [])"
    "q = (\<exists>e\<in>set es. case e of Got r _ _ \<Rightarrow> r = 0 | _ \<Rightarrow> False)" by blast
  show ?case
  proof (cases e)
    case (Sent msg l)
    obtain a where "wndProc ti msg l = Done a" "shell_calls a = []" using wndProc_quiet [OF assms] by blast
    with b Sent show ?thesis by simp
  next
    case (Got r msg l)
    obtain a where "wndProc ti msg l = Done a" "shell_calls a = []" using wndProc_quiet [OF assms] by blast
    with b Got show ?thesis by simp
  qed
qed (simp, blast)

text \<open>The icon of the program: the message loop never panics; the icon is added once, first, with the message its clicks are reported by;
  every later call names the same window and identifier, and the icon is removed once, last, when \<open>GetMessage\<close> reports the end.\<close>

lemma tray_icon_life:
  assumes "startup mutex guid = Some ti"
  shows "\<exists>a q. RunTray hwnd icon ti es = Done (a, q) \<and>
    map fst (shell_calls a) = [NIM_ADD, NIM_MODIFY, NIM_MODIFY] @ (if q then [NIM_DELETE] else []) \<and>
    (\<forall>(m, d)\<in>set (shell_calls a). nd_HWnd d = hwnd \<and> nd_GuidItem d = guid \<and> length (nd_SzTip d) = 128) \<and>
    q = (\<exists>e\<in>set es. case e of Got r _ _ \<Rightarrow> r = 0 | _ \<Rightarrow> False)"
proof -
  define tw where "tw = ti\<lparr>ti_hwnd := hwnd\<rparr>"
  have tw: "both_set tw" "ti_hwnd tw = hwnd" "ti_guid tw = guid"
    using assms by (auto simp: startup_def tw_def both_set_def startup_tray_def NewTrayIcon_def split: if_splits)
  obtain a q where "tray_loop tw es = Done (a, q)" "shell_calls a = (if q then shell_calls (Dispose tw) else [])"
    "q = (\<exists>e\<in>set es. case e of Got r _ _ \<Rightarrow> r = 0 | _ \<Rightarrow> False)" using tray_loop_calls [OF tw(1)] by blast
  then show ?thesis using tw(2, 3)
    by (simp add: RunTray_def tw_def [symmetric] Let_def SetTooltip_def StringToUTF16_def tray_tooltip_def SetIcon_def Dispose_def
        initData_def)
qed

text \<open>A click on the icon or its notification shows the window; without callbacks it would panic.\<close>

lemma click_shows:
  "wndProc (startup_tray guid) TrayIconMsg 0x0201 = Done [Called ShowWindow]"
  "wndProc (startup_tray guid) TrayIconMsg 0x0405 = Done [Called ShowWindow]"
  "wndProc (NewTrayIcon guid) TrayIconMsg 0x0201 = Panicked NilDeref"
  by (simp_all add: wndProc_def startup_tray_def NewTrayIcon_def NIN_BALLOONUSERCLICK_def WM_LBUTTONDOWN_def call_back_def)

text \<open>An error of \<open>GetMessage\<close>, its result -1, does not end the loop: the message that \<open>msg\<close> still holds is dispatched again.\<close>

lemma error_dispatches_again:
  "tray_loop (startup_tray guid) (replicate n (Got (- 1) TrayIconMsg 0x0201)) = Done (replicate n (Called ShowWindow), False)"
  by (induction n) (simp_all add: click_shows)

section \<open>Texts\<close>

text \<open>A text that fits its field is there with its terminating zero.\<close>

lemma copied_text:
  assumes "length (utf16_text t) < n"
  shows "go_copy (replicate n 0) 0 (utf16_text t @ [0]) = utf16_text t @ replicate (n - length (utf16_text t)) 0"
proof -
  obtain k where "n - length (utf16_text t) = Suc k" using assms by (metis Suc_diff_Suc)
  moreover from this have "n = length (utf16_text t) + Suc k" by simp
  ultimately show ?thesis by (simp add: go_copy_def replicate_app_Cons_same)
qed

lemma rune_nonzero: "0 < r \<Longrightarrow> r < 0x110000 \<Longrightarrow> 0 \<notin> set (utf16_rune r)"
proof -
  assume r: "0 < r" "r < 0x110000"
  have nz: "of_nat k \<noteq> (0 :: u16)" if "0 < k" "k < 0x10000" for k :: nat
  proof
    assume "of_nat k = (0 :: u16)"
    then have "unat (of_nat k :: u16) = 0" by simp
    with that show False by (simp add: unat_of_nat)
  qed
  have "(r - 0x10000) div 0x400 < 0x400" using r by (simp add: less_mult_imp_div_less)
  moreover have "(r - 0x10000) mod 0x400 < 0x400" by simp
  ultimately show ?thesis using r nz [of r] nz [of "0xD800 + (r - 0x10000) div 0x400"] nz [of "0xDC00 + (r - 0x10000) mod 0x400"]
    by (simp only: utf16_rune_def split: if_split) (force simp del: of_nat_add)
qed

text \<open>A longer text fills its field without a terminating zero, which the shell expects.\<close>

lemma long_notification_unterminated:
  assumes "\<forall>r\<in>set t. 0 < r \<and> r < 0x110000" "256 \<le> length (utf16_text t)"
  shows "\<exists>d. ShowBalloonNotification ti [] t = Done [Shell_NotifyIcon NIM_MODIFY d] \<and> 0 \<notin> set (nd_SzInfo d)"
proof -
  have "0 \<notin> set (utf16_text t)" using assms(1) rune_nonzero by (fastforce simp: utf16_text_def)
  then have "0 \<notin> set (take 256 (utf16_text t))" by (meson in_set_takeD)
  moreover have "go_copy (replicate 256 0) 0 (utf16_text t @ [0]) = take 256 (utf16_text t)"
    using assms(2) by (simp add: go_copy_def)
  ultimately show ?thesis using assms(1)
    by (auto simp: ShowBalloonNotification_def StringToUTF16_def initData_def Let_def)
qed

end
