(* ===== verification/Wifi_Link.thy ===== *)
theory Wifi_Link
  imports Wifi Runtime_Service
begin

text \<open>
  The quality of a wireless link that the peer reports: \<open>getWiFiQuality\<close> of \<open>service/runtime_service.go\<close> on top of the client of
  \<open>sys/wifi\<close>, and what \<open>updateLinkInfo\<close> stores of it.
\<close>

section \<open>The query\<close>

text \<open>The signal is an \<open>int\<close>, so the constant \<open>90.0\<close> is one too and the division is that of integers, towards zero; the comparison
  \<open>val < 0\<close> of the unsigned result is never true.\<close>

definition quot90 :: "int \<Rightarrow> int" where
  "quot90 x = (if x < 0 then - ((- x) div 90) else x div 90)"

definition signal_quality :: "u64 \<Rightarrow> u32" where
  "signal_quality signal =
     (let val = ucast (word_of_int (quot90 (sint (signal + 120))) * 100 :: u64) :: u32 in if 100 < val then 100 else val)"

datatype quality_error = NoClient | QueryFailed wifi_error

text \<open>The result: whether a socket stays open, the quality and the error.\<close>

definition getWiFiQuality :: "netlink \<Rightarrow> bool \<Rightarrow> (u16 \<times> u8) option \<Rightarrow> bytes \<Rightarrow> (bool \<times> u32 \<times> quality_error option) go" where
  "getWiFiQuality nl dialled family face =
     (let (opened, w) = newClient dialled family in
      case w of
        None \<Rightarrow> Done (opened, 101, Some NoClient)
      | Some c \<Rightarrow>
          go_bind (Interfaces nl c) (\<lambda>r.
            let iFaces = (case r of Inl _ \<Rightarrow> [] | Inr ifs \<Rightarrow> ifs) in
            case filter (\<lambda>i. if_Name i = face) iFaces of
              [] \<Rightarrow> Done (opened, 101, None)
            | iFace # _ \<Rightarrow>
                go_bind (wifi_StationInfo nl c iFace) (\<lambda>s. case s of
                    Inl e \<Rightarrow> Done (opened, 88, Some (QueryFailed e))
                  | Inr infos \<Rightarrow> go_map (\<lambda>i. (opened, signal_quality (si_Signal i), None)) (go_nth infos 0))))"

section \<open>What is reported\<close>

lemma signal_quality_values:
  "signal_quality (scast (v :: u8)) = (if - 30 \<le> sint v then 100 else 0)"
proof -
  have r: "- 128 \<le> sint v" "sint v < 128" using sint_greater_eq [of v] sint_lt [of v] by simp_all
  have i: "sint (word_of_int x :: u64) = x" if "- 128 \<le> x" "x < 512" for x :: int
    using that by (simp only: int_word_sint) (simp add: mod_pos_pos_trivial)
  have "scast v + 120 = (word_of_int (sint v + 120) :: u64)" by simp
  then have s: "sint (scast v + 120 :: u64) = sint v + 120" using i [of "sint v + 120"] r by (simp only:)
  consider "sint v + 120 < 0" | "0 \<le> sint v + 120" "sint v + 120 < 90" | "90 \<le> sint v + 120" "sint v + 120 < 180" | "180 \<le> sint v + 120"
    by linarith
  then show ?thesis
  proof cases
    case 1
    then have "(- (sint v + 120)) div 90 = 0" using r by (intro div_pos_pos_trivial) auto
    with 1 s show ?thesis by (simp add: signal_quality_def quot90_def)
  next
    case 2
    then have "(sint v + 120) div 90 = 0" by (intro div_pos_pos_trivial) auto
    with 2 s show ?thesis by (simp add: signal_quality_def quot90_def)
  next
    case 3
    then have "(sint v + 120) div 90 = 1" by (simp add: int_div_pos_eq [of _ 90 1 "sint v + 30"])
    with 3 s show ?thesis by (simp add: signal_quality_def quot90_def)
  next
    case 4
    then have "(sint v + 120) div 90 = 2" using r by (simp add: int_div_pos_eq [of _ 90 2 "sint v - 60"])
    with 4 s show ?thesis by (simp add: signal_quality_def quot90_def)
  qed
qed

text \<open>Any signal from -30 to -120 dBm but the strongest is reported as 0.\<close>

lemma weak_and_strong_alike: "signal_quality (- 31) = 0" "signal_quality (- 110) = 0" "signal_quality (- 30) = 100"
  by (simp_all add: signal_quality_def quot90_def)

text \<open>A signal that was read from the kernel is one signed byte.\<close>

definition byte_signal :: "StationInfo \<Rightarrow> bool" where
  "byte_signal i \<longleftrightarrow> (\<exists>v :: u8. si_Signal i = scast v)"

lemma byte_signal_fields [simp]:
  "byte_signal zero_StationInfo" "byte_signal (i\<lparr>si_Signal := scast (v :: u8)\<rparr>)" "byte_signal (i\<lparr>si_HardwareAddr := h\<rparr>) = byte_signal i"
  "byte_signal (i\<lparr>si_ReceivedBytes := x\<rparr>) = byte_signal i" "byte_signal (i\<lparr>si_TransmittedBytes := x\<rparr>) = byte_signal i"
proof -
  show "byte_signal zero_StationInfo" unfolding byte_signal_def zero_StationInfo_def by (intro exI [of _ 0]) simp
qed (auto simp: byte_signal_def)

lemma wfold_inv:
  assumes "\<And>x s s'. f x s = Done (Inr s') \<Longrightarrow> P s \<Longrightarrow> P s'" "wfold f xs s = Done (Inr t)" "P s"
  shows "P t"
  using assms(2, 3) by (induction xs arbitrary: s) (auto simp: wifi_ok dest: assms(1))

lemma station_switch_signal: "station_switch nl a i = Done (Inr j) \<Longrightarrow> byte_signal i \<Longrightarrow> byte_signal j"
  by (auto simp: station_switch_def wifi_ok byte_signal_def split: if_splits)

lemma station_attribute_signal:
  assumes "station_attribute nl a i = Done (Inr j)" "byte_signal i"
  shows "byte_signal j"
proof -
  obtain i1 where i1: "station_switch nl a i = Done (Inr i1)" using assms(1) by (auto simp: station_attribute_def wbind_ok)
  from station_switch_signal [OF i1 assms(2)] assms(1) i1 show ?thesis
    by (auto simp: station_attribute_def wifi_ok split: if_splits)
qed

lemma station_loop_signal:
  "station_loop nl attrs i = Done (Inr j) \<Longrightarrow> byte_signal i \<Longrightarrow> byte_signal j"
proof (induction attrs arbitrary: i)
  case (Cons a attrs)
  then show ?case
    using wfold_inv [of "station_attribute nl" byte_signal, OF station_attribute_signal]
    by (auto simp: wifi_ok station_parseAttributes_def split: if_splits)
qed (simp add: wfail_def)

lemma stations_signal:
  assumes "wifi_StationInfo nl c ifi = Done (Inr infos)"
  shows "infos \<noteq> [] \<and> (\<forall>i\<in>set infos. byte_signal i)"
proof -
  obtain msgs where m: "msgs \<noteq> []" "wfold (\<lambda>m stations. wmap (\<lambda>st. stations @ [st]) (parseStationInfo nl m)) msgs [] = Done (Inr infos)"
    using assms by (auto simp: wifi_StationInfo_def wifi_ok wfail_def split: if_splits)
  then obtain m1 ms st where "msgs = m1 # ms" "parseStationInfo nl m1 = Done (Inr st)"
    "wfold (\<lambda>m stations. wmap (\<lambda>st. stations @ [st]) (parseStationInfo nl m)) ms [st] = Done (Inr infos)"
    by (cases msgs) (auto simp: wifi_ok)
  moreover have "byte_signal st" if "parseStationInfo nl m = Done (Inr st)" for m st
    using that station_loop_signal by (auto simp: parseStationInfo_def wifi_ok)
  ultimately show ?thesis
    by (intro wfold_inv [of "\<lambda>m stations. wmap (\<lambda>st. stations @ [st]) (parseStationInfo nl m)"
        "\<lambda>is. is \<noteq> [] \<and> (\<forall>i\<in>set is. byte_signal i)" ms "[st]" infos]) (auto simp: wifi_ok)
qed

text \<open>The quality is one of four numbers: 101 when there is no client or no such interface, 88 when the station cannot be asked, and
  otherwise 0 or 100, whatever the strength in between; the socket of the query is never closed.\<close>

lemma wifi_quality_values:
  assumes "getWiFiQuality nl dialled family face = Done (opened, q, e)"
  shows "q \<in> {0, 88, 100, 101} \<and> (e = None \<longrightarrow> q \<noteq> 88) \<and> opened = (dialled \<and> family \<noteq> None)"
proof -
  have "signal_quality (si_Signal i) \<in> {0, 100}" if "byte_signal i" for i
    using that signal_quality_values by (auto simp: byte_signal_def)
  moreover have "go_nth infos 0 = Done i \<Longrightarrow> i \<in> set infos" for infos :: "StationInfo list" and i
    by (auto simp: go_nth_def split: if_splits)
  ultimately have "signal_quality (si_Signal i) \<in> {0, 100}"
    if "wifi_StationInfo nl c f = Done (Inr infos)" "go_nth infos 0 = Done i" for c f infos i
    using stations_signal [OF that(1)] that(2) by blast
  note vals = this
  show ?thesis
  proof (cases "dialled \<and> family \<noteq> None")
    case False
    then have "newClient dialled family = (False, None)"
      by (cases family) (auto simp: newClient_def initClient_def)
    then show ?thesis using assms False by (auto simp: getWiFiQuality_def)
  next
    case True
    then obtain c where c: "newClient dialled family = (True, Some c)" by (auto simp: newClient_def initClient_def)
    then obtain ifs where r: "(case filter (\<lambda>i. if_Name i = face) ifs of [] \<Rightarrow> Done (True, 101, None)
        | iFace # _ \<Rightarrow> go_bind (wifi_StationInfo nl c iFace) (\<lambda>s. case s of
            Inl e \<Rightarrow> Done (True, 88, Some (QueryFailed e))
          | Inr infos \<Rightarrow> go_map (\<lambda>i. (True, signal_quality (si_Signal i), None)) (go_nth infos 0))) = Done (opened, q, e)"
      using assms by (auto simp: getWiFiQuality_def go_bind_Done_iff Let_def)
    show ?thesis
    proof (cases "filter (\<lambda>i. if_Name i = face) ifs")
      case Nil
      then show ?thesis using r True by auto
    next
      case (Cons f fs)
      then obtain s where s: "wifi_StationInfo nl c f = Done s" using r by (auto simp: go_bind_Done_iff)
      show ?thesis
      proof (cases s)
        case (Inl x)
        then show ?thesis using r Cons s True by auto
      next
        case (Inr infos)
        then show ?thesis using r Cons s True vals [of c f infos] by (auto simp: go_map_Done_iff)
      qed
    qed
  qed
qed

text \<open>So is what \<open>updateLinkInfo\<close> stores, when the answer is that of the query.\<close>

lemma link_quality_values:
  assumes "\<And>face. \<exists>nl dialled family opened e. getWiFiQuality nl dialled family (map of_char face) = Done (opened, ne_wifi env face, e)"
  shows "rt_linkQuality (runtime (updateLinkInfo env ip a)) \<in> {0, 88, 100, 101}"
proof -
  have "ne_wifi env face \<in> {0, 88, 100, 101}" for face using assms [of face] wifi_quality_values by blast
  then show ?thesis by (auto simp: updateLinkInfo_def upd_rt_def Let_def split: option.splits LinkMode.splits)
qed

end
